(* ===== verification/Prelude.thy ===== *)
theory Prelude
  imports Main "HOL-Library.Word"
begin

text \<open>
  The shared vocabulary of the development: C strings and the part of the C library that
  \<^verbatim>\<open>conversd\<close> calls, together with the generic lemmas the component theories rely on.

  A C string is a \<^typ>\<open>string\<close>, the bytes before the terminating NUL. The character class and
  case functions are those of the \<open>C\<close> locale (the daemon never calls
  \<^verbatim>\<open>setlocale\<close>): only ASCII letters, digits and blanks are classified, every byte from 128
  on is in no class. The fixed-size \<^verbatim>\<open>strncpy(d, s, n); d[n] = 0\<close> idiom of the
  source is \<^term>\<open>take n s\<close>.
\<close>

named_theorems cstring \<comment> \<open>equations of the C string functions\<close>
named_theorems inv_intros \<comment> \<open>preservation of component invariants\<close>
named_theorems frame \<comment> \<open>fields an operation leaves alone\<close>

type_synonym byte = "8 word"

section \<open>Characters\<close>

abbreviation ccode :: "char \<Rightarrow> nat" where
  "ccode c \<equiv> of_char c"

definition isspace :: "char \<Rightarrow> bool" where
  "isspace c \<longleftrightarrow> ccode c = 32 \<or> (9 \<le> ccode c \<and> ccode c \<le> 13)"

definition isdigit :: "char \<Rightarrow> bool" where
  "isdigit c \<longleftrightarrow> 48 \<le> ccode c \<and> ccode c \<le> 57"

definition isupper :: "char \<Rightarrow> bool" where
  "isupper c \<longleftrightarrow> 65 \<le> ccode c \<and> ccode c \<le> 90"

definition islower :: "char \<Rightarrow> bool" where
  "islower c \<longleftrightarrow> 97 \<le> ccode c \<and> ccode c \<le> 122"

definition isalpha :: "char \<Rightarrow> bool" where
  "isalpha c \<longleftrightarrow> isupper c \<or> islower c"

definition isalnum :: "char \<Rightarrow> bool" where
  "isalnum c \<longleftrightarrow> isalpha c \<or> isdigit c"

definition toupper :: "char \<Rightarrow> char" where
  "toupper c = (if islower c then char_of (ccode c - 32) else c)"

definition tolower :: "char \<Rightarrow> char" where
  "tolower c = (if isupper c then char_of (ccode c + 32) else c)"

lemmas ctype_defs =
  isspace_def isdigit_def isupper_def islower_def isalpha_def isalnum_def toupper_def tolower_def

lemma tolower_toupper [simp]: "tolower (toupper c) = tolower c"
  by (auto simp: ctype_defs)

lemma tolower_tolower [simp]: "tolower (tolower c) = tolower c"
  by (auto simp: ctype_defs)

lemma toupper_tolower [simp]: "toupper (tolower c) = toupper c"
  by (auto simp: ctype_defs)

lemma toupper_toupper [simp]: "toupper (toupper c) = toupper c"
  by (auto simp: ctype_defs)

lemma isspace_tolower [simp]: "isspace (tolower c) = isspace c"
  by (auto simp: ctype_defs)

lemma isspace_toupper [simp]: "isspace (toupper c) = isspace c"
  by (auto simp: ctype_defs)

lemma isdigit_tolower [simp]: "isdigit (tolower c) = isdigit c"
  by (auto simp: ctype_defs)

lemma isalnum_toupper [simp]: "isalnum (toupper c) = isalnum c"
  by (auto simp: ctype_defs)

lemma isalpha_toupper [simp]: "isalpha (toupper c) = isalpha c"
  by (auto simp: ctype_defs)

lemma isdigit_toupper [simp]: "isdigit (toupper c) = isdigit c"
  by (auto simp: ctype_defs)

lemma isdigit_not_isspace: "isdigit c \<Longrightarrow> \<not> isspace c"
  by (auto simp: ctype_defs)

lemma isalnum_not_isspace: "isalnum c \<Longrightarrow> \<not> isspace c"
  by (auto simp: ctype_defs)

section \<open>Strings\<close>

definition strlwr :: "string \<Rightarrow> string" where
  "strlwr s = map tolower s"

definition strupr :: "string \<Rightarrow> string" where
  "strupr s = map toupper s"

text \<open>The sign of \<^verbatim>\<open>strcasecmp\<close>: bytes compared as unsigned after \<^const>\<open>tolower\<close>,
  the end of the string below every byte.\<close>

fun strcasecmp :: "string \<Rightarrow> string \<Rightarrow> int" where
  "strcasecmp [] [] = 0"
| "strcasecmp [] (_ # _) = -1"
| "strcasecmp (_ # _) [] = 1"
| "strcasecmp (a # s) (b # t) =
     (if tolower a = tolower b then strcasecmp s t
      else if ccode (tolower a) < ccode (tolower b) then -1 else 1)"

abbreviation strcaseeq :: "string \<Rightarrow> string \<Rightarrow> bool" where
  "strcaseeq s t \<equiv> strcasecmp s t = 0"

lemma strcaseeq_strlwr [cstring]: "strcaseeq s t \<longleftrightarrow> strlwr s = strlwr t"
  by (induction s t rule: strcasecmp.induct) (auto simp: strlwr_def)

lemma strcasecmp_refl [simp]: "strcasecmp s s = 0"
  by (simp add: strcaseeq_strlwr)

lemma strcaseeq_sym: "strcaseeq s t \<longleftrightarrow> strcaseeq t s"
  by (auto simp: strcaseeq_strlwr)

lemma strcaseeq_trans: "strcaseeq s t \<Longrightarrow> strcaseeq t u \<Longrightarrow> strcaseeq s u"
  by (simp add: strcaseeq_strlwr)

lemma strcasecmp_antisym: "strcasecmp t s = - strcasecmp s t"
  by (induction s t rule: strcasecmp.induct) auto

lemma strcasecmp_less_trans:
  "strcasecmp s t < 0 \<Longrightarrow> strcasecmp t u < 0 \<Longrightarrow> strcasecmp s u < 0"
proof (induction s t arbitrary: u rule: strcasecmp.induct)
  case (2 b t)
  then show ?case by (cases u) auto
next
  case (4 a s b t)
  then show ?case by (cases u) (auto split: if_splits)
qed auto

lemma strcasecmp_eq_less_trans:
  "strcaseeq s t \<Longrightarrow> strcasecmp t u < 0 \<Longrightarrow> strcasecmp s u < 0"
proof (induction s t arbitrary: u rule: strcasecmp.induct)
  case (4 a s b t)
  then show ?case by (cases u) (auto split: if_splits)
qed auto

text \<open>The sign of \<^verbatim>\<open>strcmp\<close>, and the order of C strings it gives.\<close>

fun strcmp :: "string \<Rightarrow> string \<Rightarrow> int" where
  "strcmp [] [] = 0"
| "strcmp [] (_ # _) = -1"
| "strcmp (_ # _) [] = 1"
| "strcmp (a # s) (b # t) = (if a = b then strcmp s t else if ccode a < ccode b then -1 else 1)"

lemma strcmp_refl [simp]: "strcmp s s = 0"
  by (induction s) auto

lemma strcmp_eq: "strcmp s t = 0 \<longleftrightarrow> s = t"
  by (induction s t rule: strcmp.induct) auto

lemma strcmp_antisym: "strcmp t s = - strcmp s t"
  by (induction s t rule: strcmp.induct) auto

lemma strcmp_less_trans: "strcmp s t < 0 \<Longrightarrow> strcmp t u < 0 \<Longrightarrow> strcmp s u < 0"
proof (induction s t arbitrary: u rule: strcmp.induct)
  case (2 b t)
  then show ?case by (cases u) auto
next
  case (4 a s b t)
  then show ?case by (cases u) (auto split: if_splits)
qed auto

lemma strlwr_idem [simp]: "strlwr (strlwr s) = strlwr s"
  by (simp add: strlwr_def)

lemma strlwr_strupr [simp]: "strlwr (strupr s) = strlwr s"
  by (simp add: strlwr_def strupr_def)

lemma length_strlwr [simp]: "length (strlwr s) = length s"
  by (simp add: strlwr_def)

lemma length_strupr [simp]: "length (strupr s) = length s"
  by (simp add: strupr_def)

lemma strlwr_append: "strlwr (s @ t) = strlwr s @ strlwr t"
  by (simp add: strlwr_def)

text \<open>\<^verbatim>\<open>strncmp(s, t, n) == 0\<close> and \<^verbatim>\<open>strncasecmp(s, t, n) == 0\<close>.\<close>

definition strneq :: "string \<Rightarrow> string \<Rightarrow> nat \<Rightarrow> bool" where
  "strneq s t n \<longleftrightarrow> take n s = take n t"

definition strncaseeq :: "string \<Rightarrow> string \<Rightarrow> nat \<Rightarrow> bool" where
  "strncaseeq s t n \<longleftrightarrow> take n (strlwr s) = take n (strlwr t)"

text \<open>\<^verbatim>\<open>strchr\<close> and \<^verbatim>\<open>strpbrk\<close> return the rest of the string from the found
  character on, the pointer the C functions return.\<close>

fun strpbrk :: "string \<Rightarrow> string \<Rightarrow> string option" where
  "strpbrk [] cs = None"
| "strpbrk (c # s) cs = (if c \<in> set cs then Some (c # s) else strpbrk s cs)"

definition strchr :: "string \<Rightarrow> char \<Rightarrow> string option" where
  "strchr s c = strpbrk s [c]"

text \<open>The text before the found character, what remains when it is overwritten by NUL.\<close>

fun before :: "string \<Rightarrow> string \<Rightarrow> string" where
  "before [] cs = []"
| "before (c # s) cs = (if c \<in> set cs then [] else c # before s cs)"

lemma before_takeWhile [cstring]: "before s cs = takeWhile (\<lambda>c. c \<notin> set cs) s"
  by (induction s) auto

lemma strpbrk_dropWhile [cstring]:
  "strpbrk s cs = (case dropWhile (\<lambda>c. c \<notin> set cs) s of [] \<Rightarrow> None | c # t \<Rightarrow> Some (c # t))"
  by (induction s) auto

lemma strpbrk_SomeD: "strpbrk s cs = Some t \<Longrightarrow> s = before s cs @ t"
  by (induction s) (auto split: if_splits)

lemma strpbrk_None_iff: "strpbrk s cs = None \<longleftrightarrow> set s \<inter> set cs = {}"
  by (induction s) auto

lemma before_id: "strpbrk s cs = None \<Longrightarrow> before s cs = s"
  by (induction s) (auto split: if_splits)

lemma set_before: "set (before s cs) \<subseteq> set s - set cs"
  by (induction s) auto

fun is_prefix :: "string \<Rightarrow> string \<Rightarrow> bool" where
  "is_prefix [] s = True"
| "is_prefix (_ # _) [] = False"
| "is_prefix (a # p) (b # s) = (a = b \<and> is_prefix p s)"

text \<open>\<^verbatim>\<open>strstr(s, p) != NULL\<close>.\<close>

fun strstr :: "string \<Rightarrow> string \<Rightarrow> bool" where
  "strstr [] p = (p = [])"
| "strstr (c # s) p = (is_prefix p (c # s) \<or> strstr s p)"

lemma is_prefix_append [cstring]: "is_prefix p s \<longleftrightarrow> (\<exists>t. s = p @ t)"
  by (induction p s rule: is_prefix.induct) auto

lemma is_prefix_take: "is_prefix p s \<longleftrightarrow> take (length p) s = p"
  by (induction p s rule: is_prefix.induct) auto

lemma strstr_iff [cstring]: "strstr s p \<longleftrightarrow> (\<exists>u v. s = u @ p @ v)"
proof (induction s)
  case Nil
  then show ?case by auto
next
  case (Cons c s)
  show ?case
  proof
    assume "strstr (c # s) p"
    then show "\<exists>u v. c # s = u @ p @ v"
    proof (cases "is_prefix p (c # s)")
      case True
      then obtain t where "c # s = [] @ p @ t" by (auto simp: is_prefix_append)
      then show ?thesis by blast
    next
      case False
      with \<open>strstr (c # s) p\<close> Cons obtain u v where "c # s = (c # u) @ p @ v" by auto
      then show ?thesis by blast
    qed
  next
    assume "\<exists>u v. c # s = u @ p @ v"
    then obtain u v where uv: "c # s = u @ p @ v" by blast
    show "strstr (c # s) p"
    proof (cases u)
      case Nil
      then have "is_prefix p (c # s)" using uv by (auto simp: is_prefix_append)
      then show ?thesis by simp
    next
      case (Cons d u')
      then have "s = u' @ p @ v" using uv by simp
      then have "strstr s p" using Cons.IH by blast
      then show ?thesis by simp
    qed
  qed
qed

section \<open>Decimal numbers\<close>

definition digit_char :: "nat \<Rightarrow> char" where
  "digit_char d = char_of (48 + d)"

fun dec_of_nat :: "nat \<Rightarrow> string" where
  "dec_of_nat n = (if n < 10 then [digit_char n] else dec_of_nat (n div 10) @ [digit_char (n mod 10)])"

declare dec_of_nat.simps [simp del]

text \<open>\<^verbatim>\<open>printf\<close> of \<^verbatim>\<open>%d\<close> and \<^verbatim>\<open>%ld\<close>.\<close>

definition dec :: "int \<Rightarrow> string" where
  "dec i = (if i < 0 then ''-'' @ dec_of_nat (nat (- i)) else dec_of_nat (nat i))"

text \<open>\<^verbatim>\<open>%2.2d\<close>: at least two digits.\<close>

definition dec2 :: "int \<Rightarrow> string" where
  "dec2 i = (if 0 \<le> i \<and> i < 10 then ''0'' @ dec i else dec i)"

fun digits_value :: "nat \<Rightarrow> string \<Rightarrow> nat" where
  "digits_value acc [] = acc"
| "digits_value acc (c # s) = (if isdigit c then digits_value (acc * 10 + (ccode c - 48)) s else acc)"

definition strtol10 :: "string \<Rightarrow> int" where
  "strtol10 s =
     (let t = dropWhile isspace s in
      case t of
        [] \<Rightarrow> 0
      | c # u \<Rightarrow> if ccode c = 45 then - int (digits_value 0 u)
                 else if ccode c = 43 then int (digits_value 0 u)
                 else int (digits_value 0 t))"

text \<open>\<^verbatim>\<open>atol\<close> saturates at the ends of the 64-bit \<^verbatim>\<open>long\<close>, and \<^verbatim>\<open>atoi\<close> keeps
  the low 32 bits of that \<^verbatim>\<open>long\<close> as a signed number, as the C library does.\<close>

definition atol :: "string \<Rightarrow> int" where
  "atol s = max (- (2 ^ 63)) (min (2 ^ 63 - 1) (strtol10 s))"

definition atoi :: "string \<Rightarrow> int" where
  "atoi s = signed_take_bit 31 (atol s)"

lemma isdigit_digit_char: "d < 10 \<Longrightarrow> isdigit (digit_char d)"
  by (simp add: digit_char_def isdigit_def)

lemma digits_value_append:
  "list_all isdigit s \<Longrightarrow> digits_value acc (s @ t) = digits_value (digits_value acc s) t"
  by (induction s arbitrary: acc) auto

lemma list_all_dec_of_nat: "list_all isdigit (dec_of_nat n)"
proof (induction n rule: dec_of_nat.induct)
  case (1 n)
  then show ?case
    by (subst dec_of_nat.simps) (simp add: isdigit_digit_char)
qed

lemma dec_of_nat_nonempty [simp]: "dec_of_nat n \<noteq> []"
  by (subst dec_of_nat.simps) simp

lemma digits_value_dec_of_nat: "digits_value 0 (dec_of_nat n) = n"
proof (induction n rule: dec_of_nat.induct)
  case (1 n)
  show ?case
  proof (cases "n < 10")
    case True
    then show ?thesis
      by (subst dec_of_nat.simps) (simp add: isdigit_def digit_char_def)
  next
    case False
    then have "digits_value 0 (dec_of_nat (n div 10)) = n div 10" using "1.IH" by simp
    with False show ?thesis
      by (subst dec_of_nat.simps)
        (simp add: digits_value_append [OF list_all_dec_of_nat] isdigit_def digit_char_def)
  qed
qed

lemma hd_dec_of_nat: "isdigit (hd (dec_of_nat n))"
  using list_all_dec_of_nat [of n] by (cases "dec_of_nat n") auto

text \<open>Reading back a printed number.\<close>

lemma strtol10_dec: "strtol10 (dec i) = i"
proof (cases "i < 0")
  case True
  then show ?thesis
    by (simp add: strtol10_def dec_def isspace_def digits_value_dec_of_nat)
next
  case False
  obtain c u where cu: "dec_of_nat (nat i) = c # u"
    using dec_of_nat_nonempty by (cases "dec_of_nat (nat i)") auto
  have c: "isdigit c" using hd_dec_of_nat [of "nat i"] cu by simp
  then have "dropWhile isspace (c # u) = c # u" by (simp add: isdigit_not_isspace)
  with c False cu digits_value_dec_of_nat [of "nat i"] show ?thesis
    by (auto simp: strtol10_def dec_def isdigit_def Let_def)
qed

lemma atol_dec: "- (2 ^ 63) \<le> i \<Longrightarrow> i < 2 ^ 63 \<Longrightarrow> atol (dec i) = i"
  by (simp add: atol_def strtol10_dec)

lemma atoi_dec: "- (2 ^ 31) \<le> i \<Longrightarrow> i < 2 ^ 31 \<Longrightarrow> atoi (dec i) = i"
  by (simp add: atoi_def atol_def strtol10_dec signed_take_bit_int_eq_self_iff)

lemma atoi_range: "- (2 ^ 31) \<le> atoi s \<and> atoi s < 2 ^ 31"
  unfolding atoi_def
  using signed_take_bit_int_less_exp [of 31 "atol s"] signed_take_bit_int_greater_eq_minus_exp [of 31 "atol s"]
  by simp

lemma unat_byte_less [simp]: "unat (b :: 8 word) < 256"
  using unsigned_less [of b, where 'a = nat] by simp

lemma uint_byte_less [simp]: "uint (b :: 8 word) < 256"
  using unsigned_less [of b, where 'a = int] by simp

lemma sint_byte_small: "uint (b :: 8 word) < 128 \<Longrightarrow> sint b = uint b"
  by (auto simp: sint_uint signed_take_bit_int_eq_self_iff
      intro: order_trans [OF _ unsigned_greater_eq])

section \<open>Lists\<close>

text \<open>Updating the first element that satisfies a predicate, the shape of a list walk that
  stops at the first match.\<close>

fun update_first :: "('a \<Rightarrow> bool) \<Rightarrow> ('a \<Rightarrow> 'a) \<Rightarrow> 'a list \<Rightarrow> 'a list" where
  "update_first P f [] = []"
| "update_first P f (x # xs) = (if P x then f x # xs else x # update_first P f xs)"

lemma length_update_first [simp]: "length (update_first P f xs) = length xs"
  by (induction xs) auto

lemma map_update_first: "(\<And>x. g (f x) = g x) \<Longrightarrow> map g (update_first P f xs) = map g xs"
  by (induction xs) auto

lemma find_update_first:
  "(\<And>x. P x \<Longrightarrow> P (f x)) \<Longrightarrow> find P (update_first P f xs) = map_option f (find P xs)"
  by (induction xs) auto

lemma update_first_none: "find P xs = None \<Longrightarrow> update_first P f xs = xs"
  by (induction xs) (auto split: if_splits)

lemma update_first_cong:
  "find P xs = Some x \<Longrightarrow> f x = g x \<Longrightarrow> update_first P f xs = update_first P g xs"
  by (induction xs) (auto split: if_splits)

lemma update_first_id: "find P xs = Some x \<Longrightarrow> f x = x \<Longrightarrow> update_first P f xs = xs"
  by (induction xs) (auto split: if_splits)

lemma set_update_first: "set (update_first P f xs) \<subseteq> set xs \<union> f ` {x \<in> set xs. P x}"
  by (induction xs) auto

text \<open>A property of every element of a table together with its index, in a form the
  simplifier evaluates on a literal table.\<close>

fun indexed :: "(nat \<Rightarrow> 'a \<Rightarrow> bool) \<Rightarrow> nat \<Rightarrow> 'a list \<Rightarrow> bool" where
  "indexed P n [] = True"
| "indexed P n (x # xs) = (P n x \<and> indexed P (Suc n) xs)"

lemma indexed_iff: "indexed P n xs \<longleftrightarrow> (\<forall>i<length xs. P (n + i) (xs ! i))"
proof (induction xs arbitrary: n)
  case (Cons x xs)
  then show ?case by (auto simp: all_conj_distrib less_Suc_eq_0_disj)
qed simp

lemma indexed_0: "indexed P 0 xs \<longleftrightarrow> (\<forall>i<length xs. P i (xs ! i))"
  by (simp add: indexed_iff)

lemma indexed_2: "indexed P 0 (x # y # xs) \<longleftrightarrow> P 0 x \<and> P (Suc 0) y \<and> indexed P (numeral (num.Bit0 num.One)) xs"
  by (simp add: numeral_2_eq_2)

lemma indexed_numeral:
  "indexed P (numeral k) (x # xs) \<longleftrightarrow> P (numeral k) x \<and> indexed P (numeral (k + num.One)) xs"
  unfolding numeral_plus_one [symmetric] Suc_eq_plus1 [symmetric] by (rule indexed.simps(2))

lemmas indexed_eval = indexed_2 indexed_numeral indexed.simps(1) add_num_simps

lemma table_indexed: "tab = xs \<Longrightarrow> indexed (\<lambda>i v. tab ! i = v) 0 xs"
  by (simp add: indexed_0)

section \<open>Interfaces shared by the components\<close>

text \<open>A queue that takes its items at one end: the output queue of a connection, the delay queue
  of a static user entry.\<close>

locale fifo =
  fixes enq :: "'a \<Rightarrow> 'q \<Rightarrow> 'q" and items :: "'q \<Rightarrow> 'a list"
  assumes items_enq: "items (enq x q) = items q @ [x]"
begin

lemma items_fold: "items (fold enq xs q) = items q @ xs"
  by (induction xs arbitrary: q) (simp_all add: items_enq)

lemma items_order: "items q = x # xs \<Longrightarrow> \<exists>ys. items (fold enq zs q) = x # ys"
  by (simp add: items_fold)

end

text \<open>A list searched by a key: \<open>same x k\<close> says that the entry \<open>x\<close> is the one of the key
  \<open>k\<close>. The tables of the daemon compare names without case.\<close>

fun uniq_by :: "('v \<Rightarrow> 'v \<Rightarrow> bool) \<Rightarrow> 'v list \<Rightarrow> bool" where
  "uniq_by R [] = True"
| "uniq_by R (x # xs) = (list_all (\<lambda>y. \<not> R x y) xs \<and> uniq_by R xs)"

lemma uniq_by_filter: "uniq_by R xs \<Longrightarrow> uniq_by R (filter P xs)"
  by (induction xs) (auto simp: list_all_iff)

lemma uniq_by_map:
  "(\<And>x y. R (f x) (f y) = R x y) \<Longrightarrow> uniq_by R (map f xs) = uniq_by R xs"
  by (induction xs) (auto simp: list_all_iff)

locale keyed =
  fixes same :: "'v \<Rightarrow> 'k \<Rightarrow> bool" and key :: "'v \<Rightarrow> 'k"
  assumes same_key: "same x (key x)"
    and same_trans: "same x k \<Longrightarrow> same y k \<longleftrightarrow> same y (key x)"
begin

lemma same_sym: "same y (key x) \<longleftrightarrow> same x (key y)"
  using same_key same_trans by blast

lemma find_cong_key: "same x k \<Longrightarrow> find (\<lambda>y. same y k) xs = find (\<lambda>y. same y (key x)) xs"
  using same_trans by metis

lemma find_update_same:
  assumes "\<And>x. key (f x) = key x"
  shows "find (\<lambda>x. same x k) (update_first (\<lambda>x. same x k) f xs) = map_option f (find (\<lambda>x. same x k) xs)"
proof (rule find_update_first)
  show "same x k \<Longrightarrow> same (f x) k" for x
    using assms [of x] same_key [of "f x"] same_trans by metis
qed

lemma same_update:
  assumes "\<And>x. key (f x) = key x"
  shows "same (f x) k \<longleftrightarrow> same x k"
proof -
  have "same (f x) (key x)" using same_key [of "f x"] assms by simp
  moreover have "same x (key (f x))" using same_key [of x] assms by simp
  ultimately show ?thesis using same_trans by metis
qed

lemma find_update_other:
  assumes "\<And>x. key (f x) = key x" "\<And>x. same x k \<Longrightarrow> \<not> same x k'"
  shows "find (\<lambda>x. same x k') (update_first (\<lambda>x. same x k) f xs) = find (\<lambda>x. same x k') xs"
  by (induction xs) (use assms in \<open>auto simp: same_update\<close>)

lemma uniq_update:
  assumes "\<And>x. key (f x) = key x"
  shows "uniq_by (\<lambda>x y. same x (key y)) (update_first P f xs) = uniq_by (\<lambda>x y. same x (key y)) xs"
proof -
  have all: "list_all (\<lambda>y. \<not> same x (key y)) (update_first P f xs) = list_all (\<lambda>y. \<not> same x (key y)) xs" for x xs
    by (induction xs) (auto simp: assms)
  show ?thesis by (induction xs) (auto simp: all same_update assms)
qed

lemma uniq_find:
  assumes "uniq_by (\<lambda>x y. same x (key y)) xs" "x \<in> set xs" "same x k"
  shows "find (\<lambda>y. same y k) xs = Some x"
  using assms
proof (induction xs)
  case (Cons y ys)
  show ?case
  proof (cases "x = y")
    case False
    then have "\<not> same y (key x)" using Cons.prems by (auto simp: list_all_iff)
    then have "\<not> same y k" using Cons.prems(3) same_trans by blast
    with Cons False show ?thesis by auto
  qed (use Cons in simp)
qed simp

lemma uniq_Cons:
  assumes "uniq_by (\<lambda>x y. same x (key y)) xs" "find (\<lambda>y. same y (key x)) xs = None"
  shows "uniq_by (\<lambda>x y. same x (key y)) (x # xs)"
  using assms same_sym by (auto simp: list_all_iff find_None_iff)

end

end
