(* ===== verification/Compression.thy ===== *)
theory Compression
  imports Prelude
begin

unbundle bit_operations_syntax

text \<open>
  \<^verbatim>\<open>compression.c\<close> and \<^verbatim>\<open>compression.h\<close>: the static Huffman code of a compressed
  host link. \<open>encstathuf\<close> writes a length byte and the code bits of the source, or, when the
  code is not shorter, the byte 255 and a copy; \<open>decstathuf\<close> reads such a frame.

  A buffer is the list of the bytes from the pointer on, and reading past it is the value
  \<open>Enc_Undefined\<close> or \<open>Dec_Undefined\<close>. The source indexes its encoding table with a plain
  \<^verbatim>\<open>char\<close>, whose sign is a choice of the C implementation: it is the argument
  \<open>char_signed\<close> of the encoder.
\<close>

section \<open>Tables\<close>

definition huffencodtab :: "(16 word \<times> nat) list" where
  "huffencodtab = [
     (0xab2c, 15), (0xaa84, 15), (0x9fc4, 15), (0xab3c, 15), (0xab1c, 15), (0xaafc, 15),
     (0xaaec, 15), (0xaad4, 15), (0xaab4, 15), (0xf340, 10), (0xaaa4, 15), (0x7d64, 15),
     (0xaadc, 15), (0xf400, 7), (0xaa94, 15), (0x9ff4, 15), (0x9fd4, 15), (0x7d74, 15),
     (0xab44, 15), (0xab34, 15), (0xab24, 15), (0xab14, 15), (0xab04, 15), (0xaaf4, 15),
     (0xaae4, 15), (0xab60, 14), (0xab0c, 15), (0xaacc, 15), (0xaabc, 15), (0xaaac, 15),
     (0xaa9c, 15), (0xaa8c, 15), (0xc000, 3), (0x3a80, 9), (0xabc0, 10), (0x0060, 11),
     (0x7d40, 12), (0xab5c, 14), (0x0000, 12), (0xab58, 14), (0x7c00, 9), (0x3c80, 9),
     (0x7d00, 11), (0x0010, 12), (0x1200, 7), (0x7a00, 7), (0xb800, 6), (0x3200, 7),
     (0x2200, 7), (0xf600, 8), (0x3d00, 8), (0x9e00, 9), (0xbd80, 9), (0x7c80, 9),
     (0x0080, 9), (0xaa00, 9), (0xbd00, 9), (0x9f00, 9), (0x0300, 8), (0xab78, 13),
     (0xab68, 13), (0x3c00, 9), (0x3000, 9), (0x0020, 11), (0x7d50, 12), (0x3800, 7),
     (0x7800, 7), (0x9c00, 7), (0xfe00, 7), (0x2400, 6), (0xbc00, 8), (0x0200, 8),
     (0x0100, 8), (0xf100, 8), (0x0040, 11), (0x3100, 8), (0xf200, 8), (0x3400, 7),
     (0x1c00, 7), (0x1e00, 7), (0xbe00, 7), (0xaba0, 11), (0x3e00, 7), (0x1400, 6),
     (0x3600, 7), (0xf380, 9), (0xf080, 9), (0x2000, 8), (0xfc00, 8), (0x9f80, 10),
     (0x9e80, 9), (0xab90, 12), (0x3b80, 9), (0xab80, 12), (0xab54, 14), (0x3a50, 13),
     (0xab50, 14), (0xa000, 5), (0x1800, 6), (0x9800, 6), (0x7000, 5), (0x4000, 3),
     (0x0400, 6), (0xac00, 6), (0xf800, 6), (0x6000, 4), (0x3a00, 10), (0xfd00, 8),
     (0x2800, 5), (0xb000, 6), (0x8000, 4), (0xb400, 6), (0x1000, 7), (0x7d20, 12),
     (0xe000, 5), (0x9000, 5), (0xe800, 5), (0x0800, 5), (0xf700, 8), (0xa800, 7),
     (0x7d80, 9), (0xf300, 10), (0x7e00, 7), (0xab48, 14), (0x3a48, 13), (0xab4c, 14),
     (0x3a60, 12), (0x9ffc, 15), (0x9fec, 15), (0x2100, 8), (0x9fdc, 15), (0x9fcc, 15),
     (0xf000, 9), (0x7d7c, 15), (0x7d6c, 15), (0x3a40, 14), (0xab40, 15), (0xab38, 15),
     (0xab30, 15), (0xab28, 15), (0xab20, 15), (0xab18, 15), (0xab70, 13), (0xab10, 15),
     (0xab08, 15), (0xab00, 15), (0xaaf8, 15), (0xaaf0, 15), (0x3b00, 9), (0xaae8, 15),
     (0xaae0, 15), (0xaad8, 15), (0xaad0, 15), (0xab64, 14), (0x7d30, 12), (0xaac8, 15),
     (0xaac0, 15), (0xaab8, 15), (0xaab0, 15), (0xaaa8, 15), (0xaaa0, 15), (0xaa98, 15),
     (0xaa90, 15), (0xaa88, 15), (0xaa80, 15), (0x9ff8, 15), (0x9ff0, 15), (0x9fe8, 15),
     (0x9fe0, 15), (0x9fd8, 15), (0x9fd0, 15), (0x9fc8, 15), (0x9fc0, 15), (0x7d78, 15),
     (0x7d70, 15), (0x3a58, 13), (0x7d68, 15), (0x7d60, 15), (0xab46, 15), (0xab42, 15),
     (0xab3e, 15), (0xab3a, 15), (0xab36, 15), (0xab32, 15), (0xab2e, 15), (0xab2a, 15),
     (0xab26, 15), (0xab22, 15), (0xab1e, 15), (0xab1a, 15), (0xab16, 15), (0xab12, 15),
     (0xab0e, 15), (0xab0a, 15), (0xab06, 15), (0xab02, 15), (0xaafe, 15), (0xaafa, 15),
     (0xaaf6, 15), (0xaaf2, 15), (0xaaee, 15), (0xaaea, 15), (0xaae6, 15), (0xaae2, 15),
     (0xaade, 15), (0xaada, 15), (0xaad6, 15), (0xaad2, 15), (0xaace, 15), (0xaaca, 15),
     (0xaac6, 15), (0xaac2, 15), (0xaabe, 15), (0xaaba, 15), (0xaab6, 15), (0xaab2, 15),
     (0xaaae, 15), (0xaaaa, 15), (0xaaa6, 15), (0xaaa2, 15), (0xaa9e, 15), (0x3a70, 12),
     (0xaa9a, 15), (0xaa96, 15), (0xaa92, 15), (0x3080, 9), (0xaa8e, 15), (0xaa8a, 15),
     (0xaa86, 15), (0xaa82, 15), (0x9ffe, 15), (0x9ffa, 15), (0x9ff6, 15), (0x9ff2, 15),
     (0x9fee, 15), (0x9fea, 15), (0x9fe6, 15), (0x9fe2, 15), (0x9fde, 15), (0x9fda, 15),
     (0x9fd6, 15), (0x9fd2, 15), (0x9fce, 15), (0x9fca, 15), (0x9fc6, 15), (0x9fc2, 15),
     (0x7d7e, 15), (0x7d7a, 15), (0x7d76, 15), (0x7d72, 15), (0x7d6e, 15), (0x7d6a, 15),
     (0x7d66, 15), (0x7d62, 15), (0x3a46, 15), (0x3a44, 15)]"

definition huffdecodtab :: "(nat \<times> nat) list" where
  "huffdecodtab = [
     (79, 1), (2, 66), (24, 3), (4, 208), (292, 5), (6, 298), (317, 7), (16, 8),
     (9, 173), (10, 116), (41, 11), (12, 37), (125, 13), (357, 14), (15, 438), (0, 0),
     (229, 17), (18, 46), (19, 61), (20, 99), (21, 161), (404, 22), (23, 483), (1, 0),
     (306, 25), (313, 26), (294, 27), (245, 28), (221, 29), (231, 30), (277, 31), (32, 103),
     (33, 108), (34, 339), (421, 35), (36, 500), (2, 0), (122, 38), (353, 39), (40, 434),
     (3, 0), (131, 42), (128, 43), (361, 44), (45, 442), (4, 0), (56, 47), (52, 48),
     (135, 49), (370, 50), (51, 450), (5, 0), (138, 53), (375, 54), (55, 454), (6, 0),
     (148, 57), (58, 94), (381, 59), (60, 460), (7, 0), (75, 62), (63, 152), (392, 64),
     (65, 469), (8, 0), (164, 67), (311, 68), (69, 246), (70, 97), (253, 71), (257, 72),
     (73, 270), (319, 74), (9, 0), (76, 155), (396, 77), (78, 473), (10, 0), (165, 80),
     (296, 81), (300, 82), (295, 83), (206, 84), (85, 320), (193, 86), (87, 318), (199, 88),
     (184, 89), (90, 112), (91, 346), (430, 92), (93, 508), (11, 0), (379, 95), (96, 458),
     (12, 0), (98, 218), (13, 0), (100, 158), (400, 101), (102, 478), (14, 0), (331, 104),
     (105, 328), (408, 106), (107, 487), (15, 0), (109, 336), (417, 110), (111, 496), (16, 0),
     (113, 343), (425, 114), (115, 504), (17, 0), (117, 141), (118, 186), (119, 321), (351, 120),
     (121, 432), (18, 0), (355, 123), (124, 436), (19, 0), (359, 126), (127, 440), (20, 0),
     (364, 129), (130, 444), (21, 0), (132, 145), (368, 133), (134, 448), (22, 0), (372, 136),
     (137, 452), (23, 0), (377, 139), (140, 456), (24, 0), (142, 234), (143, 236), (144, 383),
     (25, 0), (366, 146), (147, 446), (26, 0), (387, 149), (385, 150), (151, 462), (27, 0),
     (390, 153), (154, 467), (28, 0), (394, 156), (157, 471), (29, 0), (398, 159), (160, 475),
     (30, 0), (402, 162), (163, 481), (31, 0), (32, 0), (175, 166), (214, 167), (211, 168),
     (169, 195), (243, 170), (171, 281), (286, 172), (33, 0), (265, 174), (34, 0), (176, 202),
     (177, 315), (178, 297), (179, 232), (180, 252), (181, 228), (189, 182), (255, 183), (35, 0),
     (185, 242), (36, 0), (284, 187), (192, 188), (37, 0), (190, 241), (191, 201), (38, 0),
     (39, 0), (194, 227), (40, 0), (196, 267), (197, 220), (237, 198), (41, 0), (200, 309),
     (42, 0), (43, 0), (203, 260), (204, 268), (308, 205), (44, 0), (244, 207), (45, 0),
     (304, 209), (210, 223), (46, 0), (212, 258), (238, 213), (47, 0), (215, 303), (216, 249),
     (273, 217), (48, 0), (219, 316), (49, 0), (50, 0), (222, 278), (51, 0), (224, 264),
     (250, 225), (230, 226), (52, 0), (53, 0), (54, 0), (55, 0), (56, 0), (57, 0),
     (251, 233), (58, 0), (363, 235), (59, 0), (60, 0), (61, 0), (239, 256), (240, 480),
     (62, 0), (63, 0), (64, 0), (65, 0), (66, 0), (67, 0), (299, 247), (275, 248),
     (68, 0), (69, 0), (70, 0), (71, 0), (72, 0), (271, 254), (73, 0), (74, 0),
     (75, 0), (76, 0), (259, 269), (77, 0), (293, 261), (262, 263), (78, 0), (79, 0),
     (80, 0), (279, 266), (81, 0), (82, 0), (83, 0), (84, 0), (85, 0), (342, 272),
     (86, 0), (274, 335), (87, 0), (276, 302), (88, 0), (89, 0), (90, 0), (283, 280),
     (91, 0), (374, 282), (92, 0), (93, 0), (291, 285), (94, 0), (301, 287), (288, 326),
     (323, 289), (290, 427), (95, 0), (96, 0), (97, 0), (98, 0), (99, 0), (100, 0),
     (101, 0), (102, 0), (103, 0), (104, 0), (105, 0), (106, 0), (107, 0), (108, 0),
     (305, 307), (109, 0), (110, 0), (111, 0), (112, 0), (310, 384), (113, 0), (312, 314),
     (114, 0), (115, 0), (116, 0), (117, 0), (118, 0), (119, 0), (120, 0), (121, 0),
     (122, 0), (322, 325), (123, 0), (349, 324), (124, 0), (125, 0), (327, 476), (126, 0),
     (406, 329), (330, 485), (127, 0), (412, 332), (410, 333), (334, 489), (128, 0), (129, 0),
     (415, 337), (338, 494), (130, 0), (419, 340), (341, 498), (131, 0), (132, 0), (423, 344),
     (345, 502), (133, 0), (428, 347), (348, 506), (134, 0), (350, 510), (135, 0), (352, 433),
     (136, 0), (354, 435), (137, 0), (356, 437), (138, 0), (358, 439), (139, 0), (360, 441),
     (140, 0), (362, 443), (141, 0), (142, 0), (365, 445), (143, 0), (367, 447), (144, 0),
     (369, 449), (145, 0), (371, 451), (146, 0), (373, 453), (147, 0), (148, 0), (376, 455),
     (149, 0), (378, 457), (150, 0), (380, 459), (151, 0), (382, 461), (152, 0), (153, 0),
     (154, 0), (386, 463), (155, 0), (388, 464), (389, 466), (156, 0), (391, 468), (157, 0),
     (393, 470), (158, 0), (395, 472), (159, 0), (397, 474), (160, 0), (399, 477), (161, 0),
     (401, 479), (162, 0), (403, 482), (163, 0), (405, 484), (164, 0), (407, 486), (165, 0),
     (409, 488), (166, 0), (411, 490), (167, 0), (413, 491), (414, 493), (168, 0), (416, 495),
     (169, 0), (418, 497), (170, 0), (420, 499), (171, 0), (422, 501), (172, 0), (424, 503),
     (173, 0), (426, 505), (174, 0), (175, 0), (429, 507), (176, 0), (431, 509), (177, 0),
     (178, 0), (179, 0), (180, 0), (181, 0), (182, 0), (183, 0), (184, 0), (185, 0),
     (186, 0), (187, 0), (188, 0), (189, 0), (190, 0), (191, 0), (192, 0), (193, 0),
     (194, 0), (195, 0), (196, 0), (197, 0), (198, 0), (199, 0), (200, 0), (201, 0),
     (202, 0), (203, 0), (204, 0), (205, 0), (206, 0), (207, 0), (208, 0), (209, 0),
     (0, 465), (210, 0), (211, 0), (212, 0), (213, 0), (214, 0), (215, 0), (216, 0),
     (217, 0), (218, 0), (219, 0), (220, 0), (221, 0), (222, 0), (223, 0), (224, 0),
     (225, 0), (226, 0), (227, 0), (228, 0), (229, 0), (230, 0), (231, 0), (232, 0),
     (233, 0), (234, 0), (235, 0), (0, 492), (236, 0), (237, 0), (238, 0), (239, 0),
     (240, 0), (241, 0), (242, 0), (243, 0), (244, 0), (245, 0), (246, 0), (247, 0),
     (248, 0), (249, 0), (250, 0), (251, 0), (252, 0), (253, 0), (512, 511), (254, 0),
     (255, 0)]"

definition mask8tab :: "byte list" where
  "mask8tab = [0x80, 0x40, 0x20, 0x10, 0x08, 0x04, 0x02, 0x01]"

definition mask16tab :: "16 word list" where
  "mask16tab = [0x8000, 0x4000, 0x2000, 0x1000, 0x0800, 0x0400, 0x0200, 0x0100,
     0x0080, 0x0040, 0x0020, 0x0010, 0x0008, 0x0004, 0x0002, 0x0001]"

section \<open>Encoder\<close>

datatype enc_result = Enc_Error | Enc_Undefined | Enc_Ok "byte list"

definition tab_index :: "bool \<Rightarrow> byte \<Rightarrow> int" where
  "tab_index char_signed c = (if char_signed then sint c else uint c)"

definition huff_entry :: "bool \<Rightarrow> byte list \<Rightarrow> nat \<Rightarrow> (16 word \<times> nat) option" where
  "huff_entry char_signed src i =
     (if i < length src then
        let k = tab_index char_signed (src ! i) in
        if 0 \<le> k \<and> k < 256 then Some (huffencodtab ! nat k) else None
      else None)"

text \<open>One turn of the encoder's loop: \<open>wrklen\<close> symbols are done, bit \<open>bit16\<close> of the code
  \<open>huffcode\<close> of length \<open>hufflen\<close> is next, \<open>out\<close> are the finished bytes behind
  \<^verbatim>\<open>dest[0]\<close>, \<open>cur\<close> the byte being filled and \<open>bit8\<close> its next bit.\<close>

function enc_loop ::
  "bool \<Rightarrow> byte list \<Rightarrow> nat \<Rightarrow> nat \<Rightarrow> 16 word \<Rightarrow> nat \<Rightarrow> nat \<Rightarrow> byte list \<Rightarrow> byte \<Rightarrow> nat \<Rightarrow> enc_result"
where
  "enc_loop char_signed src srclen wrklen huffcode hufflen bit16 out cur bit8 =
     (if length mask16tab \<le> bit16 \<or> length src \<le> wrklen then Enc_Undefined else
      let cur = (if huffcode AND mask16tab ! bit16 \<noteq> 0 then cur OR mask8tab ! bit8 else cur);
          bit8 = bit8 + 1;
          full = 7 < bit8;
          out = (if full then out @ [cur] else out)
      in
      if full \<and> srclen \<le> length out then
        (if srclen \<le> length src then Enc_Ok (255 # take srclen src) else Enc_Undefined)
      else
        let cur = (if full then 0 else cur); bit8 = (if full then 0 else bit8) in
        if bit16 + 1 = hufflen then
          (if wrklen + 1 = srclen then
             Enc_Ok (of_nat (srclen - 1) # out @ (if bit8 \<noteq> 0 then [cur] else []))
           else case huff_entry char_signed src (wrklen + 1) of
               None \<Rightarrow> Enc_Undefined
             | Some (code, len) \<Rightarrow>
                 enc_loop char_signed src srclen (wrklen + 1) code len 0 out cur bit8)
        else enc_loop char_signed src srclen wrklen huffcode hufflen (bit16 + 1) out cur bit8)"
  by pat_completeness auto
termination
  by (relation "measures [\<lambda>(cs, src, srclen, wrklen, c, l, bit16, out, cur, bit8). length src - wrklen,
        \<lambda>(cs, src, srclen, wrklen, c, l, bit16, out, cur, bit8). length mask16tab - bit16]")
    (auto split: if_splits simp: huff_entry_def)

declare enc_loop.simps [simp del]

definition encstathuf :: "bool \<Rightarrow> byte list \<Rightarrow> nat \<Rightarrow> enc_result" where
  "encstathuf char_signed src srclen =
     (if 255 < srclen then Enc_Error
      else case huff_entry char_signed src 0 of
          None \<Rightarrow> Enc_Undefined
        | Some (code, len) \<Rightarrow> enc_loop char_signed src srclen 0 code len 0 [] 0 0)"

section \<open>Decoder\<close>

datatype dec_result = Dec_Error | Dec_Undefined | Dec_Ok "byte list" nat

text \<open>One turn of the decoder's two loops. \<open>ptr\<close> are the bytes from \<^verbatim>\<open>srcptr\<close> on,
  \<open>dest\<close> the decoded bytes; \<^verbatim>\<open>wrklen\<close> is the length of \<open>dest\<close>.\<close>

function dec_loop :: "nat \<Rightarrow> byte list \<Rightarrow> nat \<Rightarrow> byte \<Rightarrow> nat \<Rightarrow> byte list \<Rightarrow> dec_result" where
  "dec_loop destlen ptr srclen bitmask decod dest =
     (if 0 < bitmask then
        (case ptr of
          [] \<Rightarrow> Dec_Undefined
        | b # _ \<Rightarrow>
            let node1 = fst (huffdecodtab ! decod); node2 = snd (huffdecodtab ! decod);
                newnode = (if b AND bitmask \<noteq> 0 then node2 else node1)
            in
            if (if b AND bitmask \<noteq> 0 then newnode = 0 else node2 = 0) then
              (let dest = dest @ [of_nat node1] in
               if destlen \<le> length dest then Dec_Ok dest destlen
               else dec_loop destlen ptr srclen bitmask 0 dest)
            else
              dec_loop destlen ptr srclen (if newnode \<noteq> 0 then drop_bit 1 bitmask else bitmask)
                newnode dest)
      else if srclen = 0 then Dec_Error
      else dec_loop destlen (tl ptr) (srclen - 1) 0x80 decod dest)"
  by pat_completeness auto

lemma huffdecodtab_root: "huffdecodtab ! 0 = (79, 1)"
  by (simp add: huffdecodtab_def)

lemma unat_drop_bit_less: "0 < (m :: byte) \<Longrightarrow> unat (drop_bit (Suc 0) m) < unat m"
  by (simp add: unat_drop_bit_eq drop_bit_Suc word_less_nat_alt unat_div)

lemma fst_huffdecodtab_zeroD: "fst (huffdecodtab ! d) = 0 \<Longrightarrow> 0 < d"
  by (cases "d = 0") (simp_all add: huffdecodtab_root)

termination dec_loop
  by (relation "measures [\<lambda>(destlen, ptr, srclen, bitmask, decod, dest). destlen - length dest,
        \<lambda>(destlen, ptr, srclen, bitmask, decod, dest). srclen,
        \<lambda>(destlen, ptr, srclen, bitmask, decod, dest). unat bitmask,
        \<lambda>(destlen, ptr, srclen, bitmask, decod, dest). if decod = 0 then 0 else 1]")
    (auto split: if_splits simp: unat_drop_bit_less huffdecodtab_root dest: fst_huffdecodtab_zeroD)

declare dec_loop.simps [simp del]

definition decstathuf :: "byte list \<Rightarrow> nat \<Rightarrow> dec_result" where
  "decstathuf src srclen =
     (case src of
        [] \<Rightarrow> Dec_Undefined
      | b # ptr \<Rightarrow>
          if srclen = 0 then Dec_Undefined else
          let destlen = unat b + 1; srclen = srclen - 1 in
          if srclen = 0 then Dec_Error
          else if destlen = 256 then
            (if srclen \<le> length ptr then Dec_Ok (take srclen ptr) (srclen mod 256)
             else Dec_Undefined)
          else dec_loop destlen ptr srclen 0x80 0 [])"

section \<open>The code\<close>

text \<open>The bits of a byte and of a code word, first bit first.\<close>

definition byte_bits :: "byte \<Rightarrow> bool list" where
  "byte_bits b = map (\<lambda>i. bit b (7 - i)) [0..<8]"

definition bits_of_bytes :: "byte list \<Rightarrow> bool list" where
  "bits_of_bytes bs = concat (map byte_bits bs)"

definition code_bits :: "16 word \<Rightarrow> nat \<Rightarrow> bool list" where
  "code_bits c l = map (\<lambda>i. bit c (15 - i)) [0..<l]"

definition symbol_bits :: "byte \<Rightarrow> bool list" where
  "symbol_bits b = code_bits (fst (huffencodtab ! unat b)) (snd (huffencodtab ! unat b))"

text \<open>A walk from a node of the decoding tree along a list of bits; \<open>None\<close> when it meets a
  leaf or the missing branch of an inner node.\<close>

fun walk :: "nat \<Rightarrow> bool list \<Rightarrow> nat option" where
  "walk n [] = Some n"
| "walk n (b # bs) =
     (if snd (huffdecodtab ! n) = 0 then None
      else let m = (if b then snd (huffdecodtab ! n) else fst (huffdecodtab ! n))
           in if m = 0 then None else walk m bs)"

text \<open>Every code word leads from the root to the leaf of its symbol.\<close>

definition symbol_ok :: "nat \<Rightarrow> 16 word \<times> nat \<Rightarrow> bool" where
  "symbol_ok k e \<longleftrightarrow>
     0 < snd e \<and> snd e \<le> 15 \<and>
     (case walk 0 (code_bits (fst e) (snd e)) of
        None \<Rightarrow> False
      | Some n \<Rightarrow> huffdecodtab ! n = (k, 0))"

lemmas huffdecodtab_nth = table_indexed [OF huffdecodtab_def, simplified indexed_eval]

lemma code_bits_simps:
  "code_bits c 0 = []"
  "code_bits c (numeral k) = code_bits c (pred_numeral k) @ [bit c (15 - pred_numeral k)]"
  "code_bits c (Suc l) = code_bits c l @ [bit c (15 - l)]"
  by (simp_all add: code_bits_def numeral_eq_Suc)

lemma all_symbols_ok: "indexed symbol_ok 0 huffencodtab"
  unfolding huffencodtab_def indexed_eval
  by (simp add: symbol_ok_def huffdecodtab_nth code_bits_simps)

lemma length_huffencodtab: "length huffencodtab = 256"
  by (simp add: huffencodtab_def)

lemma symbol_okD:
  assumes "k < 256"
  shows "symbol_ok k (huffencodtab ! k)"
  using all_symbols_ok assms by (simp add: indexed_0 length_huffencodtab)

lemma hufflen_bounds:
  "k < 256 \<Longrightarrow> 0 < snd (huffencodtab ! k) \<and> snd (huffencodtab ! k) \<le> 15"
  using symbol_okD [of k] by (simp add: symbol_ok_def)

lemma symbol_walk: "\<exists>n. walk 0 (symbol_bits b) = Some n \<and> huffdecodtab ! n = (unat b, 0)"
proof -
  have "unat b < 256" by simp
  from symbol_okD [OF this] show ?thesis
    by (auto simp: symbol_ok_def symbol_bits_def split: option.splits)
qed

lemma symbol_bits_nonempty: "symbol_bits b \<noteq> []"
proof -
  have "unat b < 256" by simp
  from hufflen_bounds [OF this] show ?thesis by (simp add: symbol_bits_def code_bits_def)
qed

section \<open>Masks and bits\<close>

lemma length_byte_bits [simp]: "length (byte_bits b) = 8"
  by (simp add: byte_bits_def)

lemma nth_byte_bits: "i < 8 \<Longrightarrow> byte_bits b ! i = bit b (7 - i)"
  by (simp add: byte_bits_def)

lemma length_bits_of_bytes: "length (bits_of_bytes bs) = 8 * length bs"
  by (induction bs) (simp_all add: bits_of_bytes_def)

lemma bits_of_bytes_simps [simp]:
  "bits_of_bytes [] = []"
  "bits_of_bytes (b # bs) = byte_bits b @ bits_of_bytes bs"
  "bits_of_bytes (bs @ cs) = bits_of_bytes bs @ bits_of_bytes cs"
  by (simp_all add: bits_of_bytes_def)

lemma mask8tab_nth: "i < 8 \<Longrightarrow> mask8tab ! i = 2 ^ (7 - i)"
proof -
  have "\<forall>i<8. mask8tab ! i = 2 ^ (7 - i)"
    by (simp add: mask8tab_def All_less_Suc numeral_eq_Suc)
  then show "i < 8 \<Longrightarrow> mask8tab ! i = 2 ^ (7 - i)" by simp
qed

lemma mask16tab_nth: "i < 16 \<Longrightarrow> mask16tab ! i = 2 ^ (15 - i)"
proof -
  have "\<forall>i<16. mask16tab ! i = 2 ^ (15 - i)"
    by (simp add: mask16tab_def All_less_Suc numeral_eq_Suc)
  then show "i < 16 \<Longrightarrow> mask16tab ! i = 2 ^ (15 - i)" by simp
qed

lemma mask16_test: "i < 16 \<Longrightarrow> c AND mask16tab ! i \<noteq> 0 \<longleftrightarrow> bit c (15 - i)"
  by (simp add: mask16tab_nth and_exp_eq_0_iff_not_bit)

definition bitmask_at :: "nat \<Rightarrow> byte" where
  "bitmask_at j = drop_bit j 0x80"

lemma bitmask_0: "bitmask_at 0 = 0x80"
  by (simp add: bitmask_at_def)

lemma bitmask_Suc: "drop_bit (Suc 0) (bitmask_at j) = bitmask_at (Suc j)"
  by (simp add: bitmask_at_def drop_bit_drop_bit)

lemma bitmask_power: "j < 8 \<Longrightarrow> bitmask_at j = 2 ^ (7 - j)"
  unfolding bitmask_at_def using drop_bit_exp_eq [of j 7, where 'a = byte] by simp

lemma bitmask_8: "bitmask_at 8 = 0"
  by (simp add: bitmask_at_def)

lemma bitmask_pos: "j \<le> 8 \<Longrightarrow> 0 < bitmask_at j \<longleftrightarrow> j < 8"
  by (cases "j = 8") (simp_all add: bitmask_8 bitmask_power word_gt_0)

lemma bitmask_test: "j < 8 \<Longrightarrow> b AND bitmask_at j \<noteq> 0 \<longleftrightarrow> byte_bits b ! j"
  by (simp add: bitmask_power and_exp_eq_0_iff_not_bit nth_byte_bits)

section \<open>What the encoder writes\<close>

text \<open>The bits written so far: the finished bytes and the first \<open>bit8\<close> bits of the current
  one, whose other bits are still clear.\<close>

definition written :: "byte list \<Rightarrow> byte \<Rightarrow> nat \<Rightarrow> bool list \<Rightarrow> bool" where
  "written out cur bit8 bs \<longleftrightarrow>
     bit8 < 8 \<and> bs = bits_of_bytes out @ take bit8 (byte_bits cur) \<and>
     (\<forall>j<8. bit8 \<le> j \<longrightarrow> \<not> byte_bits cur ! j)"

definition set_bit8 :: "bool \<Rightarrow> byte \<Rightarrow> nat \<Rightarrow> byte" where
  "set_bit8 b cur bit8 = (if b then cur OR mask8tab ! bit8 else cur)"

lemma written_empty: "written [] 0 0 []"
  by (simp add: written_def byte_bits_def)

lemma nth_set_bit8:
  assumes "bit8 < 8" "j < 8" "\<not> byte_bits cur ! bit8"
  shows "byte_bits (set_bit8 b cur bit8) ! j = (if j = bit8 then b else byte_bits cur ! j)"
  using assms
  by (auto simp: set_bit8_def nth_byte_bits mask8tab_nth bit_simps)

lemma written_step:
  fixes b :: bool
  assumes "written out cur bit8 bs"
  defines "c \<equiv> set_bit8 b cur bit8"
  shows "bit8 < 7 \<Longrightarrow> written out c (Suc bit8) (bs @ [b])"
    and "bit8 = 7 \<Longrightarrow> written (out @ [c]) 0 0 (bs @ [b])"
proof -
  from assms(1) have b8: "bit8 < 8" and bs: "bs = bits_of_bytes out @ take bit8 (byte_bits cur)"
    and clr: "\<And>j. j < 8 \<Longrightarrow> bit8 \<le> j \<Longrightarrow> \<not> byte_bits cur ! j"
    by (auto simp: written_def)
  have nth: "byte_bits c ! j = (if j = bit8 then b else byte_bits cur ! j)" if "j < 8" for j
    unfolding c_def using nth_set_bit8 b8 clr that by blast
  have "take (Suc bit8) (byte_bits c) = take bit8 (byte_bits cur) @ [b]"
    by (rule nth_equalityI) (use b8 nth in \<open>auto simp: nth_append less_Suc_eq\<close>)
  then have tk: "bits_of_bytes out @ take (Suc bit8) (byte_bits c) = bs @ [b]"
    using bs by simp
  show "written out c (Suc bit8) (bs @ [b])" if "bit8 < 7"
    using that tk nth clr by (auto simp: written_def)
  show "written (out @ [c]) 0 0 (bs @ [b])" if "bit8 = 7"
    using that tk by (simp add: written_def byte_bits_def)
qed

text \<open>The entry the encoder looks up, when the source byte is a valid table index.\<close>

definition indexable :: "bool \<Rightarrow> byte list \<Rightarrow> bool" where
  "indexable char_signed src \<longleftrightarrow> \<not> char_signed \<or> list_all (\<lambda>b. uint b < 128) src"

lemma tab_index_uint:
  "\<not> char_signed \<or> uint b < 128 \<Longrightarrow> tab_index char_signed b = uint b"
  by (auto simp: tab_index_def sint_byte_small)

lemma huff_entry_indexable:
  assumes "indexable char_signed src" "i < length src"
  shows "huff_entry char_signed src i = Some (huffencodtab ! unat (src ! i))"
proof -
  have "\<not> char_signed \<or> uint (src ! i) < 128"
    using assms by (auto simp: indexable_def list_all_length)
  from tab_index_uint [OF this] have "tab_index char_signed (src ! i) = int (unat (src ! i))"
    by simp
  then show ?thesis
    using assms(2) by (simp add: huff_entry_def Let_def)
qed

definition coded :: "byte list \<Rightarrow> nat \<Rightarrow> byte list \<Rightarrow> bool" where
  "coded src srclen d \<longleftrightarrow>
     d = 255 # take srclen src \<or>
     (\<exists>payload pad. d = of_nat (srclen - 1) # payload \<and> payload \<noteq> [] \<and> length payload \<le> srclen \<and>
        bits_of_bytes payload = concat (map symbol_bits (take srclen src)) @ pad)"

lemma take_code_bits:
  "i < l \<Longrightarrow> take (Suc i) (code_bits c l) = take i (code_bits c l) @ [bit c (15 - i)]"
  by (simp add: code_bits_def take_map take_Suc_conv_app_nth)

lemma enc_loop_coded:
  assumes "indexable char_signed src" "srclen \<le> length src" "wrklen < srclen"
    and "(huffcode, hufflen) = huffencodtab ! unat (src ! wrklen)" "bit16 < hufflen"
    and "written out cur bit8
           (concat (map symbol_bits (take wrklen src)) @ take bit16 (code_bits huffcode hufflen))"
    and "length out < srclen"
  shows "\<exists>d. enc_loop char_signed src srclen wrklen huffcode hufflen bit16 out cur bit8 = Enc_Ok d
             \<and> coded src srclen d"
  using assms(3-)
proof (induction "(srclen - wrklen) * 16 + (hufflen - bit16)"
    arbitrary: wrklen huffcode hufflen bit16 out cur bit8 rule: less_induct)
  case less
  note prems = assms(1,2) less.prems
  let ?b = "bit huffcode (15 - bit16)"
  let ?c = "set_bit8 ?b cur bit8"
  let ?ws = "concat (map symbol_bits (take wrklen src)) @ take bit16 (code_bits huffcode hufflen)"
  have k: "unat (src ! wrklen) < 256" by simp
  have len: "hufflen \<le> 15" using hufflen_bounds [OF k] prems(4) by (metis snd_conv)
  have b8: "bit8 < 8" using prems(6) by (simp add: written_def)
  have guard: "\<not> (length mask16tab \<le> bit16 \<or> length src \<le> wrklen)"
    using len prems(2,3,5) by (simp add: mask16tab_def)
  have cur: "(if huffcode AND mask16tab ! bit16 \<noteq> 0 then cur OR mask8tab ! bit8 else cur) = ?c"
    using mask16_test [of bit16 huffcode] len prems(5) by (simp add: set_bit8_def)
  define out' where "out' = (if bit8 = 7 then out @ [?c] else out)"
  define cur' where "cur' = (if bit8 = 7 then 0 else ?c)"
  define b8' where "b8' = (if bit8 = 7 then 0 else Suc bit8)"
  have ws: "?ws @ [?b] = concat (map symbol_bits (take wrklen src)) @ take (Suc bit16) (code_bits huffcode hufflen)"
    using prems(5) by (simp add: take_code_bits)
  have w: "written out' cur' b8' (?ws @ [?b])"
    using written_step [OF prems(6), of ?b] b8 by (auto simp: out'_def cur'_def b8'_def)
  show ?case
  proof (cases "bit8 = 7 \<and> srclen \<le> length out'")
    case True
    then have "bit8 = 7" "srclen \<le> Suc (length out)" by (auto simp: out'_def)
    then have "enc_loop char_signed src srclen wrklen huffcode hufflen bit16 out cur bit8 =
        Enc_Ok (255 # take srclen src)"
      unfolding enc_loop.simps [of char_signed src srclen wrklen huffcode hufflen bit16 out cur bit8] cur
      using guard prems(2) by (simp add: Let_def)
    then show ?thesis by (simp add: coded_def)
  next
    case False
    have lo: "length out' < srclen"
      using False prems(7) by (auto simp: out'_def)
    have unfold: "enc_loop char_signed src srclen wrklen huffcode hufflen bit16 out cur bit8 =
        (if Suc bit16 = hufflen then
          (if Suc wrklen = srclen then
             Enc_Ok (of_nat (srclen - 1) # out' @ (if b8' \<noteq> 0 then [cur'] else []))
           else case huff_entry char_signed src (Suc wrklen) of
               None \<Rightarrow> Enc_Undefined
             | Some (code, len) \<Rightarrow>
                 enc_loop char_signed src srclen (Suc wrklen) code len 0 out' cur' b8')
        else enc_loop char_signed src srclen wrklen huffcode hufflen (Suc bit16) out' cur' b8')"
      unfolding enc_loop.simps [of char_signed src srclen wrklen huffcode hufflen bit16 out cur bit8] cur
      using guard False b8
      by (cases "bit8 = 7") (auto simp: Let_def out'_def cur'_def b8'_def split: option.split)
    have IH: "\<exists>d. enc_loop char_signed src srclen w code len b out' cur' b8' = Enc_Ok d \<and> coded src srclen d"
      if "(srclen - w) * 16 + (len - b) < (srclen - wrklen) * 16 + (hufflen - bit16)" "w < srclen"
        "(code, len) = huffencodtab ! unat (src ! w)" "b < len"
        "?ws @ [?b] = concat (map symbol_bits (take w src)) @ take b (code_bits code len)"
      for w code len b
      using less.hyps [OF that(1-4)] w lo that(5) by simp
    show ?thesis
    proof (cases "Suc bit16 = hufflen")
      case more: False
      show ?thesis
        unfolding unfold using more prems(3-5) ws by (simp, intro IH) (auto simp: le_Suc_eq)
    next
      case last: True
      then have sym: "?ws @ [?b] = concat (map symbol_bits (take (Suc wrklen) src))"
        using ws prems(2-4)
        by (simp add: take_Suc_conv_app_nth symbol_bits_def code_bits_def) (metis fst_conv snd_conv)
      show ?thesis
      proof (cases "Suc wrklen = srclen")
        case True
        let ?p = "out' @ (if b8' \<noteq> 0 then [cur'] else [])"
        have E: "concat (map symbol_bits (take srclen src)) = bits_of_bytes out' @ take b8' (byte_bits cur')"
          using w sym True by (simp add: written_def)
        have "bits_of_bytes ?p = concat (map symbol_bits (take srclen src)) @
            (if b8' \<noteq> 0 then drop b8' (byte_bits cur') else [])"
          unfolding E by simp
        moreover have "?p \<noteq> []"
          using w by (auto simp: written_def)
        ultimately show ?thesis
          unfolding unfold using last True lo by (auto simp: coded_def)
      next
        case False
        obtain code len where e: "(code, len) = huffencodtab ! unat (src ! Suc wrklen)"
          by (metis surj_pair)
        have n: "Suc wrklen < length src" "Suc wrklen < srclen" using False prems(2,3) by auto
        have "huff_entry char_signed src (Suc wrklen) = Some (code, len)"
          using huff_entry_indexable [OF prems(1) n(1)] e by simp
        moreover have len: "0 < len" "len \<le> 15"
          using hufflen_bounds [of "unat (src ! Suc wrklen)"] e by (metis snd_conv unat_byte_less)+
        moreover have "(srclen - Suc wrklen) * 16 + (len - 0) < (srclen - wrklen) * 16 + (hufflen - bit16)"
          using len(2) n(2) prems(5) by arith
        ultimately show ?thesis
          unfolding unfold
          using IH [where w = "Suc wrklen" and code = code and len = len and b = 0, OF _ n(2) e] last False sym
          by simp
      qed
    qed
  qed
qed

theorem encstathuf_coded:
  assumes "indexable char_signed src" "0 < srclen" "srclen \<le> length src" "srclen \<le> 255"
  shows "\<exists>d. encstathuf char_signed src srclen = Enc_Ok d \<and> coded src srclen d"
proof -
  obtain code len where e: "(code, len) = huffencodtab ! unat (src ! 0)"
    by (metis surj_pair)
  have "0 < length src" using assms(2,3) by linarith
  then have "huff_entry char_signed src 0 = Some (code, len)"
    using huff_entry_indexable [OF assms(1)] e by simp
  moreover have "0 < len"
    using hufflen_bounds [of "unat (src ! 0)"] e by (metis snd_conv unat_byte_less)
  ultimately show ?thesis
    using enc_loop_coded [OF assms(1,3,2) e, of 0 "[]" 0 0] assms(2,4)
    by (simp add: encstathuf_def written_empty)
qed

section \<open>What the decoder reads\<close>

text \<open>The payload bits in front of the decoder at bit \<open>j\<close> of the first byte of \<open>ptr\<close>, when
  \<open>srclen\<close> payload bytes are left (the current one included).\<close>

definition ahead :: "byte list \<Rightarrow> nat \<Rightarrow> nat \<Rightarrow> bool list" where
  "ahead ptr j srclen = drop j (byte_bits (hd ptr)) @ bits_of_bytes (take (srclen - 1) (tl ptr))"

definition readable :: "byte list \<Rightarrow> nat \<Rightarrow> nat \<Rightarrow> bool" where
  "readable ptr j srclen \<longleftrightarrow> j \<le> 8 \<and> 0 < srclen \<and> srclen < length ptr"

lemma readable_fetch:
  assumes "readable ptr 8 srclen" "ahead ptr 8 srclen \<noteq> []"
  shows "readable (tl ptr) 0 (srclen - 1)" "ahead (tl ptr) 0 (srclen - 1) = ahead ptr 8 srclen"
proof -
  from assms obtain a b ptr' where "ptr = a # b # ptr'" "1 < srclen"
    by (cases ptr; cases "tl ptr"; cases "srclen = 1") (auto simp: readable_def ahead_def)
  with assms show "readable (tl ptr) 0 (srclen - 1)" "ahead (tl ptr) 0 (srclen - 1) = ahead ptr 8 srclen"
    by (auto simp: readable_def ahead_def take_Cons' split: nat.splits)
qed

lemma dec_loop_fetch:
  "0 < srclen \<Longrightarrow> dec_loop L ptr srclen (bitmask_at 8) n dest = dec_loop L (tl ptr) (srclen - 1) (bitmask_at 0) n dest"
  by (subst dec_loop.simps) (simp add: bitmask_8 bitmask_0)

lemma dec_loop_inner:
  assumes "readable ptr j srclen" "j < 8" "snd (huffdecodtab ! n) \<noteq> 0"
    and "m = (if byte_bits (hd ptr) ! j then snd (huffdecodtab ! n) else fst (huffdecodtab ! n))" "m \<noteq> 0"
  shows "dec_loop L ptr srclen (bitmask_at j) n dest = dec_loop L ptr srclen (bitmask_at (Suc j)) m dest"
proof -
  obtain b ptr' where "ptr = b # ptr'" using assms(1) by (cases ptr) (auto simp: readable_def)
  then show ?thesis
    using assms bitmask_pos [of j] bitmask_test [of j b]
    by (subst dec_loop.simps) (auto simp: bitmask_Suc Let_def)
qed

lemma dec_loop_leaf:
  assumes "ptr \<noteq> []" "j < 8" "huffdecodtab ! n = (k, 0)"
  shows "dec_loop L ptr srclen (bitmask_at j) n dest =
     (if L \<le> Suc (length dest) then Dec_Ok (dest @ [of_nat k]) L
      else dec_loop L ptr srclen (bitmask_at j) 0 (dest @ [of_nat k]))"
proof -
  obtain b ptr' where "ptr = b # ptr'" using assms(1) by (cases ptr) auto
  then show ?thesis
    using assms bitmask_pos [of j] by (subst dec_loop.simps) (simp add: Let_def)
qed

text \<open>At a leaf the symbol is written before the next bit is looked at; behind the last bit of a
  byte that takes a fetch, which the count in \<open>srclen\<close> always allows once.\<close>

lemma dec_loop_emit:
  assumes "readable ptr j srclen" "huffdecodtab ! n = (k, 0)"
  shows "\<exists>ptr' j' s'. dec_loop L ptr srclen (bitmask_at j) n dest =
     (if L \<le> Suc (length dest) then Dec_Ok (dest @ [of_nat k]) L
      else dec_loop L ptr' s' (bitmask_at j') 0 (dest @ [of_nat k]))
     \<and> (ahead ptr j srclen \<noteq> [] \<longrightarrow> readable ptr' j' s' \<and> ahead ptr' j' s' = ahead ptr j srclen)"
proof (cases "j = 8")
  case True
  have "0 < srclen" "tl ptr \<noteq> []"
    using assms(1) by (cases ptr; cases "tl ptr"; auto simp: readable_def)+
  then show ?thesis
    using True dec_loop_leaf [of "tl ptr" 0 n k L "srclen - 1" dest] assms readable_fetch [of ptr srclen]
    by (intro exI [of _ "tl ptr"] exI [of _ 0] exI [of _ "srclen - 1"]) (auto simp: dec_loop_fetch)
next
  case False
  then have "j < 8" "ptr \<noteq> []" using assms(1) by (auto simp: readable_def)
  then show ?thesis
    using dec_loop_leaf [of ptr j n k L srclen dest] assms
    by (intro exI [of _ ptr] exI [of _ j] exI [of _ srclen]) auto
qed

lemma dec_loop_walk:
  assumes "walk n w = Some m" "readable ptr j srclen" "ahead ptr j srclen = w @ r"
  shows "\<exists>ptr' j' s'. dec_loop L ptr srclen (bitmask_at j) n dest = dec_loop L ptr' s' (bitmask_at j') m dest
           \<and> readable ptr' j' s' \<and> ahead ptr' j' s' = r"
  using assms
proof (induction w arbitrary: n ptr j srclen)
  case Nil
  then show ?case by (intro exI [of _ ptr] exI [of _ j] exI [of _ srclen]) simp
next
  case (Cons b w)
  have at: "\<exists>ptr' j' s'. dec_loop L ptr srclen (bitmask_at j) n dest = dec_loop L ptr' s' (bitmask_at j') m dest
           \<and> readable ptr' j' s' \<and> ahead ptr' j' s' = r"
    if j: "j < 8" and rd: "readable ptr j srclen" and ah: "ahead ptr j srclen = (b # w) @ r"
    for ptr j srclen
  proof -
    let ?m = "if b then snd (huffdecodtab ! n) else fst (huffdecodtab ! n)"
    have hd: "byte_bits (hd ptr) ! j = b" and tl: "ahead ptr (Suc j) srclen = w @ r"
      using ah j by (auto simp: ahead_def Cons_nth_drop_Suc [symmetric])
    have rd': "readable ptr (Suc j) srclen" using rd j by (simp add: readable_def)
    from Cons.prems(1) have wk: "snd (huffdecodtab ! n) \<noteq> 0" "?m \<noteq> 0" "walk ?m w = Some m"
      by (auto simp: Let_def split: if_splits)
    have "dec_loop L ptr srclen (bitmask_at j) n dest = dec_loop L ptr srclen (bitmask_at (Suc j)) ?m dest"
      by (rule dec_loop_inner [OF rd j wk(1)]) (use hd wk(2) in auto)
    then show ?thesis using Cons.IH [OF wk(3) rd' tl] by simp
  qed
  show ?case
  proof (cases "j = 8")
    case True
    have ne: "ahead ptr 8 srclen \<noteq> []" using Cons.prems(3) True by simp
    note f = readable_fetch [OF _ ne]
    show ?thesis
      using at [of 0 "tl ptr" "srclen - 1"] f Cons.prems(2,3) True
      by (simp add: dec_loop_fetch readable_def)
  next
    case False
    then show ?thesis using at Cons.prems(2,3) by (simp add: readable_def)
  qed
qed

lemma dec_loop_symbols:
  assumes "ahead ptr j srclen = concat (map symbol_bits (x # xs)) @ pad" "readable ptr j srclen"
    and "L = length dest + length (x # xs)"
  shows "dec_loop L ptr srclen (bitmask_at j) 0 dest = Dec_Ok (dest @ x # xs) L"
  using assms
proof (induction xs arbitrary: x ptr j srclen dest)
  case Nil
  obtain n where n: "walk 0 (symbol_bits x) = Some n" "huffdecodtab ! n = (unat x, 0)"
    using symbol_walk by blast
  obtain p1 j1 s1 where 1: "dec_loop L ptr srclen (bitmask_at j) 0 dest = dec_loop L p1 s1 (bitmask_at j1) n dest"
    "readable p1 j1 s1"
    using dec_loop_walk [OF n(1) Nil.prems(2), of pad L dest] Nil.prems(1) by auto
  with dec_loop_emit [OF 1(2) n(2), of L dest] Nil.prems(3) show ?case by auto
next
  case (Cons y ys)
  obtain n where n: "walk 0 (symbol_bits x) = Some n" "huffdecodtab ! n = (unat x, 0)"
    using symbol_walk by blast
  let ?r = "concat (map symbol_bits (y # ys)) @ pad"
  obtain p1 j1 s1 where 1: "dec_loop L ptr srclen (bitmask_at j) 0 dest = dec_loop L p1 s1 (bitmask_at j1) n dest"
    "readable p1 j1 s1" "ahead p1 j1 s1 = ?r"
    using dec_loop_walk [OF n(1) Cons.prems(2), of ?r L dest] Cons.prems(1) by auto
  have "\<not> L \<le> Suc (length dest)" "?r \<noteq> []"
    using Cons.prems(3) symbol_bits_nonempty by auto
  with dec_loop_emit [OF 1(2) n(2), of L dest] 1(3)
  obtain p2 j2 s2 where "dec_loop L p1 s1 (bitmask_at j1) n dest = dec_loop L p2 s2 (bitmask_at j2) 0 (dest @ [x])"
    "readable p2 j2 s2" "ahead p2 j2 s2 = ?r"
    by auto
  with 1(1) Cons.IH [of p2 j2 s2 y "dest @ [x]"] Cons.prems(3) show ?case by simp
qed

section \<open>Round trip\<close>

text \<open>C1: Decoding what the encoder wrote gives back the source, for every source of 1 to 255 bytes whose
  bytes are valid table indices. One more byte, whatever it is, must be readable behind the frame.
\<close>

theorem decode_encode:
  assumes "indexable char_signed src" "0 < srclen" "srclen \<le> length src" "srclen \<le> 255"
  shows "\<exists>d. encstathuf char_signed src srclen = Enc_Ok d \<and> length d \<le> srclen + 1 \<and>
             (\<forall>x rest. decstathuf (d @ x # rest) (length d) = Dec_Ok (take srclen src) srclen)"
proof -
  obtain d where d: "encstathuf char_signed src srclen = Enc_Ok d" "coded src srclen d"
    using encstathuf_coded [OF assms] by blast
  from d(2) consider (copy) "d = 255 # take srclen src"
    | (code) payload pad where "d = of_nat (srclen - 1) # payload" "payload \<noteq> []" "length payload \<le> srclen"
        "bits_of_bytes payload = concat (map symbol_bits (take srclen src)) @ pad"
    unfolding coded_def by blast
  then show ?thesis
  proof cases
    case copy
    then show ?thesis
      using d(1) assms by (simp add: decstathuf_def Let_def)
  next
    case code
    obtain x xs where src: "take srclen src = x # xs"
      using assms(2,3) by (cases "take srclen src") auto
    have len: "unat (of_nat (srclen - 1) :: byte) + 1 = srclen"
      unfolding unat_of_nat using assms(2,4) by simp
    have "decstathuf (d @ y # rest) (length d) = Dec_Ok (take srclen src) srclen" for y rest
    proof -
      have "ahead (payload @ y # rest) 0 (length payload) = concat (map symbol_bits (x # xs)) @ pad"
        using code(2,4) src by (cases payload) (auto simp: ahead_def)
      moreover have "length (x # xs) = srclen" using src assms(3) by (metis length_take min.absorb2)
      ultimately show ?thesis
        using dec_loop_symbols [of "payload @ y # rest" 0 "length payload" x xs pad srclen "[]"]
          code(1,2) len src assms(4)
        by (auto simp: decstathuf_def Let_def readable_def bitmask_0)
    qed
    then show ?thesis using d(1) code by auto
  qed
qed

theorem decode_encode_witness:
  "indexable True [72, 105] \<and>
   (\<exists>d. encstathuf True [72, 105] 2 = Enc_Ok d \<and> length d \<le> 2 + 1 \<and>
        (\<forall>x rest. decstathuf (d @ x # rest) (length d) = Dec_Ok (take 2 [72, 105]) 2))"
proof -
  have ix: "indexable True [72, 105]" by (simp add: indexable_def)
  then show ?thesis using decode_encode [of True "[72, 105]" 2] by simp
qed

section \<open>Memory safety of the decoder\<close>

text \<open>Every node index the decoder can reach is an index of its table.\<close>

lemma huffdecodtab_closed:
  "n < length huffdecodtab \<Longrightarrow>
   fst (huffdecodtab ! n) < length huffdecodtab \<and> snd (huffdecodtab ! n) < length huffdecodtab"
proof -
  have len: "length huffdecodtab = 513"
    by (simp add: huffdecodtab_def)
  have "list_all (\<lambda>e. fst e < 513 \<and> snd e < 513) huffdecodtab"
    by (simp add: huffdecodtab_def)
  then have "list_all (\<lambda>e. fst e < length huffdecodtab \<and> snd e < length huffdecodtab) huffdecodtab"
    unfolding len .
  then show "n < length huffdecodtab \<Longrightarrow> ?thesis" by (simp add: list_all_length)
qed

lemma dec_loop_safe:
  assumes "srclen < length ptr" "length dest < destlen"
  shows "dec_loop destlen ptr srclen bitmask decod dest = Dec_Error \<or>
         (\<exists>d. dec_loop destlen ptr srclen bitmask decod dest = Dec_Ok d destlen \<and> length d = destlen)"
  using assms
proof (induction destlen ptr srclen bitmask decod dest rule: dec_loop.induct)
  case (1 destlen ptr srclen bitmask decod dest)
  obtain b ptr' where ptr: "ptr = b # ptr'" using "1.prems"(1) by (cases ptr) auto
  show ?case
  proof (cases "0 < bitmask")
    case True
    define leaf where "leaf \<longleftrightarrow> snd (huffdecodtab ! decod) = 0"
    define m where "m = (if b AND bitmask \<noteq> 0 then snd (huffdecodtab ! decod) else fst (huffdecodtab ! decod))"
    let ?dest = "dest @ [of_nat (fst (huffdecodtab ! decod))]"
    have unfold: "dec_loop destlen ptr srclen bitmask decod dest =
       (if leaf then if destlen \<le> Suc (length dest) then Dec_Ok ?dest destlen
                     else dec_loop destlen ptr srclen bitmask 0 ?dest
        else dec_loop destlen ptr srclen (if m \<noteq> 0 then drop_bit 1 bitmask else bitmask) m dest)"
      unfolding dec_loop.simps [of destlen ptr srclen bitmask decod dest]
      using True ptr by (simp add: Let_def leaf_def m_def)
    show ?thesis
      unfolding unfold
      using "1.IH"(1) [OF True ptr] "1.IH"(2) [OF True ptr] "1.prems"
      by (auto simp: leaf_def m_def)
  next
    case False
    then show ?thesis
      using "1.IH"(3) "1.prems" by (subst (1 2) dec_loop.simps) auto
  qed
qed

text \<open>C22: Whatever bytes arrive, the decoder stops, reads at most one byte behind the frame, and writes
  exactly the announced number of bytes, at most 255.
\<close>

theorem decstathuf_safe:
  assumes "0 < srclen" "srclen < length src" "srclen \<le> 256"
  shows "decstathuf src srclen = Dec_Error \<or>
         (\<exists>d n. decstathuf src srclen = Dec_Ok d n \<and> length d = n \<and> n \<le> 255)"
proof -
  obtain b ptr where src: "src = b # ptr" using assms(2) by (cases src) auto
  have "unat b \<le> 255" using unat_byte_less [of b] by linarith
  moreover have "dec_loop (unat b + 1) ptr (srclen - 1) 0x80 0 [] = Dec_Error \<or>
         (\<exists>d. dec_loop (unat b + 1) ptr (srclen - 1) 0x80 0 [] = Dec_Ok d (unat b + 1) \<and> length d = unat b + 1)"
    by (rule dec_loop_safe) (use assms src in auto)
  ultimately show ?thesis
    using assms src by (auto simp: decstathuf_def Let_def)
qed

theorem decstathuf_safe_witness:
  "decstathuf [1, 0xc6, 0, 0] 3 = Dec_Error \<or>
   (\<exists>d n. decstathuf [1, 0xc6, 0, 0] 3 = Dec_Ok d n \<and> length d = n \<and> n \<le> 255)"
  using decstathuf_safe [of 3 "[1, 0xc6, 0, 0]"] by simp

text \<open>An 8-bit character as the first byte is a negative table index where \<^verbatim>\<open>char\<close> is
  signed.\<close>

theorem encstathuf_signed_undefined:
  assumes "src \<noteq> []" "128 \<le> uint (hd src)" "srclen \<le> 255"
  shows "encstathuf True src srclen = Enc_Undefined"
proof -
  obtain b src' where src: "src = b # src'" using assms(1) by (cases src) auto
  have "sint b \<le> uint b - 256"
    using assms(2) src signed_take_bit_int_less_eq [of 7 "uint b"] by (simp add: sint_uint)
  then have "sint b < 0" using uint_byte_less [of b] by linarith
  then have "\<not> 0 \<le> tab_index True b" by (simp add: tab_index_def)
  then show ?thesis
    using assms(3) src by (simp add: encstathuf_def huff_entry_def Let_def)
qed

theorem encstathuf_signed_undefined_witness: "encstathuf True [228, 104] 2 = Enc_Undefined"
  using encstathuf_signed_undefined [of "[228, 104]" 2] by simp

end
