(* ===== verification/Convert.thy ===== *)
theory Convert
  imports Prelude
begin

text \<open>
  \<^verbatim>\<open>convert.c\<close>: translation between the character sets of the clients. The table
  \<^verbatim>\<open>charset[CHARSETS][CHARS]\<close> gives, for each set and each of the 96 upper ISO 8859-1
  characters, the text of that character in the set, or nothing; the \<^verbatim>\<open>init_\<close> functions
  fill it, each at most once, and \<open>convert\<close> rewrites a string from one set to another.

  The table is contiguous memory: a write at index 96 of a row reaches the first cell of the next
  one, as in the C array (two of the initialisers do that).
\<close>

section \<open>Character sets\<close>

abbreviation (input) "ISO \<equiv> (0 :: int)"
abbreviation (input) "ISO_STRIPED \<equiv> (1 :: int)"
abbreviation (input) "CP1252 \<equiv> (2 :: int)"
abbreviation (input) "DUMB \<equiv> (3 :: int)"
abbreviation (input) "TeX \<equiv> (4 :: int)"
abbreviation (input) "IBM7 \<equiv> (5 :: int)"
abbreviation (input) "ROMAN8 \<equiv> (6 :: int)"
abbreviation (input) "IBMPC \<equiv> (7 :: int)"
abbreviation (input) "ATARI \<equiv> (8 :: int)"
abbreviation (input) "HTML \<equiv> (9 :: int)"
abbreviation (input) "MAC \<equiv> (10 :: int)"
abbreviation (input) "POSTSCRIPT \<equiv> (11 :: int)"
abbreviation (input) "BIN \<equiv> (255 :: int)"

definition CHARS :: nat where
  "CHARS = 96"

definition CHARSETS :: int where
  "CHARSETS = 12"

definition charsets :: "(string \<times> int) list" where
  "charsets = [
     (''iso'', ISO_STRIPED), (''iso-raw'', ISO), (''iso-8859-1'', ISO_STRIPED),
     (''iso-8859-15'', ISO_STRIPED), (''ansi'', ISO_STRIPED), (''8bit'', ISO),
     (''latin1'', ISO_STRIPED), (''ibmpc'', IBMPC), (''winlatin1'', CP1252),
     (''cp1252'', CP1252), (''cp850'', IBMPC), (''cp437'', IBMPC), (''html'', HTML),
     (''dumb'', DUMB), (''ascii'', DUMB), (''none'', DUMB), (''us'', DUMB), (''tex'', TeX),
     (''ibm7bit'', IBM7), (''7bit'', IBM7), (''commodore'', IBM7), (''c64'', IBM7),
     (''digicom'', IBM7), (''roman8'', ROMAN8), (''pc'', IBMPC), (''at'', IBMPC),
     (''xt'', IBMPC), (''atari'', ATARI), (''binary'', BIN), (''image'', BIN),
     (''macintosh'', MAC), (''mac'', MAC), (''postscript'', POSTSCRIPT), (''ps'', POSTSCRIPT)]"

text \<open>The table and the \<^verbatim>\<open>static int twice\<close> guards: the sets initialised so far.\<close>

record charset_state =
  cs_charset :: "int \<Rightarrow> nat \<Rightarrow> string option"
  cs_twice :: "int list"

definition once :: "int \<Rightarrow> (charset_state \<Rightarrow> charset_state) \<Rightarrow> charset_state \<Rightarrow> charset_state" where
  "once k f st =
     (if k \<in> set (cs_twice st) then st else f (st\<lparr>cs_twice := k # cs_twice st\<rparr>))"

text \<open>\<^verbatim>\<open>cpp[x] = v\<close> with \<^verbatim>\<open>cpp = charset[row]\<close>.\<close>

definition put :: "int \<Rightarrow> nat \<times> string \<Rightarrow> charset_state \<Rightarrow> charset_state" where
  "put row xv st =
     (case xv of (x, v) \<Rightarrow>
        let r = row + int (x div CHARS) in
        st\<lparr>cs_charset := (cs_charset st)(r := (cs_charset st r)(x mod CHARS := Some v))\<rparr>)"

text \<open>The macro \<^verbatim>\<open>CP(x, y)\<close>.\<close>

definition CP :: "nat \<times> nat \<Rightarrow> nat \<times> string" where
  "CP xy = (fst xy, [char_of (snd xy)])"

definition init_iso :: "charset_state \<Rightarrow> charset_state" where
  "init_iso = once ISO (fold (put ISO) (map (\<lambda>i. CP (i, 160 + i)) [0..<96]))"

definition init_iso_striped :: "charset_state \<Rightarrow> charset_state" where
  "init_iso_striped = once ISO_STRIPED (fold (put ISO_STRIPED) (map (\<lambda>i. CP (i, 160 + i)) [0..<96]))"

definition init_winlatin1 :: "charset_state \<Rightarrow> charset_state" where
  "init_winlatin1 = once CP1252
     (fold (put CP1252) (map (\<lambda>i. CP (i, 160 + i)) [0..<96] @ [CP (4, 0x80)]))"

definition dumb_tab :: "(nat \<times> string) list" where
  "dumb_tab = [
     (4, ''Euro''), (36, ''Ae''), (54, ''Oe''), (60, ''Ue''), (63, ''ss''), (68, ''ae''),
     (86, ''oe''), (92, ''ue'')]"

definition init_dumb :: "charset_state \<Rightarrow> charset_state" where
  "init_dumb = once DUMB (fold (put DUMB) dumb_tab)"

definition html_tab :: "(nat \<times> string) list" where
  "html_tab = [
     (4, ''&euro;''), (36, ''&Auml;''), (54, ''&Ouml;''), (60, ''&Uuml;''), (63, ''&szlig;''),
     (68, ''&auml;''), (86, ''&ouml;''), (92, ''&uuml;'')]"

definition init_html :: "charset_state \<Rightarrow> charset_state" where
  "init_html = once HTML (fold (put HTML) html_tab)"

definition tex_tab :: "(nat \<times> string) list" where
  "tex_tab = [
     (4, [CHR 0x5C] @ ''euro''), (36, [CHR 0x22] @ ''A''),
     (54, [CHR 0x22] @ ''O''), (60, [CHR 0x22] @ ''U''),
     (63, [CHR 0x22] @ ''s''), (68, [CHR 0x22] @ ''a''),
     (86, [CHR 0x22] @ ''o''), (92, [CHR 0x22] @ ''u'')]"

definition init_tex :: "charset_state \<Rightarrow> charset_state" where
  "init_tex = once TeX (fold (put TeX) tex_tab)"

definition ibm7_tab :: "(nat \<times> string) list" where
  "ibm7_tab = [
     (4, ''Euro''), (36, ''[''), (54, [CHR 0x5C]), (60, '']''), (63, ''~''),
     (68, ''{''), (86, ''|''), (92, ''}'')]"

definition init_ibm7 :: "charset_state \<Rightarrow> charset_state" where
  "init_ibm7 = once IBM7 (fold (put IBM7) ibm7_tab)"

definition roman8_tab :: "(nat \<times> nat) list" where
  "roman8_tab = [
     (0, 255), (1, 184), (2, 191), (3, 187), (4, 186), (5, 188), (7, 189), (8, 171),
     (10, 249), (11, 251), (13, 246), (15, 176), (16, 179), (17, 254), (20, 168), (26, 250),
     (27, 253), (28, 247), (29, 248), (31, 185), (32, 161), (33, 224), (34, 162), (35, 225),
     (36, 216), (37, 208), (38, 211), (39, 180), (40, 163), (41, 220), (42, 164), (43, 165),
     (44, 230), (45, 229), (46, 166), (47, 167), (48, 227), (49, 182), (50, 232), (51, 231),
     (52, 223), (53, 233), (54, 218), (56, 210), (57, 173), (58, 237), (59, 174), (60, 219),
     (62, 240), (63, 222), (64, 200), (65, 196), (66, 192), (67, 226), (68, 204), (69, 212),
     (70, 215), (71, 181), (72, 201), (73, 197), (74, 193), (75, 205), (76, 217), (77, 213),
     (78, 209), (79, 221), (80, 228), (81, 183), (82, 202), (83, 198), (84, 194), (85, 234),
     (86, 206), (88, 214), (89, 203), (90, 199), (91, 195), (92, 207), (94, 241), (95, 239),
     (96, 252)]"

definition init_roman8 :: "charset_state \<Rightarrow> charset_state" where
  "init_roman8 = once ROMAN8 (fold (put ROMAN8) (map CP roman8_tab))"

definition ibmpc_tab :: "(nat \<times> nat) list" where
  "ibmpc_tab = [
     (0, 255), (1, 173), (2, 155), (3, 156), (4, 213), (5, 157), (10, 166), (11, 174),
     (12, 170), (13, 196), (16, 248), (17, 241), (18, 253), (21, 230), (23, 249), (26, 167),
     (27, 175), (28, 172), (29, 171), (31, 168), (36, 142), (37, 143), (38, 146), (39, 128),
     (40, 144), (49, 165), (54, 153), (60, 154), (63, 225), (64, 133), (65, 160), (66, 131),
     (68, 132), (69, 134), (70, 145), (71, 135), (72, 138), (73, 130), (74, 136), (75, 137),
     (76, 141), (77, 161), (78, 140), (79, 139), (80, 229), (81, 164), (82, 149), (83, 162),
     (84, 147), (86, 148), (87, 246), (88, 237), (89, 151), (90, 163), (91, 150), (92, 129),
     (95, 152), (96, 254)]"

definition init_ibmpc :: "charset_state \<Rightarrow> charset_state" where
  "init_ibmpc = once IBMPC (fold (put IBMPC) (map CP ibmpc_tab))"

definition init_atari :: "charset_state \<Rightarrow> charset_state" where
  "init_atari = once ATARI (\<lambda>st.
     let st = init_ibmpc st;
         st = st\<lparr>cs_charset := (cs_charset st)(ATARI :=
                (\<lambda>i. if i < CHARS then cs_charset st IBMPC i else cs_charset st ATARI i))\<rparr>
     in put ATARI (CP (63, 0x9e)) st)"

definition mac_tab :: "(nat \<times> nat) list" where
  "mac_tab = [
     (36, 128), (37, 129), (39, 130), (41, 131), (49, 132), (54, 133), (60, 134), (65, 135),
     (64, 136), (66, 137), (68, 138), (67, 139), (69, 140), (71, 141), (73, 142), (72, 143),
     (74, 144), (75, 145), (77, 146), (76, 147), (78, 148), (79, 149), (81, 150), (83, 151),
     (82, 152), (84, 153), (86, 154), (85, 155), (90, 156), (89, 157), (91, 158), (92, 159),
     (16, 161), (2, 162), (3, 163), (7, 164), (22, 166), (63, 167), (14, 168), (9, 169),
     (20, 171), (8, 172), (38, 174), (56, 175), (17, 177), (5, 180), (21, 181), (10, 187),
     (26, 188), (70, 190), (88, 191), (31, 192), (1, 193), (12, 194), (11, 199), (27, 200),
     (32, 203), (35, 204), (53, 205), (10, 210), (26, 211), (87, 214), (95, 216)]"

definition init_mac :: "charset_state \<Rightarrow> charset_state" where
  "init_mac = once MAC (fold (put MAC) (map CP mac_tab))"

definition postscript_tab :: "(nat \<times> string) list" where
  "postscript_tab = [
     (38, ''AE''), (33, ''Aacute''), (34, ''Acircumflex''), (36, ''Adieresis''),
     (32, ''Agrave''), (37, ''Aring''), (35, ''Atilde''), (39, ''Ccedilla''),
     (41, ''Eacute''), (42, ''Ecircumflex''), (43, ''Edieresis''), (40, ''Egrave''),
     (48, ''Eth''), (45, ''Iacute''), (46, ''Icircumflex''), (47, ''Idieresis''),
     (44, ''Igrave''), (49, ''Ntilde''), (51, ''Oacute''), (52, ''Ocircumflex''),
     (54, ''Odieresis''), (50, ''Ograve''), (56, ''Oslash''), (53, ''Otilde''),
     (62, ''Thorn''), (58, ''Uacute''), (59, ''Ucircumflex''), (60, ''Udieresis''),
     (57, ''Ugrave''), (61, ''Yacute''), (65, ''aacute''), (66, ''acircumflex''),
     (20, ''acute''), (68, ''adieresis''), (64, ''agrave''), (69, ''aring''),
     (6, ''brokenbar''), (71, ''ccedilla''), (24, ''cedilla''), (2, ''cent''),
     (9, ''copyright''), (4, ''currency''), (16, ''degree''), (8, ''dieresis''),
     (87, ''divide''), (73, ''eacute''), (74, ''ecircumflex''), (75, ''edieresis''),
     (72, ''egrave''), (80, ''eth''), (1, ''exclamdown''), (63, ''germandbls''),
     (11, ''guillemotleft''), (27, ''guillemotright''), (13, ''hyphen''), (77, ''iacute''),
     (78, ''icircumflex''), (79, ''idieresis''), (76, ''igrave''), (12, ''logicalnot''),
     (15, ''macron''), (21, ''mu''), (55, ''multiply''), (81, ''ntilde''), (83, ''oacute''),
     (84, ''ocircumflex''), (86, ''odieresis''), (82, ''ograve''), (29, ''onehalf''),
     (28, ''onequarter''), (25, ''onesuperior''), (10, ''ordfeminine''),
     (26, ''ordmasculine''), (88, ''oslash''), (85, ''otilde''), (22, ''paragraph''),
     (23, ''periodcentered''), (17, ''plusminus''), (31, ''questiondown''),
     (14, ''registered''), (7, ''section''), (3, ''sterling''), (94, ''thorn''),
     (30, ''threequarters''), (19, ''threesuperior''), (18, ''twosuperior''),
     (90, ''uacute''), (91, ''ucircumflex''), (92, ''udieresis''), (89, ''ugrave''),
     (93, ''yaccute''), (95, ''ydieresis''), (5, ''yen'')]"

definition init_postscript :: "charset_state \<Rightarrow> charset_state" where
  "init_postscript = once POSTSCRIPT (fold (put POSTSCRIPT) postscript_tab)"

definition charset_init :: "charset_state \<Rightarrow> charset_state" where
  "charset_init = once (-1) (\<lambda>st.
     init_postscript (init_mac (init_html (init_atari (init_ibmpc (init_roman8 (init_ibm7
       (init_tex (init_dumb (init_winlatin1 (init_iso_striped (init_iso st))))))))))))"

text \<open>The static data at program start, and after \<^verbatim>\<open>charset_init()\<close>.\<close>

definition charset_boot :: charset_state where
  "charset_boot = \<lparr>cs_charset = (\<lambda>_ _. None), cs_twice = []\<rparr>"

definition charset :: "int \<Rightarrow> nat \<Rightarrow> string option" where
  "charset = cs_charset (charset_init charset_boot)"

section \<open>Names of character sets\<close>

definition get_charset_by_name :: "string \<Rightarrow> int" where
  "get_charset_by_name buf =
     (if buf = [] then ISO
      else case find (\<lambda>(name, ind). strneq name buf (length buf)) charsets of
             Some (name, ind) \<Rightarrow> ind | None \<Rightarrow> -1)"

definition get_charset_by_ind :: "int \<Rightarrow> string option" where
  "get_charset_by_ind ind = map_option fst (find (\<lambda>(name, i). i = ind) charsets)"

fun comma_list :: "string list \<Rightarrow> string" where
  "comma_list [] = []"
| "comma_list [n] = n"
| "comma_list (n # m # ns) = n @ '', '' @ comma_list (m # ns)"

definition list_charsets :: string where
  "list_charsets =
     concat (map (\<lambda>i. comma_list (map fst (filter (\<lambda>(name, ind). i = ind) charsets)) @ [CHR 0x0A])
       (map int [0..<12] @ [BIN]))"

section \<open>Conversion\<close>

definition MAXBUF :: nat where
  "MAXBUF = 2048"

text \<open>The first position whose text in the set is a prefix of the input.\<close>

definition find_pos :: "(nat \<Rightarrow> string option) \<Rightarrow> string \<Rightarrow> nat option" where
  "find_pos row p =
     find (\<lambda>pos. case row pos of None \<Rightarrow> False | Some cs \<Rightarrow> is_prefix cs p) [0..<CHARS]"

definition isupperalpha :: "string \<Rightarrow> bool" where
  "isupperalpha s = (case s of [] \<Rightarrow> False | c # _ \<Rightarrow> isalpha c \<and> isupper c)"

text \<open>The case rule of lines 849 to 854: \<open>buf\<close> ends with the text just written, \<open>p1\<close> is the
  input from \<^verbatim>\<open>p[1]\<close> on.\<close>

definition dumb_case :: "string \<Rightarrow> string \<Rightarrow> string" where
  "dumb_case buf p1 =
     (if isupperalpha p1 \<or>
         ((length buf = 2 \<or>
           (2 < length buf \<and> isupperalpha [buf ! (length buf - 2)] \<and> isupperalpha [buf ! (length buf - 3)])) \<and>
          (case p1 of [] \<Rightarrow> True | c # _ \<Rightarrow> \<not> isalnum c))
      then butlast buf @ [toupper (last buf)] else buf)"

text \<open>One turn of the loop of line 807: \<open>c # rest\<close> is the input from \<^verbatim>\<open>p\<close> on, \<open>buf\<close> what
  has been written. The result says whether the turn jumps to \<^verbatim>\<open>out\<close>, and gives the set of the
  input, the input after the turn, and the buffer. A byte between 0x80 and 0xa0 in ISO text changes
  the set to the PC set for the rest of the string.\<close>

definition convert_step ::
  "(int \<Rightarrow> nat \<Rightarrow> string option) \<Rightarrow> int \<Rightarrow> int \<Rightarrow> char \<Rightarrow> string \<Rightarrow> string \<Rightarrow> bool \<times> int \<times> string \<times> string" where
  "convert_step tab inp0 out c rest buf =
     (let inp = (if inp0 = ISO \<and> 0x80 < ccode c \<and> ccode c < 0xa0 then IBMPC else inp0) in
      if inp = TeX \<and> is_prefix [CHR 0x5C, CHR 0x22] (c # rest)
      then (False, inp, tl rest, buf)
      else
        case (if inp = TeX \<and> ccode c \<noteq> 34 then None
              else case find_pos (tab inp) (c # rest) of
                     None \<Rightarrow> None
                   | Some pos \<Rightarrow> map_option (\<lambda>cs. (pos, cs)) (tab out pos)) of
          None \<Rightarrow> (False, inp, rest, buf @ [c])
        | Some (pos, cs) \<Rightarrow>
            if inp = TeX \<and> rest = [] then (True, inp, rest, buf)
            else
              let len = (case tab inp pos of None \<Rightarrow> 0 | Some e \<Rightarrow> length e) - 1;
                  p1 = (if inp = TeX then tl rest
                        else if inp = POSTSCRIPT \<or> inp = HTML then drop len rest
                        else rest)
              in
              if cs \<noteq> [] \<and> MAXBUF - 1 \<le> length buf + length cs
              then (True, inp, p1, take (MAXBUF - 1) (buf @ cs))
              else (False, inp, p1, if out = DUMB then dumb_case (buf @ cs) p1 else buf @ cs))"

function convert_loop :: "(int \<Rightarrow> nat \<Rightarrow> string option) \<Rightarrow> int \<Rightarrow> int \<Rightarrow> string \<Rightarrow> string \<Rightarrow> string" where
  "convert_loop tab inp out p buf =
     (case p of
        [] \<Rightarrow> buf
      | c # rest \<Rightarrow>
          if MAXBUF - 1 \<le> length buf then buf
          else case convert_step tab inp out c rest buf of
                 (True, inp', p', buf') \<Rightarrow> buf'
               | (False, inp', p', buf') \<Rightarrow> convert_loop tab inp' out p' buf')"
  by pat_completeness auto

lemma convert_step_rest:
  "convert_step tab inp out c rest buf = (stop, inp', p', buf') \<Longrightarrow> length p' \<le> length rest"
  by (auto simp: convert_step_def Let_def split: if_splits option.splits)

termination convert_loop
  by (relation "measure (\<lambda>(tab, inp, out, p, buf). length p)")
    (auto dest: convert_step_rest [OF sym])

declare convert_loop.simps [simp del]

text \<open>The copy back of lines 866 to 888.\<close>

definition strip_char :: "char \<Rightarrow> char" where
  "strip_char c =
     (if (ccode c < 32 \<and> ccode c \<noteq> 7 \<and> 2 \<le> ccode c) \<or> (0x80 < ccode c \<and> ccode c < 0xa0)
      then if ccode c = 13 \<or> ccode c = 10 \<or> ccode c = 32 then c
           else if ccode c = 9 then CHR '' '' else CHR ''.''
      else c)"

definition convert :: "(int \<Rightarrow> nat \<Rightarrow> string option) \<Rightarrow> int \<Rightarrow> int \<Rightarrow> string \<Rightarrow> string" where
  "convert tab inp out string =
     (if inp = BIN \<or> inp = DUMB \<or> inp = out then string
      else if inp < 0 \<or> out < 0 \<or> CHARSETS - 1 < inp \<or> CHARSETS - 1 < out then string
      else let buf = convert_loop tab inp out string [] in
           if out = ISO_STRIPED then map strip_char buf else buf)"

section \<open>The initialised table\<close>

lemma fold_put:
  "\<forall>xv\<in>set ps. fst xv < CHARS \<Longrightarrow>
   fold (put row) ps st =
     st\<lparr>cs_charset := (cs_charset st)(row := cs_charset st row ++ map_of (rev ps))\<rparr>"
proof (induction ps arbitrary: st)
  case Nil
  then show ?case by simp
next
  case (Cons xv ps)
  obtain x v where xv: "xv = (x, v)" by force
  have x: "x < CHARS" using Cons.prems xv by simp
  have "fold (put row) (xv # ps) st = fold (put row) ps (put row xv st)" by simp
  also have "\<dots> = (put row xv st)\<lparr>cs_charset := (cs_charset (put row xv st))
      (row := cs_charset (put row xv st) row ++ map_of (rev ps))\<rparr>"
    by (rule Cons.IH) (use Cons.prems in simp)
  also have "\<dots> = st\<lparr>cs_charset := (cs_charset st)(row := cs_charset st row ++ map_of (rev (xv # ps)))\<rparr>"
    using x by (simp add: put_def xv Let_def)
  finally show ?case .
qed

lemma put_over: "put row (CHARS, v) st =
    st\<lparr>cs_charset := (cs_charset st)(row + 1 := (cs_charset st (row + 1))(0 := Some v))\<rparr>"
  by (simp add: put_def CHARS_def Let_def)

lemma tabs_in_row:
  "list_all (\<lambda>xv. fst xv < CHARS) dumb_tab" "list_all (\<lambda>xv. fst xv < CHARS) html_tab"
  "list_all (\<lambda>xv. fst xv < CHARS) tex_tab" "list_all (\<lambda>xv. fst xv < CHARS) ibm7_tab"
  "list_all (\<lambda>xv. fst xv < CHARS) mac_tab" "list_all (\<lambda>xv. fst xv < CHARS) postscript_tab"
  "list_all (\<lambda>xv. fst xv < CHARS) (butlast roman8_tab)"
  "list_all (\<lambda>xv. fst xv < CHARS) (butlast ibmpc_tab)"
  by (simp_all add: dumb_tab_def html_tab_def tex_tab_def ibm7_tab_def mac_tab_def postscript_tab_def
      roman8_tab_def ibmpc_tab_def CHARS_def)

lemma tabs_overflow:
  "roman8_tab = butlast roman8_tab @ [(CHARS, 252)]"
  "ibmpc_tab = butlast ibmpc_tab @ [(CHARS, 254)]"
  by (simp_all add: roman8_tab_def ibmpc_tab_def CHARS_def)

lemma fold_put_CP:
  assumes "list_all (\<lambda>xv. fst xv < CHARS) ps"
  shows "fold (put row) (map CP ps) st =
     st\<lparr>cs_charset := (cs_charset st)(row := cs_charset st row ++ map_of (rev (map CP ps)))\<rparr>"
  by (rule fold_put) (use assms in \<open>auto simp: list_all_iff CP_def\<close>)

lemma fold_put_over:
  assumes "list_all (\<lambda>xv. fst xv < CHARS) (butlast ps)" "ps = butlast ps @ [(CHARS, w)]"
  shows "fold (put row) (map CP ps) st =
     st\<lparr>cs_charset := (cs_charset st)(row := cs_charset st row ++ map_of (rev (map CP (butlast ps))),
        row + 1 := (cs_charset st (row + 1))(0 := Some [char_of w]))\<rparr>"
proof -
  have "fold (put row) (map CP ps) st = put row (CHARS, [char_of w]) (fold (put row) (map CP (butlast ps)) st)"
    by (subst assms(2)) (simp add: CP_def)
  then show ?thesis by (simp add: fold_put_CP [OF assms(1)] put_over)
qed

lemma map_of_iso:
  "map_of (rev (map (\<lambda>i. CP (i, 160 + i)) [0..<96])) = (\<lambda>i. if i < 96 then Some [char_of (160 + i)] else None)"
proof -
  have d: "distinct (map fst (map (\<lambda>i. CP (i, 160 + i)) [0..<96]))"
    by (simp add: CP_def comp_def)
  show ?thesis
  proof
    fix i
    show "map_of (rev (map (\<lambda>i. CP (i, 160 + i)) [0..<96])) i = (if i < 96 then Some [char_of (160 + i)] else None)"
    proof (cases "i < 96")
      case True
      then have "(i, [char_of (160 + i)]) \<in> set (map (\<lambda>i. CP (i, 160 + i)) [0..<96])"
        by (force simp: CP_def)
      then have "(i, [char_of (160 + i)]) \<in> set (rev (map (\<lambda>i. CP (i, 160 + i)) [0..<96]))"
        unfolding set_rev .
      moreover have "distinct (map fst (rev (map (\<lambda>i. CP (i, 160 + i)) [0..<96])))"
        unfolding rev_map [symmetric] distinct_rev by (rule d)
      ultimately show ?thesis using True by (simp only: map_of_is_SomeI if_True)
    next
      case False
      then show ?thesis by (auto simp: map_of_eq_None_iff CP_def)
    qed
  qed
qed

definition iso_row :: "nat \<Rightarrow> string option" where
  "iso_row i = (if i < CHARS then Some [char_of (160 + i)] else None)"

lemma iso_in_row: "\<forall>xv\<in>set (map (\<lambda>i. CP (i, 160 + i)) [0..<96]). fst xv < CHARS"
  by (simp add: CP_def CHARS_def)

lemma fold_put_iso:
  "fold (put row) (map (\<lambda>i. CP (i, 160 + i)) [0..<96]) st =
     st\<lparr>cs_charset := (cs_charset st)(row := cs_charset st row ++ iso_row)\<rparr>"
  unfolding fold_put [OF iso_in_row] map_of_iso by (simp add: iso_row_def [abs_def] CHARS_def)


text \<open>Initialising a set that has not been initialised adds its row to the table.\<close>

definition add_row :: "int \<Rightarrow> (nat \<Rightarrow> string option) \<Rightarrow> charset_state \<Rightarrow> charset_state" where
  "add_row k m st = st\<lparr>cs_charset := (cs_charset st)(k := cs_charset st k ++ m)\<rparr>"

definition mark :: "int \<Rightarrow> charset_state \<Rightarrow> charset_state" where
  "mark k st = st\<lparr>cs_twice := k # cs_twice st\<rparr>"

lemma add_row_simps [simp]:
  "cs_charset (add_row k m st) j = (if j = k then cs_charset st k ++ m else cs_charset st j)"
  "cs_twice (add_row k m st) = cs_twice st"
  "cs_charset (mark k st) = cs_charset st"
  "cs_twice (mark k st) = k # cs_twice st"
  by (simp_all add: add_row_def mark_def)

lemma once_mark: "once k f st = (if k \<in> set (cs_twice st) then st else f (mark k st))"
  by (simp add: once_def mark_def)

lemma init_rows:
  "init_iso = once ISO (add_row ISO iso_row)"
  "init_iso_striped = once ISO_STRIPED (add_row ISO_STRIPED iso_row)"
  "init_winlatin1 = once CP1252 (\<lambda>st. add_row CP1252 [4 \<mapsto> [char_of (0x80 :: nat)]] (add_row CP1252 iso_row st))"
  "init_dumb = once DUMB (add_row DUMB (map_of (rev dumb_tab)))"
  "init_html = once HTML (add_row HTML (map_of (rev html_tab)))"
  "init_tex = once TeX (add_row TeX (map_of (rev tex_tab)))"
  "init_ibm7 = once IBM7 (add_row IBM7 (map_of (rev ibm7_tab)))"
  "init_mac = once MAC (add_row MAC (map_of (rev (map CP mac_tab))))"
  "init_postscript = once POSTSCRIPT (add_row POSTSCRIPT (map_of (rev postscript_tab)))"
  "init_roman8 = once ROMAN8 (\<lambda>st. add_row IBMPC [0 \<mapsto> [char_of (252 :: nat)]]
     (add_row ROMAN8 (map_of (rev (map CP (butlast roman8_tab)))) st))"
  "init_ibmpc = once IBMPC (\<lambda>st. add_row ATARI [0 \<mapsto> [char_of (254 :: nat)]]
     (add_row IBMPC (map_of (rev (map CP (butlast ibmpc_tab)))) st))"
proof -
  show "init_iso = once ISO (add_row ISO iso_row)"
    by (simp only: init_iso_def fold_put_iso [abs_def] add_row_def [abs_def] fun_eq_iff once_mark simp_thms)
  show "init_iso_striped = once ISO_STRIPED (add_row ISO_STRIPED iso_row)"
    by (simp only: init_iso_striped_def fold_put_iso [abs_def] add_row_def [abs_def] fun_eq_iff once_mark simp_thms)
  show "init_winlatin1 = once CP1252 (\<lambda>st. add_row CP1252 [4 \<mapsto> [char_of (0x80 :: nat)]] (add_row CP1252 iso_row st))"
    unfolding init_winlatin1_def fold_append comp_def fold_put_iso
    by (simp add: fun_eq_iff once_mark add_row_def put_def CP_def CHARS_def Let_def)
  show "init_dumb = once DUMB (add_row DUMB (map_of (rev dumb_tab)))"
    using fold_put [OF tabs_in_row(1) [unfolded list_all_iff]]
    by (simp add: init_dumb_def add_row_def [abs_def] fun_eq_iff once_mark)
  show "init_html = once HTML (add_row HTML (map_of (rev html_tab)))"
    using fold_put [OF tabs_in_row(2) [unfolded list_all_iff]]
    by (simp add: init_html_def add_row_def [abs_def] fun_eq_iff once_mark)
  show "init_tex = once TeX (add_row TeX (map_of (rev tex_tab)))"
    using fold_put [OF tabs_in_row(3) [unfolded list_all_iff]]
    by (simp add: init_tex_def add_row_def [abs_def] fun_eq_iff once_mark)
  show "init_ibm7 = once IBM7 (add_row IBM7 (map_of (rev ibm7_tab)))"
    using fold_put [OF tabs_in_row(4) [unfolded list_all_iff]]
    by (simp add: init_ibm7_def add_row_def [abs_def] fun_eq_iff once_mark)
  show "init_mac = once MAC (add_row MAC (map_of (rev (map CP mac_tab))))"
    using fold_put_CP [OF tabs_in_row(5)]
    by (simp add: init_mac_def add_row_def [abs_def] fun_eq_iff once_mark)
  show "init_postscript = once POSTSCRIPT (add_row POSTSCRIPT (map_of (rev postscript_tab)))"
    using fold_put [OF tabs_in_row(6) [unfolded list_all_iff]]
    by (simp add: init_postscript_def add_row_def [abs_def] fun_eq_iff once_mark)
  show "init_roman8 = once ROMAN8 (\<lambda>st. add_row IBMPC [0 \<mapsto> [char_of (252 :: nat)]]
     (add_row ROMAN8 (map_of (rev (map CP (butlast roman8_tab)))) st))"
    using fold_put_over [OF tabs_in_row(7) tabs_overflow(1), of ROMAN8]
    by (simp add: init_roman8_def add_row_def fun_eq_iff once_mark)
  show "init_ibmpc = once IBMPC (\<lambda>st. add_row ATARI [0 \<mapsto> [char_of (254 :: nat)]]
     (add_row IBMPC (map_of (rev (map CP (butlast ibmpc_tab)))) st))"
    using fold_put_over [OF tabs_in_row(8) tabs_overflow(2), of IBMPC]
    by (simp add: init_ibmpc_def add_row_def fun_eq_iff once_mark)
qed

lemma map_add_none [simp]: "(\<lambda>_. None) ++ m = m"
  by (simp add: map_add_def fun_eq_iff split: option.split)

lemma init_atari_row:
  "init_atari = once ATARI (\<lambda>st. let st = init_ibmpc st in
     add_row ATARI [63 \<mapsto> [char_of (0x9e :: nat)]]
      (st\<lparr>cs_charset := (cs_charset st)(ATARI :=
                (\<lambda>i. if i < CHARS then cs_charset st IBMPC i else cs_charset st ATARI i))\<rparr>))"
  by (simp add: init_atari_def fun_eq_iff once_mark Let_def add_row_def put_def CP_def CHARS_def)



lemma charset_boot_simps [simp]: "cs_twice charset_boot = []" "cs_charset charset_boot = (\<lambda>_ _. None)"
  by (simp_all add: charset_boot_def)

text \<open>The first cell of the PC row before and after \<^verbatim>\<open>init_ibmpc\<close>: the overlong write of
  \<^verbatim>\<open>init_roman8\<close> is overwritten.\<close>

definition ibmpc_row :: "nat \<Rightarrow> string option" where
  "ibmpc_row = [0 \<mapsto> [char_of (252 :: nat)]] ++ map_of (rev (map CP (butlast ibmpc_tab)))"

definition atari_row :: "nat \<Rightarrow> string option" where
  "atari_row = (\<lambda>i. if i < CHARS then ibmpc_row i else None)(63 \<mapsto> [char_of (0x9e :: nat)])"

lemma init_first:
  "init_ibm7 (init_tex (init_dumb (init_winlatin1 (init_iso_striped (init_iso (mark (-1) charset_boot)))))) =
   add_row 5 (map_of (rev ibm7_tab)) (mark 5
  (add_row 4 (map_of (rev tex_tab)) (mark 4
  (add_row 3 (map_of (rev dumb_tab)) (mark 3
  (add_row 2 [4 \<mapsto> [char_of (0x80 :: nat)]] (add_row 2 iso_row (mark 2
  (add_row 1 iso_row (mark 1 (add_row 0 iso_row (mark 0 (mark (-1) charset_boot)))))))))))))"
  by (simp add: init_rows once_mark)

lemma init_pc:
  assumes "cs_twice st = [5, 4, 3, 2, 1, 0, -1]" "\<forall>k\<ge>6. cs_charset st k = (\<lambda>_. None)"
  defines "st' \<equiv> init_atari (init_ibmpc (init_roman8 st))"
  shows "cs_twice st' = [8, 7, 6, 5, 4, 3, 2, 1, 0, -1]"
    "\<And>k. k < 6 \<Longrightarrow> cs_charset st' k = cs_charset st k"
    "\<And>k. 9 \<le> k \<Longrightarrow> cs_charset st' k = (\<lambda>_. None)"
    "cs_charset st' ROMAN8 = map_of (rev (map CP (butlast roman8_tab)))"
    "cs_charset st' IBMPC = ibmpc_row"
    "cs_charset st' ATARI = atari_row"
proof -
  show "cs_charset st' ATARI = atari_row"
  proof
    fix i
    show "cs_charset st' ATARI i = atari_row i"
      using assms(1,2)
      by (cases "i < CHARS") (simp_all add: st'_def init_rows init_atari_row once_mark Let_def
          ibmpc_row_def atari_row_def CHARS_def)
  qed
qed (use assms(1,2) in \<open>simp_all add: st'_def init_rows init_atari_row once_mark Let_def ibmpc_row_def\<close>)

text \<open>The rows of the initialised table.\<close>

lemma charset_rows:
  "charset ISO = iso_row" "charset ISO_STRIPED = iso_row"
  "charset CP1252 = iso_row(4 \<mapsto> [char_of (0x80 :: nat)])"
  "charset DUMB = map_of (rev dumb_tab)" "charset TeX = map_of (rev tex_tab)"
  "charset IBM7 = map_of (rev ibm7_tab)" "charset HTML = map_of (rev html_tab)"
  "charset MAC = map_of (rev (map CP mac_tab))" "charset POSTSCRIPT = map_of (rev postscript_tab)"
  "charset ROMAN8 = map_of (rev (map CP (butlast roman8_tab)))"
  "charset IBMPC = ibmpc_row" "charset ATARI = atari_row"
proof -
  define st where "st = init_ibm7 (init_tex (init_dumb (init_winlatin1 (init_iso_striped (init_iso (mark (-1) charset_boot))))))"
  define st' where "st' = init_atari (init_ibmpc (init_roman8 st))"
  have tw: "cs_twice st = [5, 4, 3, 2, 1, 0, -1]" by (simp add: st_def init_first)
  have none: "\<forall>k\<ge>6. cs_charset st k = (\<lambda>_. None)" by (simp add: st_def init_first)
  note pc = init_pc [OF tw none, folded st'_def]
  have cs: "charset = cs_charset (init_postscript (init_mac (init_html st')))"
    by (simp add: charset_def charset_init_def once_mark st'_def st_def)
  have hi: "charset k = cs_charset st' k" if "k < 9" for k
    using pc(1) that by (simp add: cs init_rows once_mark)
  have lo: "charset k = cs_charset st k" if "k < 6" for k
    using pc(2) [OF that] hi [of k] that by simp
  show "charset ISO = iso_row" "charset ISO_STRIPED = iso_row"
    "charset CP1252 = iso_row(4 \<mapsto> [char_of (0x80 :: nat)])"
    "charset DUMB = map_of (rev dumb_tab)" "charset TeX = map_of (rev tex_tab)"
    "charset IBM7 = map_of (rev ibm7_tab)"
    by (simp_all add: lo st_def init_first)
  show "charset ROMAN8 = map_of (rev (map CP (butlast roman8_tab)))"
    "charset IBMPC = ibmpc_row" "charset ATARI = atari_row"
    by (simp_all add: hi pc(4-6))
  show "charset HTML = map_of (rev html_tab)" "charset MAC = map_of (rev (map CP mac_tab))"
    "charset POSTSCRIPT = map_of (rev postscript_tab)"
    using pc(1,3) by (simp_all add: cs init_rows once_mark)
qed

section \<open>Single-byte sets\<close>

text \<open>The interface the conversion needs of a set that codes each character in one byte above
  ASCII: its texts are single bytes, and no two positions share one.\<close>

locale byte_charset =
  fixes row :: "nat \<Rightarrow> string option"
  assumes single: "i < CHARS \<Longrightarrow> row i = Some e \<Longrightarrow> \<exists>c. e = [c] \<and> 128 \<le> ccode c"
    and unique: "i < CHARS \<Longrightarrow> j < CHARS \<Longrightarrow> row i = Some e \<Longrightarrow> row j = Some e \<Longrightarrow> i = j"
begin

lemma find_pos_ascii:
  assumes "ccode c < 128"
  shows "find_pos row (c # p) = None"
proof -
  have "(case row i of None \<Rightarrow> False | Some cs \<Rightarrow> is_prefix cs (c # p)) = False" if "i < CHARS" for i
    using single [OF that] assms by (cases "row i") auto
  then show ?thesis by (simp add: find_pos_def find_None_iff)
qed

lemma find_pos_entry:
  assumes "i < CHARS" "row i = Some [c]"
  shows "find_pos row (c # p) = Some i"
proof -
  have m: "(case row j of None \<Rightarrow> False | Some cs \<Rightarrow> is_prefix cs (c # p)) \<longleftrightarrow> j = i" if "j < CHARS" for j
  proof (cases "row j")
    case None
    then show ?thesis using assms by auto
  next
    case (Some e)
    then obtain d where d: "e = [d]" using single [OF \<open>j < CHARS\<close>] by blast
    have "j = i" if "d = c" using unique [OF \<open>j < CHARS\<close> assms(1), of "[c]"] assms(2) Some d that by simp
    with Some d assms(2) show ?thesis by auto
  qed
  show ?thesis
    unfolding find_pos_def find_Some_iff
    using m assms(1) by (intro exI [of _ i]) (simp add: less_le_not_le)
qed

lemma find_pos_head: "find_pos row (c # p) = find_pos row [c]"
proof -
  have "(case row i of None \<Rightarrow> False | Some cs \<Rightarrow> is_prefix cs (c # p)) =
        (case row i of None \<Rightarrow> False | Some cs \<Rightarrow> is_prefix cs [c])" if "i < CHARS" for i
    using single [OF that] by (cases "row i") auto
  then show ?thesis unfolding find_pos_def by (intro find_cong) auto
qed

lemma find_pos_SomeD:
  assumes "find_pos row [c] = Some i"
  shows "i < CHARS" "row i = Some [c]"
proof -
  from assms obtain k where k: "k < length [0..<CHARS]" "i = [0..<CHARS] ! k"
    "case row i of None \<Rightarrow> False | Some cs \<Rightarrow> is_prefix cs [c]"
    unfolding find_pos_def find_Some_iff by blast
  then show "i < CHARS" by simp
  from k(3) obtain e where e: "row i = Some e" "is_prefix e [c]" by (auto split: option.splits)
  with single [OF \<open>i < CHARS\<close>] show "row i = Some [c]" by auto
qed

end

text \<open>What the conversion between two such sets does to one character.\<close>

definition translate :: "(nat \<Rightarrow> string option) \<Rightarrow> (nat \<Rightarrow> string option) \<Rightarrow> char \<Rightarrow> char" where
  "translate src dst c =
     (case find_pos src [c] of None \<Rightarrow> c
      | Some pos \<Rightarrow> (case dst pos of None \<Rightarrow> c | Some e \<Rightarrow> hd e))"

locale byte_conversion = src: byte_charset "tab inp" + dst: byte_charset "tab out"
  for tab :: "int \<Rightarrow> nat \<Rightarrow> string option" and inp out :: int +
  assumes plain_in: "inp \<noteq> TeX" "inp \<noteq> POSTSCRIPT" "inp \<noteq> HTML" and plain_out: "out \<noteq> DUMB"
begin

lemma convert_loop_translate:
  assumes "inp = ISO \<longrightarrow> list_all (\<lambda>c. \<not> (0x80 < ccode c \<and> ccode c < 0xa0)) p" "length buf + length p < MAXBUF"
  shows "convert_loop tab inp out p buf = buf @ map (translate (tab inp) (tab out)) p"
  using assms
proof (induction p arbitrary: buf)
  case Nil
  then show ?case by (subst convert_loop.simps) simp
next
  case (Cons c p)
  have keep: "(if inp = ISO \<and> 0x80 < ccode c \<and> ccode c < 0xa0 then IBMPC else inp) = inp"
    using Cons.prems(1) by simp
  have room: "\<not> MAXBUF - Suc 0 \<le> length buf" using Cons.prems(2) by simp
  have step: "convert_loop tab inp out p (buf @ [d]) = (buf @ [d]) @ map (translate (tab inp) (tab out)) p" for d
    by (rule Cons.IH) (use Cons.prems in auto)
  show ?case
  proof (cases "case find_pos (tab inp) [c] of None \<Rightarrow> None | Some pos \<Rightarrow> map_option (\<lambda>cs. (pos, cs)) (tab out pos)")
    case None
    then have "translate (tab inp) (tab out) c = c" by (auto simp: translate_def split: option.splits)
    with None show ?thesis
      by (subst convert_loop.simps)
        (simp add: convert_step_def keep room plain_in src.find_pos_head [of c p] step Let_def)
  next
    case (Some pc)
    then obtain pos cs where ps: "find_pos (tab inp) [c] = Some pos" "tab out pos = Some cs" "pc = (pos, cs)"
      by (auto split: option.splits)
    obtain d where d: "cs = [d]" using dst.single [OF src.find_pos_SomeD(1) [OF ps(1)] ps(2)] by blast
    have "translate (tab inp) (tab out) c = d" using ps d by (simp add: translate_def)
    moreover have "\<not> MAXBUF - 1 \<le> length buf + length cs"
      if "p \<noteq> []" using Cons.prems(2) d that by (cases p) auto
    ultimately show ?thesis
      using Some ps d Cons.prems(2)
      by (subst convert_loop.simps)
        (auto simp: convert_step_def keep room plain_in plain_out src.find_pos_head [of c p] step Let_def
          convert_loop.simps [of tab inp out "[]"])
  qed
qed

text \<open>There and back again, where every character has a text in both sets.\<close>

lemma translate_back:
  assumes "ccode c < 128 \<or> (\<exists>pos<CHARS. tab inp pos = Some [c] \<and> tab out pos \<noteq> None)"
  shows "translate (tab out) (tab inp) (translate (tab inp) (tab out) c) = c"
  using assms
proof
  assume "ccode c < 128"
  then show ?thesis by (simp add: translate_def src.find_pos_ascii dst.find_pos_ascii)
next
  assume "\<exists>pos<CHARS. tab inp pos = Some [c] \<and> tab out pos \<noteq> None"
  then obtain pos e where pos: "pos < CHARS" "tab inp pos = Some [c]" "tab out pos = Some e" by blast
  then obtain d where d: "e = [d]" using dst.single by blast
  have "translate (tab inp) (tab out) c = d"
    using src.find_pos_entry [OF pos(1,2)] pos(3) d by (simp add: translate_def)
  moreover have "translate (tab out) (tab inp) d = c"
    using dst.find_pos_entry [of pos d] pos d by (simp add: translate_def)
  ultimately show ?thesis by simp
qed

end

section \<open>The sets of the table\<close>

lemma byte_charset_map_of:
  assumes "list_all (\<lambda>xy. 128 \<le> snd xy \<and> snd xy < 256) ps" "distinct (map snd ps)"
  shows "byte_charset (map_of (rev (map CP ps)))"
proof
  fix i e
  assume "map_of (rev (map CP ps)) i = Some e"
  then have "(i, e) \<in> set (map CP ps)" by (auto dest: map_of_SomeD)
  then obtain y where "(i, y) \<in> set ps" "e = [char_of y]" by (auto simp: CP_def)
  with assms(1) show "\<exists>c. e = [c] \<and> 128 \<le> ccode c" by (auto simp: list_all_iff)
next
  fix i j e
  assume "map_of (rev (map CP ps)) i = Some e" "map_of (rev (map CP ps)) j = Some e"
  then have "(i, e) \<in> set (map CP ps)" "(j, e) \<in> set (map CP ps)" by (auto dest: map_of_SomeD)
  then obtain y z where yz: "(i, y) \<in> set ps" "(j, z) \<in> set ps" "char_of y = (char_of z :: char)"
    by (auto simp: CP_def)
  then have "y < 256" "z < 256" using assms(1) by (auto simp: list_all_iff)
  with yz(3) have "y = z" by (metis of_char_of mod_less)
  moreover have "inj_on snd (set ps)" using assms(2) by (simp add: distinct_map)
  ultimately have "(i, y) = (j, z)" using inj_onD [of snd "set ps" "(i, y)" "(j, z)"] yz(1,2) by simp
  then show "i = j" by simp
qed

interpretation roman8: byte_charset "charset ROMAN8"
  unfolding charset_rows by (rule byte_charset_map_of) (simp_all add: roman8_tab_def)

interpretation mac: byte_charset "charset MAC"
  unfolding charset_rows by (rule byte_charset_map_of) (simp_all add: mac_tab_def)

lemma ibmpc_row_eq: "ibmpc_row = map_of (rev (map CP (butlast ibmpc_tab)))"
proof -
  have "map_of (rev (map CP (butlast ibmpc_tab))) 0 = Some [char_of (255 :: nat)]"
    by (simp add: ibmpc_tab_def CP_def)
  then show ?thesis by (auto simp: ibmpc_row_def map_add_def fun_eq_iff split: option.splits)
qed

interpretation ibmpc: byte_charset "charset IBMPC"
  unfolding charset_rows ibmpc_row_eq by (rule byte_charset_map_of) (simp_all add: ibmpc_tab_def)

interpretation iso: byte_charset "charset ISO"
proof
  fix i j e
  show "charset ISO i = Some e \<Longrightarrow> \<exists>c. e = [c] \<and> 128 \<le> ccode c" if "i < CHARS"
    using that by (auto simp: charset_rows iso_row_def CHARS_def)
  assume ij: "i < CHARS" "j < CHARS" "charset ISO i = Some e" "charset ISO j = Some e"
  then have "[char_of (160 + i)] = e" "[char_of (160 + j)] = e" by (simp_all add: charset_rows iso_row_def)
  then have "ccode (char_of (160 + i)) = ccode (char_of (160 + j))" by (metis list.inject)
  then have "(160 + i) mod 256 = (160 + j) mod 256" unfolding of_char_of .
  with ij(1,2) show "i = j" by (simp add: CHARS_def)
qed

interpretation atari: byte_charset "charset ATARI"
proof
  have no: "charset IBMPC i \<noteq> Some [char_of (0x9e :: nat)]" for i
  proof
    assume "charset IBMPC i = Some [char_of (0x9e :: nat)]"
    then have "(i, [char_of (0x9e :: nat)]) \<in> set (map CP (butlast ibmpc_tab))"
      unfolding charset_rows ibmpc_row_eq by (auto dest: map_of_SomeD)
    then show False by (auto simp: ibmpc_tab_def CP_def)
  qed
  fix i j e
  show "charset ATARI i = Some e \<Longrightarrow> \<exists>c. e = [c] \<and> 128 \<le> ccode c" if "i < CHARS"
    using that ibmpc.single [OF that] by (auto simp: charset_rows atari_row_def split: if_splits)
  assume ij: "i < CHARS" "j < CHARS" "charset ATARI i = Some e" "charset ATARI j = Some e"
  then show "i = j"
    using ibmpc.unique [OF ij(1,2)] no [of i] no [of j]
    by (auto simp: charset_rows atari_row_def split: if_splits)
qed


section \<open>Properties\<close>

definition byte_sets :: "int list" where
  "byte_sets = [ROMAN8, IBMPC, ATARI, MAC]"

lemma byte_conversion_iso:
  "k \<in> set byte_sets \<Longrightarrow> byte_conversion charset ISO k"
  "k \<in> set byte_sets \<Longrightarrow> byte_conversion charset k ISO"
  by (auto simp: byte_sets_def byte_conversion_def byte_conversion_axioms_def
      intro: roman8.byte_charset_axioms ibmpc.byte_charset_axioms atari.byte_charset_axioms
        mac.byte_charset_axioms iso.byte_charset_axioms)

lemma convert_translate:
  assumes "k \<in> set byte_sets" "length s < MAXBUF"
  shows "list_all (\<lambda>c. \<not> (0x80 < ccode c \<and> ccode c < 0xa0)) s \<Longrightarrow>
      convert charset ISO k s = map (translate (charset ISO) (charset k)) s"
    "convert charset k ISO s = map (translate (charset k) (charset ISO)) s"
proof -
  have k: "k \<in> {6, 7, 8, 10}" using assms(1) by (auto simp: byte_sets_def)
  show "convert charset ISO k s = map (translate (charset ISO) (charset k)) s"
    if "list_all (\<lambda>c. \<not> (0x80 < ccode c \<and> ccode c < 0xa0)) s"
    using byte_conversion.convert_loop_translate [OF byte_conversion_iso(1) [OF assms(1)], of s "[]"] that assms(2) k
    by (auto simp: convert_def CHARSETS_def)
  show "convert charset k ISO s = map (translate (charset k) (charset ISO)) s"
    using byte_conversion.convert_loop_translate [OF byte_conversion_iso(2) [OF assms(1)], of s "[]"] assms(2) k
    by (auto simp: convert_def CHARSETS_def)
qed

text \<open>C19: Text whose characters all exist in the client's set survives the way to the client and
  back: for the Roman-8, PC, Atari and Macintosh sets, converting from ISO and to ISO again gives
  the text back, if it fits the conversion buffer.\<close>

theorem convert_roundtrip:
  assumes "k \<in> set byte_sets" "length s < MAXBUF"
    and "\<forall>c\<in>set s. ccode c < 128 \<or> (160 \<le> ccode c \<and> charset k (ccode c - 160) \<noteq> None)"
  shows "convert charset k ISO (convert charset ISO k s) = s"
proof -
  have "list_all (\<lambda>c. \<not> (0x80 < ccode c \<and> ccode c < 0xa0)) s"
    using assms(3) by (force simp: list_all_iff)
  then have out: "convert charset ISO k s = map (translate (charset ISO) (charset k)) s"
    by (rule convert_translate [OF assms(1,2)])
  have "translate (charset k) (charset ISO) (translate (charset ISO) (charset k) c) = c" if "c \<in> set s" for c
  proof (rule byte_conversion.translate_back [OF byte_conversion_iso(1) [OF assms(1)]])
    have "ccode c < 256" using of_char_mod_256 [of c, where 'a = nat] by (metis mod_less_divisor zero_less_numeral)
    moreover have "charset ISO (ccode c - 160) = Some [c]" if "160 \<le> ccode c"
    proof -
      have "ccode c - 160 < 96" using that \<open>ccode c < 256\<close> by linarith
      then show ?thesis using that by (simp add: charset_rows iso_row_def CHARS_def)
    qed
    moreover have "ccode c - 160 < CHARS" using \<open>ccode c < 256\<close> unfolding CHARS_def by linarith
    ultimately show "ccode c < 128 \<or> (\<exists>pos<CHARS. charset ISO pos = Some [c] \<and> charset k pos \<noteq> None)"
      using assms(3) that by blast
  qed
  then show ?thesis
    using convert_translate(2) [OF assms(1), of "map (translate (charset ISO) (charset k)) s"] assms(2)
    by (simp add: out map_idI)
qed

theorem convert_roundtrip_witness:
  "convert charset ROMAN8 ISO (convert charset ISO ROMAN8 [char_of (228 :: nat), char_of (65 :: nat)]) =
     [char_of (228 :: nat), char_of (65 :: nat)]"
proof (rule convert_roundtrip)
  have "charset ROMAN8 68 = Some [char_of (204 :: nat)]" by (simp add: charset_rows roman8_tab_def CP_def)
  then show "\<forall>c\<in>set [char_of (228 :: nat), char_of (65 :: nat)].
      ccode c < 128 \<or> 160 \<le> ccode c \<and> charset ROMAN8 (ccode c - 160) \<noteq> None"
    by simp
qed (simp_all add: byte_sets_def MAXBUF_def)

lemma length_dumb_case: "length (dumb_case buf p1) \<le> max 1 (length buf)"
  by (cases buf) (simp_all add: dumb_case_def)

lemma MAXBUF_pos: "0 < MAXBUF" "Suc 0 < MAXBUF"
  by (simp_all add: MAXBUF_def)

lemma convert_step_length:
  assumes "convert_step tab inp out c rest buf = (stop, inp', p', buf')" "\<not> MAXBUF - 1 \<le> length buf"
  shows "length buf' < MAXBUF"
proof -
  have dc: "length (dumb_case (buf @ cs) q) < MAXBUF" if "length buf + length cs < MAXBUF" for cs q
    using length_dumb_case [of "buf @ cs" q] that MAXBUF_pos by (auto simp: max_def split: if_splits)
  define inp1 where "inp1 = (if inp = ISO \<and> 0x80 < ccode c \<and> ccode c < 0xa0 then IBMPC else inp)"
  define m where "m = (if inp1 = TeX \<and> ccode c \<noteq> 34 then None
              else case find_pos (tab inp1) (c # rest) of
                     None \<Rightarrow> None
                   | Some pos \<Rightarrow> map_option (\<lambda>cs. (pos, cs)) (tab out pos))"
  note eq = assms(1) [unfolded convert_step_def, folded inp1_def, unfolded Let_def, folded m_def]
  show ?thesis
  proof (cases m)
    case None
    with eq assms(2) show ?thesis by (auto split: if_splits)
  next
    case (Some pc)
    with eq assms(2) MAXBUF_pos show ?thesis
      by (cases pc) (force split: if_splits intro!: dc)
  qed
qed

lemma convert_loop_length: "length buf < MAXBUF \<Longrightarrow> length (convert_loop tab inp out p buf) < MAXBUF"
proof (induction "length p" arbitrary: p inp buf rule: less_induct)
  case less
  show ?case
  proof (cases p)
    case Nil
    then show ?thesis using less.prems by (subst convert_loop.simps) simp
  next
    case (Cons c rest)
    obtain stop inp' p' buf' where st: "convert_step tab inp out c rest buf = (stop, inp', p', buf')"
      by (metis surj_pair)
    show ?thesis
    proof (cases "MAXBUF - 1 \<le> length buf")
      case True
      with Cons less.prems show ?thesis by (subst convert_loop.simps) simp
    next
      case False
      then have "length buf' < MAXBUF" by (rule convert_step_length [OF st])
      moreover have "length p' < length p" using convert_step_rest [OF st] Cons by simp
      ultimately have "length (convert_loop tab inp' out p' buf') < MAXBUF" using less.hyps by blast
      with \<open>length buf' < MAXBUF\<close> False Cons st show ?thesis
        by (subst convert_loop.simps) (simp split: bool.split)
    qed
  qed
qed

text \<open>A conversion writes at most 2047 characters, whatever the expansion of the target set,
  and where it changes nothing the string keeps its length.\<close>

theorem convert_length:
  "length (convert tab inp out s) < MAXBUF \<or> convert tab inp out s = s"
  using convert_loop_length [of "[]" tab inp out s] by (auto simp: convert_def Let_def MAXBUF_def)

text \<open>What a client with the default set \<^verbatim>\<open>iso\<close> is sent after a conversion from another set
  has no control character but bell, line feed and carriage return, and none of the 8-bit control
  codes from 0x81 to 0x9f.\<close>

theorem convert_striped_safe:
  assumes "inp \<noteq> ISO_STRIPED" "inp \<noteq> DUMB" "0 \<le> inp" "inp < CHARSETS" "c \<in> set (convert tab inp ISO_STRIPED s)"
  shows "(32 \<le> ccode c \<or> ccode c \<in> {0, 1, 7, 10, 13}) \<and> \<not> (0x80 < ccode c \<and> ccode c < 0xa0)"
proof -
  have "c \<in> strip_char ` set (convert_loop tab inp ISO_STRIPED s [])"
    using assms by (auto simp: convert_def CHARSETS_def Let_def)
  then show ?thesis by (auto simp: strip_char_def)
qed

theorem convert_striped_safe_witness:
  "(32 \<le> ccode (CHR ''.'') \<or> ccode (CHR ''.'') \<in> {0, 1, 7, 10, 13}) \<and>
     \<not> (0x80 < ccode (CHR ''.'') \<and> ccode (CHR ''.'') < 0xa0)"
proof (rule convert_striped_safe [of ISO])
  have "find_pos iso_row [CHR 0x1B] = None"
    using iso.find_pos_ascii [of "CHR 0x1B" "[]"] by (simp add: charset_rows)
  then show "CHR ''.'' \<in> set (convert charset ISO ISO_STRIPED [CHR 0x1B])"
    by (simp add: convert_def CHARSETS_def Let_def convert_loop.simps convert_step_def charset_rows MAXBUF_def strip_char_def)
qed (simp_all add: CHARSETS_def)

end
