(* ===== verification/Names.thy ===== *)
theory Names
  imports Prelude
begin

text \<open>
  The string functions of \<^verbatim>\<open>conversd.c\<close> and \<^verbatim>\<open>access.c\<close> that the state machine is built
  from: splitting a command line into arguments, taking names apart, formatting times and
  paragraphs.

  \<^verbatim>\<open>getarg\<close> keeps its position in a static pointer into the line; here the position is the
  rest of the line, an argument and a result. \<^verbatim>\<open>localtime\<close> depends on the time zone of the
  machine: it is the argument \<open>localtime\<close> of the functions that use it, and gives hour, minute,
  month and day of the month, or nothing.
\<close>

section \<open>Arguments of a command line\<close>

definition getarg :: "string \<Rightarrow> bool \<Rightarrow> string \<times> string" where
  "getarg line all =
     (let getargp = dropWhile isspace line in
      if all then (getargp, getargp)
      else (strlwr (takeWhile (\<lambda>c. \<not> isspace c) getargp), tl (dropWhile (\<lambda>c. \<not> isspace c) getargp)))"

definition getargcs :: "string \<Rightarrow> bool \<Rightarrow> string \<times> string" where
  "getargcs line all =
     (let getargp = dropWhile isspace line in
      if all then (getargp, getargp)
      else (takeWhile (\<lambda>c. \<not> isspace c) getargp, tl (dropWhile (\<lambda>c. \<not> isspace c) getargp)))"

section \<open>Names\<close>

definition getTXname :: "string \<Rightarrow> string \<Rightarrow> string" where
  "getTXname name nickname =
     (if strcaseeq nickname name then name else name @ '':'' @ nickname)"

definition get_nick_from_name :: "string \<Rightarrow> string" where
  "get_nick_from_name fromname =
     (case strchr fromname (CHR '':'') of
        Some (_ # n # nick) \<Rightarrow> n # nick
      | _ \<Rightarrow> (case fromname of c # rest \<Rightarrow> if c = CHR ''~'' then rest else fromname | [] \<Rightarrow> []))"

definition get_user_from_name :: "string \<Rightarrow> string" where
  "get_user_from_name fromname =
     (let fromname = (case fromname of c # rest \<Rightarrow> if c = CHR ''~'' then rest else fromname | [] \<Rightarrow> []) in
      case strchr fromname (CHR '':'') of
        Some q \<Rightarrow> take 63 (before fromname '':'')
      | None \<Rightarrow> fromname)"

definition separators :: string where
  "separators = ''-/_'' @ [CHR 0x5C] @ ''.:''"

fun tidy_loop :: "string \<Rightarrow> string" where
  "tidy_loop [] = []"
| "tidy_loop (c # n) =
     (case strpbrk (c # n) separators of
        None \<Rightarrow> c # n
      | Some q \<Rightarrow> if q \<noteq> c # n then before (c # n) separators else tidy_loop n)"

definition get_tidy_name :: "string option \<Rightarrow> string" where
  "get_tidy_name name = (case name of None \<Rightarrow> [] | Some s \<Rightarrow> tidy_loop (take 63 s))"

text \<open>\<^verbatim>\<open>user_matches(name1, name2)\<close> with both arguments given; the two-call form
  \<^verbatim>\<open>user_matches(name1, 0)\<close> then \<^verbatim>\<open>user_matches(0, name2)\<close> compares the same names.\<close>

definition user_matches :: "string \<Rightarrow> string \<Rightarrow> bool" where
  "user_matches name1 name2 =
     strcaseeq (take 63 (get_tidy_name (Some name1))) (take 63 (get_tidy_name (Some name2)))"

text \<open>\<^verbatim>\<open>user_check\<close>: the table of bad users is empty, so only the length counts.\<close>

definition user_check :: "string \<Rightarrow> bool" where
  "user_check user \<longleftrightarrow> \<not> length user < 3"

text \<open>\<^verbatim>\<open>get_user_host\<close>: the result code, the user and the host.\<close>

definition get_user_host :: "string \<Rightarrow> nat \<times> string \<times> string" where
  "get_user_host s =
     (let s = dropWhile isspace s in
      if s = [] \<or> hd s = CHR ''@'' then (0, [], [])
      else
        let user = takeWhile (\<lambda>c. \<not> isspace c \<and> c \<noteq> CHR ''@'') s;
            s = dropWhile (\<lambda>c. \<not> isspace c \<and> c \<noteq> CHR ''@'') s
        in
        if 63 < length user then (0, [], [])
        else
          let s = dropWhile isspace s in
          if s = [] \<or> hd s \<noteq> CHR ''@'' then (1, user, [])
          else
            let s = dropWhile isspace (tl s);
                host = takeWhile (\<lambda>c. \<not> isspace c) s;
                host = (if host \<noteq> [] \<and> last host = CHR ''.'' then butlast host else host)
            in
            if length host < 1 \<or> 63 < length host then (1, user, host) else (2, user, host))"

definition get_hash :: "string \<Rightarrow> int" where
  "get_hash name = foldl (\<lambda>hash c. (2 * hash + int (ccode c)) mod 256) 0 name"

definition check_for_notify :: "string \<Rightarrow> string \<Rightarrow> string \<Rightarrow> string \<Rightarrow> int \<Rightarrow> bool" where
  "check_for_notify notify name nick host channel \<longleftrightarrow>
     strstr notify (strlwr ('' '' @ name @ '' '')) \<or>
     strstr notify (strlwr ('' '' @ nick @ '' '')) \<or>
     strstr notify (strlwr ('' @'' @ host @ '' '')) \<or>
     strstr notify (strlwr ('' '' @ name @ ''@'' @ host @ '' '')) \<or>
     strstr notify ('' #'' @ dec channel @ '' '')"

section \<open>Times\<close>

type_synonym tm = "int \<times> int \<times> int \<times> int"

definition pad_left :: "nat \<Rightarrow> string \<Rightarrow> string" where
  "pad_left n s = replicate (n - length s) (CHR '' '') @ s"

definition monthnames :: string where
  "monthnames = ''JanFebMarAprMayJunJulAugSepOctNovDec''"

definition ts2 :: "(int \<Rightarrow> tm option) \<Rightarrow> int \<Rightarrow> int \<Rightarrow> string" where
  "ts2 localtime currtime gmt =
     (case localtime gmt of
        Some (hour, mi, mon, mday) \<Rightarrow>
          if gmt + 24 * 60 * 60 > currtime
          then pad_left 2 (dec hour) @ '':'' @ dec2 mi
          else take 3 (drop (nat (3 * mon)) monthnames) @ '' '' @ pad_left 2 (dec mday)
      | None \<Rightarrow> ''?????'')"

text \<open>C division truncates towards zero.\<close>

definition cdiv :: "int \<Rightarrow> int \<Rightarrow> int" where
  "cdiv a b = sgn a * sgn b * (\<bar>a\<bar> div \<bar>b\<bar>)"

definition ts3 :: "int \<Rightarrow> string" where
  "ts3 seconds =
     (if seconds < 100 then dec seconds @ ''s''
      else if seconds < 6000 then dec (cdiv seconds 60) @ ''m''
      else if seconds < 360000 then dec (cdiv seconds 3600) @ ''h''
      else dec (cdiv seconds 86400) @ ''d'')"

definition ts4 :: "int \<Rightarrow> string" where
  "ts4 seconds0 =
     (let seconds = \<bar>seconds0\<bar>;
          days = seconds div 86400; hours = (seconds div 3600) mod 24;
          minutes = (seconds div 60) mod 60; seconds = seconds mod 60
      in (if days \<noteq> 0 then dec days @ '' day'' @ (if days = 1 then '''' else ''s'') @ '', '' else '''') @
         dec2 hours @ '':'' @ dec2 minutes @ '':'' @ dec2 seconds @ ''.'')"

definition ts5 :: "int \<Rightarrow> string" where
  "ts5 seconds0 =
     (let seconds = \<bar>seconds0\<bar>;
          days = seconds div 86400; hours = (seconds div 3600) mod 24;
          minutes = (seconds div 60) mod 60; seconds = seconds mod 60;
          buffer = (if days \<noteq> 0 then dec days @ ''d'' else '''') @
                   (if hours \<noteq> 0 then dec hours @ ''h'' else '''') @
                   (if minutes \<noteq> 0 then dec minutes @ ''m'' else '''')
      in if buffer = [] \<or> seconds \<noteq> 0 then buffer @ dec seconds @ ''s'' else buffer)"

section \<open>Paragraphs\<close>

abbreviation (input) "NL \<equiv> CHR 0x0A"

text \<open>Writing a block of characters one by one, leaving the function when the buffer of 2048 bytes
  has no more than two bytes left.\<close>

definition push_limited :: "string \<Rightarrow> string \<Rightarrow> bool \<times> string" where
  "push_limited buf xs =
     (let k = max 1 (2046 - length buf) in
      if xs \<noteq> [] \<and> k \<le> length xs then (True, buf @ take k xs) else (False, buf @ xs))"

definition format_out :: "string \<Rightarrow> string" where
  "format_out buf = (if buf = [] \<or> last buf \<noteq> NL then buf @ [NL] else buf)"

function format_loop :: "string \<Rightarrow> int \<Rightarrow> int \<Rightarrow> int \<Rightarrow> string \<Rightarrow> string" where
  "format_loop buf l offset linelen text =
     (let f = dropWhile isspace text in
      if f = [] then format_out buf
      else
        let word = takeWhile (\<lambda>c. \<not> isspace c) f;
            lw = int (length word);
            newline = offset < l \<and> linelen < l + 1 + lw
        in
        if newline \<and> 2045 < length buf then format_out buf
        else
          let buf = (if newline then buf @ [NL] else buf);
              l = (if newline then 0 else l);
              n = max 1 (nat (offset + 1 - l))
          in
          case push_limited buf (replicate n (CHR '' '')) of
            (True, buf) \<Rightarrow> format_out buf
          | (False, buf) \<Rightarrow>
              (case push_limited buf word of
                 (True, buf) \<Rightarrow> format_out buf
               | (False, buf) \<Rightarrow>
                   format_loop buf (l + int n + lw) offset linelen (dropWhile (\<lambda>c. \<not> isspace c) f)))"
  by pat_completeness auto

lemma dropWhile_word_shorter:
  "dropWhile isspace s \<noteq> [] \<Longrightarrow>
   length (dropWhile (\<lambda>c. \<not> isspace c) (dropWhile isspace s)) < length s"
proof (induction s)
  case (Cons c s)
  then show ?case
    by (auto simp: less_Suc_eq_le intro: order_trans [OF length_dropWhile_le])
qed simp

termination format_loop
  by (relation "measure (\<lambda>(buf, l, offset, linelen, text). length text)")
    (auto intro: dropWhile_word_shorter)

declare format_loop.simps [simp del]

definition formatline :: "string \<Rightarrow> int \<Rightarrow> string \<Rightarrow> int \<Rightarrow> string" where
  "formatline prefix offset text linelen =
     (if linelen = 0 then
        let buf = take 2047 prefix;
            buf = (if buf \<noteq> [] \<and> last buf \<noteq> CHR '' '' then take 2046 buf @ '' '' else buf);
            buf = buf @ take (2047 - length buf) text
        in
        if buf = [] then [NL]
        else if last buf \<noteq> NL then take 2046 buf @ [NL] else buf
      else format_loop prefix (int (length prefix)) (offset + 3) (linelen - 1) text)"

section \<open>Splitting lines\<close>

fun words :: "string list \<Rightarrow> string" where
  "words [] = []"
| "words (x # xs) = x @ '' '' @ words xs"

definition is_word :: "string \<Rightarrow> bool" where
  "is_word x \<longleftrightarrow> x \<noteq> [] \<and> list_all (\<lambda>c. \<not> isspace c) x"

fun getargs :: "nat \<Rightarrow> string \<Rightarrow> string list \<times> string" where
  "getargs 0 line = ([], line)"
| "getargs (Suc n) line =
     (let (arg, rest) = getargcs line False; (args, rest) = getargs n rest in (arg # args, rest))"

lemma isspace_blank [simp]: "isspace (CHR '' '')"
  by (simp add: isspace_def)

lemma takeWhile_word:
  assumes "is_word x"
  shows "dropWhile isspace (x @ s) = x @ s" "takeWhile (\<lambda>c. \<not> isspace c) (x @ CHR '' '' # s) = x"
    "dropWhile (\<lambda>c. \<not> isspace c) (x @ CHR '' '' # s) = CHR '' '' # s"
proof -
  have all: "\<And>c. c \<in> set x \<Longrightarrow> \<not> isspace c" and ne: "x \<noteq> []"
    using assms by (auto simp: is_word_def list_all_iff)
  show "dropWhile isspace (x @ s) = x @ s" using all ne by (cases x) auto
  show "takeWhile (\<lambda>c. \<not> isspace c) (x @ CHR '' '' # s) = x" using all by (simp add: takeWhile_append2)
  show "dropWhile (\<lambda>c. \<not> isspace c) (x @ CHR '' '' # s) = CHR '' '' # s" using all by (simp add: dropWhile_append2)
qed

text \<open>Reading as many arguments as a line has words gives back the words in order, and the position is
  then at the text behind them.\<close>

theorem getargs_words:
  assumes "\<forall>x\<in>set xs. is_word x"
  shows "getargs (length xs) (words xs @ rest) = (xs, rest)"
  using assms
proof (induction xs)
  case (Cons x xs)
  then have w: "is_word x" by simp
  have "getargcs (x @ '' '' @ words xs @ rest) False = (x, words xs @ rest)"
    using takeWhile_word [OF w] by (simp add: getargcs_def Let_def)
  with Cons show ?case by simp
qed simp

theorem getargs_words_witness:
  "getargs 2 (''UMSG '' @ ''dl9sau '' @ ''hello you'') = ([''UMSG'', ''dl9sau''], ''hello you'')"
  using getargs_words [of "[''UMSG'', ''dl9sau'']" "''hello you''"]
  by (simp add: is_word_def isspace_def numeral_2_eq_2)

lemma getarg_lower: "fst (getarg line False) = strlwr (fst (getargcs line False))"
  "snd (getarg line all) = snd (getargcs line all)"
  by (simp_all add: getarg_def getargcs_def Let_def)

section \<open>Tidy names\<close>

lemma set_separators: "set separators = {CHR ''-'', CHR ''/'', CHR ''_'', CHR 0x5C, CHR ''.'', CHR '':''}"
  by (simp add: separators_def)

lemma tidy_loop_eq: "tidy_loop n = before (dropWhile (\<lambda>c. c \<in> set separators) n) separators"
proof (induction n)
  case (Cons c n)
  show ?case
  proof (cases "c \<in> set separators")
    case True
    then show ?thesis using Cons by simp
  next
    case False
    then show ?thesis
      by (cases "strpbrk n separators")
        (auto simp: before_id dest: strpbrk_SomeD)
  qed
qed simp

lemma tidy_no_separators: "set (tidy_loop n) \<inter> set separators = {}"
  unfolding tidy_loop_eq using set_before by blast

lemma tidy_id: "set n \<inter> set separators = {} \<Longrightarrow> tidy_loop n = n"
  unfolding tidy_loop_eq
  by (cases n) (auto simp: before_takeWhile takeWhile_eq_all_conv dropWhile_eq_Cons_conv)

lemma length_before: "length (before s cs) \<le> length s"
  by (induction s) auto

lemma length_tidy: "length (tidy_loop n) \<le> length n"
  unfolding tidy_loop_eq by (rule order_trans [OF length_before length_dropWhile_le])

lemma get_tidy_name_idem: "get_tidy_name (Some (get_tidy_name n)) = get_tidy_name n"
proof (cases n)
  case (Some s)
  have "length (tidy_loop (take 63 s)) \<le> 63" using length_tidy [of "take 63 s"] by simp
  then show ?thesis
    using Some tidy_no_separators [of "take 63 s"] by (simp add: get_tidy_name_def tidy_id)
qed (simp add: get_tidy_name_def)

lemma length_get_tidy_name [simp]: "length (get_tidy_name n) \<le> 63"
  using length_tidy [of "take 63 s" for s] by (auto simp: get_tidy_name_def split: option.split intro: order_trans)

lemma take_tidy [simp]: "take 63 (get_tidy_name n) = get_tidy_name n"
  by simp

lemma user_matches_iff: "user_matches a b \<longleftrightarrow> strlwr (get_tidy_name (Some a)) = strlwr (get_tidy_name (Some b))"
  unfolding user_matches_def take_tidy strcaseeq_strlwr ..

lemma user_matches_refl: "user_matches a a"
  and user_matches_sym: "user_matches a b \<longleftrightarrow> user_matches b a"
  and user_matches_trans: "user_matches a b \<Longrightarrow> user_matches b c \<Longrightarrow> user_matches a c"
  by (auto simp: user_matches_iff)




section \<open>How much a paragraph writes\<close>

lemma push_limited_length:
  assumes "length buf \<le> 2046" "push_limited buf xs = (stop, buf')" "xs \<noteq> []"
  shows "length buf' \<le> 2047" "\<not> stop \<Longrightarrow> length buf' \<le> 2045"
  using assms by (cases xs; auto simp: push_limited_def Let_def max_def split: if_splits)+

lemma format_out_length:
  "length buf \<le> 2047 \<Longrightarrow> format_out buf \<noteq> [] \<and> last (format_out buf) = NL \<and> length (format_out buf) \<le> 2048"
  by (auto simp: format_out_def)

text \<open>One turn: the word and the blanks in front of it.\<close>

lemma format_loop_step:
  assumes f: "dropWhile isspace s = f" "f \<noteq> []" and w: "takeWhile (\<lambda>c. \<not> isspace c) f = w"
    and nl: "(offset < l \<and> linelen < l + 1 + int (length w)) = nl"
    and l1: "(if nl then 0 else l) = l1" and n: "max 1 (nat (offset + 1 - l1)) = n"
    and buf1: "(if nl then buf @ [NL] else buf) = buf1"
    and p1: "push_limited buf1 (replicate n (CHR '' '')) = (st1, b1)"
    and p2: "push_limited b1 w = (st2, b2)" and "length buf \<le> 2045"
  shows "format_loop buf l offset linelen s =
      (if st1 then format_out b1 else if st2 then format_out b2
       else format_loop b2 (l1 + int n + int (length w)) offset linelen (dropWhile (\<lambda>c. \<not> isspace c) f))"
proof -
  have "(f = []) = False" "(nl \<and> 2045 < length buf) = False" using assms by auto
  then show ?thesis
    by (subst format_loop.simps)
      (simp only: Let_def f(1) w nl l1 n buf1 p1 p2 if_False prod.case, cases st1; cases st2; simp)
qed

lemma format_loop_fits:
  "length buf \<le> 2045 \<Longrightarrow>
   format_loop buf l offset linelen s \<noteq> [] \<and> last (format_loop buf l offset linelen s) = NL \<and>
   length (format_loop buf l offset linelen s) \<le> 2048"
proof (induction "length s" arbitrary: buf l s rule: less_induct)
  case less
  define f where "f = dropWhile isspace s"
  show ?case
  proof (cases "f = []")
    case True
    then show ?thesis
      using format_out_length [of buf] less.prems by (subst (1 2 3) format_loop.simps) (simp add: f_def)
  next
    case False
    define w where "w = takeWhile (\<lambda>c. \<not> isspace c) f"
    define nl where "nl \<longleftrightarrow> offset < l \<and> linelen < l + 1 + int (length w)"
    define l1 where "l1 = (if nl then 0 else l)"
    define n where "n = max 1 (nat (offset + 1 - l1))"
    define buf1 where "buf1 = (if nl then buf @ [NL] else buf)"
    obtain st1 b1 where p1: "push_limited buf1 (replicate n (CHR '' '')) = (st1, b1)" by force
    obtain st2 b2 where p2: "push_limited b1 w = (st2, b2)" by force
    have w: "w \<noteq> []"
      using False hd_dropWhile [of isspace s] by (cases f) (auto simp: w_def f_def)
    have b1: "length b1 \<le> 2047" "\<not> st1 \<Longrightarrow> length b1 \<le> 2045"
      using push_limited_length [OF _ p1] less.prems by (auto simp: buf1_def n_def)
    have b2: "length b2 \<le> 2047" "\<not> st2 \<Longrightarrow> length b2 \<le> 2045" if "\<not> st1"
      using push_limited_length [OF _ p2 w] b1(2) [OF that] by auto
    have "length (dropWhile (\<lambda>c. \<not> isspace c) f) < length s"
      using dropWhile_word_shorter [of s] False by (simp add: f_def)
    note IH = less.hyps [OF this, of b2 "l1 + int n + int (length w)"]
    have "format_loop buf l offset linelen s =
      (if st1 then format_out b1 else if st2 then format_out b2
       else format_loop b2 (l1 + int n + int (length w)) offset linelen (dropWhile (\<lambda>c. \<not> isspace c) f))"
      by (rule format_loop_step [OF f_def [symmetric] False w_def [symmetric] nl_def [symmetric]
            l1_def [symmetric] n_def [symmetric] buf1_def [symmetric] p1 p2 less.prems])
    then show ?thesis
      using format_out_length [OF b1(1)] format_out_length [OF b2(1)] IH b2(2) by auto
  qed
qed

text \<open>A formatted paragraph is one or more complete lines, never empty, and takes at most 2048
  characters.\<close>

theorem formatline_lines:
  assumes "length prefix \<le> 2045"
  shows "formatline prefix offset s linelen \<noteq> [] \<and> last (formatline prefix offset s linelen) = NL \<and>
         length (formatline prefix offset s linelen) \<le> 2048"
  using format_loop_fits [OF assms, of "int (length prefix)" "offset + 3" "linelen - 1" s] assms
  by (auto simp: formatline_def Let_def)

theorem formatline_lines_witness:
  "formatline ''<dl9sau>:'' 0 ''hello'' 80 \<noteq> [] \<and> last (formatline ''<dl9sau>:'' 0 ''hello'' 80) = NL \<and>
   length (formatline ''<dl9sau>:'' 0 ''hello'' 80) \<le> 2048"
  using formatline_lines [of "''<dl9sau>:''" 0 "''hello''" 80] by simp

text \<open>One-letter words on a narrow screen.\<close>

definition narrow_text :: "nat \<Rightarrow> string" where
  "narrow_text k = concat (replicate k ''a '')"

lemma length_narrow_text [simp]: "length (narrow_text k) = 2 * k"
  by (induction k) (simp_all add: narrow_text_def)

lemma format_loop_narrow:
  "length buf + 6 * k = 2045 \<Longrightarrow> 4 < l \<Longrightarrow> linelen \<le> 6 \<Longrightarrow>
   length (format_loop buf l 3 linelen (narrow_text (Suc k))) = 2048"
proof (induction k arbitrary: buf l)
  case 0
  have "dropWhile isspace (narrow_text (Suc 0)) = ''a ''" by (simp add: narrow_text_def isspace_def)
  then show ?case
    using 0 by (subst format_loop.simps)
      (simp add: isspace_def push_limited_def format_out_def Let_def)
next
  case (Suc k)
  have d: "dropWhile isspace (narrow_text (Suc (Suc k))) = CHR ''a'' # CHR '' '' # narrow_text (Suc k)"
    by (simp add: narrow_text_def isspace_def)
  have e: "format_loop b l' 3 linelen (CHR '' '' # narrow_text (Suc k)) = format_loop b l' 3 linelen (narrow_text (Suc k))"
    for b l'
    by (subst (1 2) format_loop.simps) (simp add: isspace_def)
  have "format_loop buf l 3 linelen (narrow_text (Suc (Suc k))) =
    format_loop (buf @ NL # replicate 4 (CHR '' '') @ ''a'') 5 3 linelen (CHR '' '' # narrow_text (Suc k))"
    by (subst format_loop_step [OF d _ refl refl refl refl refl, where ?st1.0 = False and ?st2.0 = False and
          ?b1.0 = "buf @ NL # replicate 4 (CHR '' '')" and ?b2.0 = "buf @ NL # replicate 4 (CHR '' '') @ ''a''"])
      (use Suc.prems in \<open>simp_all add: isspace_def push_limited_def Let_def\<close>)
  moreover have "length (format_loop (buf @ NL # replicate 4 (CHR '' '') @ ''a'') 5 3 linelen (narrow_text (Suc k))) = 2048"
    by (rule Suc.IH) (use Suc.prems in auto)
  ultimately show ?case by (simp only: e)
qed

text \<open>A message of 680 characters from \<^verbatim>\<open>dl1abc-7\<close> to a user with a screen width of 7 makes
  the formatted paragraph 2048 characters long: with its terminating NUL it does not fit the static
  buffer of 2048 bytes.\<close>

theorem formatline_overrun:
  "length (narrow_text 340) = 680 \<and> length (formatline ''<dl1abc-7>:'' 0 (narrow_text 340) 7) = 2048"
proof -
  have "length (format_loop ''<dl1abc-7>:'' 11 3 6 (narrow_text (Suc 339))) = 2048"
    by (rule format_loop_narrow) simp_all
  then show ?thesis by (simp add: formatline_def)
qed

end
