(* ===== verification/Cfgfile.thy ===== *)
theory Cfgfile
  imports Names
begin

text \<open>
  The reader of configuration files (\<^verbatim>\<open>cfgfile.c\<close>) and the tables of named bits and numbers
  (\<^verbatim>\<open>config.c\<close>).

  A table of commands is a list of names with their handlers. A handler gets \<^verbatim>\<open>argv\<close> as the list
  of its strings and returns the C return value and the new state; \<open>None\<close> is undefined behaviour
  (a write outside an object). The contents of a file are a string, \<open>None\<close> a file that cannot be
  opened. Log messages are not modelled.
\<close>

section \<open>Lines into arguments\<close>

datatype str_result = Str string string | Str_null | Str_overrun

fun str_cons :: "char \<Rightarrow> str_result \<Rightarrow> str_result" where
  "str_cons c (Str t r) = Str (c # t) r"
| "str_cons c Str_null = Str_null"
| "str_cons c Str_overrun = Str_overrun"

abbreviation (input) "DQ \<equiv> CHR 0x22"
abbreviation (input) "BS \<equiv> CHR 0x5C"

text \<open>The character of an escape, for the letters that stand for another one.\<close>

definition escape_char :: "char \<Rightarrow> char" where
  "escape_char c =
     (if c = CHR ''n'' then CHR 0x0A else if c = CHR ''t'' then CHR 0x09 else if c = CHR ''v'' then CHR 0x0B
      else if c = CHR ''b'' then CHR 0x08 else if c = CHR ''r'' then CHR 0x0D else if c = CHR ''f'' then CHR 0x0C
      else if c = CHR ''a'' then CHR 0x07 else c)"

text \<open>The number escapes store the end pointer of \<^verbatim>\<open>strtoul\<close> into the object before
  \<^verbatim>\<open>str\<close> on the stack.\<close>

definition number_escape :: "char \<Rightarrow> bool" where
  "number_escape c \<longleftrightarrow> c = CHR ''x'' \<or> 48 \<le> ccode c \<and> ccode c \<le> 55"

fun parse_string :: "string \<Rightarrow> str_result" where
  "parse_string [] = Str [] []"
| "parse_string [c] = (if c = DQ then Str [] [] else if c = BS then Str_null else Str [c] [])"
| "parse_string (c # d # s) =
     (if c = DQ then Str [] (d # s)
      else if c = BS
      then (if number_escape d then Str_overrun else str_cons (escape_char d) (parse_string s))
      else str_cons c (parse_string (d # s)))"

datatype args = Args "string list" | Args_null | Args_overrun

fun args_cons :: "string \<Rightarrow> args \<Rightarrow> args" where
  "args_cons a (Args as) = Args (a # as)"
| "args_cons a Args_null = Args_null"
| "args_cons a Args_overrun = Args_overrun"

text \<open>\<open>n\<close> is the number of cells of \<^verbatim>\<open>argv\<close> left.\<close>

fun parse_args_loop :: "nat \<Rightarrow> string \<Rightarrow> args" where
  "parse_args_loop 0 cmd = Args []"
| "parse_args_loop (Suc n) cmd =
     (case dropWhile isspace cmd of
        [] \<Rightarrow> Args []
      | c # s \<Rightarrow>
          if c = DQ
          then (case parse_string s of
                  Str t r \<Rightarrow> args_cons t (parse_args_loop n (tl r))
                | Str_null \<Rightarrow> Args_null
                | Str_overrun \<Rightarrow> Args_overrun)
          else args_cons (c # takeWhile (\<lambda>c. \<not> isspace c) s)
                 (parse_args_loop n (tl (dropWhile (\<lambda>c. \<not> isspace c) s))))"

definition parse_args :: "string \<Rightarrow> args" where
  "parse_args cmd = (case parse_args_loop 255 cmd of Args_null \<Rightarrow> Args [] | a \<Rightarrow> a)"

text \<open>\<^verbatim>\<open>strncat(s, t, CFGLINE_LEN)\<close> bounds what is appended, not the result: \<open>None\<close> when
  the buffer of 1024 bytes is overrun.\<close>

definition argstr :: "nat \<Rightarrow> string list \<Rightarrow> string option" where
  "argstr arg argv =
     (let s = concat (map (\<lambda>a. take 1024 a @ '' '') (drop arg argv))
      in if length s < 1024 then Some (butlast s) else None)"

section \<open>Commands\<close>

type_synonym 's handler = "string list \<Rightarrow> 's \<Rightarrow> (int \<times> 's) option"

definition find_cmd :: "(string \<times> 's handler) list \<Rightarrow> string \<Rightarrow> (string \<times> 's handler) option" where
  "find_cmd cmds arg = find (\<lambda>(name, f). strncaseeq name arg (length arg)) cmds"

definition cmdparse :: "(string \<times> 's handler) list \<Rightarrow> string \<Rightarrow> 's \<Rightarrow> (int \<times> 's) option" where
  "cmdparse cmds cmdline s =
     (case parse_args cmdline of
        Args_null \<Rightarrow> Some (0, s)
      | Args_overrun \<Rightarrow> None
      | Args [] \<Rightarrow> Some (0, s)
      | Args (arg # argv) \<Rightarrow>
          if arg \<noteq> [] \<and> hd arg = CHR ''#'' then Some (0, s)
          else (case find_cmd cmds (strlwr arg) of
                  None \<Rightarrow> Some (-1, s)
                | Some (name, f) \<Rightarrow> f (strlwr arg # argv) s))"

text \<open>\<^verbatim>\<open>fgets\<close> with a buffer of \<open>n + 1\<close> bytes; a line is read up to the first NUL in it.\<close>

definition fgets :: "nat \<Rightarrow> string \<Rightarrow> string" where
  "fgets n s =
     (let l = length (takeWhile (\<lambda>c. c \<noteq> NL) s) in if l < n then take (l + 1) s else take n s)"

function fgets_lines :: "nat \<Rightarrow> string \<Rightarrow> string list" where
  "fgets_lines n s =
     (if n = 0 \<or> s = [] then []
      else takeWhile (\<lambda>c. c \<noteq> CHR 0x00) (fgets n s) # fgets_lines n (drop (length (fgets n s)) s))"
  by pat_completeness auto

termination fgets_lines
  by (relation "measure (\<lambda>(n, s). length s)") (auto simp: fgets_def Let_def)

declare fgets_lines.simps [simp del]

fun cfg_lines :: "(string \<times> 's handler) list \<Rightarrow> string list \<Rightarrow> 's \<Rightarrow> (int \<times> 's) option" where
  "cfg_lines cmds [] s = Some (0, s)"
| "cfg_lines cmds (l # ls) s =
     (case cmdparse cmds l s of
        None \<Rightarrow> None
      | Some (ret, s) \<Rightarrow> if ret < 0 then Some (-2, s) else cfg_lines cmds ls s)"

definition read_cfgfile :: "(string \<times> 's handler) list \<Rightarrow> string option \<Rightarrow> 's \<Rightarrow> (int \<times> 's) option" where
  "read_cfgfile cmds file s =
     (case file of None \<Rightarrow> Some (-1, s) | Some text \<Rightarrow> cfg_lines cmds (fgets_lines 1023 text) s)"

definition do_string :: "(string \<Rightarrow> 's \<Rightarrow> 's) \<Rightarrow> 's handler" where
  "do_string dest argv s = (case argv of a # b # _ \<Rightarrow> Some (0, dest b s) | _ \<Rightarrow> Some (-1, s))"

definition do_int :: "(int \<Rightarrow> 's \<Rightarrow> 's) \<Rightarrow> 's handler" where
  "do_int dest argv s = (case argv of a # b # _ \<Rightarrow> Some (0, dest (atoi b) s) | _ \<Rightarrow> Some (-1, s))"

section \<open>Named bits and numbers\<close>

type_synonym bitlist = "(string \<times> nat) list"

definition bit_named :: "bitlist \<Rightarrow> string \<Rightarrow> nat option" where
  "bit_named bl arg = map_option snd (find (\<lambda>(name, v). strcaseeq arg name) bl)"

fun bitcfg :: "bitlist \<Rightarrow> nat \<Rightarrow> string list \<Rightarrow> nat option" where
  "bitcfg bl m [] = Some m"
| "bitcfg bl m (a # as) =
     (case bit_named bl a of None \<Rightarrow> None | Some v \<Rightarrow> bitcfg bl (or m v) as)"

definition numcfg :: "bitlist \<Rightarrow> string \<Rightarrow> nat option" where
  "numcfg bl arg = bit_named bl arg"

text \<open>The text in the buffer of \<open>len\<close> bytes behind \<open>buf\<close>; \<open>None\<close> when it is overrun, which
  \<^verbatim>\<open>strncat(buf, s, len)\<close> does not prevent.\<close>

definition print_names :: "string list \<Rightarrow> string \<Rightarrow> nat \<Rightarrow> string option" where
  "print_names names buf len =
     (let s = buf @ concat (map (\<lambda>n. '' '' @ take len n) names) in if length s < len then Some s else None)"

definition printbits :: "nat \<Rightarrow> bitlist \<Rightarrow> string \<Rightarrow> nat \<Rightarrow> string option" where
  "printbits m bl = print_names (map fst (filter (\<lambda>(name, v). and m v \<noteq> 0) bl))"

definition printnum :: "int \<Rightarrow> bitlist \<Rightarrow> string \<Rightarrow> nat \<Rightarrow> string option" where
  "printnum val bl = print_names (map fst (filter (\<lambda>(name, v). val = int v) bl))"

section \<open>Quoted arguments are read back\<close>

text \<open>A string in double quotes, with a backslash before each quote and each backslash.\<close>

fun quote_chars :: "string \<Rightarrow> string" where
  "quote_chars [] = [DQ]"
| "quote_chars (c # s) = (if c = DQ \<or> c = BS then [BS, c] else [c]) @ quote_chars s"

definition quoted :: "string \<Rightarrow> string" where
  "quoted s = DQ # quote_chars s"

lemma quote_chars_ne: "quote_chars s \<noteq> []"
  by (cases s) auto

lemma parse_string_plain: "c \<noteq> DQ \<Longrightarrow> c \<noteq> BS \<Longrightarrow> parse_string (c # s) = str_cons c (parse_string s)"
  by (cases s) auto

lemma parse_string_quoted: "parse_string (quote_chars s @ r) = Str s r"
proof (induction s)
  case Nil
  then show ?case by (cases r) auto
next
  case (Cons c s)
  show ?case
  proof (cases "c = DQ \<or> c = BS")
    case True
    then have "escape_char c = c" "\<not> number_escape c"
      by (auto simp: escape_char_def number_escape_def)
    with True Cons show ?thesis by auto
  next
    case False
    with Cons show ?thesis by (simp add: parse_string_plain)
  qed
qed

lemma parse_args_loop_quoted:
  assumes "length as \<le> n"
  shows "parse_args_loop n (concat (map (\<lambda>a. quoted a @ '' '') as)) = Args as"
  using assms
proof (induction as arbitrary: n)
  case Nil
  then show ?case by (cases n) auto
next
  case (Cons a as)
  then obtain m where m: "n = Suc m" "length as \<le> m" by (cases n) auto
  have "\<not> isspace DQ" by (simp add: isspace_def)
  then show ?case using Cons.IH [OF m(2)] m(1) by (simp add: quoted_def parse_string_quoted)
qed

text \<open>C34: Every list of at most 255 arguments, whatever characters they hold, can be written on a
  configuration line: with each argument in quotes, quotes and backslashes escaped and a blank behind
  it, the line is parsed into exactly these arguments.\<close>

theorem parse_args_quoted:
  assumes "length as \<le> 255"
  shows "parse_args (concat (map (\<lambda>a. quoted a @ '' '') as)) = Args as"
  unfolding parse_args_def by (simp only: parse_args_loop_quoted [OF assms] args.simps)

theorem parse_args_quoted_witness:
  "parse_args (concat (map (\<lambda>a. quoted a @ '' '') [''sysinfo'', ''a '' @ [DQ, BS] @ '' b''])) = Args [''sysinfo'', ''a '' @ [DQ, BS] @ '' b'']"
  by (rule parse_args_quoted) simp

end
