(* ===== verification/State.thy ===== *)
theory State
  imports Prelude
begin

text \<open>
  The state of the daemon: the structures of \<^verbatim>\<open>conversd.h\<close> and \<^verbatim>\<open>noflood.h\<close>, the global
  lists, and the settings of \<^verbatim>\<open>config.c\<close> that the modelled code reads.

  A linked list is a HOL list in list order. A pointer to a connection is the connection's number
  \<open>c_id\<close>, a pointer to a permlink the index of its cell in \<^verbatim>\<open>permarray\<close>, a pointer to a static
  user entry its number \<open>s_id\<close>; \<^verbatim>\<open>NULL\<close> is \<open>None\<close>. Fields used as truth values only are
  \<^typ>\<open>bool\<close>. A loop over the connections takes the connections of the list at its start one
  after the other, in the state the previous ones left: no operation called in a loop body removes
  a connection from the list, and a new one goes to the front. \<^verbatim>\<open>permarray\<close> before it is
  allocated is the empty list. \<open>c_ibuf\<close> holds the \<^verbatim>\<open>icnt\<close> bytes of the line being
  collected, \<open>c_ibufq\<close> the \<^verbatim>\<open>ibufq_len\<close> bytes read but not parsed.
\<close>

section \<open>Structures\<close>

type_synonym cid = nat

datatype conn_type = CT_UNKNOWN | CT_USER | CT_HOST | CT_CLOSED | CT_OBSERVER

record clist =
  cl_channel :: int
  cl_channelop :: bool
  cl_time :: int

record jobs =
  j_when :: int
  j_interval :: nat
  j_retries :: nat
  j_command :: "string option"

text \<open>Socket addresses. An IPv4 address is the word whose bytes from the top are its four numbers,
  in either byte order of the machine; a port is its number.\<close>

type_synonym ax25_address = "byte list"

record full_sockaddr_ax25 =
  sax25_call :: ax25_address
  fsa_digipeater :: "ax25_address list"

datatype sockaddr = SA_UNIX string | SA_AX25 full_sockaddr_ax25 | SA_INET "32 word" nat

record connection =
  c_id :: cid
  c_type :: conn_type
  c_session_type :: nat
  c_name :: string
  c_host :: string
  c_rev :: string
  c_nickname :: string
  c_shownicks :: bool
  c_via :: "cid option"
  c_time :: int
  c_locked :: bool
  c_fd :: int
  c_time_write :: int
  c_time_recv :: int
  c_time_processed :: int
  c_addr :: "sockaddr option"
  c_sockname :: string
  c_ibuf :: string
  c_ibufq :: string
  c_obuf :: "string list"
  c_hostallowed :: bool
  c_mtu :: int
  c_compress :: nat
  c_channel :: int
  c_chan_list :: "clist list"
  c_jobs :: "jobs list"
  c_away :: string
  c_atime :: int
  c_mtime :: int
  c_idle_timeout :: int
  c_anti_idle_offset :: int
  c_pers :: string
  c_verbose :: bool
  c_prompt :: string
  c_query :: string
  c_notify :: string
  c_pass_want :: string
  c_pass_got :: string
  c_needauth :: nat
  c_isauth :: nat
  c_filter :: "string option"
  c_filterwords :: "string option"
  c_filter_time :: int
  c_filtermsgs :: nat
  c_charset_in :: int
  c_charset_out :: int
  c_channelop :: bool
  c_operator :: nat
  c_expected :: int
  c_invitation_channel :: int
  c_width :: int
  c_observer :: bool
  c_restrictedmode :: nat
  c_timestamp :: int
  c_sul :: "nat option"
  c_amprnet :: bool
  c_oldaway :: bool
  c_ax25 :: bool
  c_features :: nat
  c_ircmode :: bool

record s_group =
  sg_socket :: "string option"
  sg_command :: "string option"
  sg_quality :: nat

text \<open>\<^verbatim>\<open>groups\<close> is the length of \<open>pl_s_groups\<close>.\<close>

record permlink =
  pl_name :: string
  pl_s_groups :: "s_group list"
  pl_connection :: "cid option"
  pl_primary :: "nat option"
  pl_backup :: "nat option"
  pl_statetime :: int
  pl_tries :: int
  pl_waittime :: int
  pl_retrytime :: int
  pl_testwaittime :: int
  pl_testnexttime :: int
  pl_locked_until :: int
  pl_rxtime :: int
  pl_txtime :: int
  pl_curr_group :: int
  pl_permanent :: nat
  pl_locked :: bool

record destination =
  d_name :: string
  d_hisneigh :: string
  d_rev :: string
  d_link :: "nat option"
  d_rtt :: int
  d_hops :: int
  d_last_sent_rtt :: int
  d_updated :: int
  d_auto_learned :: bool
  d_connected :: bool

record chist =
  ch_hist_time :: int
  ch_hist_name :: string
  ch_hist_text :: string

record channel =
  ch_topic :: string
  ch_time :: int
  ch_tsetby :: string
  ch_createby :: string
  ch_ctime :: int
  ch_lastby :: string
  ch_ltime :: int
  ch_locked_until :: int
  ch_expires :: int
  ch_chan :: int
  ch_locked :: bool
  ch_flags :: nat
  ch_chist :: "chist list"

record ban_list =
  bl_name :: string
  bl_announced_from :: string
  bl_reason :: string
  bl_time :: int
  bl_time_refreshed :: int
  bl_announce_next :: int
  bl_until :: int

record sul_qp =
  qp_name :: string
  qp_text :: string
  qp_text_len :: int
  qp_channel :: int
  qp_toname :: "string option"

record static_user_list =
  s_id :: nat
  s_name :: string
  s_host :: string
  s_last_updated :: int
  s_stop_process_until :: int
  s_time_nextcmd :: "int list"
  s_num_floods :: "int list"
  s_via :: "cid option"
  s_sp :: "cid list"
  s_delayqueue :: "sul_qp list"
  s_delayqueue_len :: int

text \<open>An entry of the access list; \<open>None\<close> in \<open>ap_source_addr\<close> is \<^verbatim>\<open>NULL\<close>.\<close>

datatype sa_family = AF_INET | AF_UNIX | AF_AX25

record acclist_t =
  ap_network :: "32 word"
  ap_netmask :: "32 word"
  ap_mode :: nat
  ap_proto :: sa_family
  ap_source_addr :: "string option"
  ap_last_resolved :: int

text \<open>The settings; \<open>history_lines\<close> is a \<^verbatim>\<open>char\<close>, the rate limits are
  \<^verbatim>\<open>unsigned int\<close>.\<close>

record config =
  myhostname :: string
  max_u_queue :: int
  max_h_queue :: int
  history_lines :: int
  history_expires :: int
  debugchannel :: int
  ban_zero :: bool
  FeatureFLOOD :: nat
  FeatureBAN :: nat
  BanTime :: int
  SulCmdDelay :: nat
  SulLifeTime :: nat
  RateLimitMAX :: nat
  RateLimitLine :: nat
  RateLimitContent :: nat
  defaultchannel :: int
  BrandUser :: bool
  AcceptSquit :: bool
  NR_PERMLINKS :: nat
  listen_port :: int
  secretnumber :: int
  callvalidate :: bool
  restrictedmode :: int
  ForceAuthWhenOn :: bool
  AcceptAPRSpass :: bool
  mysysinfo :: "string option"
  myemailaddr :: "string option"
  mytimezone :: "string option"
  secretpass :: "string option"
  log_level :: nat
  log_dest :: nat
  log_fac :: int
  log_lev :: int

text \<open>The global variables. \<open>w_last_run\<close> holds the \<^verbatim>\<open>static time_t last_run\<close> of each periodic
  function by name. \<open>w_listeners\<close> is the names of the \<^verbatim>\<open>listeners\<close> array, \<open>w_passwd\<close> the
  contents of the password file, \<open>w_seed\<close> the state of the random numbers, \<open>w_breakins\<close> the \<^verbatim>\<open>breakins\<close> of \<^verbatim>\<open>user.c\<close>. \<open>w_fault\<close> records that the run passed a point where the C program has no
  defined behaviour (a \<^verbatim>\<open>NULL\<close> dereference, recursion without end). \<open>w_writes\<close> is the
  history of the \<^verbatim>\<open>write\<close> system calls that do not go through an output queue.\<close>

record world =
  w_connections :: "connection list"
  w_next_cid :: cid
  w_permarray :: "permlink option list"
  w_destinations :: "destination list"
  w_channels :: "channel list"
  w_banned_users :: "ban_list list"
  w_static_users :: "static_user_list list"
  w_next_sid :: nat
  w_ban_statistic_bans :: int
  w_ban_statistic_last :: "string \<times> string \<times> string \<times> int"
  w_last_run :: "string \<Rightarrow> int"
  w_currtime :: int
  w_cfg :: config
  w_accesslist :: "acclist_t list"
  w_unix_sockets :: "string list"
  w_listeners :: "string option list"
  w_passwd :: "string option"
  w_seed :: int
  w_breakins :: int
  w_writes :: "(int \<times> string) list"
  w_fault :: bool

section \<open>Flags\<close>

abbreviation (input) "FEATURE_AWAY \<equiv> (1 :: nat)"
abbreviation (input) "FEATURE_FWD \<equiv> (2 :: nat)"
abbreviation (input) "FEATURE_MODES \<equiv> (4 :: nat)"
abbreviation (input) "FEATURE_LINK \<equiv> (8 :: nat)"
abbreviation (input) "FEATURE_UDAT \<equiv> (16 :: nat)"
abbreviation (input) "FEATURE_NICK \<equiv> (32 :: nat)"
abbreviation (input) "FEATURE_FILTER \<equiv> (64 :: nat)"
abbreviation (input) "FEATURE_SAUPP_I \<equiv> (128 :: nat)"

abbreviation (input) "M_CHAN_S \<equiv> (0x01 :: nat)"
abbreviation (input) "M_CHAN_P \<equiv> (0x02 :: nat)"
abbreviation (input) "M_CHAN_T \<equiv> (0x04 :: nat)"
abbreviation (input) "M_CHAN_I \<equiv> (0x08 :: nat)"
abbreviation (input) "M_CHAN_M \<equiv> (0x10 :: nat)"
abbreviation (input) "M_CHAN_L \<equiv> (0x20 :: nat)"

text \<open>\<^verbatim>\<open>flags & mask\<close> as a truth value.\<close>

definition flag :: "nat \<Rightarrow> nat \<Rightarrow> bool" where
  "flag flags m \<longleftrightarrow> and flags m \<noteq> 0"

abbreviation (input) "NAMESIZE \<equiv> (63 :: nat)"
abbreviation (input) "HOSTNAMESIZE \<equiv> (79 :: nat)"
abbreviation (input) "PERSSIZE \<equiv> (511 :: nat)"
abbreviation (input) "AWAYSIZE \<equiv> (511 :: nat)"
abbreviation (input) "TOPICSIZE \<equiv> (511 :: nat)"
abbreviation (input) "MAX_MSGSIZE \<equiv> (750 :: nat)"
abbreviation (input) "IRC_MAX_MSGSIZE \<equiv> (510 :: nat)"
abbreviation (input) "FLOODSIZE \<equiv> (1785 :: int)"
abbreviation (input) "CHIST_MAXLINES \<equiv> (64 :: int)"

section \<open>Access to the lists\<close>

definition conn :: "world \<Rightarrow> cid \<Rightarrow> connection option" where
  "conn w i = find (\<lambda>c. c_id c = i) (w_connections w)"

definition upd_conn :: "cid \<Rightarrow> (connection \<Rightarrow> connection) \<Rightarrow> world \<Rightarrow> world" where
  "upd_conn i f w = w\<lparr>w_connections := update_first (\<lambda>c. c_id c = i) f (w_connections w)\<rparr>"

definition conn_ids :: "world \<Rightarrow> cid list" where
  "conn_ids w = map c_id (w_connections w)"

text \<open>\<^verbatim>\<open>for (p = connections; p; p = p->next) body\<close>: the body gets the number of the
  connection and its record at the start of the turn.\<close>

fun for_ids :: "cid list \<Rightarrow> (connection \<Rightarrow> world \<Rightarrow> world) \<Rightarrow> world \<Rightarrow> world" where
  "for_ids [] body w = w"
| "for_ids (i # is) body w =
     for_ids is body (case conn w i of None \<Rightarrow> w | Some p \<Rightarrow> body p w)"

definition for_connections :: "(connection \<Rightarrow> world \<Rightarrow> world) \<Rightarrow> world \<Rightarrow> world" where
  "for_connections body w = for_ids (conn_ids w) body w"

definition lock_conn :: "cid \<Rightarrow> world \<Rightarrow> world" where
  "lock_conn i = upd_conn i (\<lambda>c. c\<lparr>c_locked := True\<rparr>)"

definition is_locked :: "world \<Rightarrow> cid \<Rightarrow> bool" where
  "is_locked w i = (case conn w i of None \<Rightarrow> False | Some c \<Rightarrow> c_locked c)"

definition clear_locks :: "world \<Rightarrow> world" where
  "clear_locks w = w\<lparr>w_connections := map (\<lambda>c. c\<lparr>c_locked := False\<rparr>) (w_connections w)\<rparr>"

definition perm :: "world \<Rightarrow> nat \<Rightarrow> permlink option" where
  "perm w i = (if i < length (w_permarray w) then w_permarray w ! i else None)"

definition upd_perm :: "nat \<Rightarrow> (permlink \<Rightarrow> permlink) \<Rightarrow> world \<Rightarrow> world" where
  "upd_perm i f w = (case perm w i of None \<Rightarrow> w
     | Some p \<Rightarrow> w\<lparr>w_permarray := (w_permarray w)[i := Some (f p)]\<rparr>)"

text \<open>The first cell of \<^verbatim>\<open>permarray\<close> that satisfies a predicate.\<close>

definition find_perm :: "(permlink \<Rightarrow> bool) \<Rightarrow> world \<Rightarrow> nat option" where
  "find_perm P w =
     find (\<lambda>i. case perm w i of None \<Rightarrow> False | Some p \<Rightarrow> P p) [0..<length (w_permarray w)]"

definition find_permlink :: "string \<Rightarrow> world \<Rightarrow> nat option" where
  "find_permlink name = find_perm (\<lambda>p. strcaseeq (pl_name p) name)"

definition find_destination :: "string \<Rightarrow> world \<Rightarrow> destination option" where
  "find_destination name w =
     (if name = [] then None else find (\<lambda>d. strcaseeq (d_name d) name) (w_destinations w))"

definition find_channel :: "int \<Rightarrow> world \<Rightarrow> channel option" where
  "find_channel n w = find (\<lambda>ch. ch_chan ch = n) (w_channels w)"

definition upd_channel :: "int \<Rightarrow> (channel \<Rightarrow> channel) \<Rightarrow> world \<Rightarrow> world" where
  "upd_channel n f w = w\<lparr>w_channels := update_first (\<lambda>ch. ch_chan ch = n) f (w_channels w)\<rparr>"

definition sul :: "world \<Rightarrow> nat \<Rightarrow> static_user_list option" where
  "sul w i = find (\<lambda>s. s_id s = i) (w_static_users w)"

definition upd_sul :: "nat \<Rightarrow> (static_user_list \<Rightarrow> static_user_list) \<Rightarrow> world \<Rightarrow> world" where
  "upd_sul i f w = w\<lparr>w_static_users := update_first (\<lambda>s. s_id s = i) f (w_static_users w)\<rparr>"

section \<open>Queries\<close>

definition on_chan_list :: "connection \<Rightarrow> int \<Rightarrow> bool" where
  "on_chan_list p channel \<longleftrightarrow> list_ex (\<lambda>cl. cl_channel cl = channel) (c_chan_list p)"

definition find_connection :: "string \<Rightarrow> string option \<Rightarrow> conn_type \<Rightarrow> world \<Rightarrow> connection option" where
  "find_connection fromname hostname ctype w =
     (let look_for_me = (case hostname of None \<Rightarrow> True | Some h \<Rightarrow> strcaseeq h (myhostname (w_cfg w))) in
      find (\<lambda>p. c_type p = ctype \<and> \<not> (c_via p = None \<and> \<not> look_for_me) \<and>
                (case hostname of None \<Rightarrow> True | Some h \<Rightarrow> strcaseeq (c_host p) h) \<and>
                strcaseeq (c_name p) fromname)
        (w_connections w))"

definition find_nickname :: "string \<Rightarrow> string option \<Rightarrow> world \<Rightarrow> string" where
  "find_nickname fromname hostname w =
     (case find_connection fromname hostname CT_USER w of None \<Rightarrow> fromname | Some p \<Rightarrow> c_nickname p)"

definition count_user :: "int \<Rightarrow> world \<Rightarrow> nat" where
  "count_user channel w = length (filter (\<lambda>p. c_type p = CT_USER \<and>
     (c_via p \<noteq> None \<and> (channel = -1 \<or> c_channel p = channel) \<or>
      list_ex (\<lambda>cl. channel = -1 \<or> cl_channel cl = channel) (c_chan_list p))) (w_connections w))"

definition count_topics :: "world \<Rightarrow> nat" where
  "count_topics w = length (filter (\<lambda>ch. ch_expires ch = 0 \<and>
     \<not> flag (ch_flags ch) (if M_CHAN_S \<noteq> 0 \<or> M_CHAN_I \<noteq> 0 then 1 else 0) \<and> ch_topic ch \<noteq> []) (w_channels w))"

definition isonchannel :: "connection \<Rightarrow> string \<Rightarrow> string \<Rightarrow> world \<Rightarrow> bool" where
  "isonchannel cp user host w \<longleftrightarrow>
     c_channel cp \<noteq> -1 \<and>
     list_ex (\<lambda>p. c_type p = CT_USER \<and> c_id p \<noteq> c_id cp \<and> strcaseeq (c_name p) user \<and> strcaseeq (c_host p) host \<and>
        (c_channel p = c_channel cp \<or>
         list_ex (\<lambda>cl1. c_channel p = cl_channel cl1 \<or>
            list_ex (\<lambda>cl. cl_channel cl = cl_channel cl1) (c_chan_list p)) (c_chan_list cp)))
       (w_connections w)"

section \<open>Start of the program\<close>

definition default_config :: "string \<Rightarrow> config" where
  "default_config hostname =
     \<lparr>myhostname = hostname, max_u_queue = 50 * 1024, max_h_queue = 100 * 1024,
      history_lines = CHIST_MAXLINES, history_expires = 8 * 60, debugchannel = 32767, ban_zero = True,
      FeatureFLOOD = 1 + 2 + 8 + 16 + 4 + 32, FeatureBAN = 1 + 2 + 4, BanTime = 15, SulCmdDelay = 30,
      SulLifeTime = 60 * 60, RateLimitMAX = 10, RateLimitLine = 2, RateLimitContent = 64,
      defaultchannel = 0, BrandUser = True, AcceptSquit = True, NR_PERMLINKS = 16,
      listen_port = 3600, secretnumber = 0, callvalidate = True, restrictedmode = 0, ForceAuthWhenOn = True,
      AcceptAPRSpass = False, mysysinfo = None, myemailaddr = None, mytimezone = None, secretpass = None,
      log_level = 1 + 2 + 8 + 4 + 2048 + 16, log_dest = 2, log_fac = 24, log_lev = 6\<rparr>"

definition boot_world :: "string \<Rightarrow> int \<Rightarrow> world" where
  "boot_world hostname now =
     \<lparr>w_connections = [], w_next_cid = 0, w_permarray = [], w_destinations = [],
      w_channels = [], w_banned_users = [], w_static_users = [], w_next_sid = 0,
      w_ban_statistic_bans = 0, w_ban_statistic_last = ([], [], [], 0), w_last_run = (\<lambda>_. 0),
      w_currtime = now, w_cfg = default_config hostname,
      w_accesslist = [], w_unix_sockets = [], w_listeners = replicate 256 None, w_passwd = None, w_seed = 1, w_breakins = 0, w_writes = [], w_fault = False\<rparr>"

text \<open>A connection as \<^verbatim>\<open>alloc_connection\<close> fills it in, before its static user entry is made.\<close>

definition blank_connection :: "cid \<Rightarrow> int \<Rightarrow> int \<Rightarrow> connection" where
  "blank_connection i fd now =
     \<lparr>c_id = i, c_type = CT_UNKNOWN, c_session_type = 0, c_name = [], c_host = [], c_rev = [], c_nickname = [],
      c_shownicks = True, c_via = None, c_time = now, c_locked = False, c_fd = fd, c_time_write = now,
      c_time_recv = now, c_time_processed = now, c_addr = None, c_sockname = [], c_ibuf = [], c_ibufq = [], c_obuf = [], c_hostallowed = True, c_mtu = 1024,
      c_compress = 1, c_channel = 0, c_chan_list = [], c_jobs = [], c_away = [], c_atime = now, c_mtime = 0, c_idle_timeout = 0, c_anti_idle_offset = 0,
      c_pers = [], c_verbose = True, c_prompt = replicate 4 (CHR 0x00), c_query = [], c_notify = [],
      c_pass_want = [], c_pass_got = [], c_needauth = 0, c_isauth = 0, c_filter = None,
      c_filterwords = None, c_filter_time = 0, c_filtermsgs = 0, c_charset_in = 1, c_charset_out = 1,
      c_channelop = False, c_operator = 0, c_expected = 0, c_invitation_channel = 0, c_width = 80, c_observer = False,
      c_restrictedmode = 0, c_timestamp = 0, c_sul = None, c_amprnet = True, c_oldaway = False,
      c_ax25 = False, c_features = 0, c_ircmode = False\<rparr>"

section \<open>Lemmas on the access functions\<close>

lemma conn_SomeD: "conn w i = Some c \<Longrightarrow> c \<in> set (w_connections w) \<and> c_id c = i"
  by (auto simp: conn_def find_Some_iff)

lemma conn_None_iff: "conn w i = None \<longleftrightarrow> i \<notin> set (conn_ids w)"
  by (auto simp: conn_def conn_ids_def find_None_iff)

lemma upd_conn_frame [simp, frame]:
  "w_next_cid (upd_conn i f w) = w_next_cid w" "w_permarray (upd_conn i f w) = w_permarray w"
  "w_destinations (upd_conn i f w) = w_destinations w" "w_channels (upd_conn i f w) = w_channels w"
  "w_banned_users (upd_conn i f w) = w_banned_users w" "w_static_users (upd_conn i f w) = w_static_users w"
  "w_currtime (upd_conn i f w) = w_currtime w" "w_cfg (upd_conn i f w) = w_cfg w"
  "w_fault (upd_conn i f w) = w_fault w" "w_last_run (upd_conn i f w) = w_last_run w"
  "w_writes (upd_conn i f w) = w_writes w" "w_accesslist (upd_conn i f w) = w_accesslist w"
  by (simp_all add: upd_conn_def)

lemma upd_conn_ids [simp]: "(\<And>c. c_id (f c) = c_id c) \<Longrightarrow> conn_ids (upd_conn i f w) = conn_ids w"
  by (simp add: conn_ids_def upd_conn_def map_update_first)

lemma find_map_id: "(\<And>c. c_id (f c) = c_id c) \<Longrightarrow>
    find (\<lambda>c. c_id c = i) (map f xs) = map_option f (find (\<lambda>c. c_id c = i) xs)"
  by (induction xs) auto

lemma conn_upd_conn:
  assumes "\<And>c. c_id (f c) = c_id c"
  shows "conn (upd_conn i f w) j = (if j = i then map_option f (conn w i) else conn w j)"
proof -
  have "find (\<lambda>c. c_id c = j) (update_first (\<lambda>c. c_id c = i) f xs) =
     (if j = i then map_option f (find (\<lambda>c. c_id c = i) xs) else find (\<lambda>c. c_id c = j) xs)" for xs
    by (induction xs) (auto simp: assms)
  then show ?thesis by (simp add: conn_def upd_conn_def)
qed

lemma upd_conn_None: "conn w i = None \<Longrightarrow> upd_conn i f w = w"
  by (simp add: conn_def upd_conn_def update_first_none)

lemma upd_conn_cong: "conn w i = Some c \<Longrightarrow> f c = g c \<Longrightarrow> upd_conn i f w = upd_conn i g w"
  unfolding conn_def upd_conn_def by (drule (1) update_first_cong) simp

lemma upd_conn_id: "conn w i = Some c \<Longrightarrow> f c = c \<Longrightarrow> upd_conn i f w = w"
  unfolding conn_def upd_conn_def by (drule (1) update_first_id) simp

lemma clear_locks_frame [simp, frame]:
  "w_permarray (clear_locks w) = w_permarray w" "w_destinations (clear_locks w) = w_destinations w"
  "w_channels (clear_locks w) = w_channels w" "w_banned_users (clear_locks w) = w_banned_users w"
  "w_static_users (clear_locks w) = w_static_users w" "w_currtime (clear_locks w) = w_currtime w"
  "w_cfg (clear_locks w) = w_cfg w" "conn_ids (clear_locks w) = conn_ids w"
  by (simp_all add: clear_locks_def conn_ids_def)

lemma conn_clear_locks: "conn (clear_locks w) i = map_option (\<lambda>c. c\<lparr>c_locked := False\<rparr>) (conn w i)"
  by (simp add: conn_def clear_locks_def find_map_id)

text \<open>Every connection has its own number.\<close>

definition wf_conns :: "world \<Rightarrow> bool" where
  "wf_conns w \<longleftrightarrow> distinct (conn_ids w) \<and> list_all (\<lambda>i. i < w_next_cid w) (conn_ids w)"

lemma wf_conn_in: "wf_conns w \<Longrightarrow> c \<in> set (w_connections w) \<Longrightarrow> conn w (c_id c) = Some c"
proof -
  have "find (\<lambda>d. c_id d = c_id c) xs = Some c" if "distinct (map c_id xs)" "c \<in> set xs" for xs
    using that by (induction xs) (auto intro: rev_image_eqI)
  then show "wf_conns w \<Longrightarrow> c \<in> set (w_connections w) \<Longrightarrow> conn w (c_id c) = Some c"
    by (simp add: wf_conns_def conn_ids_def conn_def)
qed

end
