(* ===== verification/Callsign.thy ===== *)
theory Callsign
  imports Names State
begin

text \<open>
  AX.25 addresses (\<^verbatim>\<open>ba_stub.c\<close>): a callsign with SSID as the seven shifted bytes of the
  protocol and back, an address with its digipeaters, the socket address of a name, and the test
  whether a name can be a callsign.

  The resolver functions of the system are parameters of \<open>build_sockaddr\<close>.
\<close>

section \<open>Definitions\<close>

text \<open>\<^verbatim>\<open>sscanf(p, "%d", &ssid)\<close>: \<open>None\<close> when there is no number.\<close>

definition scan_int :: "string \<Rightarrow> int option" where
  "scan_int s =
     (let t = dropWhile isspace s;
          u = (if t \<noteq> [] \<and> (hd t = CHR ''-'' \<or> hd t = CHR ''+'') then tl t else t)
      in if u \<noteq> [] \<and> isdigit (hd u) then Some (atoi t) else None)"

definition ax25_ntoa :: "ax25_address \<Rightarrow> string" where
  "ax25_ntoa a =
     (let call = filter (\<lambda>c. c \<noteq> CHR '' '') (map (\<lambda>b. char_of (unat (drop_bit 1 b))) (take 6 a));
          n = unat (and (drop_bit 1 (a ! 6)) 0x0F)
      in call @ ''-'' @ (if 9 < n then ''1'' else []) @ [char_of ((if 9 < n then n - 10 else n) + 48)])"

text \<open>Lines 90 to 105: the letters, at most six, and what follows them. \<open>None\<close> for a character
  that is neither letter nor digit.\<close>

fun call_letters :: "nat \<Rightarrow> string \<Rightarrow> (byte list \<times> string) option" where
  "call_letters 0 p = Some ([], p)"
| "call_letters (Suc n) [] = Some ([], [])"
| "call_letters (Suc n) (c # p) =
     (if toupper c = CHR ''-'' then Some ([], c # p)
      else if \<not> isalnum (toupper c) then None
      else map_option (\<lambda>(bs, r). (push_bit 1 (of_char (toupper c)) # bs, r)) (call_letters n p))"

definition convert_call_entry :: "string \<Rightarrow> ax25_address option" where
  "convert_call_entry name =
     (case call_letters 6 name of
        None \<Rightarrow> None
      | Some (bs, p) \<Rightarrow>
          if bs = [] then None
          else
            let pad = bs @ replicate (6 - length bs) (push_bit 1 32);
                ssid = (if p \<noteq> [] then scan_int (tl p) else Some 0)
            in (case ssid of
                  None \<Rightarrow> None
                | Some n \<Rightarrow> if n < 0 \<or> 15 < n then None
                            else Some (pad @ [and (push_bit 1 (word_of_int (n + 48))) 0x1E])))"

abbreviation (input) "AX25_MAX_DIGIS \<equiv> (8 :: nat)"

definition is_sep :: "char \<Rightarrow> bool" where
  "is_sep c \<longleftrightarrow> isspace c \<or> c = CHR '',''"

text \<open>The addresses of the tokens, one per turn of the loop of line 144; \<open>n\<close> counts them.\<close>

function call_tokens :: "nat \<Rightarrow> string \<Rightarrow> ax25_address list option" where
  "call_tokens n s =
     (let bp = dropWhile is_sep s;
          tok = takeWhile (\<lambda>c. \<not> is_sep c) bp;
          np = tl (dropWhile (\<lambda>c. \<not> is_sep c) bp)
      in if n = 1 \<and> tok \<noteq> [] \<and> (strcaseeq tok ''V'' \<or> strcaseeq tok ''VIA'')
         then (if np \<noteq> [] then call_tokens n np else Some [])
         else
           (case convert_call_entry tok of
              None \<Rightarrow> None
            | Some a \<Rightarrow>
                if n + 1 < AX25_MAX_DIGIS \<and> np \<noteq> [] then map_option (\<lambda>as. a # as) (call_tokens (n + 1) np)
                else Some [a]))"
  by pat_completeness auto

lemma tokens_shorter: "tl (dropWhile P (dropWhile Q s)) \<noteq> [] \<Longrightarrow> length (tl (dropWhile P (dropWhile Q s))) < length s"
  using length_dropWhile_le [of P "dropWhile Q s"] length_dropWhile_le [of Q s]
  by (cases "dropWhile P (dropWhile Q s)") auto

termination call_tokens
  by (relation "measure (\<lambda>(n, s). length s)") (auto simp del: length_tl intro: tokens_shorter)

declare call_tokens.simps [simp del]

definition convert_call :: "string \<Rightarrow> full_sockaddr_ax25 option" where
  "convert_call call =
     (case call_tokens 0 call of
        None \<Rightarrow> None
      | Some as \<Rightarrow> Some \<lparr>sax25_call = hd as, fsa_digipeater = tl as\<rparr>)"

text \<open>A name of more than 1023 characters overruns \<^verbatim>\<open>buf\<close>.\<close>

datatype sockaddr_result = Addr_overrun | Addr_null | Addr sockaddr

text \<open>\<open>aton\<close>, \<open>hosts\<close> and \<open>servs\<close> are \<^verbatim>\<open>inet_aton\<close>, \<^verbatim>\<open>gethostbyname\<close> and
  \<^verbatim>\<open>getservbyname\<close>; \<^verbatim>\<open>sun_path\<close> has 108 bytes. \<^verbatim>\<open>errno\<close> is left as it was by a
  call that succeeds, and 0 after the reset of lines 265 and 282. \<^verbatim>\<open>htons\<close> keeps 16 bits.\<close>

definition build_sockaddr ::
  "(string \<Rightarrow> 32 word option) \<Rightarrow> (string \<Rightarrow> 32 word option) \<Rightarrow> (string \<Rightarrow> nat option) \<Rightarrow> string \<Rightarrow> sockaddr_result" where
  "build_sockaddr aton hosts servs name =
     (if 1023 < length name then Addr_overrun
      else case strchr name (CHR '':'') of
        None \<Rightarrow> Addr_null
      | Some r \<Rightarrow>
          let host_name = takeWhile (\<lambda>c. c \<noteq> CHR '':'') name; serv_name = tl r in
          if host_name = [] \<or> serv_name = [] then Addr_null
          else if host_name = ''local'' \<or> host_name = ''unix'' then Addr (SA_UNIX (take 107 serv_name))
          else if host_name = ''ax25''
          then (case convert_call serv_name of None \<Rightarrow> Addr_null | Some a \<Rightarrow> Addr (SA_AX25 a))
          else
            let host = (if host_name = ''*'' then Some 0
                        else if host_name = ''loopback'' \<or> host_name = ''localhost'' then Some 0x7F000001
                        else case aton host_name of None \<Rightarrow> hosts host_name | Some a \<Rightarrow> Some a);
                port = (if isdigit (hd serv_name) then Some (nat (atoi serv_name mod 2 ^ 16)) else servs serv_name)
            in (case (host, port) of (Some h, Some p) \<Rightarrow> Addr (SA_INET h p) | _ \<Rightarrow> Addr_null))"

definition is_ssid_mark :: "char \<Rightarrow> bool" where
  "is_ssid_mark c \<longleftrightarrow> c \<in> {CHR ''-'', CHR ''/'', CHR ''_''}"

definition callvalid :: "string \<Rightarrow> bool" where
  "callvalid call =
     (let base = takeWhile (\<lambda>c. \<not> is_ssid_mark c) call; l = length base;
          p_ssid = dropWhile (\<lambda>c. \<not> is_ssid_mark c) call;
          d = length (filter isdigit base)
      in \<not> 9 + 1 < length p_ssid \<and> \<not> l < 3 \<and> \<not> 6 < l \<and>
         \<not> (isdigit (call ! 0) \<and> isdigit (call ! 1)) \<and> (isdigit (call ! 1) \<or> isdigit (call ! 2)) \<and>
         isalpha (call ! (l - 1)) \<and> list_all isalnum base \<and> \<not> d < 1 \<and> \<not> 2 < d)"

section \<open>A callsign survives the encoding\<close>

lemma call_letters_append:
  assumes "list_all isalnum cs" "length cs \<le> n" "length cs = n \<or> r = [] \<or> hd r = CHR ''-''"
  shows "call_letters n (cs @ r) = Some (map (\<lambda>c. push_bit 1 (of_char (toupper c))) cs, r)"
  using assms
proof (induction cs arbitrary: n)
  case Nil
  then show ?case by (cases n; cases r) (auto simp: toupper_def islower_def)
next
  case (Cons c cs)
  then obtain m where m: "n = Suc m" "length cs \<le> m" "length cs = m \<or> r = [] \<or> hd r = CHR ''-''" by (cases n) auto
  have "isalnum (toupper c)" "\<not> isalnum (CHR ''-'')" using Cons.prems(1) by (simp, simp add: ctype_defs)
  then have "toupper c \<noteq> CHR ''-''" by metis
  then show ?case using Cons.IH [OF _ m(2,3)] Cons.prems(1) by (simp add: m(1))
qed

lemma shifted_char:
  assumes "ccode c < 128"
  shows "char_of (unat (drop_bit 1 (push_bit 1 (of_char c :: 8 word)))) = c"
proof -
  have "(of_char c :: 8 word) = of_nat (ccode c)" by (rule of_nat_of_char [symmetric])
  then have "push_bit 1 (of_char c :: 8 word) = of_nat (2 * ccode c)"
    by (simp only: push_bit_eq_mult power_one_right of_nat_mult of_nat_numeral mult.commute)
  then have "unat (push_bit 1 (of_char c :: 8 word)) = 2 * ccode c"
    using assms by (simp only: unat_of_nat) simp
  then have "unat (drop_bit 1 (push_bit 1 (of_char c :: 8 word))) = ccode c"
    using assms by (simp only: unsigned_drop_bit_eq) (simp add: drop_bit_eq_div take_bit_eq_mod)
  then show ?thesis by simp
qed

lemma alnum_small: "isalnum c \<Longrightarrow> ccode c < 128 \<and> c \<noteq> CHR '' ''"
  by (auto simp: ctype_defs)

lemma ssid_bits:
  assumes "n \<le> 15"
  shows "unat (and (drop_bit 1 (and (push_bit 1 (word_of_int (int n + 48) :: 8 word)) 0x1E)) 0x0F) = n"
proof -
  have "list_all (\<lambda>n. unat (and (drop_bit 1 (and (push_bit 1 (word_of_int (int n + 48) :: 8 word)) 0x1E)) 0x0F) = n) [0..<16]"
    by code_simp
  with assms show ?thesis by (simp add: list_all_iff)
qed

lemma dec_ssid:
  assumes "n \<le> 15"
  shows "(if 9 < n then ''1'' else []) @ [char_of ((if 9 < n then n - 10 else n) + 48)] = dec (int n)"
proof -
  have "list_all (\<lambda>n. (if 9 < n then ''1'' else []) @ [char_of ((if 9 < n then n - 10 else n) + 48)] = dec (int n)) [0..<16]"
    by code_simp
  with assms show ?thesis by (simp add: list_all_iff)
qed

lemma scan_int_dec: "scan_int (dec (int n)) = (if int n < 2 ^ 31 then Some (int n) else scan_int (dec (int n)))"
proof (cases "int n < 2 ^ 31")
  case True
  have "hd (dec (int n)) = hd (dec_of_nat n)" "dec (int n) \<noteq> []" by (simp_all add: dec_def)
  then have d: "isdigit (hd (dec (int n)))" using hd_dec_of_nat [of n] by simp
  then have "dropWhile isspace (dec (int n)) = dec (int n)"
    using isdigit_not_isspace by (cases "dec (int n)") auto
  then show ?thesis using d True \<open>dec (int n) \<noteq> []\<close> atoi_dec [of "int n"] by (auto simp: scan_int_def isdigit_def Let_def)
qed simp

lemma char_32: "char_of (32 :: nat) = CHR '' ''"
  by code_simp

text \<open>The entry of a callsign and the SSID behind one more character.\<close>

lemma convert_call_entry_letters:
  assumes "list_all isalnum cs" "cs \<noteq> []" "length cs \<le> 6" "n \<le> 15" "length cs = 6 \<or> c = CHR ''-''"
  shows "convert_call_entry (cs @ c # dec (int n)) =
     Some (map (\<lambda>c. push_bit 1 (of_char (toupper c))) cs @ replicate (6 - length cs) (push_bit 1 32) @
           [and (push_bit 1 (word_of_int (int n + 48))) 0x1E])"
proof -
  have "call_letters 6 (cs @ c # dec (int n)) = Some (map (\<lambda>c. push_bit 1 (of_char (toupper c))) cs, c # dec (int n))"
    using assms by (intro call_letters_append) auto
  then show ?thesis
    using assms scan_int_dec [of n] by (simp add: convert_call_entry_def)
qed

text \<open>A callsign of one to six letters and digits with an SSID from 0 to 15 is encoded into an AX.25
  address, and the printed address is the callsign in upper case with the same SSID.\<close>

theorem callsign_roundtrip:
  assumes "list_all isalnum cs" "cs \<noteq> []" "length cs \<le> 6" "n \<le> 15"
  shows "\<exists>a. convert_call_entry (cs @ ''-'' @ dec (int n)) = Some a \<and> length a = 7 \<and>
           ax25_ntoa a = strupr cs @ ''-'' @ dec (int n)"
proof -
  define up :: "byte list" where "up = map (\<lambda>c. push_bit 1 (of_char (toupper c))) cs"
  define pad :: "byte list" where "pad = replicate (6 - length cs) (push_bit 1 32)"
  define sb :: byte where "sb = and (push_bit 1 (word_of_int (int n + 48))) 0x1E"
  have l: "length (up @ pad) = 6" using assms(3) by (simp add: up_def pad_def)
  have "ccode (toupper c) < 128" if "c \<in> set cs" for c
    using assms(1) that alnum_small [of "toupper c"] by (simp add: list_all_iff)
  then have "map (\<lambda>b. char_of (unat (drop_bit 1 b))) up = map toupper cs"
    unfolding up_def map_map comp_def by (intro map_cong refl shifted_char)
  moreover have "filter (\<lambda>c. c \<noteq> CHR '' '') (map toupper cs) = map toupper cs"
    by (rule filter_True) (use assms(1) alnum_small in \<open>auto simp: list_all_iff dest: isalnum_toupper [THEN iffD2]\<close>)
  moreover have "filter (\<lambda>c. c \<noteq> CHR '' '') (map (\<lambda>b. char_of (unat (drop_bit 1 b))) pad) = []"
    using char_32 by (auto simp: pad_def filter_empty_conv)
  moreover have "take 6 ((up @ pad) @ [sb]) = up @ pad" "((up @ pad) @ [sb]) ! 6 = sb"
    using l by (simp_all only: take_append nth_append) simp_all
  moreover have "unat (and (drop_bit 1 sb) 0x0F) = n" unfolding sb_def by (rule ssid_bits [OF assms(4)])
  ultimately have "ax25_ntoa ((up @ pad) @ [sb]) = strupr cs @ ''-'' @ dec (int n)"
    unfolding ax25_ntoa_def Let_def dec_ssid [OF assms(4), symmetric] by (simp only: map_append filter_append strupr_def append.simps append_assoc append_Nil2)
  then show ?thesis
    using convert_call_entry_letters [OF assms, of "CHR ''-''"] l by (simp add: up_def pad_def sb_def)
qed

theorem callsign_roundtrip_witness:
  "\<exists>a. convert_call_entry ''db0tud-10'' = Some a \<and> length a = 7 \<and> ax25_ntoa a = ''DB0TUD-10''"
proof -
  have d: "dec (int 10) = ''10''" "strupr ''db0tud'' = ''DB0TUD''" by code_simp+
  have "list_all isalnum ''db0tud''" by code_simp
  from callsign_roundtrip [OF this, of 10] show ?thesis unfolding d by simp
qed

text \<open>Behind six letters any character is taken for the dash: the check of the error message that
  the SSID must follow it is never made.\<close>

theorem ssid_without_dash:
  assumes "list_all isalnum cs" "length cs = 6" "n \<le> 15"
  shows "convert_call_entry (cs @ c # dec (int n)) = convert_call_entry (cs @ ''-'' @ dec (int n))"
proof -
  have "cs \<noteq> []" using assms(2) by auto
  with convert_call_entry_letters [of cs n] assms show ?thesis by (simp del: push_bit_Suc)
qed

theorem ssid_without_dash_witness:
  "convert_call_entry ''db0tudx5'' = convert_call_entry ''db0tud-5''"
proof -
  have d: "dec (int 5) = ''5''" by code_simp
  have "list_all isalnum ''db0tud''" by (simp add: ctype_defs)
  from ssid_without_dash [OF this, of 5 "CHR ''x''"] d show ?thesis by simp
qed

end
