(* ===== verification/Output.thy ===== *)
theory Output
  imports State Names Convert Compression
begin

text \<open>
  The way of a text to a client (\<^verbatim>\<open>conversd.c\<close>): \<open>appendstring\<close> converts it to the client's
  character set and puts it at the end of the connection's output queue, and closes the connection
  when the queue has been stuck for two minutes and is over its limit; \<open>fast_write\<close> writes at
  once.

  Closing a connection (\<^verbatim>\<open>bye_command2\<close>) itself sends messages, so the two call each other. Every
  operation takes the surroundings it runs in, \<open>env\<close>, with the closing operation \<open>e_bye\<close> as a
  field; the theory of sessions ties the knot. The other fields are the outside: \<^verbatim>\<open>localtime\<close>
  and the result of a \<^verbatim>\<open>write\<close> and whether it sets \<^verbatim>\<open>EAGAIN\<close>, by the number of the call,
  the descriptor and the data, whether a plain \<^verbatim>\<open>char\<close> is signed, the truth value found in
  memory that nobody has initialised, and the address and service lookups of the system.
\<close>

record env =
  e_localtime :: "int \<Rightarrow> tm option"
  e_write :: "nat \<Rightarrow> int \<Rightarrow> string \<Rightarrow> int"
  e_eagain :: "nat \<Rightarrow> bool"
  e_char_signed :: bool
  e_uninit :: bool
  e_bye :: "cid \<Rightarrow> string \<Rightarrow> world \<Rightarrow> world"
  e_gethostbyname :: "string \<Rightarrow> 32 word option"
  e_inet_aton :: "string \<Rightarrow> 32 word option"
  e_getservbyname :: "string \<Rightarrow> nat option"

abbreviation (input) "SL \<equiv> CHR ''/'' # CHR 0xFF # CHR 0x80 # []"

definition w_ts2 :: "env \<Rightarrow> world \<Rightarrow> string" where
  "w_ts2 E w = ts2 (e_localtime E) (w_currtime w) (w_currtime w)"

section \<open>The output queue\<close>

definition queuelength :: "string list \<Rightarrow> int" where
  "queuelength bp = foldl (\<lambda>len d. len + int (length d)) 0 bp"

text \<open>Lines 376 to 395: what is queued for a text. The condition of line 389 always holds, so the
  last character is always the unconverted one.\<close>

definition out_data :: "connection \<Rightarrow> string \<Rightarrow> string" where
  "out_data cp s =
     (if c_type cp \<noteq> CT_HOST \<and> \<not> strneq s SL 3 then
        let c = last s;
            buffer = convert charset ISO (c_charset_out cp) (take 4095 s)
        in if buffer = [] then [c] else butlast buffer @ [c]
      else s)"

text \<open>Lines 397 to 409.\<close>

definition put_obuf :: "int \<Rightarrow> string \<Rightarrow> connection \<Rightarrow> connection" where
  "put_obuf now d cp =
     (if c_obuf cp \<noteq> [] then cp\<lparr>c_obuf := c_obuf cp @ [d]\<rparr>
      else cp\<lparr>c_time_write := now, c_obuf := [d]\<rparr>)"

definition enqueue :: "int \<Rightarrow> string \<Rightarrow> connection \<Rightarrow> connection" where
  "enqueue now s cp = put_obuf now (out_data cp s) cp"

definition outq_full :: "world \<Rightarrow> connection \<Rightarrow> bool" where
  "outq_full w cp \<longleftrightarrow>
     c_time_write cp + 120 < w_currtime w \<and>
     (if c_type cp = CT_USER then max_u_queue (w_cfg w) else max_h_queue (w_cfg w)) < queuelength (c_obuf cp)"

definition appendstring :: "env \<Rightarrow> cid \<Rightarrow> string \<Rightarrow> world \<Rightarrow> world" where
  "appendstring E i s w =
     (case conn w i of
        None \<Rightarrow> w
      | Some cp \<Rightarrow>
          if s = [] \<or> c_fd cp = -1 then w
          else
            let w = upd_conn i (enqueue (w_currtime w) s) w in
            if outq_full w (enqueue (w_currtime w) s cp)
            then e_bye E i
                   (if c_type cp = CT_HOST
                    then myhostname (w_cfg w) @ ''<>'' @ c_name cp @ '' broken: bad link''
                    else ''link failure (bad link)'') w
            else w)"

definition send_notice :: "env \<Rightarrow> cid \<Rightarrow> string \<Rightarrow> int \<Rightarrow> world \<Rightarrow> world" where
  "send_notice E i fromname channel w =
     (case conn w i of
        None \<Rightarrow> w
      | Some cp \<Rightarrow>
          if \<not> c_ircmode cp then w
          else if channel < 0
          then appendstring E i ('':'' @ fromname @ '' NOTICE '' @ c_nickname cp @ '' :'') w
          else appendstring E i ('':'' @ fromname @ '' NOTICE #'' @ dec channel @ '' :'') w)"

definition append_chan_notice :: "env \<Rightarrow> cid \<Rightarrow> string \<Rightarrow> int \<Rightarrow> world \<Rightarrow> world" where
  "append_chan_notice E i s channel w =
     (case conn w i of
        None \<Rightarrow> w
      | Some cp \<Rightarrow>
          let w = (if c_ircmode cp then send_notice E i (myhostname (w_cfg w)) channel w else w) in
          if s \<noteq> [] then appendstring E i s w else w)"

definition append_general_notice :: "env \<Rightarrow> cid \<Rightarrow> string \<Rightarrow> world \<Rightarrow> world" where
  "append_general_notice E i s w = append_chan_notice E i s (-1) w"

text \<open>The prompt bytes are \<open>c_prompt\<close>, four characters, NUL where there is none.\<close>

definition appendc :: "env \<Rightarrow> cid \<Rightarrow> nat \<Rightarrow> bool \<Rightarrow> world \<Rightarrow> world" where
  "appendc E i n ast w =
     (case conn w i of
        None \<Rightarrow> w
      | Some cp \<Rightarrow>
          if c_type cp = CT_HOST \<or> c_ircmode cp then w
          else
            let c = c_prompt cp ! n in
            if c = CHR 0x00 then (if ast then appendstring E i (''***'' @ [NL]) w else w)
            else appendstring E i [c] w)"

definition appendprompt :: "env \<Rightarrow> cid \<Rightarrow> bool \<Rightarrow> world \<Rightarrow> world" where
  "appendprompt E i ast w =
     (case conn w i of
        None \<Rightarrow> w
      | Some cp \<Rightarrow>
          if c_ircmode cp then w
          else if c_query cp \<noteq> [] then appendc E i 1 ast w else appendc E i 2 ast w)"

section \<open>Writing at once\<close>

text \<open>The frames of the compressed branch: pieces of 255 bytes, each encoded. \<open>None\<close> where the
  encoder has no defined result.\<close>

definition string_bytes :: "string \<Rightarrow> byte list" where
  "string_bytes s = map of_char s"

definition bytes_string :: "byte list \<Rightarrow> string" where
  "bytes_string bs = map (\<lambda>b. char_of (unat b)) bs"

function comp_frames :: "bool \<Rightarrow> string \<Rightarrow> (nat \<times> string) list option" where
  "comp_frames char_signed s =
     (if s = [] then Some []
      else case encstathuf char_signed (string_bytes (take 255 s)) (length (take 255 s)) of
             Enc_Ok cbuf \<Rightarrow>
               map_option (\<lambda>fs. (length (take 255 s), bytes_string cbuf) # fs) (comp_frames char_signed (drop 255 s))
           | _ \<Rightarrow> None)"
  by pat_completeness auto

termination comp_frames
  by (relation "measure (\<lambda>(char_signed, s). length s)") auto

declare comp_frames.simps [simp del]

definition log_write :: "int \<Rightarrow> string \<Rightarrow> world \<Rightarrow> world" where
  "log_write fd s w = w\<lparr>w_writes := w_writes w @ [(fd, s)]\<rparr>"

text \<open>The frames written one after the other; \<open>False\<close> when one did not go out completely.\<close>

fun write_frames :: "env \<Rightarrow> int \<Rightarrow> (nat \<times> string) list \<Rightarrow> world \<Rightarrow> bool \<times> world" where
  "write_frames E fd [] w = (True, w)"
| "write_frames E fd ((len, cbuf) # fs) w =
     (let size = e_write E (length (w_writes w)) fd cbuf; w = log_write fd cbuf w in
      if size < int (length cbuf) then (False, w) else write_frames E fd fs w)"

definition write_broken :: "env \<Rightarrow> cid \<Rightarrow> world \<Rightarrow> int \<times> world" where
  "write_broken E i w =
     (case conn w i of
        None \<Rightarrow> (0, w)
      | Some cp \<Rightarrow>
          (0, e_bye E i (if c_type cp = CT_HOST
                         then myhostname (w_cfg w) @ ''<>'' @ c_name cp @ '' broken (write)''
                         else ''link failure'') w))"

definition fast_write :: "env \<Rightarrow> cid \<Rightarrow> string \<Rightarrow> int \<Rightarrow> world \<Rightarrow> int \<times> world" where
  "fast_write E i s force_comp w =
     (case conn w i of
        None \<Rightarrow> (0, w)
      | Some cp \<Rightarrow>
          if c_type cp = CT_CLOSED \<or> c_fd cp = -1 then (0, w)
          else
            let w = upd_conn i (\<lambda>c. c\<lparr>c_time_write := w_currtime w\<rparr>) w;
                slen = int (length s)
            in
            if 0 \<le> force_comp \<and> (force_comp \<noteq> 0 \<or> flag (c_compress cp) 2) then
              (case comp_frames (e_char_signed E) s of
                 None \<Rightarrow> (0, w\<lparr>w_fault := True\<rparr>)
               | Some fs \<Rightarrow>
                   (case write_frames E (c_fd cp) fs w of
                      (True, w) \<Rightarrow> (slen, w)
                    | (False, w) \<Rightarrow> write_broken E i w))
            else
              let k = length (w_writes w);
                  size = e_write E k (c_fd cp) s;
                  w = log_write (c_fd cp) s w
              in
              if \<not> size < slen \<and> \<not> size \<le> 0 then (slen, w)
              else if (size = -1 \<and> e_eagain E k) \<or> (0 \<le> size \<and> size < slen)
              then (0, upd_conn i (\<lambda>c. c\<lparr>c_obuf := (if 0 \<le> size then drop (nat size) s else s) # c_obuf c\<rparr>) w)
              else write_broken E i w)"

section \<open>The queue is first in, first out\<close>

interpretation outq: fifo "put_obuf now" c_obuf for now
  by unfold_locales (simp add: put_obuf_def)

lemma enqueue_frame [simp, frame]:
  "c_id (enqueue now s cp) = c_id cp" "c_type (enqueue now s cp) = c_type cp"
  "c_locked (enqueue now s cp) = c_locked cp" "c_via (enqueue now s cp) = c_via cp"
  "c_fd (enqueue now s cp) = c_fd cp" "c_name (enqueue now s cp) = c_name cp"
  by (simp_all add: enqueue_def put_obuf_def)

text \<open>No queue has been waiting for more than two minutes.\<close>

definition flowing :: "world \<Rightarrow> bool" where
  "flowing w \<longleftrightarrow> list_all (\<lambda>c. c_obuf c = [] \<or> w_currtime w \<le> c_time_write c + 120) (w_connections w)"

lemma flowing_conn: "flowing w \<Longrightarrow> conn w i = Some c \<Longrightarrow> c_obuf c = [] \<or> w_currtime w \<le> c_time_write c + 120"
  by (auto simp: flowing_def list_all_iff dest: conn_SomeD)

definition queue_text :: "cid \<Rightarrow> string \<Rightarrow> world \<Rightarrow> world" where
  "queue_text i s w =
     (if s = [] then w
      else upd_conn i (\<lambda>c. if c_fd c = -1 then c else enqueue (w_currtime w) s c) w)"

lemma queue_text_frame [simp, frame]:
  "w_currtime (queue_text i s w) = w_currtime w" "w_channels (queue_text i s w) = w_channels w"
  "w_cfg (queue_text i s w) = w_cfg w" "w_banned_users (queue_text i s w) = w_banned_users w"
  "w_permarray (queue_text i s w) = w_permarray w" "w_destinations (queue_text i s w) = w_destinations w"
  "w_static_users (queue_text i s w) = w_static_users w" "conn_ids (queue_text i s w) = conn_ids w"
  by (simp_all add: queue_text_def)

text \<open>While the queues flow, sending is queueing, and the queues keep flowing.\<close>

lemma appendstring_flowing:
  assumes "flowing w"
  shows "appendstring E i s w = queue_text i s w"
proof (cases "conn w i")
  case None
  then have "upd_conn i f w = w" for f by (rule upd_conn_None)
  with None show ?thesis by (simp add: appendstring_def queue_text_def)
next
  case (Some cp)
  have "\<not> outq_full w' (enqueue (w_currtime w) s cp)" if "w_currtime w' = w_currtime w" for w'
    using flowing_conn [OF assms Some] that by (auto simp: outq_full_def enqueue_def put_obuf_def)
  moreover have "upd_conn i (\<lambda>c. if c_fd c = -1 then c else enqueue (w_currtime w) s c) w =
      (if c_fd cp = -1 then w else upd_conn i (enqueue (w_currtime w) s) w)"
    using upd_conn_cong [OF Some, of "\<lambda>c. if c_fd c = -1 then c else enqueue (w_currtime w) s c" "enqueue (w_currtime w) s"]
      upd_conn_id [OF Some, of "\<lambda>c. if c_fd c = -1 then c else enqueue (w_currtime w) s c"]
    by auto
  ultimately show ?thesis
    using Some by (simp add: appendstring_def queue_text_def Let_def)
qed

lemma flowing_queue_text [inv_intros]: "flowing w \<Longrightarrow> flowing (queue_text i s w)"
  using set_update_first [of "\<lambda>c. c_id c = i" _ "w_connections w"]
  by (fastforce simp: flowing_def list_all_iff queue_text_def upd_conn_def enqueue_def put_obuf_def split: if_splits)

section \<open>Operations that only send\<close>

text \<open>A connection apart from its output queue, its lock and the times of the last messages.\<close>

definition idle :: "connection \<Rightarrow> connection" where
  "idle c = c\<lparr>c_obuf := [], c_time_write := 0, c_locked := False, c_timestamp := 0, c_mtime := 0\<rparr>"

text \<open>\<open>w'\<close> is \<open>w\<close> with texts queued, locks and message times changed, and its queues flow.\<close>

definition sends :: "world \<Rightarrow> world \<Rightarrow> bool" where
  "sends w w' \<longleftrightarrow>
     flowing w' \<and> (\<exists>cs. w' = w\<lparr>w_connections := cs\<rparr> \<and> map idle cs = map idle (w_connections w))"

lemma sends_refl [inv_intros]: "flowing w \<Longrightarrow> sends w w"
  by (auto simp: sends_def intro: exI [of _ "w_connections w"])

lemma sends_trans: "sends w w' \<Longrightarrow> sends w' w'' \<Longrightarrow> sends w w''"
  by (auto simp: sends_def)

lemma sends_flowing: "sends w w' \<Longrightarrow> flowing w'"
  by (simp add: sends_def)

lemma sends_frame:
  assumes "sends w w'"
  shows "w_currtime w' = w_currtime w" "w_cfg w' = w_cfg w" "w_channels w' = w_channels w"
    "w_banned_users w' = w_banned_users w" "w_permarray w' = w_permarray w"
    "w_destinations w' = w_destinations w" "w_static_users w' = w_static_users w"
    "w_next_cid w' = w_next_cid w" "w_fault w' = w_fault w" "w_last_run w' = w_last_run w"
    "w_next_sid w' = w_next_sid w"
  using assms by (auto simp: sends_def)

lemma idle_sel [simp]:
    "c_id (idle c) = c_id c" "c_type (idle c) = c_type c" "c_name (idle c) = c_name c"
    "c_host (idle c) = c_host c" "c_nickname (idle c) = c_nickname c" "c_via (idle c) = c_via c"
    "c_channel (idle c) = c_channel c" "c_chan_list (idle c) = c_chan_list c"
    "c_fd (idle c) = c_fd c" "c_features (idle c) = c_features c"
    "c_ircmode (idle c) = c_ircmode c" "c_filter (idle c) = c_filter c"
    "c_filterwords (idle c) = c_filterwords c" "c_filtermsgs (idle c) = c_filtermsgs c"
    "c_operator (idle c) = c_operator c" "c_charset_out (idle c) = c_charset_out c"
    "c_prompt (idle c) = c_prompt c" "c_query (idle c) = c_query c" "c_sul (idle c) = c_sul c"
    "c_shownicks (idle c) = c_shownicks c" "c_width (idle c) = c_width c"
    "c_away (idle c) = c_away c" "c_atime (idle c) = c_atime c"
    "c_verbose (idle c) = c_verbose c" "c_notify (idle c) = c_notify c"
    "c_observer (idle c) = c_observer c" "c_amprnet (idle c) = c_amprnet c"
    "c_oldaway (idle c) = c_oldaway c" "c_rev (idle c) = c_rev c" "c_pers (idle c) = c_pers c"
  by (simp_all add: idle_def)

lemma idle_eqD:
  assumes "idle c = idle d"
  shows "c_id c = c_id d" "c_type c = c_type d" "c_name c = c_name d" "c_host c = c_host d"
    "c_nickname c = c_nickname d" "c_via c = c_via d" "c_channel c = c_channel d"
    "c_chan_list c = c_chan_list d" "c_fd c = c_fd d" "c_features c = c_features d"
    "c_ircmode c = c_ircmode d" "c_filter c = c_filter d" "c_filterwords c = c_filterwords d"
    "c_filtermsgs c = c_filtermsgs d" "c_operator c = c_operator d"
    "c_charset_out c = c_charset_out d" "c_prompt c = c_prompt d" "c_query c = c_query d"
    "c_sul c = c_sul d" "c_shownicks c = c_shownicks d" "c_width c = c_width d"
    "c_away c = c_away d" "c_atime c = c_atime d" "c_verbose c = c_verbose d"
    "c_notify c = c_notify d" "c_observer c = c_observer d" "c_amprnet c = c_amprnet d"
    "c_oldaway c = c_oldaway d" "c_rev c = c_rev d" "c_pers c = c_pers d"
  using arg_cong [OF assms, of c_id] arg_cong [OF assms, of c_type] arg_cong [OF assms, of c_name]
    arg_cong [OF assms, of c_host] arg_cong [OF assms, of c_nickname]
    arg_cong [OF assms, of c_via] arg_cong [OF assms, of c_channel]
    arg_cong [OF assms, of c_chan_list] arg_cong [OF assms, of c_fd]
    arg_cong [OF assms, of c_features] arg_cong [OF assms, of c_ircmode]
    arg_cong [OF assms, of c_filter] arg_cong [OF assms, of c_filterwords]
    arg_cong [OF assms, of c_filtermsgs] arg_cong [OF assms, of c_operator]
    arg_cong [OF assms, of c_charset_out] arg_cong [OF assms, of c_prompt]
    arg_cong [OF assms, of c_query] arg_cong [OF assms, of c_sul]
    arg_cong [OF assms, of c_shownicks] arg_cong [OF assms, of c_width]
    arg_cong [OF assms, of c_away] arg_cong [OF assms, of c_atime]
    arg_cong [OF assms, of c_verbose] arg_cong [OF assms, of c_notify]
    arg_cong [OF assms, of c_observer] arg_cong [OF assms, of c_amprnet]
    arg_cong [OF assms, of c_oldaway] arg_cong [OF assms, of c_rev]
    arg_cong [OF assms, of c_pers]
  unfolding idle_sel by simp_all

lemma idle_simps [simp]:
  "idle (c\<lparr>c_locked := b\<rparr>) = idle c" "idle (enqueue now s c) = idle c"
  "idle (c\<lparr>c_obuf := q, c_time_write := t\<rparr>) = idle c" "idle (c\<lparr>c_timestamp := t\<rparr>) = idle c"
  "idle (c\<lparr>c_mtime := t\<rparr>) = idle c"
  by (simp_all add: idle_def enqueue_def put_obuf_def)

lemma map_update_first_idle: "(\<And>c. idle (f c) = idle c) \<Longrightarrow> map idle (update_first P f cs) = map idle cs"
  by (rule map_update_first)

lemma sends_queue_text [inv_intros]: "flowing w \<Longrightarrow> sends w (queue_text i s w)"
  using flowing_queue_text [of w i s]
  by (auto simp: sends_def queue_text_def upd_conn_def map_update_first_idle
      intro: exI [of _ "w_connections w"])

lemma sends_appendstring [inv_intros]: "flowing w \<Longrightarrow> sends w (appendstring E i s w)"
  by (simp add: appendstring_flowing sends_queue_text)

lemma flowing_lock [simp]: "flowing (lock_conn i w) = flowing w" "flowing (clear_locks w) = flowing w"
proof -
  let ?P = "\<lambda>c. c_obuf c = [] \<or> w_currtime w \<le> c_time_write c + 120"
  have "list_all ?P (update_first Q (\<lambda>c. c\<lparr>c_locked := True\<rparr>) cs) = list_all ?P cs" for Q cs
    by (induction cs) auto
  then show "flowing (lock_conn i w) = flowing w"
    by (simp add: flowing_def lock_conn_def upd_conn_def)
  show "flowing (clear_locks w) = flowing w"
    by (simp add: flowing_def clear_locks_def list_all_iff)
qed

lemma sends_lock [inv_intros]: "flowing w \<Longrightarrow> sends w (lock_conn i w)" "flowing w \<Longrightarrow> sends w (clear_locks w)"
  using flowing_lock(1) [of i w] flowing_lock(2) [of w]
  by (auto simp: sends_def lock_conn_def upd_conn_def clear_locks_def map_update_first_idle comp_def)

text \<open>Sequential composition and loops of sending operations.\<close>

lemma sends_step: "sends w w' \<Longrightarrow> (flowing w' \<Longrightarrow> sends w' (f w')) \<Longrightarrow> sends w (f w')"
  using sends_trans sends_flowing by blast

lemma sends_for_ids:
  assumes "\<And>p v. flowing v \<Longrightarrow> sends v (body p v)" "flowing w"
  shows "sends w (for_ids is body w)"
  using assms(2)
proof (induction "is" arbitrary: w)
  case Nil
  then show ?case by (simp add: sends_refl)
next
  case (Cons i is')
  have "sends w (case conn w i of None \<Rightarrow> w | Some p \<Rightarrow> body p w)"
    using assms(1) Cons.prems by (auto intro: sends_refl split: option.split)
  from sends_trans [OF this Cons.IH [OF sends_flowing [OF this]]] show ?case by simp
qed

lemma sends_for_connections [inv_intros]:
  "(\<And>p v. flowing v \<Longrightarrow> sends v (body p v)) \<Longrightarrow> flowing w \<Longrightarrow> sends w (for_connections body w)"
  unfolding for_connections_def by (rule sends_for_ids)

lemma sends_fold:
  "(\<And>x v. flowing v \<Longrightarrow> sends v (f x v)) \<Longrightarrow> flowing w \<Longrightarrow> sends w (fold f xs w)"
proof (induction xs arbitrary: w)
  case (Cons x xs)
  from Cons.prems have "sends w (f x w)" by simp
  from sends_trans [OF this Cons.IH [OF Cons.prems(1) sends_flowing [OF this]]] show ?case by simp
qed (simp add: sends_refl)

lemma sends_send_notice [inv_intros]: "flowing w \<Longrightarrow> sends w (send_notice E i from ch w)"
  by (auto simp: send_notice_def intro: inv_intros split: option.split)

lemma sends_append_chan_notice [inv_intros]: "flowing w \<Longrightarrow> sends w (append_chan_notice E i s ch w)"
  by (auto simp: append_chan_notice_def Let_def intro: inv_intros sends_step split: option.split)

lemma sends_append_general_notice [inv_intros]: "flowing w \<Longrightarrow> sends w (append_general_notice E i s w)"
  unfolding append_general_notice_def by (rule sends_append_chan_notice)

lemma sends_appendc [inv_intros]: "flowing w \<Longrightarrow> sends w (appendc E i n ast w)"
  by (auto simp: appendc_def Let_def intro: inv_intros split: option.split)

lemma sends_appendprompt [inv_intros]: "flowing w \<Longrightarrow> sends w (appendprompt E i ast w)"
  by (auto simp: appendprompt_def intro: inv_intros split: option.split)

lemma map_idle_ids: "map idle cs = map idle ds \<Longrightarrow> map c_id cs = map c_id ds"
proof -
  assume "map idle cs = map idle ds"
  then have "map c_id (map idle cs) = map c_id (map idle ds)" by (simp only:)
  then show ?thesis by (simp add: comp_def)
qed

lemma sends_conn_ids: "sends w w' \<Longrightarrow> conn_ids w' = conn_ids w"
  by (auto simp: sends_def conn_ids_def dest: map_idle_ids)

lemma sends_conn: "sends w w' \<Longrightarrow> map_option idle (conn w' i) = map_option idle (conn w i)"
proof -
  assume "sends w w'"
  then have "map idle (w_connections w') = map idle (w_connections w)" by (auto simp: sends_def)
  moreover have "map_option idle (find (\<lambda>c. c_id c = i) cs) = find (\<lambda>c. c_id c = i) (map idle cs)" for cs
    by (induction cs) auto
  ultimately show ?thesis by (simp add: conn_def)
qed

section \<open>Sending past a connection\<close>

text \<open>\<open>w'\<close> is \<open>w\<close> with texts queued, but none for the connection \<open>i\<close>.\<close>

definition obuf_of :: "world \<Rightarrow> cid \<Rightarrow> string list" where
  "obuf_of w i = (case conn w i of None \<Rightarrow> [] | Some c \<Rightarrow> c_obuf c)"

definition sends_past :: "cid \<Rightarrow> world \<Rightarrow> world \<Rightarrow> bool" where
  "sends_past i w w' \<longleftrightarrow> sends w w' \<and> obuf_of w' i = obuf_of w i"

lemma sends_past_refl: "flowing w \<Longrightarrow> sends_past i w w"
  by (simp add: sends_past_def sends_refl)

lemma sends_past_trans: "sends_past i w w' \<Longrightarrow> sends_past i w' w'' \<Longrightarrow> sends_past i w w''"
  by (auto simp: sends_past_def intro: sends_trans)

lemma sends_past_sends: "sends_past i w w' \<Longrightarrow> sends w w'"
  by (simp add: sends_past_def)

lemma conn_queue_text:
  "conn (queue_text j s w) i =
     (if i = j \<and> s \<noteq> [] then map_option (\<lambda>c. if c_fd c = -1 then c else enqueue (w_currtime w) s c) (conn w i)
      else conn w i)"
  by (simp add: queue_text_def conn_upd_conn)

lemma sends_past_queue: "flowing w \<Longrightarrow> i \<noteq> j \<Longrightarrow> sends_past i w (queue_text j s w)"
  by (simp add: sends_past_def obuf_of_def conn_queue_text sends_queue_text)

lemma sends_past_appendstring: "flowing w \<Longrightarrow> i \<noteq> j \<Longrightarrow> sends_past i w (appendstring E j s w)"
  by (simp add: appendstring_flowing sends_past_queue)

lemma obuf_of_appendstring:
  assumes "flowing w" "conn w i = Some c" "c_fd c \<noteq> -1" "s \<noteq> []"
  shows "obuf_of (appendstring E i s w) i = obuf_of w i @ [out_data c s]"
  using assms by (simp add: appendstring_flowing obuf_of_def conn_queue_text enqueue_def outq.items_enq)

lemma sends_past_locks:
  "flowing w \<Longrightarrow> sends_past i w (clear_locks w)" "flowing w \<Longrightarrow> sends_past i w (lock_conn j w)"
  by (auto simp: sends_past_def obuf_of_def conn_clear_locks lock_conn_def conn_upd_conn
      intro: sends_lock [unfolded lock_conn_def] split: option.split)

lemma sends_past_step: "sends_past i w w' \<Longrightarrow> (flowing w' \<Longrightarrow> sends_past i w' (f w')) \<Longrightarrow> sends_past i w (f w')"
  using sends_past_trans sends_past_sends sends_flowing by blast

lemma sends_past_for_ids:
  assumes "\<And>p v. sends w v \<Longrightarrow> conn v (c_id p) = Some p \<Longrightarrow> sends_past i v (body p v)" "flowing w"
  shows "sends_past i w (for_ids is body w)"
proof -
  have "sends w v \<Longrightarrow> sends_past i v (for_ids is body v)" for v
  proof (induction "is" arbitrary: v)
    case (Cons j js)
    have "sends_past i v (case conn v j of None \<Rightarrow> v | Some p \<Rightarrow> body p v)"
      using assms(1) [OF Cons.prems] conn_SomeD [of v j] sends_flowing [OF Cons.prems]
      by (auto intro: sends_past_refl split: option.split)
    from sends_past_trans [OF this Cons.IH [OF sends_trans [OF Cons.prems sends_past_sends [OF this]]]]
    show ?case by simp
  qed (simp add: sends_past_refl sends_flowing)
  from this [OF sends_refl [OF assms(2)]] show ?thesis .
qed

lemma sends_past_for_connections:
  "(\<And>p v. sends w v \<Longrightarrow> conn v (c_id p) = Some p \<Longrightarrow> sends_past i v (body p v)) \<Longrightarrow> flowing w \<Longrightarrow>
   sends_past i w (for_connections body w)"
  unfolding for_connections_def by (rule sends_past_for_ids)

lemma sends_past_notices:
  assumes "i \<noteq> j"
  shows "flowing w \<Longrightarrow> sends_past i w (send_notice E j from ch w)"
    and "flowing w \<Longrightarrow> sends_past i w (append_chan_notice E j s ch w)"
    and "flowing w \<Longrightarrow> sends_past i w (append_general_notice E j s w)"
    and "flowing w \<Longrightarrow> sends_past i w (appendc E j n ast w)"
    and "flowing w \<Longrightarrow> sends_past i w (appendprompt E j ast w)"
proof -
  note app = sends_past_appendstring [OF _ assms] and refl = sends_past_refl
  have a: "flowing w \<Longrightarrow> sends_past i w (send_notice E j from ch w)" for w "from" ch
    by (auto simp: send_notice_def intro: app refl split: option.split)
  have b: "flowing w \<Longrightarrow> sends_past i w (append_chan_notice E j s ch w)" for w s ch
    by (auto simp: append_chan_notice_def Let_def intro: app refl a sends_past_step split: option.split)
  have c: "flowing w \<Longrightarrow> sends_past i w (appendc E j n ast w)" for w n ast
    by (auto simp: appendc_def Let_def intro: app refl split: option.split)
  show "flowing w \<Longrightarrow> sends_past i w (send_notice E j from ch w)" by (rule a)
  show "flowing w \<Longrightarrow> sends_past i w (append_chan_notice E j s ch w)" by (rule b)
  show "flowing w \<Longrightarrow> sends_past i w (append_general_notice E j s w)" by (simp add: append_general_notice_def b)
  show "flowing w \<Longrightarrow> sends_past i w (appendc E j n ast w)" by (rule c)
  show "flowing w \<Longrightarrow> sends_past i w (appendprompt E j ast w)"
    by (auto simp: appendprompt_def intro: c refl split: option.split)
qed

lemma sends_type: "sends w v \<Longrightarrow> conn v i = Some p \<Longrightarrow> \<exists>q. conn w i = Some q \<and> idle p = idle q"
  using sends_conn [of w v i] by (cases "conn w i") auto

lemma same_conn:
  assumes "map_option idle (conn v i) = map_option idle (conn w i)" "conn w i = Some c"
  shows "\<exists>c'. conn v i = Some c' \<and> idle c' = idle c \<and> c_type c' = c_type c \<and> c_fd c' = c_fd c"
proof (cases "conn v i")
  case (Some c')
  with assms have "idle c' = idle c" by simp
  from Some this idle_eqD(2,9) [OF this] show ?thesis by blast
qed (use assms in simp)

section \<open>What a client receives\<close>

lemma last_out_data: "s \<noteq> [] \<Longrightarrow> out_data cp s \<noteq> [] \<and> last (out_data cp s) = last s"
  by (simp add: out_data_def Let_def)



end
