(* ===== verification/Connections.thy ===== *)
theory Connections
  imports Output
begin

text \<open>
  The sorted enumeration of the connections, \<^verbatim>\<open>sort_connections\<close> of \<^verbatim>\<open>user.c\<close>, and the
  count of the users of a host built on it. The enumeration is a selection sort over the connection
  list that marks what it has returned by the locks; the static \<^verbatim>\<open>p_last\<close> is always the value
  returned last.
\<close>

section \<open>Enumeration by locks\<close>

definition sort_best :: "connection \<Rightarrow> connection \<Rightarrow> connection" where
  "sort_best p p_best =
     (if c_id p_best = c_id p then p_best
      else if c_locked p then p_best
      else if c_locked p_best then p
      else
        let i = strcmp (c_name p) (c_name p_best) in
        if 0 < i then p_best
        else if i = 0 \<and> 0 < strcmp (c_host p) (c_host p_best) then p_best
        else p)"

definition sort_connections :: "bool \<Rightarrow> cid option \<Rightarrow> world \<Rightarrow> cid option \<times> world" where
  "sort_connections start p_last w =
     (let w = (if start then clear_locks w else w);
          p_best = (if start then (case w_connections w of [] \<Rightarrow> None | c # _ \<Rightarrow> Some c)
                    else case p_last of None \<Rightarrow> None | Some i \<Rightarrow> conn w i)
      in case p_best of
           None \<Rightarrow> (None, w)
         | Some b \<Rightarrow>
             let b = fold sort_best (w_connections w) b in
             if c_locked b then (None, w) else (Some (c_id b), lock_conn (c_id b) w))"

text \<open>\<^verbatim>\<open>for (p = sort_connections(1); p; p = sort_connections(0))\<close>: the connections in the order of
  the walk. The fuel bounds the number of calls; \<open>None\<close> when it does not suffice.\<close>

fun sort_walk :: "nat \<Rightarrow> bool \<Rightarrow> cid option \<Rightarrow> world \<Rightarrow> (cid list \<times> world) option" where
  "sort_walk 0 start p_last w = None"
| "sort_walk (Suc n) start p_last w =
     (case sort_connections start p_last w of
        (None, w) \<Rightarrow> Some ([], w)
      | (Some i, w) \<Rightarrow> map_option (\<lambda>(is, w). (i # is, w)) (sort_walk n False (Some i) w))"

text \<open>Lines 1630 to 1640: the turn of a connection looks at the next one in the order.\<close>

fun count_walk :: "string option \<Rightarrow> connection list \<Rightarrow> nat" where
  "count_walk host [] = 0"
| "count_walk host (p # ps) =
     (if c_type p = CT_USER \<and> (case host of None \<Rightarrow> True | Some h \<Rightarrow> strcaseeq (c_host p) h) \<and>
         \<not> (case ps of [] \<Rightarrow> False
            | p_next # _ \<Rightarrow> strcaseeq (c_name p) (c_name p_next) \<and> strcaseeq (c_host p) (c_host p_next))
      then 1 else 0) + count_walk host ps"

definition count_user2 :: "string option \<Rightarrow> world \<Rightarrow> nat \<times> world" where
  "count_user2 host w =
     (case sort_walk (Suc (length (w_connections w))) True None w of
        None \<Rightarrow> (0, w\<lparr>w_fault := True\<rparr>)
      | Some (is, w) \<Rightarrow> (count_walk host (List.map_filter (conn w) is), clear_locks w))"

section \<open>The enumeration is a sort\<close>

text \<open>The order of the enumeration: by name, then by host.\<close>

definition announce_le :: "connection \<Rightarrow> connection \<Rightarrow> bool" where
  "announce_le p q \<longleftrightarrow>
     strcmp (c_name p) (c_name q) < 0 \<or> (c_name p = c_name q \<and> strcmp (c_host p) (c_host q) \<le> 0)"

lemma announce_le_refl [simp]: "announce_le p p"
  by (simp add: announce_le_def)

lemma announce_le_trans: "announce_le p q \<Longrightarrow> announce_le q r \<Longrightarrow> announce_le p r"
  by (auto simp: announce_le_def order_le_less strcmp_eq dest: strcmp_less_trans)

lemma announce_le_total: "announce_le p q \<or> announce_le q p"
  using strcmp_antisym [of "c_name p" "c_name q"] strcmp_antisym [of "c_host p" "c_host q"]
    strcmp_eq [of "c_name p" "c_name q"]
  by (cases "c_name p = c_name q") (auto simp: announce_le_def)

lemma sort_best_unlocked:
  assumes "\<not> c_locked p" "\<not> c_locked b" "c_id p \<noteq> c_id b"
  shows "sort_best p b = (if announce_le p b then p else b)"
  using assms strcmp_eq [of "c_name p" "c_name b"] by (auto simp: sort_best_def announce_le_def Let_def)

text \<open>The walk over the list ends at a least unlocked connection; it stays at a locked one only if
  there is no other.\<close>

lemma fold_sort_best:
  assumes "inj_on c_id (insert b (set ps))"
  shows "fold sort_best ps b \<in> insert b (set ps) \<and>
     (c_locked (fold sort_best ps b) \<longleftrightarrow> (\<forall>q \<in> insert b (set ps). c_locked q)) \<and>
     (\<forall>q \<in> insert b (set ps). \<not> c_locked q \<longrightarrow> announce_le (fold sort_best ps b) q)"
  using assms
proof (induction ps arbitrary: b)
  case (Cons p ps)
  let ?b = "sort_best p b"
  have inj: "c_id p = c_id b \<longleftrightarrow> p = b" using Cons.prems by (auto simp: inj_on_def)
  have b: "?b \<in> {b, p}" "c_locked ?b \<longleftrightarrow> c_locked b \<and> c_locked p"
    "\<forall>q \<in> {b, p}. \<not> c_locked q \<longrightarrow> announce_le ?b q"
    using inj sort_best_unlocked [of p b] announce_le_total [of p b]
    by (auto simp: sort_best_def Let_def split: if_splits)
  have "inj_on c_id (insert ?b (set ps))"
    by (rule inj_on_subset [OF Cons.prems]) (use b(1) in auto)
  note IH = Cons.IH [OF this]
  show ?case
  proof (intro conjI ballI impI)
    show "fold sort_best (p # ps) b \<in> insert b (set (p # ps))" using IH b(1) by auto
    show "c_locked (fold sort_best (p # ps) b) = (\<forall>q\<in>insert b (set (p # ps)). c_locked q)"
      using IH b(2) by auto
    fix q assume q: "q \<in> insert b (set (p # ps))" "\<not> c_locked q"
    show "announce_le (fold sort_best (p # ps) b) q"
    proof (cases "q \<in> {b, p}")
      case True
      with q b have "\<not> c_locked ?b" "announce_le ?b q" by auto
      with IH show ?thesis using announce_le_trans by auto
    qed (use IH q in auto)
  qed
qed (auto)

definition unlocked :: "world \<Rightarrow> connection list" where
  "unlocked w = filter (\<lambda>c. \<not> c_locked c) (w_connections w)"

text \<open>The order of two connections by their numbers.\<close>

definition announced_before :: "world \<Rightarrow> cid \<Rightarrow> cid \<Rightarrow> bool" where
  "announced_before w i j \<longleftrightarrow> (\<forall>p q. conn w i = Some p \<longrightarrow> conn w j = Some q \<longrightarrow> announce_le p q)"

lemma inj_conns: "wf_conns w \<Longrightarrow> inj_on c_id (set (w_connections w))"
  by (simp add: wf_conns_def conn_ids_def distinct_map)

lemma sort_connections_next:
  assumes wf: "wf_conns w" and last: "conn w l = Some c" "c_locked c"
  shows "(unlocked w = [] \<and> sort_connections False (Some l) w = (None, w)) \<or>
     (\<exists>b \<in> set (unlocked w). sort_connections False (Some l) w = (Some (c_id b), lock_conn (c_id b) w) \<and>
        (\<forall>q \<in> set (unlocked w). announce_le b q))"
proof -
  let ?b = "fold sort_best (w_connections w) c"
  have c: "c \<in> set (w_connections w)" using conn_SomeD [OF last(1)] by simp
  note f = fold_sort_best [of c "w_connections w", unfolded insert_absorb [OF c], OF inj_conns [OF wf]]
  show ?thesis
  proof (cases "c_locked ?b")
    case True
    then have "unlocked w = []" using f by (auto simp: unlocked_def filter_empty_conv)
    with True last show ?thesis by (simp add: sort_connections_def Let_def)
  next
    case False
    then have "?b \<in> set (unlocked w)" "\<forall>q \<in> set (unlocked w). announce_le ?b q"
      using f by (auto simp: unlocked_def)
    with False last show ?thesis by (auto simp: sort_connections_def Let_def)
  qed
qed

lemma sort_connections_first:
  assumes "wf_conns w" "\<forall>c \<in> set (w_connections w). \<not> c_locked c"
  shows "(w_connections w = [] \<and> sort_connections True l w = (None, w)) \<or>
     (\<exists>b \<in> set (unlocked w). sort_connections True l w = (Some (c_id b), lock_conn (c_id b) w) \<and>
        (\<forall>q \<in> set (unlocked w). announce_le b q))"
proof (cases "w_connections w")
  case (Cons c cs)
  have w: "clear_locks w = w" using assms(2) by (simp add: clear_locks_def map_idI)
  have c: "c \<in> set (w_connections w)" using Cons by simp
  note f = fold_sort_best [of c "w_connections w", unfolded insert_absorb [OF c], OF inj_conns [OF assms(1)]]
  then have "\<not> c_locked (fold sort_best (w_connections w) c)" using assms(2) by auto
  with f have "fold sort_best (w_connections w) c \<in> set (unlocked w)"
    "\<forall>q \<in> set (unlocked w). announce_le (fold sort_best (w_connections w) c) q"
    by (auto simp: unlocked_def)
  with \<open>\<not> c_locked _\<close> show ?thesis
    unfolding sort_connections_def Let_def w by (auto simp: Cons)
qed (simp add: sort_connections_def clear_locks_def)

lemma lock_unlocked:
  assumes "wf_conns w" "b \<in> set (unlocked w)"
  shows "wf_conns (lock_conn (c_id b) w)" "unlocked (lock_conn (c_id b) w) = remove1 b (unlocked w)"
    "conn (lock_conn (c_id b) w) (c_id b) = Some (b\<lparr>c_locked := True\<rparr>)"
    "announced_before (lock_conn (c_id b) w) = announced_before w"
proof -
  have b: "b \<in> set (w_connections w)" "\<not> c_locked b" using assms(2) by (auto simp: unlocked_def)
  show "wf_conns (lock_conn (c_id b) w)"
    using assms(1) by (simp add: wf_conns_def lock_conn_def)
  have "filter (\<lambda>c. \<not> c_locked c) (update_first (\<lambda>c. c_id c = c_id b) (\<lambda>c. c\<lparr>c_locked := True\<rparr>) cs) =
      remove1 b (filter (\<lambda>c. \<not> c_locked c) cs)" if "b \<in> set cs" "inj_on c_id (set cs)" for cs
    using that
  proof (induction cs)
    case (Cons c cs)
    have "c_id c = c_id b \<longleftrightarrow> c = b" using Cons.prems by (auto simp: inj_on_def)
    with Cons b show ?case by (auto simp: inj_on_def)
  qed simp
  from this [OF b(1) inj_conns [OF assms(1)]]
  show "unlocked (lock_conn (c_id b) w) = remove1 b (unlocked w)"
    by (simp add: unlocked_def lock_conn_def upd_conn_def)
  show "conn (lock_conn (c_id b) w) (c_id b) = Some (b\<lparr>c_locked := True\<rparr>)"
    using wf_conn_in [OF assms(1) b(1)] by (simp add: lock_conn_def conn_upd_conn)
  show "announced_before (lock_conn (c_id b) w) = announced_before w"
    by (intro ext) (auto simp: announced_before_def lock_conn_def conn_upd_conn announce_le_def)
qed

lemma distinct_unlocked: "wf_conns w \<Longrightarrow> distinct (map c_id (unlocked w))"
  by (auto simp: wf_conns_def conn_ids_def unlocked_def distinct_map intro: inj_on_subset)

definition sorted_walk :: "world \<Rightarrow> (cid list \<times> world) option \<Rightarrow> bool" where
  "sorted_walk w r \<longleftrightarrow> (\<exists>is w'. r = Some (is, w') \<and> distinct is \<and>
     set is = c_id ` set (unlocked w) \<and> sorted_wrt (announced_before w) is)"

lemma sorted_walk_step:
  assumes wf: "wf_conns w" and b: "b \<in> set (unlocked w)" "\<forall>q \<in> set (unlocked w). announce_le b q"
    "sort_connections start l w = (Some (c_id b), lock_conn (c_id b) w)"
    and tail: "sorted_walk (lock_conn (c_id b) w) (sort_walk n False (Some (c_id b)) (lock_conn (c_id b) w))"
  shows "sorted_walk w (sort_walk (Suc n) start l w)"
proof -
  note lu = lock_unlocked [OF wf b(1)]
  obtain "is" w' where w':
    "sort_walk n False (Some (c_id b)) (lock_conn (c_id b) w) = Some (is, w')" "distinct is"
    "set is = c_id ` set (remove1 b (unlocked w))" "sorted_wrt (announced_before w) is"
    using tail by (auto simp: sorted_walk_def lu)
  have d: "distinct (unlocked w)" "inj_on c_id (set (unlocked w))"
    using distinct_unlocked [OF wf] by (simp_all add: distinct_map)
  have "c_id b \<notin> set is" using d b(1) by (auto simp: w' inj_on_def)
  moreover have "\<forall>j \<in> set is. announced_before w (c_id b) j"
  proof
    fix j assume "j \<in> set is"
    then obtain q where q: "q \<in> set (unlocked w)" "c_id q = j" using d by (auto simp: w')
    have "conn w (c_id b) = Some b" "conn w j = Some q"
      using wf_conn_in [OF wf] b(1) q by (auto simp: unlocked_def)
    with b(2) q(1) show "announced_before w (c_id b) j" by (simp add: announced_before_def)
  qed
  moreover have "set (c_id b # is) = c_id ` set (unlocked w)"
    using b(1) d by (auto simp: w')
  ultimately show ?thesis
    using b(3) w' by (simp add: sorted_walk_def)
qed

lemma length_lock_unlocked:
  "wf_conns w \<Longrightarrow> b \<in> set (unlocked w) \<Longrightarrow> length (unlocked (lock_conn (c_id b) w)) = length (unlocked w) - 1"
  by (simp add: lock_unlocked length_remove1)

lemma sort_walk_next:
  assumes "wf_conns w" "conn w l = Some c" "c_locked c" "length (unlocked w) < n"
  shows "sorted_walk w (sort_walk n False (Some l) w)"
  using assms
proof (induction n arbitrary: w l c)
  case (Suc n)
  from sort_connections_next [OF Suc.prems(1-3)] show ?case
  proof (elim disjE bexE conjE)
    fix b
    assume b: "b \<in> set (unlocked w)" "sort_connections False (Some l) w = (Some (c_id b), lock_conn (c_id b) w)"
      "\<forall>q \<in> set (unlocked w). announce_le b q"
    have "length (unlocked (lock_conn (c_id b) w)) < n"
      using Suc.prems(4) length_pos_if_in_set [OF b(1)] length_lock_unlocked [OF Suc.prems(1) b(1)] by linarith
    from Suc.IH [OF lock_unlocked(1,3) [OF Suc.prems(1) b(1)] _ this]
    show ?thesis by (intro sorted_walk_step [OF Suc.prems(1) b(1,3,2)]) simp
  qed (auto simp: sorted_walk_def)
qed simp

lemma clear_locks_unlocked:
  assumes "wf_conns w"
  shows "wf_conns (clear_locks w)" "\<forall>c \<in> set (w_connections (clear_locks w)). \<not> c_locked c"
    "length (w_connections (clear_locks w)) = length (w_connections w)"
    "unlocked (clear_locks w) = w_connections (clear_locks w)"
    "announced_before (clear_locks w) = announced_before w"
    "sort_connections True None w = sort_connections True None (clear_locks w)"
  using assms
  by (auto simp: wf_conns_def clear_locks_def conn_ids_def unlocked_def comp_def sort_connections_def)
    (auto simp: fun_eq_iff announced_before_def conn_clear_locks [unfolded clear_locks_def] announce_le_def)

lemma sort_walk_start:
  assumes "wf_conns w"
  shows "sorted_walk (clear_locks w) (sort_walk (Suc (length (w_connections w))) True None w)"
proof -
  note v = clear_locks_unlocked [OF assms]
  let ?v = "clear_locks w"
  from sort_connections_first [OF v(1,2), of None]
  have "sorted_walk ?v (sort_walk (Suc (length (w_connections w))) True None ?v)"
  proof (elim disjE bexE conjE)
    fix b
    assume b: "b \<in> set (unlocked ?v)" "sort_connections True None ?v = (Some (c_id b), lock_conn (c_id b) ?v)"
      "\<forall>q \<in> set (unlocked ?v). announce_le b q"
    have "length (unlocked (lock_conn (c_id b) ?v)) < length (w_connections w)"
      using length_pos_if_in_set [OF b(1)] v(3,4) by (simp add: length_lock_unlocked [OF v(1) b(1)])
    from sort_walk_next [OF lock_unlocked(1,3) [OF v(1) b(1)] _ this]
    show ?thesis by (intro sorted_walk_step [OF v(1) b(1,3,2)]) simp
  qed (simp add: sorted_walk_def unlocked_def)
  then show ?thesis by (simp add: v(6))
qed

text \<open>C27: The enumeration of the connections for the user lists returns every connection exactly
  once, ordered by name and then by host, and ends.\<close>

theorem sort_walk_sorts:
  assumes "wf_conns w"
  shows "\<exists>is w'. sort_walk (Suc (length (w_connections w))) True None w = Some (is, w') \<and> distinct is \<and>
     set is = set (conn_ids w) \<and> sorted_wrt (announced_before w) is"
proof -
  note v = clear_locks_unlocked [OF assms]
  have "c_id ` set (unlocked (clear_locks w)) = set (conn_ids w)"
    unfolding v(4) by (simp add: clear_locks_def conn_ids_def image_image)
  then show ?thesis
    using sort_walk_start [OF assms] by (simp add: sorted_walk_def v(5))
qed

theorem sort_walk_sorts_witness:
  "\<exists>is w'. sort_walk 3 True None ((boot_world ''db0tud'' 1000)\<lparr>w_connections :=
       [(blank_connection 1 5 1000)\<lparr>c_name := ''dl9sau''\<rparr>, (blank_connection 0 4 1000)\<lparr>c_name := ''db0tud''\<rparr>], w_next_cid := 2\<rparr>) = Some (is, w') \<and>
     set is = {0, 1}"
  using sort_walk_sorts [of "(boot_world ''db0tud'' 1000)\<lparr>w_connections :=
       [(blank_connection 1 5 1000)\<lparr>c_name := ''dl9sau''\<rparr>, (blank_connection 0 4 1000)\<lparr>c_name := ''db0tud''\<rparr>], w_next_cid := 2\<rparr>"]
  by (auto simp: wf_conns_def conn_ids_def blank_connection_def numeral_3_eq_3 insert_commute)

section \<open>The enumeration only locks\<close>

lemma sends_sort_connections: "flowing w \<Longrightarrow> sends w (snd (sort_connections start l w))"
  by (auto simp: sort_connections_def Let_def intro: inv_intros sends_step split: option.split list.split)

lemma sends_sort_walk: "flowing w \<Longrightarrow> sort_walk n start l w = Some (is, w') \<Longrightarrow> sends w w'"
proof (induction n arbitrary: start l w "is" w')
  case (Suc n)
  have s: "sends w (snd (sort_connections start l w))" by (rule sends_sort_connections [OF Suc.prems(1)])
  show ?case
  proof (cases "fst (sort_connections start l w)")
    case None
    then have "w' = snd (sort_connections start l w)"
      using Suc.prems(2) by (cases "sort_connections start l w") auto
    with s show ?thesis by simp
  next
    case (Some i)
    then obtain is' where "sort_walk n False (Some i) (snd (sort_connections start l w)) = Some (is', w')"
      using Suc.prems(2) by (cases "sort_connections start l w") auto
    from sends_trans [OF s Suc.IH [OF sends_flowing [OF s] this]] show ?thesis .
  qed
qed simp

lemma sends_count_user2:
  assumes "flowing w" "wf_conns w"
  shows "sends w (snd (count_user2 host w))"
proof -
  obtain "is" w' where "sort_walk (Suc (length (w_connections w))) True None w = Some (is, w')"
    using sort_walk_start [OF assms(2)] by (auto simp: sorted_walk_def)
  moreover have "sends w (clear_locks w')"
    using sends_trans [OF _ sends_lock(2)] sends_sort_walk [OF assms(1) calculation] sends_flowing by blast
  ultimately show ?thesis by (simp add: count_user2_def del: sort_walk.simps)
qed

end
