(* ===== verification/Channels.thy ===== *)
theory Channels
  imports Output
begin

text \<open>
  The channel list: creation in order of the channel number and deferred destruction
  (\<^verbatim>\<open>new_channel\<close> in \<^verbatim>\<open>user.c\<close>, \<^verbatim>\<open>destroy_channel\<close> and the expiry functions in
  \<^verbatim>\<open>conversd.c\<close>), the message history of a channel and its mode flags.
\<close>

section \<open>Message history\<close>

definition expire_chist :: "config \<Rightarrow> int \<Rightarrow> int \<Rightarrow> chist list \<Rightarrow> chist list" where
  "expire_chist cfg now keep_lines hist =
     (if hist = [] then hist
      else if keep_lines < -1 then []
      else
        let keep = (if keep_lines \<le> 0 \<or> history_lines cfg < keep_lines then
                      if history_lines cfg < 0 \<or> (history_lines cfg = 0 \<and> history_expires cfg \<le> 0)
                      then CHIST_MAXLINES else history_lines cfg
                    else keep_lines);
            hist = dropWhile (\<lambda>h. history_expires cfg < cdiv (now - ch_hist_time h) 60) hist
        in
        if hist = [] \<or> keep = 0 then hist
        else drop (length hist - nat keep) hist)"

definition alloc_chist :: "int \<Rightarrow> string \<Rightarrow> string \<Rightarrow> chist" where
  "alloc_chist now fromname s = \<lparr>ch_hist_time = now, ch_hist_name = fromname, ch_hist_text = s\<rparr>"

definition add_to_history :: "config \<Rightarrow> int \<Rightarrow> string \<Rightarrow> string \<Rightarrow> channel \<Rightarrow> channel" where
  "add_to_history cfg now fromname s ch =
     (if history_lines cfg < 0 \<or> flag (ch_flags ch) M_CHAN_I \<or> flag (ch_flags ch) M_CHAN_S then ch
      else
        let ch = (if fromname \<noteq> ''conversd''
                  then ch\<lparr>ch_ltime := now, ch_lastby := take NAMESIZE fromname\<rparr> else ch)
        in ch\<lparr>ch_chist := expire_chist cfg now (history_lines cfg - 1) (ch_chist ch) @ [alloc_chist now fromname s]\<rparr>)"

definition add_history :: "int \<Rightarrow> string \<Rightarrow> string \<Rightarrow> world \<Rightarrow> world" where
  "add_history channel fromname s w =
     upd_channel channel (add_to_history (w_cfg w) (w_currtime w) fromname s) w"

definition runs :: "string \<Rightarrow> int \<Rightarrow> world \<Rightarrow> bool" where
  "runs fn interval w \<longleftrightarrow> \<not> w_currtime w - w_last_run w fn < interval"

definition ran :: "string \<Rightarrow> world \<Rightarrow> world" where
  "ran fn w = w\<lparr>w_last_run := (w_last_run w)(fn := w_currtime w)\<rparr>"

definition expire_channel_history :: "world \<Rightarrow> world" where
  "expire_channel_history w =
     (if \<not> runs ''expire_channel_history'' 60 w then w
      else ran ''expire_channel_history''
        (w\<lparr>w_channels := map (\<lambda>ch. ch\<lparr>ch_chist := expire_chist (w_cfg w) (w_currtime w) 0 (ch_chist ch)\<rparr>) (w_channels w)\<rparr>))"

section \<open>Creation and destruction\<close>

definition fresh_channel :: "bool \<Rightarrow> int \<Rightarrow> int \<Rightarrow> string option \<Rightarrow> channel" where
  "fresh_channel uninit now channel fromuser =
     \<lparr>ch_topic = [], ch_time = 0, ch_tsetby = [],
      ch_createby = take NAMESIZE (case fromuser of None \<Rightarrow> [] | Some u \<Rightarrow> u),
      ch_ctime = now, ch_lastby = [], ch_ltime = 0, ch_locked_until = 0, ch_expires = 0, ch_chan = channel,
      ch_locked = uninit, ch_flags = 0, ch_chist = []\<rparr>"

fun insert_channel :: "channel \<Rightarrow> channel list \<Rightarrow> channel list" where
  "insert_channel ch [] = [ch]"
| "insert_channel ch (chp # chs) =
     (if ch_chan chp < ch_chan ch then chp # insert_channel ch chs else ch # chp # chs)"

text \<open>The fields the C function leaves uninitialised are \<^verbatim>\<open>name\<close>, which nobody reads, and
  \<^verbatim>\<open>locked\<close>.\<close>

definition new_channel :: "env \<Rightarrow> int \<Rightarrow> string option \<Rightarrow> world \<Rightarrow> world" where
  "new_channel E channel fromuser w =
     w\<lparr>w_channels := insert_channel (fresh_channel (e_uninit E) (w_currtime w) channel fromuser) (w_channels w)\<rparr>"

definition reset_channel :: "channel \<Rightarrow> channel" where
  "reset_channel ch =
     ch\<lparr>ch_topic := [], ch_time := 0, ch_tsetby := [], ch_lastby := [], ch_ltime := 0,
        ch_locked_until := 0, ch_chist := []\<rparr>"

definition destroy_channel :: "int \<Rightarrow> bool \<Rightarrow> world \<Rightarrow> world" where
  "destroy_channel number lock w =
     upd_channel number (\<lambda>ch.
       let ch = ch\<lparr>ch_expires := w_currtime w + 60 * 60\<rparr> in
       if lock then ch\<lparr>ch_locked_until := w_currtime w + 15 * 60\<rparr> else reset_channel ch) w"

fun expire_destroyed :: "int \<Rightarrow> channel list \<Rightarrow> channel list" where
  "expire_destroyed now [] = []"
| "expire_destroyed now (ch # chs) =
     (if ch_expires ch \<noteq> 0 then
        if ch_expires ch < now then expire_destroyed now chs
        else (if ch_locked_until ch \<noteq> 0 \<and> ch_locked_until ch < now
              then (reset_channel ch)\<lparr>ch_flags := 0\<rparr> else ch) # expire_destroyed now chs
      else ch # expire_destroyed now chs)"

definition expire_destroyed_channels :: "world \<Rightarrow> world" where
  "expire_destroyed_channels w =
     (if \<not> runs ''expire_destroyed_channels'' 60 w then w
      else ran ''expire_destroyed_channels''
             (w\<lparr>w_channels := expire_destroyed (w_currtime w) (w_channels w)\<rparr>))"

section \<open>The last user of a subnet\<close>

text \<open>The search of lines 213 to 246 of \<^verbatim>\<open>user.c\<close>: whether messages for the channel still
  arrive.\<close>

fun channel_alive :: "int \<Rightarrow> cid option \<Rightarrow> bool \<Rightarrow> connection list \<Rightarrow> bool" where
  "channel_alive channel p_via look_for_via_other_link [] = False"
| "channel_alive channel p_via look_for_via_other_link (p # ps) =
     (if c_type p \<noteq> CT_USER then channel_alive channel p_via look_for_via_other_link ps
      else case c_via p of
        None \<Rightarrow> on_chan_list p channel \<or> channel_alive channel p_via look_for_via_other_link ps
      | Some v \<Rightarrow>
          if c_channel p = channel then
            let look = (look_for_via_other_link \<or> p_via = None);
                p_via = (if p_via = None then Some v else p_via)
            in
            (if look then p_via \<noteq> Some v else p_via = Some v) \<or> channel_alive channel p_via look ps
          else channel_alive channel p_via look_for_via_other_link ps)"

definition update_channel_history :: "cid option \<Rightarrow> int \<Rightarrow> string \<Rightarrow> string \<Rightarrow> world \<Rightarrow> world" where
  "update_channel_history p_via channel name host w =
     (case find_channel channel w of
        None \<Rightarrow> w
      | Some ch \<Rightarrow>
          if channel_alive channel p_via False (w_connections w) then w
          else add_history channel ''conversd''
                 (''    '' @ name @ ''@'' @ host @ '' was last user on this channel in this subnet.'')
                 (add_history channel ''conversd'' ''*** rx for channel messages will stop:'' w))"

section \<open>Mode flags\<close>

definition get_mode_flags :: "nat \<Rightarrow> string" where
  "get_mode_flags flags =
     (if flag flags M_CHAN_S then ''s'' else '''') @ (if flag flags M_CHAN_P then ''p'' else '''') @
     (if flag flags M_CHAN_T then ''t'' else '''') @ (if flag flags M_CHAN_I then ''i'' else '''') @
     (if flag flags M_CHAN_M then ''m'' else '''') @ (if flag flags M_CHAN_L then ''l'' else '''')"

section \<open>The list stays in order\<close>

definition chans_ok :: "world \<Rightarrow> bool" where
  "chans_ok w \<longleftrightarrow> sorted_wrt (<) (map ch_chan (w_channels w))"

lemma set_insert_channel: "set (insert_channel ch chs) = insert ch (set chs)"
  by (induction chs) auto

lemma sorted_insert_channel:
  "sorted_wrt (<) (map ch_chan chs) \<Longrightarrow> ch_chan ch \<notin> ch_chan ` set chs \<Longrightarrow>
   sorted_wrt (<) (map ch_chan (insert_channel ch chs))"
  by (induction chs) (auto simp: set_insert_channel)

lemma find_insert_channel:
  "ch_chan ch \<notin> ch_chan ` set chs \<Longrightarrow>
   find (\<lambda>c. ch_chan c = n) (insert_channel ch chs) =
     (if ch_chan ch = n then Some ch else find (\<lambda>c. ch_chan c = n) chs)"
proof (induction chs)
  case (Cons c chs)
  then show ?case by auto
qed auto

interpretation chan: keyed "\<lambda>ch n. ch_chan ch = n" ch_chan
  by unfold_locales auto

lemma chan_upd_channel:
  "(\<And>ch. ch_chan (f ch) = ch_chan ch) \<Longrightarrow> map ch_chan (w_channels (upd_channel n f w)) = map ch_chan (w_channels w)"
  by (simp add: upd_channel_def map_update_first)

lemma chan_preserved [simp]:
  "ch_chan (add_to_history cfg now fromname s ch) = ch_chan ch"
  "ch_chan (reset_channel ch) = ch_chan ch"
  by (simp_all add: add_to_history_def reset_channel_def Let_def)

lemma expire_destroyed_chans:
  "map ch_chan (expire_destroyed now chs) =
     map ch_chan (filter (\<lambda>ch. ch_expires ch = 0 \<or> now \<le> ch_expires ch) chs)"
  by (induction chs) auto

lemma find_channel_None: "find_channel n w = None \<longleftrightarrow> n \<notin> ch_chan ` set (w_channels w)"
  by (auto simp: find_channel_def find_None_iff)

lemma chans_ok_new_channel [inv_intros]:
  "chans_ok w \<Longrightarrow> find_channel n w = None \<Longrightarrow> chans_ok (new_channel E n u w)"
  by (simp add: chans_ok_def new_channel_def sorted_insert_channel fresh_channel_def find_channel_None)

lemma chans_ok_upd_channel:
  "chans_ok w \<Longrightarrow> (\<And>ch. ch_chan (f ch) = ch_chan ch) \<Longrightarrow> chans_ok (upd_channel n f w)"
  by (simp add: chans_ok_def chan_upd_channel)

lemma chans_ok_add_history [inv_intros]: "chans_ok w \<Longrightarrow> chans_ok (add_history n u s w)"
  unfolding add_history_def by (rule chans_ok_upd_channel) simp_all

lemma chans_ok_destroy_channel [inv_intros]: "chans_ok w \<Longrightarrow> chans_ok (destroy_channel n lock w)"
  unfolding destroy_channel_def by (rule chans_ok_upd_channel) (simp_all add: Let_def)

lemma chans_ok_update_history [inv_intros]: "chans_ok w \<Longrightarrow> chans_ok (update_channel_history v n u h w)"
  by (auto simp: update_channel_history_def intro: chans_ok_add_history split: option.split)

lemma sorted_wrt_map_filter: "sorted_wrt R (map f xs) \<Longrightarrow> sorted_wrt R (map f (filter P xs))"
  by (induction xs) auto

lemma chans_ok_expire [inv_intros]:
  "chans_ok w \<Longrightarrow> chans_ok (expire_destroyed_channels w)"
  "chans_ok w \<Longrightarrow> chans_ok (expire_channel_history w)"
  by (simp_all add: chans_ok_def expire_destroyed_channels_def expire_channel_history_def ran_def
      expire_destroyed_chans sorted_wrt_map_filter comp_def)

text \<open>C9: The channel list is strictly sorted by number at all times: every operation on channels
  keeps it so, and a new channel is found under its number while every other lookup is unchanged.\<close>

theorem channels_sorted:
  assumes "chans_ok w" "find_channel n w = None"
  shows "chans_ok (new_channel E n u w) \<and> chans_ok (destroy_channel m lock w) \<and>
         chans_ok (add_history m from s w) \<and> chans_ok (update_channel_history v m name host w) \<and>
         chans_ok (expire_destroyed_channels w) \<and> chans_ok (expire_channel_history w) \<and>
         find_channel k (new_channel E n u w) =
           (if k = n then Some (fresh_channel (e_uninit E) (w_currtime w) n u) else find_channel k w)"
proof -
  have "find_channel k (new_channel E n u w) =
      (if k = n then Some (fresh_channel (e_uninit E) (w_currtime w) n u) else find_channel k w)"
    using assms(2) find_insert_channel [of "fresh_channel (e_uninit E) (w_currtime w) n u" "w_channels w" k]
    by (auto simp: find_channel_None) (auto simp: find_channel_def new_channel_def fresh_channel_def)
  with assms show ?thesis by (simp add: inv_intros)
qed

section \<open>The life of a channel\<close>

text \<open>A destroyed channel stays in the list for an hour and is gone at the first expiry
  run after that; channels in use are never removed.\<close>

theorem destroyed_channel_expires:
  assumes "chans_ok w" "find_channel n w = Some ch" "runs ''expire_destroyed_channels'' 60 w'"
    and "w_channels w' = w_channels (destroy_channel n lock w)" "0 \<le> w_currtime w"
  shows "(find_channel n (expire_destroyed_channels w') = None \<longleftrightarrow> w_currtime w + 60 * 60 < w_currtime w') \<and>
         (\<forall>m c. m \<noteq> n \<longrightarrow> find_channel m w = Some c \<longrightarrow> ch_expires c = 0 \<longrightarrow>
            find_channel m (expire_destroyed_channels w') \<noteq> None)"
proof -
  have set: "ch_chan ` set (w_channels (expire_destroyed_channels w')) =
      ch_chan ` {c \<in> set (w_channels w'). ch_expires c = 0 \<or> w_currtime w' \<le> ch_expires c}"
    using arg_cong [OF expire_destroyed_chans [of "w_currtime w'" "w_channels w'"], of set] assms(3)
    by (simp add: expire_destroyed_channels_def ran_def)
  have ok': "sorted_wrt (<) (map ch_chan (w_channels w'))"
    using chans_ok_destroy_channel [OF assms(1)] assms(4) by (simp add: chans_ok_def)
  have other: "find_channel m w' = find_channel m w" if "m \<noteq> n" for m
    using that assms(4) unfolding find_channel_def destroy_channel_def upd_channel_def
    by (simp add: chan.find_update_other Let_def)
  have found: "\<exists>c. find_channel n w' = Some c \<and> ch_expires c = w_currtime w + 60 * 60"
    using assms(2,4) unfolding find_channel_def destroy_channel_def upd_channel_def
    by (auto simp: chan.find_update_same Let_def reset_channel_def)
  have uniq: "c = d" if "c \<in> set (w_channels w')" "d \<in> set (w_channels w')" "ch_chan c = ch_chan d" for c d
    using ok' that by (metis distinct_map inj_onD strict_sorted_iff)
  have mem: "find_channel m w' = Some c \<Longrightarrow> c \<in> set (w_channels w') \<and> ch_chan c = m" for m c
    by (auto simp: find_channel_def find_Some_iff)
  from found obtain c where c: "find_channel n w' = Some c" "ch_expires c = w_currtime w + 60 * 60" by blast
  have "find_channel n (expire_destroyed_channels w') = None \<longleftrightarrow> \<not> (ch_expires c = 0 \<or> w_currtime w' \<le> ch_expires c)"
    unfolding find_channel_None set using mem [OF c(1)] uniq by auto
  then show ?thesis
    using c(2) assms(5) other mem by (force simp: find_channel_None set)
qed


section \<open>History\<close>

lemma length_expire_chist:
  assumes "2 \<le> history_lines cfg"
  shows "length (expire_chist cfg now (history_lines cfg - 1) hist) \<le> nat (history_lines cfg - 1)"
  using assms by (auto simp: expire_chist_def Let_def simp del: dropWhile_eq_Nil_conv)

lemma expire_chist_suffix: "\<exists>n. expire_chist cfg now k hist = drop n hist"
proof -
  have "\<exists>n. drop m (dropWhile P hist) = drop n hist" for m P
    by (metis drop_drop dropWhile_eq_drop)
  moreover have "\<exists>n. dropWhile P hist = drop n hist" for P
    by (metis dropWhile_eq_drop)
  ultimately show ?thesis
    by (auto simp: expire_chist_def Let_def intro: exI [of _ 0] exI [of _ "length hist"])
qed




text \<open>With \<^verbatim>\<open>history_lines\<close> set to 1 the history holds two lines after every message but the
  first.\<close>

theorem add_to_history_one_line:
  assumes "history_lines cfg = 1" "ch_flags ch = 0" "ch_chist ch \<noteq> []"
    and "cdiv (now - ch_hist_time (last (ch_chist ch))) 60 \<le> history_expires cfg"
  shows "ch_chist (add_to_history cfg now from s ch) = [last (ch_chist ch), alloc_chist now from s]"
proof -
  let ?P = "\<lambda>h. history_expires cfg < cdiv (now - ch_hist_time h) 60"
  have ne: "dropWhile ?P (ch_chist ch) \<noteq> []" using assms(3,4) by (fastforce dest: last_in_set)
  have "last (dropWhile ?P (ch_chist ch)) = last (ch_chist ch)"
    using ne by (metis last_append takeWhile_dropWhile_id)
  moreover have "drop (length xs - 1) xs = [last xs]" if "xs \<noteq> []" for xs :: "chist list"
    using that by (metis One_nat_def append_butlast_last_id append_eq_conv_conj length_butlast)
  ultimately have "expire_chist cfg now 0 (ch_chist ch) = [last (ch_chist ch)]"
    using assms(1,3) ne by (simp add: expire_chist_def Let_def del: dropWhile_eq_Nil_conv)
  then show ?thesis using assms(1,2) by (simp add: add_to_history_def Let_def flag_def)
qed

section \<open>When a channel is heard\<close>

definition heard_local :: "int \<Rightarrow> connection \<Rightarrow> bool" where
  "heard_local channel p \<longleftrightarrow> c_type p = CT_USER \<and> c_via p = None \<and> on_chan_list p channel"

definition heard_via :: "int \<Rightarrow> cid \<Rightarrow> connection \<Rightarrow> bool" where
  "heard_via channel v p \<longleftrightarrow> c_type p = CT_USER \<and> c_via p = Some v \<and> c_channel p = channel"

lemma channel_alive_link:
  "channel_alive channel (Some v) False ps \<longleftrightarrow>
     list_ex (heard_local channel) ps \<or> list_ex (heard_via channel v) ps"
  by (induction ps) (auto simp: heard_local_def heard_via_def Let_def split: option.split)

lemma channel_alive_other:
  "channel_alive channel (Some v) True ps \<longleftrightarrow>
     list_ex (heard_local channel) ps \<or> (\<exists>u. u \<noteq> v \<and> list_ex (heard_via channel u) ps)"
  by (induction ps) (auto simp: heard_local_def heard_via_def Let_def split: option.split)

lemma channel_alive_first:
  "channel_alive channel None False ps \<longleftrightarrow>
     list_ex (heard_local channel) ps \<or>
     (\<exists>u v. u \<noteq> v \<and> list_ex (heard_via channel u) ps \<and> list_ex (heard_via channel v) ps)"
proof (induction ps)
  case (Cons p ps)
  show ?case
  proof (cases "c_type p = CT_USER \<and> c_via p \<noteq> None \<and> c_channel p = channel")
    case True
    then obtain v where v: "c_via p = Some v" by blast
    have hv: "heard_via channel u p \<longleftrightarrow> u = v" for u using True v by (auto simp: heard_via_def)
    have "channel_alive channel None False (p # ps) \<longleftrightarrow> channel_alive channel (Some v) True ps"
      using True v by simp
    moreover have "heard_local channel p = False" using v by (simp add: heard_local_def)
    ultimately show ?thesis
      unfolding channel_alive_other by (simp add: hv) metis
  next
    case False
    then have "heard_via channel u p = False" for u by (auto simp: heard_via_def)
    moreover have "channel_alive channel None False (p # ps) \<longleftrightarrow>
        heard_local channel p \<or> channel_alive channel None False ps"
      using False by (auto simp: heard_local_def split: option.split)
    ultimately show ?thesis using Cons by simp
  qed
qed simp


text \<open>A world with one channel, for the witnesses.\<close>

definition one_channel :: "int \<Rightarrow> world" where
  "one_channel now = (boot_world ''db0tud'' now)\<lparr>w_channels := [fresh_channel False now 7 None]\<rparr>"


theorem channels_sorted_witness:
  "\<forall>E. chans_ok (new_channel E 5 None (one_channel 1000)) \<and>
   find_channel 5 (new_channel E 5 None (one_channel 1000)) = Some (fresh_channel (e_uninit E) 1000 5 None)"
proof -
  have "chans_ok (one_channel 1000)" "find_channel 5 (one_channel 1000) = None"
    by (simp_all add: chans_ok_def one_channel_def fresh_channel_def find_channel_def)
  note channels_sorted [OF this, of _ None 0 False "[]" "[]" None "[]" "[]" 5]
  moreover have "w_currtime (one_channel 1000) = 1000" by (simp add: one_channel_def boot_world_def)
  ultimately show ?thesis by simp
qed

theorem destroyed_channel_expires_witness:
  "find_channel 7 (expire_destroyed_channels ((destroy_channel 7 True (one_channel 1000))\<lparr>w_currtime := 9000\<rparr>)) = None"
proof -
  have "chans_ok (one_channel 1000)" "find_channel 7 (one_channel 1000) = Some (fresh_channel False 1000 7 None)"
    "runs ''expire_destroyed_channels'' 60 ((destroy_channel 7 True (one_channel 1000))\<lparr>w_currtime := 9000\<rparr>)"
    by (simp_all add: chans_ok_def one_channel_def fresh_channel_def find_channel_def runs_def
        destroy_channel_def upd_channel_def boot_world_def)
  from destroyed_channel_expires [OF this, of True] show ?thesis
    by (simp add: one_channel_def boot_world_def destroy_channel_def upd_channel_def)
qed

theorem add_to_history_one_line_witness:
  "length (ch_chist (add_to_history ((default_config ''db0tud'')\<lparr>history_lines := 1\<rparr>) 100 ''dl9sau'' ''b''
     ((fresh_channel False 5 1 None)\<lparr>ch_chist := [alloc_chist 90 ''dl9sau'' ''a'']\<rparr>))) = 2"
  using add_to_history_one_line [of "(default_config ''db0tud'')\<lparr>history_lines := 1\<rparr>"
      "(fresh_channel False 5 1 None)\<lparr>ch_chist := [alloc_chist 90 ''dl9sau'' ''a'']\<rparr>" 100 "''dl9sau''" "''b''"]
  by (simp add: default_config_def fresh_channel_def alloc_chist_def cdiv_def)

end
