(* ===== verification/Routing.thy ===== *)
theory Routing
  imports Connections Channels
begin

text \<open>
  Destinations and permanent links (\<^verbatim>\<open>conversd.c\<close>): the table of the servers of the network with
  the neighbour each is reached through, sorted by name without case, the distance-vector update
  \<open>update_destinations\<close> with its announcements, and the state of the links to the neighbours.

  A pointer to a destination is its name: \<open>dest\<close> finds the first entry of that name. Two entries
  have the same name only if a name of more than \<^verbatim>\<open>HOSTNAMESIZE\<close> characters was announced. A
  pointer to a permlink is the index of its cell. A chain of \<^verbatim>\<open>primary\<close> or \<^verbatim>\<open>backup\<close> pointers
  that comes back to itself makes the C loop run forever; the walk has the number of cells as fuel
  and records a fault when it is used up.
\<close>

section \<open>The destination table\<close>

definition dest :: "string \<Rightarrow> world \<Rightarrow> destination option" where
  "dest name w = find (\<lambda>d. strcaseeq (d_name d) name) (w_destinations w)"

definition upd_dest :: "string \<Rightarrow> (destination \<Rightarrow> destination) \<Rightarrow> world \<Rightarrow> world" where
  "upd_dest name f w =
     w\<lparr>w_destinations := update_first (\<lambda>d. strcaseeq (d_name d) name) f (w_destinations w)\<rparr>"

definition dest_names :: "world \<Rightarrow> string list" where
  "dest_names w = map d_name (w_destinations w)"

definition link_name :: "world \<Rightarrow> nat option \<Rightarrow> string" where
  "link_name w l = (case Option.bind l (perm w) of None \<Rightarrow> [] | Some p \<Rightarrow> pl_name p)"

definition link_conn :: "world \<Rightarrow> nat option \<Rightarrow> connection option" where
  "link_conn w l = Option.bind (Option.bind (Option.bind l (perm w)) pl_connection) (conn w)"

definition fault :: "world \<Rightarrow> world" where
  "fault w = w\<lparr>w_fault := True\<rparr>"

definition notify_line :: "env \<Rightarrow> string \<Rightarrow> string \<Rightarrow> bool \<Rightarrow> world \<Rightarrow> string" where
  "notify_line E host rv state w =
     ''*** ('' @ w_ts2 E w @ '') Server '' @ (if state then ''join'' else ''leav'') @ ''ing the network: '' @
     host @ '' '' @ (if rv \<noteq> [] then ''('' @ take 10 rv @ '')'' else []) @ [NL]"

definition notify_users :: "env \<Rightarrow> string \<Rightarrow> string \<Rightarrow> bool \<Rightarrow> world \<Rightarrow> world" where
  "notify_users E host rv state w =
     for_connections (\<lambda>p w.
       if c_type p = CT_USER \<and> c_via p = None \<and> c_operator p = 2 \<and> \<not> (c_ircmode p \<and> \<not> c_verbose p)
       then appendprompt E (c_id p) False (append_general_notice E (c_id p) (notify_line E host rv state w) w)
       else w) (clear_locks w)"

definition notify_destinations :: "env \<Rightarrow> string option \<Rightarrow> string \<Rightarrow> string \<Rightarrow> bool \<Rightarrow> world \<Rightarrow> world" where
  "notify_destinations E dp host rv state w =
     (case dp of
        None \<Rightarrow> notify_users E host rv state w
      | Some k \<Rightarrow>
          (case dest k w of
             None \<Rightarrow> w
           | Some d \<Rightarrow>
               if (state \<and> d_connected d) \<or> (\<not> state \<and> \<not> d_connected d) then w
               else
                 upd_dest k (\<lambda>d. if state then d\<lparr>d_connected := True\<rparr>
                   else d\<lparr>d_connected := False, d_link := None, d_rtt := 0, d_last_sent_rtt := 0\<rparr>)
                   (notify_users E host rv state w)))"

text \<open>Lines 3974 to 3991: in front of the first entry that is greater.\<close>

fun insert_dest :: "destination \<Rightarrow> string \<Rightarrow> destination list \<Rightarrow> destination list" where
  "insert_dest d name [] = [d]"
| "insert_dest d name (d1 # ds) =
     (if 0 < strcasecmp (d_name d1) name then d # d1 # ds else d1 # insert_dest d name ds)"

definition new_dest :: "string \<Rightarrow> string \<Rightarrow> int \<Rightarrow> string \<Rightarrow> destination" where
  "new_dest name rv hops hisneigh =
     \<lparr>d_name = take HOSTNAMESIZE name, d_hisneigh = take HOSTNAMESIZE hisneigh, d_rev = take NAMESIZE rv,
      d_link = None, d_rtt = 0, d_hops = hops, d_last_sent_rtt = 0, d_updated = 0,
      d_auto_learned = (rv = ''-''), d_connected = False\<rparr>"

text \<open>Lines 3957 to 4022: the entry is made or refreshed. The result is its name.\<close>

definition store_dest :: "string \<Rightarrow> int \<Rightarrow> string \<Rightarrow> int \<Rightarrow> string \<Rightarrow> world \<Rightarrow> string \<times> world" where
  "store_dest name rtt rv hops hisneigh w =
     (let (k, w) = (case dest name w of
             None \<Rightarrow> (take HOSTNAMESIZE name,
                       w\<lparr>w_destinations := insert_dest (new_dest name rv hops hisneigh) name (w_destinations w)\<rparr>)
           | Some d \<Rightarrow> (d_name d,
                 upd_dest (d_name d) (\<lambda>d. d\<lparr>d_rev := take NAMESIZE rv, d_auto_learned := (rv = ''-'')\<rparr>) w))
      in (k, upd_dest k (\<lambda>d. d\<lparr>d_hisneigh := (if strcaseeq hisneigh (d_hisneigh d) then d_hisneigh d
                                                else take HOSTNAMESIZE hisneigh),
                              d_hops := hops, d_rtt := rtt, d_updated := w_currtime w\<rparr>) w))"

text \<open>Lines 4024 to 4045.\<close>

definition relink_dest :: "env \<Rightarrow> nat option \<Rightarrow> string \<Rightarrow> string \<Rightarrow> string \<Rightarrow> world \<Rightarrow> world" where
  "relink_dest E p k name rv w =
     (case dest k w of
        None \<Rightarrow> w
      | Some d \<Rightarrow>
          if d_rtt d \<noteq> 0 then
            upd_dest k (\<lambda>d. d\<lparr>d_link := p\<rparr>)
              (if d_link d = None then
                 if p = None \<or> \<not> strcaseeq (link_name w p) name
                 then notify_destinations E (Some k) name rv True w
                 else upd_dest k (\<lambda>d. d\<lparr>d_connected := True\<rparr>) w
               else w)
          else
            upd_dest k (\<lambda>d. d\<lparr>d_link := None\<rparr>)
              (if d_link d \<noteq> None \<and> \<not> strcaseeq (link_name w (d_link d)) name
               then notify_destinations E (Some k) name [] False w else w))"

text \<open>\<^verbatim>\<open>abs\<close> of a \<^verbatim>\<open>long\<close> argument: the argument is cut to 32 bits.\<close>

definition cabs :: "int \<Rightarrow> int" where
  "cabs x = \<bar>signed_take_bit 31 x\<bar>"

text \<open>Lines 4066 to 4088: a changed distance to the neighbour \<open>p\<close> itself makes the estimates sent
  to it stale.\<close>

definition neighbour_turn :: "env \<Rightarrow> nat \<Rightarrow> string \<Rightarrow> string \<Rightarrow> string \<Rightarrow> world \<Rightarrow> world" where
  "neighbour_turn E p k name k1 w =
     (case (dest k w, dest k1 w) of
        (Some d, Some d1) \<Rightarrow>
          if d_rtt d1 = 0 \<or> d_link d1 = None \<or> strcaseeq k1 k \<or> d_link d1 = Some p \<or> d_name d1 = [] \<or>
             strcaseeq (d_name d1) name \<or> strcaseeq (link_name w (d_link d1)) name
          then w
          else if cdiv (d_last_sent_rtt d1 + d_last_sent_rtt d) 3 <
                  cabs ((d_rtt d1 + d_rtt d) - (d_rtt d1 + d_last_sent_rtt d))
          then (case Option.bind (perm w p) pl_connection of
                  None \<Rightarrow> fault w
                | Some i \<Rightarrow>
                    upd_dest k1 (\<lambda>d1. d1\<lparr>d_last_sent_rtt := d_rtt d1\<rparr>)
                      (appendstring E i (SL @ ''DEST '' @ d_name d1 @ '' '' @ dec (d_rtt d1 + d_rtt d) @ '' '' @ d_rev d1 @
                         '' '' @ dec (d_hops d1) @ '', '' @ d_hisneigh d1 @ [NL]) w))
          else w
      | _ \<Rightarrow> w)"

definition refresh_neighbour :: "env \<Rightarrow> nat option \<Rightarrow> string \<Rightarrow> string \<Rightarrow> int \<Rightarrow> world \<Rightarrow> world" where
  "refresh_neighbour E p k name rtt w =
     (case (dest k w, p) of
        (Some d, Some pi) \<Rightarrow>
          if rtt \<noteq> 0 \<and> d_last_sent_rtt d \<noteq> 0 \<and> d_link d = p \<and>
             (case link_conn w p of None \<Rightarrow> False | Some c \<Rightarrow> c_type c = CT_HOST) \<and>
             strcaseeq (d_name d) name \<and> strcaseeq (link_name w (d_link d)) name
          then fold (neighbour_turn E pi k name) (dest_names w) w
          else w
      | _ \<Rightarrow> w)"

text \<open>Lines 4094 to 4110: one line to every other neighbour.\<close>

definition dest_line :: "string \<Rightarrow> int \<Rightarrow> destination \<Rightarrow> permlink \<Rightarrow> string" where
  "dest_line name rtt d l =
     SL @ ''DEST '' @ name @ '' '' @
     (if rtt \<noteq> 0
      then dec (rtt + (if pl_rxtime l = -1 then pl_txtime l else cdiv (pl_txtime l + pl_rxtime l) 2)) @ '' '' @
           d_rev d @ '' '' @ dec (d_hops d) @ '' '' @ d_hisneigh d
      else ''0'') @ [NL]"

definition announce_turn :: "env \<Rightarrow> nat option \<Rightarrow> string \<Rightarrow> string \<Rightarrow> int \<Rightarrow> nat \<Rightarrow> world \<Rightarrow> world" where
  "announce_turn E p k name rtt pl w =
     (case (perm w pl, dest k w) of
        (Some l, Some d) \<Rightarrow>
          if Some pl = p \<or> strcaseeq (d_name d) (pl_name l) \<or>
             (d_link d \<noteq> None \<and> strcaseeq (link_name w (d_link d)) (pl_name l))
          then w
          else
            (case pl_connection l of
               None \<Rightarrow> w
             | Some i \<Rightarrow>
                 (case conn w i of
                    None \<Rightarrow> w
                  | Some c \<Rightarrow>
                      if c_type c = CT_HOST \<and>
                         (d_link d = None \<or> d_link d \<noteq> p \<or> \<not> strcaseeq (link_name w (d_link d)) (pl_name l))
                      then appendstring E i (dest_line name rtt d l) w else w))
      | _ \<Rightarrow> w)"

definition announce_dest :: "env \<Rightarrow> nat option \<Rightarrow> string \<Rightarrow> string \<Rightarrow> int \<Rightarrow> world \<Rightarrow> world" where
  "announce_dest E p k name rtt w =
     fold (announce_turn E p k name rtt) [0..<length (w_permarray w)] w"

text \<open>The whole update. Both branches of lines 4024 to 4045 set \<^verbatim>\<open>force_send\<close>, so the tests of the
  tolerance against it never stop an announcement.\<close>

definition update_destinations ::
  "env \<Rightarrow> nat option \<Rightarrow> string \<Rightarrow> int \<Rightarrow> string \<Rightarrow> int \<Rightarrow> string \<Rightarrow> world \<Rightarrow> world" where
  "update_destinations E p name rtt rv hops hisneigh w =
     (if w_permarray w = [] then w
      else if (case dest name w of None \<Rightarrow> False
               | Some d \<Rightarrow> d_link d \<noteq> None \<and> d_link d \<noteq> p \<and> d_rtt d \<noteq> 0 \<and> d_rtt d \<le> rtt)
      then (if p = None then fault w else w)
      else
        let (k, w) = store_dest name rtt rv (hops + 1) hisneigh w;
            w = relink_dest E p k name rv w;
            w = (case dest k w of
                   None \<Rightarrow> w
                 | Some d \<Rightarrow>
                     if d_auto_learned d \<and> d_rtt d \<noteq> 0 then w
                     else announce_dest E p k name rtt (refresh_neighbour E p k name rtt w))
        in upd_dest k (\<lambda>d. if rtt = 0
             then d\<lparr>d_last_sent_rtt := rtt, d_link := None, d_hops := 0, d_connected := False, d_hisneigh := []\<rparr>
             else d\<lparr>d_last_sent_rtt := rtt\<rparr>) w)"

definition dest_check :: "cid \<Rightarrow> destination option \<Rightarrow> world \<Rightarrow> bool" where
  "dest_check i d w =
     (case d of
        None \<Rightarrow> True
      | Some d \<Rightarrow>
          d_link d = None \<or>
          (\<not> strcaseeq (d_name d) (myhostname (w_cfg w)) \<and>
           Option.bind (Option.bind (d_link d) (perm w)) pl_connection = Some i))"

definition route_cleanup :: "connection \<Rightarrow> world \<Rightarrow> world" where
  "route_cleanup cp w =
     w\<lparr>w_destinations := map (\<lambda>d.
         if d_link d = None \<or> \<not> d_connected d \<or>
            (case link_conn w (d_link d) of None \<Rightarrow> True | Some c \<Rightarrow> strcaseeq (c_name c) (c_name cp))
         then d\<lparr>d_link := None, d_rtt := 0, d_last_sent_rtt := 0, d_connected := False\<rparr> else d) (w_destinations w)\<rparr>"

text \<open>One turn of the loop of line 936; the jump to \<^verbatim>\<open>again\<close> is taken at the head of the list only
  and continues with the entry behind it.\<close>

definition expire_dest :: "env \<Rightarrow> string \<Rightarrow> world \<Rightarrow> world" where
  "expire_dest E k w =
     (let (used, w) = (case dest k w of
             None \<Rightarrow> (False, w)
           | Some d \<Rightarrow> if d_auto_learned d then (case count_user2 (Some (d_name d)) w of (n, w) \<Rightarrow> (n \<noteq> 0, w))
                        else (False, w));
          w = (if used then upd_dest k (\<lambda>d. d\<lparr>d_updated := w_currtime w\<rparr>) w else w)
      in case dest k w of
           None \<Rightarrow> w
         | Some d \<Rightarrow>
             if (d_rtt d = 0 \<and> d_link d = None \<and> \<not> d_connected d) \<or>
                (d_auto_learned d \<and> 3 * 60 * 60 < w_currtime w - d_updated d)
             then
               let w = (if d_auto_learned d \<and> d_link d \<noteq> None
                        then update_destinations E (d_link d) (d_name d) 0 [] 0 (myhostname (w_cfg w)) w else w)
               in (case dest k w of None \<Rightarrow> w | Some d \<Rightarrow> w\<lparr>w_destinations := remove1 d (w_destinations w)\<rparr>)
             else w)"

definition expire_dests :: "env \<Rightarrow> world \<Rightarrow> world" where
  "expire_dests E w =
     (if \<not> runs ''expire_dests'' 600 w then w
      else ran ''expire_dests'' (fold (expire_dest E) (dest_names w) w))"

text \<open>Line 2802 continues for every entry but \<open>d1\<close> itself. When \<open>d1\<close> is its own neighbour, the
  function calls itself without end; the fuel is one call.\<close>

fun update_dests_behind :: "nat \<Rightarrow> env \<Rightarrow> string \<Rightarrow> world \<Rightarrow> world" where
  "update_dests_behind 0 E k w = fault w"
| "update_dests_behind (Suc n) E k w =
     fold (\<lambda>k2 w.
       (case (dest k w, dest k2 w) of
          (Some d1, Some d2) \<Rightarrow>
            if \<not> strcaseeq k2 k \<or> d_link d2 = None \<or> d_link d2 \<noteq> d_link d1 \<or> d_rtt d2 = 0 \<or>
               \<not> strcaseeq (d_hisneigh d2) (d_name d1)
            then w
            else update_dests_behind n E k2
                   (update_destinations E (d_link d2) (d_name d2) (d_rtt d2) (d_rev d2) (d_hops d1) (d_name d1) w)
        | _ \<Rightarrow> w)) (dest_names w) w"

definition learn_destination_relation_from_route :: "env \<Rightarrow> string \<Rightarrow> world \<Rightarrow> world" where
  "learn_destination_relation_from_route E buffer w =
     (if w_permarray w = [] then w
      else
        let (host_via, r) = getargcs (drop 11 buffer) False; (arg, r) = getargcs r False; (host, r) = getargcs r False in
        if host_via = [] \<or> arg = [] \<or> hd arg \<notin> {CHR ''-'', CHR ''(''} then w
        else if host = [] \<or> \<not> isalnum (hd host) then w
        else if strcaseeq host_via (myhostname (w_cfg w)) \<or> strcaseeq host (myhostname (w_cfg w)) \<or>
                strcaseeq host_via host then w
        else
          case find_destination host_via w of
            None \<Rightarrow> w
          | Some d1 \<Rightarrow>
              if d_link d1 = None \<or> d_rtt d1 = 0 then w
              else
                case find_destination host w of
                  None \<Rightarrow> update_destinations E (d_link d1) host (d_rtt d1 + 99) ''-'' (d_hops d1) (d_name d1) w
                | Some d2 \<Rightarrow>
                    if d_link d2 = None
                    then update_destinations E (d_link d1) host (d_rtt d1 + 99) ''-'' (d_hops d1) (d_name d1) w
                    else if d_link d1 \<noteq> d_link d2 then w
                    else if d_hops d2 = d_hops d1 + 1 \<and> strcaseeq (d_hisneigh d2) (d_name d1) then w
                    else update_dests_behind 1 E (d_name d2)
                           (update_destinations E (d_link d2) (d_name d2) (d_rtt d2) (d_rev d2) (d_hops d1) (d_name d1) w))"

section \<open>Permanent links\<close>

fun delay_down :: "nat \<Rightarrow> int \<Rightarrow> nat option \<Rightarrow> world \<Rightarrow> world" where
  "delay_down n delay None w = w"
| "delay_down 0 delay (Some k) w = fault w"
| "delay_down (Suc n) delay (Some k) w =
     (case perm w k of
        None \<Rightarrow> fault w
      | Some pl2 \<Rightarrow>
          (case Option.bind (pl_primary pl2) (perm w) of
             None \<Rightarrow> w
           | Some pr \<Rightarrow>
               delay_down n delay (pl_backup pl2) (upd_perm k (\<lambda>x. x\<lparr>pl_retrytime := pl_retrytime pr + delay\<rparr>) w)))"

fun delay_up :: "nat \<Rightarrow> int \<Rightarrow> nat option \<Rightarrow> world \<Rightarrow> world" where
  "delay_up n delay None w = w"
| "delay_up 0 delay (Some k) w = fault w"
| "delay_up (Suc n) delay (Some k) w =
     (case perm w k of
        None \<Rightarrow> fault w
      | Some pl2 \<Rightarrow>
          delay_up n delay (pl_primary pl2)
            (if pl_retrytime pl2 < w_currtime w + delay
             then upd_perm k (\<lambda>x. x\<lparr>pl_retrytime := pl_retrytime x + delay\<rparr>) w else w))"

definition delay_permlink_connect :: "nat option \<Rightarrow> int \<Rightarrow> world \<Rightarrow> world" where
  "delay_permlink_connect lp delay w =
     (case lp of
        None \<Rightarrow> w
      | Some k \<Rightarrow>
          (case perm w k of
             None \<Rightarrow> fault w
           | Some pl \<Rightarrow>
               if pl_permanent pl = 0 then w
               else
                 let w = (if pl_retrytime pl \<le> w_currtime w
                          then upd_perm k (\<lambda>x. x\<lparr>pl_retrytime := w_currtime w + 1\<rparr>) w else w);
                     retry = (if pl_retrytime pl \<le> w_currtime w then w_currtime w + 1 else pl_retrytime pl);
                     delay = delay * 60;
                     n = length (w_permarray w);
                     w = (case pl_backup pl of
                            None \<Rightarrow> w
                          | Some b \<Rightarrow>
                              let w = upd_perm b (\<lambda>x. x\<lparr>pl_retrytime := retry + (if pl_primary pl \<noteq> None then 2 else 1) * delay\<rparr>) w
                              in delay_down n delay (Option.bind (perm w b) pl_backup) w)
                 in delay_up n delay (pl_primary pl) w))"

text \<open>Lines 4149 to 4169: the destinations behind the link are withdrawn.\<close>

definition drop_dest :: "env \<Rightarrow> nat \<Rightarrow> bool \<Rightarrow> string \<Rightarrow> world \<Rightarrow> world" where
  "drop_dest E p down k w =
     (let w = (case dest k w of
                 None \<Rightarrow> w
               | Some d \<Rightarrow> if d_rtt d \<noteq> 0 \<and> d_link d = Some p
                           then update_destinations E (Some p) (d_name d) 0 [] 0 (d_hisneigh d) w else w)
      in case dest k w of
           None \<Rightarrow> w
         | Some d \<Rightarrow> if down \<and> d_link d = Some p then notify_destinations E (Some k) (d_name d) (d_rev d) False w else w)"

text \<open>Lines 4171 to 4181 and 4211 to 4222.\<close>

definition link_up :: "cid option \<Rightarrow> nat \<Rightarrow> int \<Rightarrow> permlink \<Rightarrow> permlink" where
  "link_up cp isperm now p =
     p\<lparr>pl_connection := cp, pl_statetime := now, pl_tries := 0, pl_waittime := 9, pl_rxtime := 0, pl_txtime := 0,
       pl_testwaittime := now, pl_testnexttime := now + 60, pl_retrytime := now + 9,
       pl_permanent := (if isperm \<noteq> 0 then isperm else pl_permanent p)\<rparr>"

definition blank_permlink :: "string \<Rightarrow> permlink" where
  "blank_permlink name =
     \<lparr>pl_name = take HOSTNAMESIZE name, pl_s_groups = [], pl_connection = None, pl_primary = None, pl_backup = None, pl_statetime = 0,
      pl_tries = 0, pl_waittime = 0, pl_retrytime = 0, pl_testwaittime = 0, pl_testnexttime = 0, pl_locked_until = 0,
      pl_rxtime = 0, pl_txtime = 0, pl_curr_group = -1, pl_permanent = 0, pl_locked = False\<rparr>"

text \<open>Lines 4183 to 4199.\<close>

definition link_down :: "env \<Rightarrow> nat \<Rightarrow> nat \<Rightarrow> world \<Rightarrow> world" where
  "link_down E pl isperm w =
     (let w = upd_perm pl (\<lambda>p. p\<lparr>pl_statetime := w_currtime w, pl_curr_group := -1\<rparr>) w;
          w = (if isperm = 0 then
                 (case link_conn w (Some pl) of
                    None \<Rightarrow> fault w
                  | Some c \<Rightarrow> notify_destinations E None (link_name w (Some pl)) (c_rev c) False w)
               else w)
      in case perm w pl of
           None \<Rightarrow> w
         | Some p \<Rightarrow>
             if pl_permanent p = 0 then upd_perm pl (\<lambda>p. p\<lparr>pl_connection := None\<rparr>) w
             else if pl_retrytime p < w_currtime w + 30
             then delay_permlink_connect (Some pl) 2 (upd_perm pl (\<lambda>p. p\<lparr>pl_retrytime := w_currtime w + 30\<rparr>) w)
             else w)"

definition update_permlinks :: "env \<Rightarrow> string \<Rightarrow> cid option \<Rightarrow> nat \<Rightarrow> world \<Rightarrow> nat option \<times> world" where
  "update_permlinks E name cp isperm w =
     (let w = (if w_permarray w = [] then w\<lparr>w_permarray := replicate (NR_PERMLINKS (w_cfg w)) None\<rparr> else w);
          w = (case Option.bind cp (conn w) of
                 None \<Rightarrow> w
               | Some c \<Rightarrow> notify_destinations E None name (c_rev c) True w)
      in case find_permlink name w of
           Some pl \<Rightarrow>
             let w = fold (drop_dest E pl (isperm = 0 \<and> cp = None)) (dest_names w) w
             in (Some pl,
                 if cp \<noteq> None then upd_perm pl (link_up cp isperm (w_currtime w)) w else link_down E pl isperm w)
         | None \<Rightarrow>
             (case find (\<lambda>pl. perm w pl = None) [0..<length (w_permarray w)] of
                None \<Rightarrow> (None, w)
              | Some pl \<Rightarrow>
                  (Some pl, w\<lparr>w_permarray :=
                     (w_permarray w)[pl := Some (link_up cp isperm (w_currtime w) (blank_permlink name))]\<rparr>)))"

section \<open>The table is sorted\<close>

interpretation dst: keyed "\<lambda>d k. strcaseeq (d_name d) k" d_name
  by unfold_locales (auto simp: strcaseeq_strlwr)

text \<open>The table is strictly sorted, and a distance belongs to a link.\<close>

definition dests_ok :: "world \<Rightarrow> bool" where
  "dests_ok w \<longleftrightarrow>
     sorted_wrt (\<lambda>a b. strcasecmp a b < 0) (dest_names w) \<and>
     list_all (\<lambda>d. d_rtt d \<noteq> 0 \<longrightarrow> d_link d \<noteq> None) (w_destinations w)"

lemma upd_dest_frame [simp, frame]:
  "w_connections (upd_dest k f w) = w_connections w" "w_permarray (upd_dest k f w) = w_permarray w"
  "w_currtime (upd_dest k f w) = w_currtime w" "w_cfg (upd_dest k f w) = w_cfg w" "conn (upd_dest k f w) = conn w"
  "perm (upd_dest k f w) = perm w" "conn_ids (upd_dest k f w) = conn_ids w"
  by (simp_all add: upd_dest_def fun_eq_iff conn_def perm_def conn_ids_def)

lemma link_upd_dest [simp, frame]:
  "link_name (upd_dest k f w) = link_name w" "link_conn (upd_dest k f w) = link_conn w"
  by (simp_all add: fun_eq_iff link_name_def link_conn_def)

lemma dest_upd_dest:
  assumes "\<And>d. d_name (f d) = d_name d"
  shows "dest k' (upd_dest k f w) = (if strcaseeq k' k then map_option f (dest k' w) else dest k' w)"
proof (cases "strcaseeq k' k")
  case True
  then have eq: "strcaseeq (d_name d) k \<longleftrightarrow> strcaseeq (d_name d) k'" for d by (simp add: strcaseeq_strlwr)
  show ?thesis
    using dst.find_update_same [of f k' "w_destinations w"] assms True by (simp add: dest_def upd_dest_def eq)
next
  case False
  then show ?thesis
    using dst.find_update_other [of f k k' "w_destinations w"] assms
    by (simp add: dest_def upd_dest_def strcaseeq_strlwr)
qed

lemma dest_names_upd [simp]: "(\<And>d. d_name (f d) = d_name d) \<Longrightarrow> dest_names (upd_dest k f w) = dest_names w"
  by (simp add: dest_names_def upd_dest_def map_update_first)

lemma flowing_upd_dest [simp]: "flowing (upd_dest k f w) = flowing w"
  by (simp add: flowing_def)

section \<open>Operations that keep the names in the table\<close>

definition reroutes :: "world \<Rightarrow> world \<Rightarrow> bool" where
  "reroutes w w' \<longleftrightarrow> sends (w\<lparr>w_destinations := w_destinations w'\<rparr>) w' \<and> dest_names w' = dest_names w"

lemma sends_dests: "sends w w' \<Longrightarrow> sends (w\<lparr>w_destinations := ds\<rparr>) (w'\<lparr>w_destinations := ds\<rparr>)"
  unfolding sends_def by (elim conjE exE, rule conjI, simp add: flowing_def) (rule exI, auto)

lemma reroutes_sends: "sends w w' \<Longrightarrow> reroutes w w'"
  by (auto simp: reroutes_def sends_def dest_names_def)

lemma reroutes_refl: "flowing w \<Longrightarrow> reroutes w w"
  by (rule reroutes_sends [OF sends_refl])

lemma reroutes_trans: "reroutes w w' \<Longrightarrow> reroutes w' w'' \<Longrightarrow> reroutes w w''"
  using sends_dests [of "w\<lparr>w_destinations := w_destinations w'\<rparr>" w' "w_destinations w''"]
  by (auto simp: reroutes_def intro: sends_trans)

lemma reroutes_flowing: "reroutes w w' \<Longrightarrow> flowing w'"
  unfolding reroutes_def using sends_flowing by blast

lemma reroutes_step: "reroutes w w' \<Longrightarrow> (flowing w' \<Longrightarrow> reroutes w' (f w')) \<Longrightarrow> reroutes w (f w')"
  using reroutes_trans reroutes_flowing by blast

lemma reroutes_upd_dest: "flowing w \<Longrightarrow> (\<And>d. d_name (f d) = d_name d) \<Longrightarrow> reroutes w (upd_dest k f w)"
  using sends_refl [of "upd_dest k f w"] by (simp add: reroutes_def) (simp add: upd_dest_def)

lemma perm_cong: "w_permarray w' = w_permarray w \<Longrightarrow> perm w' = perm w"
  by (simp add: perm_def fun_eq_iff)

lemma link_name_cong: "w_permarray w' = w_permarray w \<Longrightarrow> link_name w' = link_name w"
  by (simp add: link_name_def fun_eq_iff perm_cong [of w' w])

lemma reroutes_frame:
  assumes "reroutes w w'"
  shows "w_permarray w' = w_permarray w" "w_currtime w' = w_currtime w" "w_cfg w' = w_cfg w"
    "conn_ids w' = conn_ids w" "perm w' = perm w" "link_name w' = link_name w"
    "map_option idle (conn w' i) = map_option idle (conn w i)" "w_fault w' = w_fault w"
    "dest_names w' = dest_names w" "w_channels w' = w_channels w"
  using assms sends_frame [of "w\<lparr>w_destinations := w_destinations w'\<rparr>" w']
    sends_conn_ids [of "w\<lparr>w_destinations := w_destinations w'\<rparr>" w']
    sends_conn [of "w\<lparr>w_destinations := w_destinations w'\<rparr>" w' i]
    perm_cong [of w' w] link_name_cong [of w' w]
  by (auto simp: reroutes_def conn_ids_def conn_def)

lemma sends_notify_users [inv_intros]: "flowing w \<Longrightarrow> sends w (notify_users E host rv state w)"
  unfolding notify_users_def
  by (rule sends_step [OF sends_lock(2)], assumption, rule sends_for_connections)
    (auto intro: inv_intros sends_step)

lemma sends_dest: "sends w w' \<Longrightarrow> dest k w' = dest k w"
  by (auto simp: sends_def dest_def)

lemma reroutes_notify_users: "flowing w \<Longrightarrow> reroutes w (notify_users E host rv state w)"
  by (rule reroutes_sends [OF sends_notify_users])

lemma reroutes_notify: "flowing w \<Longrightarrow> reroutes w (notify_destinations E dp host rv state w)"
  unfolding notify_destinations_def
  by (auto intro!: reroutes_refl reroutes_notify_users reroutes_step [OF _ reroutes_upd_dest]
      split: option.split)

lemma reroutes_relink: "flowing w \<Longrightarrow> reroutes w (relink_dest E p k name rv w)"
  unfolding relink_dest_def
  by (auto intro!: reroutes_refl reroutes_notify reroutes_upd_dest reroutes_step [OF _ reroutes_upd_dest]
      split: option.split)

lemma reroutes_fold:
  assumes "\<And>x v. x \<in> set xs \<Longrightarrow> reroutes w v \<Longrightarrow> reroutes v (f x v)" "flowing w"
  shows "reroutes w (fold f xs w)"
proof -
  have "reroutes w v \<Longrightarrow> set ys \<subseteq> set xs \<Longrightarrow> reroutes w (fold f ys v)" for v ys
  proof (induction ys arbitrary: v)
    case (Cons y ys)
    then show ?case using assms(1) [of y v] reroutes_trans [of w v "f y v"] by simp
  qed simp
  from this [OF reroutes_refl [OF assms(2)], of xs] show ?thesis by simp
qed


lemma reroutes_appendstring: "flowing w \<Longrightarrow> reroutes w (appendstring E i s w)"
  by (rule reroutes_sends [OF sends_appendstring])

lemma reroutes_neighbour_turn:
  assumes "flowing w" "Option.bind (perm w p) pl_connection \<noteq> None"
  shows "reroutes w (neighbour_turn E p k name k1 w)"
  using assms unfolding neighbour_turn_def
  by (auto intro!: reroutes_refl reroutes_appendstring reroutes_step [OF _ reroutes_upd_dest]
      simp del: bind_eq_None_conv split: option.split)

lemma reroutes_refresh: "flowing w \<Longrightarrow> reroutes w (refresh_neighbour E p k name rtt w)"
proof (cases "\<exists>d pi c. dest k w = Some d \<and> p = Some pi \<and> link_conn w p = Some c")
  case True
  then obtain d pi c where *: "dest k w = Some d" "p = Some pi" "link_conn w p = Some c" by blast
  then have pc: "Option.bind (perm w pi) pl_connection \<noteq> None" by (auto simp: link_conn_def bind_eq_Some_conv)
  assume "flowing w"
  moreover from this have "reroutes w (fold (neighbour_turn E pi k name) (dest_names w) w)"
    using reroutes_frame(5) pc
    by (intro reroutes_fold reroutes_neighbour_turn) (auto dest: reroutes_flowing)
  ultimately show ?thesis using * by (simp add: refresh_neighbour_def reroutes_refl)
qed (auto simp: refresh_neighbour_def intro: reroutes_refl split: option.split)

lemma sends_announce: "flowing w \<Longrightarrow> sends w (announce_dest E p k name rtt w)"
  unfolding announce_dest_def
  by (rule sends_fold) (auto simp: announce_turn_def intro: sends_refl sends_appendstring split: option.split)

lemmas reroutes_announce = reroutes_sends [OF sends_announce]


section \<open>Servers get no notices\<close>

lemma obuf_notify_users:
  assumes "flowing w" "conn w i = Some c" "c_type c = CT_HOST"
  shows "obuf_of (notify_users E host rv state w) i = obuf_of w i"
proof -
  let ?b = "\<lambda>p w. if c_type p = CT_USER \<and> c_via p = None \<and> c_operator p = 2 \<and> \<not> (c_ircmode p \<and> \<not> c_verbose p)
       then appendprompt E (c_id p) False (append_general_notice E (c_id p) (notify_line E host rv state w) w) else w"
  have turn: "sends_past i v (?b p v)" if v: "sends (clear_locks w) v" "conn v (c_id p) = Some p" for p v
  proof (cases "c_id p = i")
    case True
    with sends_type [OF v] assms(2,3) show ?thesis
      using sends_past_refl [OF sends_flowing [OF v(1)]] by (auto simp: conn_clear_locks dest: idle_eqD(2))
  next
    case False
    then show ?thesis
      using sends_past_refl [OF sends_flowing [OF v(1)]] sends_flowing [OF v(1)]
      by (auto intro: sends_past_notices sends_past_step)
  qed
  have "sends_past i (clear_locks w) (for_connections ?b (clear_locks w))"
    by (rule sends_past_for_connections [OF turn]) (use assms(1) in auto)
  with sends_past_locks(1) [OF assms(1), of i] show ?thesis
    unfolding notify_users_def sends_past_def by simp
qed

lemma obuf_upd_dest [simp]: "obuf_of (upd_dest k f w) i = obuf_of w i"
  by (simp add: obuf_of_def)

lemma obuf_relink:
  assumes "flowing w" "conn w i = Some c" "c_type c = CT_HOST"
  shows "obuf_of (relink_dest E p k name rv w) i = obuf_of w i"
  using obuf_notify_users [OF assms]
  by (auto simp: relink_dest_def notify_destinations_def split: option.split)

section \<open>What the table holds\<close>

abbreviation (input) name_sorted :: "string list \<Rightarrow> bool" where
  "name_sorted ns \<equiv> sorted_wrt (\<lambda>a b. strcasecmp a b < 0) ns"

lemma sorted_uniq: "name_sorted (map d_name ds) \<Longrightarrow> uniq_by (\<lambda>x y. strcaseeq (d_name x) (d_name y)) ds"
  by (induction ds) (auto simp: list_all_iff)

lemma dest_in_table:
  assumes "name_sorted (dest_names w)"
  shows "list_all P (w_destinations w) \<longleftrightarrow> (\<forall>k d. dest k w = Some d \<longrightarrow> P d)"
proof -
  have "dest (d_name d) w = Some d" if "d \<in> set (w_destinations w)" for d
    using dst.uniq_find [OF sorted_uniq that] assms by (simp add: dest_def dest_names_def)
  moreover have "d \<in> set (w_destinations w)" if "dest k w = Some d" for k d
    using that by (auto simp: dest_def find_Some_iff)
  ultimately show ?thesis unfolding list_all_iff by blast
qed

lemma dests_okI:
  "name_sorted (dest_names w) \<Longrightarrow> (\<And>k d. dest k w = Some d \<Longrightarrow> d_rtt d \<noteq> 0 \<Longrightarrow> d_link d \<noteq> None) \<Longrightarrow> dests_ok w"
  by (auto simp: dests_ok_def dest_in_table)

lemma dests_okD:
  "dests_ok w \<Longrightarrow> name_sorted (dest_names w)"
  "dests_ok w \<Longrightarrow> dest k w = Some d \<Longrightarrow> d_rtt d \<noteq> 0 \<Longrightarrow> d_link d \<noteq> None"
  by (auto simp: dests_ok_def dest_in_table)

lemma dest_key: "dest k w = Some d \<Longrightarrow> strcaseeq (d_name d) k"
  by (auto simp: dest_def find_Some_iff)

lemma dest_cong_key: "strcaseeq k k' \<Longrightarrow> dest k w = dest k' w"
  by (simp add: dest_def strcaseeq_strlwr)

lemma insert_dest_sorted:
  assumes "name_sorted (map d_name ds)" "find (\<lambda>x. strcaseeq (d_name x) name) ds = None" "d_name d = name"
  shows "name_sorted (map d_name (insert_dest d name ds))"
proof -
  have set: "set (insert_dest d name ds) = insert d (set ds)" for ds by (induction ds) auto
  show ?thesis using assms(1,2)
  proof (induction ds)
    case (Cons x xs)
    have "strcasecmp name (d_name x) < 0" if "0 < strcasecmp (d_name x) name"
      using that strcasecmp_antisym [of name "d_name x"] by simp
    with Cons strcasecmp_less_trans show ?case
      by (auto simp: set assms(3) split: if_splits)
  qed (simp add: assms)
qed

lemma insert_dest_find:
  assumes "find (\<lambda>x. strcaseeq (d_name x) name) ds = None" "d_name d = name"
  shows "find (\<lambda>x. strcaseeq (d_name x) k) (insert_dest d name ds) =
     (if strcaseeq k name then Some d else find (\<lambda>x. strcaseeq (d_name x) k) ds)"
  using assms(1) by (induction ds) (auto simp: assms(2) strcaseeq_strlwr split: if_splits)

lemma dest_insert:
  "dest name w = None \<Longrightarrow> d_name d = name \<Longrightarrow>
   dest k (w\<lparr>w_destinations := insert_dest d name (w_destinations w)\<rparr>) = (if strcaseeq k name then Some d else dest k w)"
  by (simp add: dest_def insert_dest_find)

lemma new_dest_sel [simp]:
  "d_name (new_dest name rv hops hn) = take HOSTNAMESIZE name" "d_rtt (new_dest name rv hops hn) = 0"
  "d_link (new_dest name rv hops hn) = None" "d_connected (new_dest name rv hops hn) = False"
  "d_last_sent_rtt (new_dest name rv hops hn) = 0" "d_auto_learned (new_dest name rv hops hn) = (rv = ''-'')"
  by (simp_all add: new_dest_def)

lemma store_dest_spec:
  assumes "name_sorted (dest_names w)" "length name \<le> HOSTNAMESIZE" "store_dest name rtt rv hops hn w = (k, v)"
  shows "strcaseeq k name" "name_sorted (dest_names v)" "\<exists>ds. v = w\<lparr>w_destinations := ds\<rparr> \<and> (dest name w \<noteq> None \<longrightarrow> map d_name ds = dest_names w)"
    "\<not> strcaseeq k' name \<Longrightarrow> dest k' v = dest k' w"
    "\<exists>d. dest k v = Some d \<and> d_rtt d = rtt \<and> d_hops d = hops \<and> d_auto_learned d = (rv = ''-'') \<and>
       d_link d = Option.bind (dest name w) d_link \<and>
       (case dest name w of None \<Rightarrow> \<not> d_connected d \<and> d_last_sent_rtt d = 0
        | Some e \<Rightarrow> d_connected d = d_connected e \<and> d_last_sent_rtt d = d_last_sent_rtt e)"
proof -
  show "strcaseeq k name" 
    using assms(2,3) dest_key [of name w] by (auto simp: store_dest_def split: option.splits)
  show "\<exists>ds. v = w\<lparr>w_destinations := ds\<rparr> \<and> (dest name w \<noteq> None \<longrightarrow> map d_name ds = dest_names w)"
    using assms(3) by (auto simp: store_dest_def upd_dest_def map_update_first dest_names_def split: option.splits)
  show "name_sorted (dest_names v)"
    using assms insert_dest_sorted [of "w_destinations w" name "new_dest name rv hops hn"]
    by (auto simp: store_dest_def upd_dest_def dest_names_def map_update_first dest_def
      split: option.splits)
  note ins = dest_insert [of name w "new_dest name rv hops hn"]
  show "dest k' v = dest k' w" if "\<not> strcaseeq k' name"
  proof (cases "dest name w")
    case None
    with assms(2,3) that ins [of k'] show ?thesis by (auto simp: store_dest_def dest_upd_dest)
  next
    case (Some e)
    with assms(3) that dest_key [OF Some] show ?thesis
      by (auto simp: store_dest_def dest_upd_dest strcaseeq_strlwr)
  qed
  show "\<exists>d. dest k v = Some d \<and> d_rtt d = rtt \<and> d_hops d = hops \<and> d_auto_learned d = (rv = ''-'') \<and>
       d_link d = Option.bind (dest name w) d_link \<and>
       (case dest name w of None \<Rightarrow> \<not> d_connected d \<and> d_last_sent_rtt d = 0
        | Some e \<Rightarrow> d_connected d = d_connected e \<and> d_last_sent_rtt d = d_last_sent_rtt e)"
  proof (cases "dest name w")
    case None
    with assms(2,3) ins [of k] show ?thesis by (auto simp: store_dest_def dest_upd_dest)
  next
    case (Some e)
    then have "dest (d_name e) w = Some e" using dest_cong_key [OF dest_key [OF Some]] by simp
    with assms(3) Some show ?thesis by (auto simp: store_dest_def dest_upd_dest)
  qed
qed


lemma notify_dest:
  assumes "flowing w"
  shows "\<not> strcaseeq k' k \<Longrightarrow> dest k' (notify_destinations E (Some k) host rv state w) = dest k' w"
    and "dest k w = Some d \<Longrightarrow> \<exists>d'. dest k (notify_destinations E (Some k) host rv state w) = Some d' \<and>
       d_connected d' = state \<and> d_auto_learned d' = d_auto_learned d \<and> (state \<longrightarrow> d' = d\<lparr>d_connected := True\<rparr>) \<and>
       (\<not> state \<longrightarrow> d_rtt d = 0 \<longrightarrow> d_rtt d' = 0)"
  using sends_dest [OF sends_notify_users [OF assms, of E host rv state]]
  by (auto simp: notify_destinations_def dest_upd_dest split: option.split)

lemma relink_dest_table:
  assumes "flowing w"
  shows "\<not> strcaseeq k' k \<Longrightarrow> dest k' (relink_dest E p k name rv w) = dest k' w"
    and "dest k w = Some d \<Longrightarrow> \<exists>d'. dest k (relink_dest E p k name rv w) = Some d' \<and> d_rtt d' = d_rtt d \<and>
       d_link d' = (if d_rtt d = 0 then None else p) \<and> d_auto_learned d' = d_auto_learned d \<and>
       (d_rtt d \<noteq> 0 \<longrightarrow> d_hops d' = d_hops d \<and> d_hisneigh d' = d_hisneigh d \<and> d_rev d' = d_rev d \<and>
          (d_connected d' \<longleftrightarrow> d_connected d \<or> d_link d = None))"
  subgoal
    using notify_dest(1) [OF assms, of k' k]
    by (auto simp: relink_dest_def dest_upd_dest split: option.split)
  subgoal premises prem
    using notify_dest(2) [OF assms prem, of E name rv True] notify_dest(2) [OF assms prem, of E name "[]" False] prem
    by (auto simp: relink_dest_def dest_upd_dest)
  done

text \<open>An entry without the distance sent last.\<close>

definition d_core :: "destination \<Rightarrow> destination" where
  "d_core d = d\<lparr>d_last_sent_rtt := 0\<rparr>"

lemma d_core_sel [simp]:
  "d_name (d_core d) = d_name d" "d_rtt (d_core d) = d_rtt d" "d_link (d_core d) = d_link d"
  "d_hops (d_core d) = d_hops d" "d_hisneigh (d_core d) = d_hisneigh d" "d_connected (d_core d) = d_connected d"
  "d_core (d\<lparr>d_last_sent_rtt := t\<rparr>) = d_core d"
  by (simp_all add: d_core_def)

lemma neighbour_turn_core:
  assumes "flowing w"
  shows "map_option d_core (dest k' (neighbour_turn E p k name k1 w)) = map_option d_core (dest k' w)"
    and "strcaseeq k' k \<Longrightarrow> dest k' (neighbour_turn E p k name k1 w) = dest k' w"
proof -
  have f: "dest k' (fault w) = dest k' w" for k' by (simp add: dest_def fault_def)
  have a: "dest k' (appendstring E i s w) = dest k' w" for k' i s by (rule sends_dest [OF sends_appendstring [OF assms]])
  show "map_option d_core (dest k' (neighbour_turn E p k name k1 w)) = map_option d_core (dest k' w)"
    by (auto simp: neighbour_turn_def dest_upd_dest a f option.map_comp comp_def split: option.split)
  show "strcaseeq k' k \<Longrightarrow> dest k' (neighbour_turn E p k name k1 w) = dest k' w"
    by (auto simp: neighbour_turn_def dest_upd_dest a f strcaseeq_strlwr split: option.split)
qed

lemma refresh_core:
  assumes "flowing w"
  shows "map_option d_core (dest k' (refresh_neighbour E p k name rtt w)) = map_option d_core (dest k' w)"
    "strcaseeq k' k \<Longrightarrow> dest k' (refresh_neighbour E p k name rtt w) = dest k' w"
proof -
  have "flowing v \<Longrightarrow> Option.bind (perm v pi) pl_connection \<noteq> None \<Longrightarrow>
      map_option d_core (dest k' (fold (neighbour_turn E pi k name) ks v)) = map_option d_core (dest k' v) \<and>
      (strcaseeq k' k \<longrightarrow> dest k' (fold (neighbour_turn E pi k name) ks v) = dest k' v)" for pi ks v
  proof (induction ks arbitrary: v)
    case (Cons k1 ks)
    have r: "reroutes v (neighbour_turn E pi k name k1 v)" by (rule reroutes_neighbour_turn [OF Cons.prems])
    show ?case
      using Cons.IH [OF reroutes_flowing [OF r]] Cons.prems(2) neighbour_turn_core [OF Cons.prems(1)]
        reroutes_frame(5) [OF r] by simp
  qed simp
  note F = this [OF assms]
  have "link_conn w p = Some c \<Longrightarrow> p = Some pi \<Longrightarrow> Option.bind (perm w pi) pl_connection \<noteq> None" for c pi
    by (auto simp: link_conn_def bind_eq_Some_conv)
  with F show "map_option d_core (dest k' (refresh_neighbour E p k name rtt w)) = map_option d_core (dest k' w)"
    "strcaseeq k' k \<Longrightarrow> dest k' (refresh_neighbour E p k name rtt w) = dest k' w"
    by (auto simp: refresh_neighbour_def simp del: bind_eq_None_conv split: option.split option.split_asm)
qed


section \<open>Distance vector routing\<close>

definition worse_route :: "nat option \<Rightarrow> string \<Rightarrow> int \<Rightarrow> world \<Rightarrow> bool" where
  "worse_route p name rtt w =
     (case dest name w of None \<Rightarrow> False
      | Some d \<Rightarrow> d_link d \<noteq> None \<and> d_link d \<noteq> p \<and> d_rtt d \<noteq> 0 \<and> d_rtt d \<le> rtt)"

text \<open>The entry is stored and linked, announced, and marked as sent.\<close>

definition sent_dest :: "int \<Rightarrow> destination \<Rightarrow> destination" where
  "sent_dest rtt d =
     (if rtt = 0
      then d\<lparr>d_last_sent_rtt := rtt, d_link := None, d_hops := 0, d_connected := False, d_hisneigh := []\<rparr>
      else d\<lparr>d_last_sent_rtt := rtt\<rparr>)"

lemma sent_dest_name [simp]: "d_name (sent_dest rtt d) = d_name d"
  by (simp add: sent_dest_def)

lemma update_phases:
  assumes "flowing w" "name_sorted (dest_names w)" "w_permarray w \<noteq> []" "length name \<le> HOSTNAMESIZE"
    "\<not> worse_route p name rtt w"
  obtains k ds v d where "strcaseeq k name" "reroutes (w\<lparr>w_destinations := ds\<rparr>) v"
    "dest name w \<noteq> None \<longrightarrow> map d_name ds = dest_names w" "name_sorted (dest_names v)"
    "\<forall>k'. \<not> strcaseeq k' name \<longrightarrow> dest k' v = dest k' w"
    "dest k v = Some d" "d_rtt d = rtt" "d_link d = (if rtt = 0 then None else p)" "rtt \<noteq> 0 \<longrightarrow> d_hops d = hops + 1"
    "d_auto_learned d = (rv = ''-'')"
    "\<forall>i c. conn w i = Some c \<longrightarrow> c_type c = CT_HOST \<longrightarrow> obuf_of v i = obuf_of w i"
    "update_destinations E p name rtt rv hops hn w = upd_dest k (sent_dest rtt)
       (if rv = ''-'' \<and> rtt \<noteq> 0 then v else announce_dest E p k name rtt (refresh_neighbour E p k name rtt v))"
proof -
  obtain k v1 where st: "store_dest name rtt rv (hops + 1) hn w = (k, v1)" by force
  note S = store_dest_spec [OF assms(2,4) st]
  obtain ds where v1: "v1 = w\<lparr>w_destinations := ds\<rparr>" "dest name w \<noteq> None \<longrightarrow> map d_name ds = dest_names w"
    using S(3) by blast
  have fl1: "flowing v1" using assms(1) by (simp add: v1(1) flowing_def)
  obtain d1 where d1: "dest k v1 = Some d1" "d_rtt d1 = rtt" "d_hops d1 = hops + 1" "d_auto_learned d1 = (rv = ''-'')"
    using S(5) by blast
  define v2 where "v2 = relink_dest E p k name rv v1"
  have r2: "reroutes v1 v2" unfolding v2_def by (rule reroutes_relink [OF fl1])
  obtain d2 where d2: "dest k v2 = Some d2" "d_rtt d2 = rtt" "d_link d2 = (if rtt = 0 then None else p)"
    "rtt \<noteq> 0 \<Longrightarrow> d_hops d2 = hops + 1" "d_auto_learned d2 = (rv = ''-'')"
    using relink_dest_table(2) [OF fl1 d1(1), of E p name rv] d1 by (auto simp: v2_def)
  show ?thesis
  proof
    show "strcaseeq k name" by (rule S(1))
    show "reroutes (w\<lparr>w_destinations := ds\<rparr>) v2" using r2 v1(1) by simp
    show "dest name w \<noteq> None \<longrightarrow> map d_name ds = dest_names w" by (rule v1(2))
    show "name_sorted (dest_names v2)" using reroutes_frame(9) [OF r2] S(2) by simp
    show "\<forall>k'. \<not> strcaseeq k' name \<longrightarrow> dest k' v2 = dest k' w"
      using relink_dest_table(1) [OF fl1, of _ k] S(1,4) by (simp add: v2_def strcaseeq_strlwr)
    have "obuf_of v2 i = obuf_of v1 i" if "conn v1 i = Some c" "c_type c = CT_HOST" for i c
      unfolding v2_def by (rule obuf_relink [OF fl1 that])
    then show "\<forall>i c. conn w i = Some c \<longrightarrow> c_type c = CT_HOST \<longrightarrow> obuf_of v2 i = obuf_of w i"
      by (simp add: v1(1) obuf_of_def conn_def)
    show "update_destinations E p name rtt rv hops hn w = upd_dest k (sent_dest rtt)
       (if rv = ''-'' \<and> rtt \<noteq> 0 then v2 else announce_dest E p k name rtt (refresh_neighbour E p k name rtt v2))"
      using assms(3,5) d2
      by (simp add: update_destinations_def worse_route_def [symmetric] st v2_def Let_def sent_dest_def [abs_def])
  qed (use d2 in auto)
qed

text \<open>What an accepted update leaves in the table.\<close>

lemma update_accepted:
  assumes "flowing w" "name_sorted (dest_names w)" "w_permarray w \<noteq> []" "length name \<le> HOSTNAMESIZE"
    "\<not> worse_route p name rtt w" "w' = update_destinations E p name rtt rv hops hn w"
  shows "\<exists>ds. reroutes (w\<lparr>w_destinations := ds\<rparr>) w' \<and> (dest name w \<noteq> None \<longrightarrow> map d_name ds = dest_names w)"
    "name_sorted (dest_names w')"
    "\<not> strcaseeq k' name \<Longrightarrow> map_option d_core (dest k' w') = map_option d_core (dest k' w)"
    "\<exists>d. dest name w' = Some d \<and> d_rtt d = rtt \<and>
       (if rtt = 0 then d_link d = None \<and> d_hops d = 0 \<and> \<not> d_connected d \<and> d_hisneigh d = []
        else d_link d = p \<and> d_hops d = hops + 1)"
proof -
  from assms(1-5) obtain k ds v d where k: "strcaseeq k name" and r: "reroutes (w\<lparr>w_destinations := ds\<rparr>) v"
    and names: "dest name w \<noteq> None \<longrightarrow> map d_name ds = dest_names w"
    and sorted: "name_sorted (dest_names v)" and other: "\<forall>k'. \<not> strcaseeq k' name \<longrightarrow> dest k' v = dest k' w"
    and d: "dest k v = Some d" "d_rtt d = rtt" "d_link d = (if rtt = 0 then None else p)" "rtt \<noteq> 0 \<longrightarrow> d_hops d = hops + 1"
      "d_auto_learned d = (rv = ''-'')"
    and "\<forall>i c. conn w i = Some c \<longrightarrow> c_type c = CT_HOST \<longrightarrow> obuf_of v i = obuf_of w i"
    and wu: "update_destinations E p name rtt rv hops hn w = upd_dest k (sent_dest rtt)
       (if rv = ''-'' \<and> rtt \<noteq> 0 then v else announce_dest E p k name rtt (refresh_neighbour E p k name rtt v))"
    by (rule update_phases [where E = E and rv = rv and hops = hops and hn = hn]) (rule that)
  note w' = assms(6) [unfolded wu]
  define v3 where "v3 = (if rv = ''-'' \<and> rtt \<noteq> 0 then v else announce_dest E p k name rtt (refresh_neighbour E p k name rtt v))"
  have fl: "flowing v" by (rule reroutes_flowing [OF r])
  have rn: "reroutes v (refresh_neighbour E p k name rtt v)" by (rule reroutes_refresh [OF fl])
  have r3: "reroutes v v3"
    using reroutes_trans [OF rn reroutes_announce [OF reroutes_flowing [OF rn]]] by (simp add: v3_def reroutes_refl [OF fl])
  have core: "map_option d_core (dest k' v3) = map_option d_core (dest k' v)" "strcaseeq k' k \<Longrightarrow> dest k' v3 = dest k' v" for k'
    using refresh_core [OF fl] sends_dest [OF sends_announce [OF reroutes_flowing [OF rn]]] by (auto simp: v3_def)
  have rw: "reroutes v w'"
    unfolding w' v3_def [symmetric] by (rule reroutes_step [OF r3]) (rule reroutes_upd_dest, auto)
  show "\<exists>ds. reroutes (w\<lparr>w_destinations := ds\<rparr>) w' \<and> (dest name w \<noteq> None \<longrightarrow> map d_name ds = dest_names w)"
    using reroutes_trans [OF r rw] names by blast
  show "name_sorted (dest_names w')" using reroutes_frame(9) [OF rw] sorted by simp
  show "map_option d_core (dest k' w') = map_option d_core (dest k' w)" if "\<not> strcaseeq k' name"
    using core(1) [of k'] other that k by (simp add: w' v3_def [symmetric] dest_upd_dest strcaseeq_strlwr)
  have "dest name w' = map_option (sent_dest rtt) (Some d)"
    using core(2) [of k] d(1) by (simp add: w' v3_def [symmetric] dest_cong_key [of name k] k strcaseeq_sym dest_upd_dest)
  then show "\<exists>d. dest name w' = Some d \<and> d_rtt d = rtt \<and>
       (if rtt = 0 then d_link d = None \<and> d_hops d = 0 \<and> \<not> d_connected d \<and> d_hisneigh d = []
        else d_link d = p \<and> d_hops d = hops + 1)"
    using d by (auto simp: sent_dest_def)
qed

text \<open>The abstract table: the link and the distance of every reachable destination, by name without
  case, and the rule of distance vector routing.\<close>

definition route :: "world \<Rightarrow> string \<Rightarrow> (nat option \<times> int) option" where
  "route w k = (case dest k w of None \<Rightarrow> None | Some d \<Rightarrow> if d_rtt d = 0 then None else Some (d_link d, d_rtt d))"

definition dv_update ::
  "nat \<Rightarrow> string \<Rightarrow> int \<Rightarrow> (string \<Rightarrow> (nat option \<times> int) option) \<Rightarrow> string \<Rightarrow> (nat option \<times> int) option" where
  "dv_update p name rtt T =
     (if (case T name of None \<Rightarrow> True | Some (l, r) \<Rightarrow> l = Some p \<or> rtt < r)
      then (\<lambda>k. if strcaseeq k name then (if rtt = 0 then None else Some (Some p, rtt)) else T k)
      else T)"

lemma route_alt:
  "route w k = (case map_option d_core (dest k w) of None \<Rightarrow> None
     | Some d \<Rightarrow> if d_rtt d = 0 then None else Some (d_link d, d_rtt d))"
  by (simp add: route_def split: option.split)

lemma route_core: "map_option d_core (dest k w') = map_option d_core (dest k w) \<Longrightarrow> route w' k = route w k"
  by (simp add: route_alt)

lemma worse_route_iff:
  "dests_ok w \<Longrightarrow> worse_route (Some p) name rtt w \<longleftrightarrow>
     \<not> (case route w name of None \<Rightarrow> True | Some (l, r) \<Rightarrow> l = Some p \<or> rtt < r)"
  using dests_okD(2) [of w name] by (auto simp: worse_route_def route_def split: option.split)

lemma update_dests_dv:
  assumes "flowing w" "dests_ok w" "w_permarray w \<noteq> []" "length name \<le> HOSTNAMESIZE"
  shows "route (update_destinations E (Some p) name rtt rv hops hn w) = dv_update p name rtt (route w) \<and>
     dests_ok (update_destinations E (Some p) name rtt rv hops hn w) \<and>
     flowing (update_destinations E (Some p) name rtt rv hops hn w)"
proof (cases "worse_route (Some p) name rtt w")
  case True
  then have "update_destinations E (Some p) name rtt rv hops hn w = w"
    by (simp add: update_destinations_def worse_route_def)
  moreover have "dv_update p name rtt (route w) = route w"
    using True worse_route_iff [OF assms(2), of p name rtt] by (simp add: dv_update_def)
  ultimately show ?thesis using assms by simp
next
  case False
  let ?w' = "update_destinations E (Some p) name rtt rv hops hn w"
  note A = update_accepted [OF assms(1) dests_okD(1) [OF assms(2)] assms(3,4) False refl, where E = E and rv = rv and hops = hops and hn = hn]
  obtain d where d: "dest name ?w' = Some d" "d_rtt d = rtt" "d_link d = (if rtt = 0 then None else Some p)"
    using A(4) by (auto split: if_splits)
  have at: "dest k ?w' = Some d" if "strcaseeq k name" for k using d(1) dest_cong_key [OF that] by simp
  have "route ?w' = dv_update p name rtt (route w)"
  proof
    fix k
    show "route ?w' k = dv_update p name rtt (route w) k"
    proof (cases "strcaseeq k name")
      case True
      then show ?thesis
        using at d(2,3) False worse_route_iff [OF assms(2), of p name rtt] by (simp add: route_def [of ?w'] dv_update_def)
    next
      case other: False
      with route_core [OF A(3) [OF other]] False worse_route_iff [OF assms(2), of p name rtt] show ?thesis
        by (simp add: dv_update_def)
    qed
  qed
  moreover have "dests_ok ?w'"
  proof (rule dests_okI [OF A(2)])
    fix k e assume e: "dest k ?w' = Some e" "d_rtt e \<noteq> 0"
    show "d_link e \<noteq> None"
    proof (cases "strcaseeq k name")
      case False
      from A(3) [OF this] e obtain e' where "dest k w = Some e'" "d_core e' = d_core e" by (cases "dest k w") auto
      with dests_okD(2) [OF assms(2), of k e'] e(2) show ?thesis by (metis d_core_sel(2,3))
    qed (use at d e in auto)
  qed
  moreover have "flowing ?w'" using A(1) reroutes_flowing by blast
  ultimately show ?thesis by blast
qed

text \<open>C2: The update of the destination table implements distance vector routing: a route over
  another link than the present one is taken only if it is shorter, news over the present link are
  always taken, a distance of 0 withdraws the route, and no other destination changes. The table
  stays strictly sorted by name without case, with a link for every distance.\<close>

theorem update_destinations_refines:
  assumes "flowing w" "dests_ok w" "w_permarray w \<noteq> []" "length name \<le> HOSTNAMESIZE"
  shows "route (update_destinations E (Some p) name rtt rv hops hn w) = dv_update p name rtt (route w) \<and>
     dests_ok (update_destinations E (Some p) name rtt rv hops hn w) \<and>
     (dv_update p name rtt (route w) = route w \<and> route w name \<noteq> None \<and> route w name \<noteq> Some (Some p, rtt) \<longrightarrow>
        update_destinations E (Some p) name rtt rv hops hn w = w)"
proof -
  have "update_destinations E (Some p) name rtt rv hops hn w = w" if "worse_route (Some p) name rtt w"
    using that by (simp add: update_destinations_def worse_route_def)
  moreover have "worse_route (Some p) name rtt w"
    if "dv_update p name rtt (route w) = route w" "route w name \<noteq> None" "route w name \<noteq> Some (Some p, rtt)"
    using that worse_route_iff [OF assms(2), of p name rtt]
    by (auto simp: dv_update_def dest: fun_cong [of _ _ name] split: if_splits)
  ultimately show ?thesis using update_dests_dv [OF assms] by blast
qed

definition two_links :: world where
  "two_links = (boot_world ''db0tud'' 1000)\<lparr>
     w_permarray := [Some (blank_permlink ''db0abc''), Some (blank_permlink ''db0xyz'')],
     w_destinations := [\<lparr>d_name = ''hb9w'', d_hisneigh = [], d_rev = [], d_link = Some 0, d_rtt = 9, d_hops = 2,
        d_last_sent_rtt = 9, d_updated = 0, d_auto_learned = False, d_connected = True\<rparr>]\<rparr>"

lemma two_links_ok: "flowing two_links" "dests_ok two_links" "w_permarray two_links \<noteq> []"
  by (simp_all add: two_links_def flowing_def dests_ok_def dest_names_def boot_world_def)

theorem update_destinations_refines_witness:
  "\<forall>E. route (update_destinations E (Some 1) ''hb9w'' 5 ''saupp'' 1 ''db0xyz'' two_links) ''hb9w'' = Some (Some 1, 5)"
proof
  fix E
  have "route two_links ''hb9w'' = Some (Some 0, 9)" by (simp add: route_def dest_def two_links_def)
  moreover have "length ''hb9w'' \<le> HOSTNAMESIZE" by simp
  note update_destinations_refines [OF two_links_ok this, of E 1 5 "''saupp''" 1 "''db0xyz''"]
  ultimately show "route (update_destinations E (Some 1) ''hb9w'' 5 ''saupp'' 1 ''db0xyz'' two_links) ''hb9w'' = Some (Some 1, 5)"
    by (simp add: dv_update_def)
qed

section \<open>Announcements\<close>

text \<open>The turn of a link that does not use the connection does not touch it.\<close>

lemma announce_turns_past:
  assumes "flowing w" "\<forall>j \<in> set js. \<forall>q. perm w j = Some q \<longrightarrow> pl_connection q \<noteq> Some i"
  shows "sends_past i w (fold (announce_turn E p k name rtt) js w)"
  using assms
proof (induction js arbitrary: w)
  case (Cons j js)
  have t: "sends_past i w (announce_turn E p k name rtt j w)"
    using Cons.prems
    by (auto simp: announce_turn_def intro: sends_past_refl sends_past_appendstring split: option.split)
  have "perm (announce_turn E p k name rtt j w) = perm w"
    using sends_frame(5) [OF sends_past_sends [OF t]] by (rule perm_cong)
  with Cons.IH [OF sends_flowing [OF sends_past_sends [OF t]]] Cons.prems(2)
  have "sends_past i (announce_turn E p k name rtt j w) (fold (announce_turn E p k name rtt) js (announce_turn E p k name rtt j w))"
    by simp
  from sends_past_trans [OF t this] show ?case by simp
qed (simp add: sends_past_refl)

lemma out_data_host: "c_type c = CT_HOST \<Longrightarrow> out_data c s = s"
  by (simp add: out_data_def)

lemma announce_dest_obuf:
  assumes "flowing w" "perm w l = Some pl" "pl_connection pl = Some i" "conn w i = Some c" "c_type c = CT_HOST"
    "c_fd c \<noteq> -1" "\<forall>j q. perm w j = Some q \<longrightarrow> pl_connection q = Some i \<longrightarrow> j = l" "dest k w = Some d"
  shows "obuf_of (announce_dest E p k name rtt w) i = obuf_of w i @
     (if Some l = p \<or> strcaseeq (d_name d) (pl_name pl) \<or> (d_link d \<noteq> None \<and> strcaseeq (link_name w (d_link d)) (pl_name pl))
      then [] else [dest_line name rtt d pl])"
proof -
  let ?t = "announce_turn E p k name rtt"
  have l: "l < length (w_permarray w)" using assms(2) by (simp add: perm_def split: if_splits)
  then have split: "[0..<length (w_permarray w)] = [0..<l] @ l # [Suc l..<length (w_permarray w)]"
    using upt_add_eq_append [of 0 l "length (w_permarray w) - l"] upt_conv_Cons [OF l] by simp
  define v where "v = fold ?t [0..<l] w"
  have v: "sends_past i w v" unfolding v_def
    by (rule announce_turns_past [OF assms(1)]) (use assms(7) in fastforce)
  note vs = sends_past_sends [OF v]
  obtain c' where c': "conn v i = Some c'" "c_type c' = CT_HOST" "c_fd c' \<noteq> -1"
    using same_conn [OF sends_conn [OF vs] assms(4)] assms(5,6) by metis
  have perm: "perm v = perm w" "link_name v = link_name w"
    using perm_cong link_name_cong sends_frame(5) [OF vs] by blast+
  have d: "dest k v = Some d" using sends_dest [OF vs] assms(8) by simp
  have obuf: "obuf_of (?t l v) i = obuf_of v i @
     (if Some l = p \<or> strcaseeq (d_name d) (pl_name pl) \<or> (d_link d \<noteq> None \<and> strcaseeq (link_name w (d_link d)) (pl_name pl))
      then [] else [dest_line name rtt d pl])"
    using assms(2,3) c' obuf_of_appendstring [OF sends_flowing [OF vs] c'(1,3), of "dest_line name rtt d pl" E]
    by (simp add: announce_turn_def perm d out_data_host) (simp add: dest_line_def)
  have tl: "sends v (?t l v)"
    using sends_flowing [OF vs] by (auto simp: announce_turn_def intro: sends_refl sends_appendstring split: option.split)
  have "sends_past i (?t l v) (fold ?t [Suc l..<length (w_permarray w)] (?t l v))"
    by (rule announce_turns_past [OF sends_flowing [OF tl]])
      (use assms(7) perm_cong [OF sends_frame(5) [OF tl]] perm(1) in fastforce)
  with obuf v show ?thesis
    unfolding announce_dest_def split by (simp add: sends_past_def v_def)
qed



definition two_hosts :: world where
  "two_hosts = two_links\<lparr>
     w_connections := [(blank_connection 0 4 1000)\<lparr>c_type := CT_HOST\<rparr>, (blank_connection 1 5 1000)\<lparr>c_type := CT_HOST\<rparr>],
     w_permarray := [Some ((blank_permlink ''db0abc'')\<lparr>pl_connection := Some 0, pl_txtime := 3, pl_rxtime := 5\<rparr>),
                     Some ((blank_permlink ''db0xyz'')\<lparr>pl_connection := Some 1\<rparr>)]\<rparr>"


section \<open>Lost links\<close>

lemma route_cong: "w_destinations w' = w_destinations w \<Longrightarrow> route w' = route w"
  by (simp add: fun_eq_iff route_def dest_def)

lemma notify_down_route:
  assumes "flowing w" "dest k w = Some d" "d_rtt d = 0"
  shows "route (notify_destinations E (Some k) host rv False w) = route w"
proof
  fix k'
  show "route (notify_destinations E (Some k) host rv False w) k' = route w k'"
  proof (cases "strcaseeq k' k")
    case True
    then show ?thesis
      using notify_dest(2) [OF assms(1,2), of E host rv False] assms(3) dest_cong_key [OF True, of w] assms(2)
        dest_cong_key [OF True, of "notify_destinations E (Some k) host rv False w"]
      by (auto simp: route_def)
  qed (use notify_dest(1) [OF assms(1)] in \<open>simp add: route_def\<close>)
qed

text \<open>What every step keeps: the queues flow, the table is in order, the names fit.\<close>

definition routing_inv :: "world \<Rightarrow> bool" where
  "routing_inv w \<longleftrightarrow> flowing w \<and> dests_ok w \<and> w_permarray w \<noteq> [] \<and> list_all (\<lambda>n. length n \<le> HOSTNAMESIZE) (dest_names w)"

definition via :: "nat \<Rightarrow> (nat option \<times> int) option \<Rightarrow> bool" where
  "via p r = (case r of Some (Some l, _) \<Rightarrow> l = p | _ \<Rightarrow> False)"

lemma update_known:
  assumes "routing_inv w" "dest name w = Some d" "length name \<le> HOSTNAMESIZE"
  shows "routing_inv (update_destinations E (Some p) name rtt rv hops hn w)"
    "dest_names (update_destinations E (Some p) name rtt rv hops hn w) = dest_names w"
    "w_permarray (update_destinations E (Some p) name rtt rv hops hn w) = w_permarray w"
proof -
  let ?w' = "update_destinations E (Some p) name rtt rv hops hn w"
  have inv: "flowing w" "dests_ok w" "w_permarray w \<noteq> []" using assms(1) by (auto simp: routing_inv_def)
  have "dest_names ?w' = dest_names w \<and> w_permarray ?w' = w_permarray w"
  proof (cases "worse_route (Some p) name rtt w")
    case True
    then show ?thesis by (simp add: update_destinations_def worse_route_def)
  next
    case False
    from update_accepted(1) [OF inv(1) dests_okD(1) [OF inv(2)] inv(3) assms(3) False refl] obtain ds
      where r: "reroutes (w\<lparr>w_destinations := ds\<rparr>) ?w'" "map d_name ds = dest_names w"
      using assms(2) by blast
    then show ?thesis using reroutes_frame(1,9) [OF r(1)] by (simp add: dest_names_def)
  qed
  then show "dest_names ?w' = dest_names w" "w_permarray ?w' = w_permarray w" "routing_inv ?w'"
    using update_dests_dv [OF inv assms(3), of E p rtt rv hops hn] assms(1) by (auto simp: routing_inv_def)
qed

lemma dest_name_short: "routing_inv w \<Longrightarrow> dest k w = Some d \<Longrightarrow> length (d_name d) \<le> HOSTNAMESIZE"
  by (auto simp: routing_inv_def dest_names_def list_all_iff dest_def find_Some_iff)

text \<open>A notice that a destination has gone changes no route when its distance is 0 already.\<close>

lemma notify_down:
  assumes "routing_inv w" "dest k w = Some d" "d_rtt d = 0"
  shows "routing_inv (notify_destinations E (Some k) host rv False w)"
    "dest_names (notify_destinations E (Some k) host rv False w) = dest_names w"
    "w_permarray (notify_destinations E (Some k) host rv False w) = w_permarray w"
proof -
  let ?v = "notify_destinations E (Some k) host rv False w"
  have fl: "flowing w" using assms(1) by (simp add: routing_inv_def)
  have r: "reroutes w ?v" by (rule reroutes_notify [OF fl])
  have "dests_ok ?v"
  proof (rule dests_okI)
    show "name_sorted (dest_names ?v)"
      using reroutes_frame(9) [OF r] dests_okD(1) assms(1) by (simp add: routing_inv_def)
    fix k' e assume e: "dest k' ?v = Some e" "d_rtt e \<noteq> 0"
    show "d_link e \<noteq> None"
    proof (cases "strcaseeq k' k")
      case True
      then show ?thesis
        using notify_dest(2) [OF fl assms(2), of E host rv False] assms(3) e dest_cong_key [OF True, of ?v] by auto
    next
      case False
      then show ?thesis
        using notify_dest(1) [OF fl False, of E host rv False] e assms(1) dests_okD(2) by (auto simp: routing_inv_def)
    qed
  qed
  then show "routing_inv ?v" "dest_names ?v = dest_names w" "w_permarray ?v = w_permarray w"
    using reroutes_frame(1,9) [OF r] reroutes_flowing [OF r] assms(1) by (simp_all add: routing_inv_def)
qed

lemma drop_dest_route:
  assumes inv: "routing_inv w"
  shows "routing_inv (drop_dest E p down k w) \<and> dest_names (drop_dest E p down k w) = dest_names w \<and>
    w_permarray (drop_dest E p down k w) = w_permarray w \<and>
    route (drop_dest E p down k w) = (\<lambda>k'. if strcaseeq k' k \<and> via p (route w k') then None else route w k')"
proof (cases "dest k w")
  case None
  then have "route w k' = None" if "strcaseeq k' k" for k' by (simp add: route_def dest_cong_key [OF that])
  with None inv show ?thesis by (auto simp: drop_dest_def via_def fun_eq_iff)
next
  case (Some d)
  define v where "v = (if d_rtt d \<noteq> 0 \<and> d_link d = Some p
     then update_destinations E (Some p) (d_name d) 0 [] 0 (d_hisneigh d) w else w)"
  have key: "strcaseeq k' (d_name d) \<longleftrightarrow> strcaseeq k' k" for k' using dest_key [OF Some] by (simp add: strcaseeq_strlwr)
  have rk: "route w k' = (if d_rtt d = 0 then None else Some (d_link d, d_rtt d))" if "strcaseeq k' k" for k'
    using Some by (simp add: route_def dest_cong_key [OF that])
  have dn: "dest (d_name d) w = Some d" using dest_cong_key [OF dest_key [OF Some]] Some by simp
  have v: "routing_inv v" "dest_names v = dest_names w" "w_permarray v = w_permarray w"
    using update_known [OF inv dn dest_name_short [OF inv Some]] inv by (simp_all add: v_def)
  have rv: "route v = (\<lambda>k'. if strcaseeq k' k \<and> via p (route w k') then None else route w k')"
  proof (cases "d_rtt d \<noteq> 0 \<and> d_link d = Some p")
    case True
    then have "route v = dv_update p (d_name d) 0 (route w)"
      using update_dests_dv [OF _ _ _ dest_name_short [OF inv Some]] inv by (simp add: v_def routing_inv_def)
    with True show ?thesis
      using rk [of "d_name d"] dest_key [OF Some] by (auto simp: dv_update_def key via_def rk fun_eq_iff)
  next
    case False
    then show ?thesis by (auto simp: v_def via_def rk fun_eq_iff split: option.split if_splits)
  qed
  have dd: "drop_dest E p down k w = (case dest k v of None \<Rightarrow> v
      | Some d \<Rightarrow> if down \<and> d_link d = Some p then notify_destinations E (Some k) (d_name d) (d_rev d) False v else v)"
    unfolding drop_dest_def v_def Let_def Some option.case ..
  show ?thesis
  proof (cases "\<exists>e. dest k v = Some e \<and> down \<and> d_link e = Some p")
    case True
    then obtain e where e: "dest k v = Some e" "down" "d_link e = Some p" by blast
    have "d_rtt e = 0"
    proof (rule ccontr)
      assume "d_rtt e \<noteq> 0"
      then have "route v k = Some (Some p, d_rtt e)" using e by (simp add: route_def)
      then show False by (auto simp: rv via_def split: if_splits)
    qed
    note n = notify_down [OF v(1) e(1) this] notify_down_route [OF _ e(1) this]
    have "drop_dest E p down k w = notify_destinations E (Some k) (d_name e) (d_rev e) False v"
      unfolding dd using e by simp
    with n v rv show ?thesis by (simp add: routing_inv_def)
  next
    case False
    then have "drop_dest E p down k w = v" by (auto simp: dd split: option.split)
    with v rv show ?thesis by simp
  qed
qed

lemma drop_dests_route:
  assumes "routing_inv w"
  shows "routing_inv (fold (drop_dest E p down) ks w) \<and> w_permarray (fold (drop_dest E p down) ks w) = w_permarray w \<and>
    route (fold (drop_dest E p down) ks w) =
      (\<lambda>k'. if list_ex (\<lambda>k. strcaseeq k' k) ks \<and> via p (route w k') then None else route w k')"
  using assms
proof (induction ks arbitrary: w)
  case (Cons k ks)
  have "via p None = False" by (simp add: via_def)
  then show ?case
    using Cons.IH [of "drop_dest E p down k w"] drop_dest_route [OF Cons.prems, of E p down k] by (auto simp: fun_eq_iff)
qed (auto)


lemma delay_dests [simp]:
  "w_destinations (delay_down n delay l w) = w_destinations w" "w_destinations (delay_up n delay l w) = w_destinations w"
  "w_destinations (upd_perm k f w) = w_destinations w" "w_destinations (fault w) = w_destinations w"
proof -
  show u: "w_destinations (upd_perm k f w) = w_destinations w" "w_destinations (fault w) = w_destinations w" for k f w
    by (simp_all add: upd_perm_def fault_def split: option.split)
  show "w_destinations (delay_down n delay l w) = w_destinations w"
    by (induction n delay l w rule: delay_down.induct) (simp_all add: u split: option.split)
  show "w_destinations (delay_up n delay l w) = w_destinations w"
    by (induction n delay l w rule: delay_up.induct) (simp_all add: u split: option.split)
qed

lemma delay_permlink_connect_dests [simp]: "w_destinations (delay_permlink_connect l delay w) = w_destinations w"
  by (simp add: delay_permlink_connect_def Let_def split: option.split)

lemma link_down_dests:
  assumes "flowing w"
  shows "w_destinations (link_down E pl isperm w) = w_destinations w"
proof -
  have "flowing (upd_perm pl f w)" for f using assms by (simp add: flowing_def upd_perm_def split: option.split)
  from sends_frame(6) [OF sends_notify_users [OF this]]
  show ?thesis by (simp add: link_down_def notify_destinations_def Let_def split: option.split)
qed

lemma no_route: "\<not> list_ex (\<lambda>n. strcaseeq k n) (dest_names w) \<Longrightarrow> route w k = None"
  by (auto simp: route_def dest_def dest_names_def list_ex_iff find_Some_iff strcaseeq_sym split: option.split)

text \<open>C3: When a link to a neighbour is lost or made anew, every route over that link is withdrawn
  and no other route changes; the table stays in order.\<close>

theorem update_permlinks_withdraws:
  assumes "routing_inv w" "find_permlink name w = Some pl"
  shows "route (snd (update_permlinks E name cp isperm w)) = (\<lambda>k. if via pl (route w k) then None else route w k) \<and>
     dests_ok (snd (update_permlinks E name cp isperm w)) \<and> fst (update_permlinks E name cp isperm w) = Some pl"
proof -
  define v where "v = (case Option.bind cp (conn w) of None \<Rightarrow> w
      | Some c \<Rightarrow> notify_destinations E None name (c_rev c) True w)"
  have fl: "flowing w" and pa: "w_permarray w \<noteq> []" using assms(1) by (auto simp: routing_inv_def)
  have s: "sends w v" using fl by (auto simp: v_def notify_destinations_def intro: inv_intros split: option.split)
  have v: "routing_inv v" "route v = route w" "find_permlink name v = Some pl" "dest_names v = dest_names w"
    using assms sends_frame(5,6) [OF s] sends_flowing [OF s] perm_cong [OF sends_frame(5) [OF s]] route_cong [of v w]
    by (simp_all add: routing_inv_def dests_ok_def dest_names_def find_permlink_def find_perm_def)
  define u where "u = fold (drop_dest E pl (isperm = 0 \<and> cp = None)) (dest_names v) v"
  note D = drop_dests_route [OF v(1), of E pl "isperm = 0 \<and> cp = None" "dest_names v", folded u_def]
  have r: "route u = (\<lambda>k. if via pl (route w k) then None else route w k)"
    using D no_route [of _ v] v(2) by (auto simp: fun_eq_iff via_def)
  have up: "update_permlinks E name cp isperm w =
      (Some pl, if cp \<noteq> None then upd_perm pl (link_up cp isperm (w_currtime u)) u else link_down E pl isperm u)"
    using pa v(3) by (simp add: update_permlinks_def v_def [symmetric] u_def [symmetric])
  have "w_destinations (snd (update_permlinks E name cp isperm w)) = w_destinations u"
    using link_down_dests [of u E pl isperm] D by (auto simp: up routing_inv_def)
  then show ?thesis
    using r D up route_cong [of "snd (update_permlinks E name cp isperm w)" u]
    by (simp add: routing_inv_def dests_ok_def dest_names_def)
qed

theorem update_permlinks_withdraws_witness:
  "\<forall>E. route (snd (update_permlinks E ''db0abc'' None 1 two_links)) ''hb9w'' = None"
proof
  fix E
  have "routing_inv two_links"
    using two_links_ok by (simp add: routing_inv_def) (simp add: dest_names_def two_links_def)
  moreover have "find_permlink ''db0abc'' two_links = Some 0"
    by (simp add: find_permlink_def find_perm_def perm_def two_links_def blank_permlink_def)
  moreover have "route two_links ''hb9w'' = Some (Some 0, 9)" by (simp add: route_def dest_def two_links_def)
  ultimately show "route (snd (update_permlinks E ''db0abc'' None 1 two_links)) ''hb9w'' = None"
    using update_permlinks_withdraws [of two_links "''db0abc''" 0 E None 1] by (simp add: via_def)
qed

end
