(* ===== verification/Md5.thy ===== *)
theory Md5
  imports Prelude
begin

unbundle bit_operations_syntax

text \<open>
  \<^verbatim>\<open>md5.c\<close> and \<^verbatim>\<open>md5_ampr.c\<close>: the RSA reference MD5 and the challenge response built
  on it. \<^verbatim>\<open>UINT4\<close> is a 32-bit word, a buffer a list of bytes. \<open>MD5Init\<close> leaves the
  input buffer and the digest of its context as they are (stack garbage in \<open>calc_md5_pw\<close>); the
  theorems hold for every such content. The reference is \<open>md5\<close>, MD5 as RFC 1321 words it:
  pad the whole message, then run \<open>Transform\<close> over its 64-byte blocks.
\<close>

section \<open>The context and its operations\<close>

type_synonym word32 = "32 word"
type_synonym md5_buf = "word32 \<times> word32 \<times> word32 \<times> word32"

record md5_ctx =
  ctx_i0 :: word32
  ctx_i1 :: word32
  ctx_buf :: md5_buf
  ctx_in :: "byte list"
  ctx_digest :: "byte list"

definition PADDING :: "byte list" where
  "PADDING = 0x80 # replicate 63 0"

definition F :: "word32 \<Rightarrow> word32 \<Rightarrow> word32 \<Rightarrow> word32" where
  "F x y z = (x AND y) OR (NOT x AND z)"

definition G :: "word32 \<Rightarrow> word32 \<Rightarrow> word32 \<Rightarrow> word32" where
  "G x y z = (x AND z) OR (y AND NOT z)"

definition H :: "word32 \<Rightarrow> word32 \<Rightarrow> word32 \<Rightarrow> word32" where
  "H x y z = x XOR y XOR z"

definition I :: "word32 \<Rightarrow> word32 \<Rightarrow> word32 \<Rightarrow> word32" where
  "I x y z = y XOR (x OR NOT z)"

definition ROTATE_LEFT :: "word32 \<Rightarrow> nat \<Rightarrow> word32" where
  "ROTATE_LEFT x n = push_bit n x OR drop_bit (32 - n) x"

definition FF :: "word32 \<Rightarrow> word32 \<Rightarrow> word32 \<Rightarrow> word32 \<Rightarrow> word32 \<Rightarrow> nat \<Rightarrow> word32 \<Rightarrow> word32" where
  "FF a b c d x s ac = ROTATE_LEFT (a + (F b c d + x + ac)) s + b"

definition GG :: "word32 \<Rightarrow> word32 \<Rightarrow> word32 \<Rightarrow> word32 \<Rightarrow> word32 \<Rightarrow> nat \<Rightarrow> word32 \<Rightarrow> word32" where
  "GG a b c d x s ac = ROTATE_LEFT (a + (G b c d + x + ac)) s + b"

definition HH :: "word32 \<Rightarrow> word32 \<Rightarrow> word32 \<Rightarrow> word32 \<Rightarrow> word32 \<Rightarrow> nat \<Rightarrow> word32 \<Rightarrow> word32" where
  "HH a b c d x s ac = ROTATE_LEFT (a + (H b c d + x + ac)) s + b"

definition II :: "word32 \<Rightarrow> word32 \<Rightarrow> word32 \<Rightarrow> word32 \<Rightarrow> word32 \<Rightarrow> nat \<Rightarrow> word32 \<Rightarrow> word32" where
  "II a b c d x s ac = ROTATE_LEFT (a + (I b c d + x + ac)) s + b"

definition Transform :: "md5_buf \<Rightarrow> word32 list \<Rightarrow> md5_buf" where
  "Transform buf inw = (case buf of (b0, b1, b2, b3) \<Rightarrow>
      let a = b0; b = b1; c = b2; d = b3;
          a = FF a b c d (inw ! 0) 7 3614090360;
          d = FF d a b c (inw ! 1) 12 3905402710;
          c = FF c d a b (inw ! 2) 17 606105819;
          b = FF b c d a (inw ! 3) 22 3250441966;
          a = FF a b c d (inw ! 4) 7 4118548399;
          d = FF d a b c (inw ! 5) 12 1200080426;
          c = FF c d a b (inw ! 6) 17 2821735955;
          b = FF b c d a (inw ! 7) 22 4249261313;
          a = FF a b c d (inw ! 8) 7 1770035416;
          d = FF d a b c (inw ! 9) 12 2336552879;
          c = FF c d a b (inw ! 10) 17 4294925233;
          b = FF b c d a (inw ! 11) 22 2304563134;
          a = FF a b c d (inw ! 12) 7 1804603682;
          d = FF d a b c (inw ! 13) 12 4254626195;
          c = FF c d a b (inw ! 14) 17 2792965006;
          b = FF b c d a (inw ! 15) 22 1236535329;
          a = GG a b c d (inw ! 1) 5 4129170786;
          d = GG d a b c (inw ! 6) 9 3225465664;
          c = GG c d a b (inw ! 11) 14 643717713;
          b = GG b c d a (inw ! 0) 20 3921069994;
          a = GG a b c d (inw ! 5) 5 3593408605;
          d = GG d a b c (inw ! 10) 9 38016083;
          c = GG c d a b (inw ! 15) 14 3634488961;
          b = GG b c d a (inw ! 4) 20 3889429448;
          a = GG a b c d (inw ! 9) 5 568446438;
          d = GG d a b c (inw ! 14) 9 3275163606;
          c = GG c d a b (inw ! 3) 14 4107603335;
          b = GG b c d a (inw ! 8) 20 1163531501;
          a = GG a b c d (inw ! 13) 5 2850285829;
          d = GG d a b c (inw ! 2) 9 4243563512;
          c = GG c d a b (inw ! 7) 14 1735328473;
          b = GG b c d a (inw ! 12) 20 2368359562;
          a = HH a b c d (inw ! 5) 4 4294588738;
          d = HH d a b c (inw ! 8) 11 2272392833;
          c = HH c d a b (inw ! 11) 16 1839030562;
          b = HH b c d a (inw ! 14) 23 4259657740;
          a = HH a b c d (inw ! 1) 4 2763975236;
          d = HH d a b c (inw ! 4) 11 1272893353;
          c = HH c d a b (inw ! 7) 16 4139469664;
          b = HH b c d a (inw ! 10) 23 3200236656;
          a = HH a b c d (inw ! 13) 4 681279174;
          d = HH d a b c (inw ! 0) 11 3936430074;
          c = HH c d a b (inw ! 3) 16 3572445317;
          b = HH b c d a (inw ! 6) 23 76029189;
          a = HH a b c d (inw ! 9) 4 3654602809;
          d = HH d a b c (inw ! 12) 11 3873151461;
          c = HH c d a b (inw ! 15) 16 530742520;
          b = HH b c d a (inw ! 2) 23 3299628645;
          a = II a b c d (inw ! 0) 6 4096336452;
          d = II d a b c (inw ! 7) 10 1126891415;
          c = II c d a b (inw ! 14) 15 2878612391;
          b = II b c d a (inw ! 5) 21 4237533241;
          a = II a b c d (inw ! 12) 6 1700485571;
          d = II d a b c (inw ! 3) 10 2399980690;
          c = II c d a b (inw ! 10) 15 4293915773;
          b = II b c d a (inw ! 1) 21 2240044497;
          a = II a b c d (inw ! 8) 6 1873313359;
          d = II d a b c (inw ! 15) 10 4264355552;
          c = II c d a b (inw ! 6) 15 2734768916;
          b = II b c d a (inw ! 13) 21 1309151649;
          a = II a b c d (inw ! 4) 6 4149444226;
          d = II d a b c (inw ! 11) 10 3174756917;
          c = II c d a b (inw ! 2) 15 718787259;
          b = II b c d a (inw ! 9) 21 3951481745
      in (b0 + a, b1 + b, b2 + c, b3 + d))"

text \<open>The little-endian words of the input buffer, the loops of lines 134 and 167.\<close>

definition word_at :: "byte list \<Rightarrow> nat \<Rightarrow> word32" where
  "word_at bs ii =
     push_bit 24 (ucast (bs ! (ii + 3))) OR push_bit 16 (ucast (bs ! (ii + 2))) OR
     push_bit 8 (ucast (bs ! (ii + 1))) OR ucast (bs ! ii)"

definition in_words :: "byte list \<Rightarrow> nat \<Rightarrow> word32 list" where
  "in_words bs n = map (\<lambda>i. word_at bs (4 * i)) [0..<n]"

definition MD5Init :: "md5_ctx \<Rightarrow> md5_ctx" where
  "MD5Init ctx = ctx\<lparr>ctx_i0 := 0, ctx_i1 := 0,
     ctx_buf := (0x67452301, 0xefcdab89, 0x98badcfe, 0x10325476)\<rparr>"

fun md5_feed :: "md5_buf \<Rightarrow> byte list \<Rightarrow> nat \<Rightarrow> byte list \<Rightarrow> md5_buf \<times> byte list" where
  "md5_feed buf inb mdi [] = (buf, inb)"
| "md5_feed buf inb mdi (c # cs) =
     (let inb = inb[mdi := c]; mdi = mdi + 1 in
      if mdi = 0x40 then md5_feed (Transform buf (in_words inb 16)) inb 0 cs
      else md5_feed buf inb mdi cs)"

definition byte_index :: "md5_ctx \<Rightarrow> nat" where
  "byte_index ctx = unat (drop_bit 3 (ctx_i0 ctx) AND 0x3F)"

definition MD5Update :: "md5_ctx \<Rightarrow> byte list \<Rightarrow> md5_ctx" where
  "MD5Update ctx inBuf =
     (let inLen = of_nat (length inBuf);
          mdi = byte_index ctx;
          i1 = (if ctx_i0 ctx + push_bit 3 inLen < ctx_i0 ctx then ctx_i1 ctx + 1 else ctx_i1 ctx);
          i0 = ctx_i0 ctx + push_bit 3 inLen;
          i1 = i1 + drop_bit 29 inLen;
          (buf, inb) = md5_feed (ctx_buf ctx) (ctx_in ctx) mdi inBuf
      in ctx\<lparr>ctx_i0 := i0, ctx_i1 := i1, ctx_buf := buf, ctx_in := inb\<rparr>)"

definition word_bytes :: "word32 \<Rightarrow> byte list" where
  "word_bytes w = [ucast (w AND 0xFF), ucast (drop_bit 8 w AND 0xFF),
     ucast (drop_bit 16 w AND 0xFF), ucast (drop_bit 24 w AND 0xFF)]"

definition buf_bytes :: "md5_buf \<Rightarrow> byte list" where
  "buf_bytes buf = (case buf of (b0, b1, b2, b3) \<Rightarrow>
     word_bytes b0 @ word_bytes b1 @ word_bytes b2 @ word_bytes b3)"

definition MD5Final :: "md5_ctx \<Rightarrow> md5_ctx" where
  "MD5Final ctx =
     (let in14 = ctx_i0 ctx; in15 = ctx_i1 ctx;
          mdi = byte_index ctx;
          padLen = (if mdi < 56 then 56 - mdi else 120 - mdi);
          ctx = MD5Update ctx (take padLen PADDING);
          buf = Transform (ctx_buf ctx) (in_words (ctx_in ctx) 14 @ [in14, in15])
      in ctx\<lparr>ctx_buf := buf, ctx_digest := buf_bytes buf\<rparr>)"

text \<open>
  \<^verbatim>\<open>md5_ampr.c\<close>: ten bytes of the prompt and the password, fed to MD5 in pieces of 16
  bytes. The 1024-byte buffer overflows when the two do not fit with their NUL: \<open>None\<close>.
\<close>

function md5_pieces :: "md5_ctx \<Rightarrow> byte list \<Rightarrow> md5_ctx" where
  "md5_pieces ctx buffer =
     (if buffer = [] then ctx else md5_pieces (MD5Update ctx (take 16 buffer)) (drop 16 buffer))"
  by pat_completeness auto
termination
  by (relation "measure (\<lambda>(ctx, buffer). length buffer)") auto

declare md5_pieces.simps [simp del]

definition bytes_of_string :: "string \<Rightarrow> byte list" where
  "bytes_of_string s = map of_char s"

definition calc_md5_pw :: "md5_ctx \<Rightarrow> string \<Rightarrow> string \<Rightarrow> byte list option" where
  "calc_md5_pw context MD5prompt MD5pw =
     (let buffer = take 10 MD5prompt @ MD5pw in
      if 1024 \<le> length buffer then None
      else Some (ctx_digest (MD5Final (md5_pieces (MD5Init context) (bytes_of_string buffer)))))"

section \<open>The reference: RFC 1321\<close>

definition md5_iv :: md5_buf where
  "md5_iv = (0x67452301, 0xefcdab89, 0x98badcfe, 0x10325476)"

function md5_blocks :: "md5_buf \<Rightarrow> byte list \<Rightarrow> md5_buf" where
  "md5_blocks buf bs =
     (if length bs < 64 then buf
      else md5_blocks (Transform buf (in_words (take 64 bs) 16)) (drop 64 bs))"
  by pat_completeness auto
termination
  by (relation "measure (\<lambda>(buf, bs). length bs)") auto

declare md5_blocks.simps [simp del]

definition md5_pad :: "byte list \<Rightarrow> byte list" where
  "md5_pad m =
     m @ 0x80 # replicate ((119 - length m mod 64) mod 64) 0 @
     word_bytes (of_nat (8 * length m)) @ word_bytes (of_nat (8 * length m div 2 ^ 32))"

definition md5 :: "byte list \<Rightarrow> byte list" where
  "md5 m = buf_bytes (md5_blocks md5_iv (md5_pad m))"

section \<open>Words and bytes\<close>

lemma length_word_bytes [simp]: "length (word_bytes w) = 4"
  by (simp add: word_bytes_def)

lemma bit_255: "bit (255 :: int) n \<longleftrightarrow> n < 8"
proof -
  have "(255 :: int) = mask 8" by (simp add: mask_eq_exp_minus_1)
  then show ?thesis by (simp only: bit_mask_iff) simp
qed

lemma word_at_word_bytes0: "word_at (word_bytes w) 0 = w"
proof (rule bit_word_eqI)
  fix n assume "n < LENGTH(32)"
  then consider "n < 8" | "8 \<le> n" "n < 16" | "16 \<le> n" "n < 24" | "24 \<le> n" "n < 32"
    by fastforce
  then show "bit (word_at (word_bytes w) 0) n = bit w n"
    by cases (auto simp: word_at_def word_bytes_def bit_simps bit_255)
qed

lemma word_at_word_bytes: "word_at (xs @ word_bytes w @ ys) (length xs) = w"
proof -
  have "word_at (xs @ word_bytes w @ ys) (length xs) = word_at (word_bytes w) 0"
    by (simp add: word_at_def nth_append numeral_2_eq_2)
  then show ?thesis by (simp add: word_at_word_bytes0)
qed

lemma word_at_append: "ii + 3 < length xs \<Longrightarrow> word_at (xs @ ys) ii = word_at xs ii"
  by (simp add: word_at_def nth_append)

lemma word_at_take: "ii + 3 < n \<Longrightarrow> word_at (take n xs) ii = word_at xs ii"
  by (simp add: word_at_def)

lemma in_words_append:
  assumes "4 * n \<le> length xs"
  shows "in_words (xs @ ys) n = in_words xs n"
  using assms by (auto simp: in_words_def word_at_append)

lemma in_words_take: "4 * n \<le> k \<Longrightarrow> in_words (take k xs) n = in_words xs n"
  by (auto simp: in_words_def word_at_take)

lemma in_words_tail:
  assumes "length xs = 56"
  shows "in_words (xs @ word_bytes u @ word_bytes v) 16 = in_words xs 14 @ [u, v]"
proof -
  have "[0..<16] = [0..<14] @ [14, 15 :: nat]" by (simp add: upt_rec)
  moreover have "word_at (xs @ word_bytes u @ word_bytes v) 56 = u"
    using word_at_word_bytes [of xs u "word_bytes v"] assms by simp
  moreover have "word_at (xs @ word_bytes u @ word_bytes v) 60 = v"
    using word_at_word_bytes [of "xs @ word_bytes u" v "[]"] assms by simp
  moreover have "map (\<lambda>i. word_at (xs @ word_bytes u @ word_bytes v) (4 * i)) [0..<14] = in_words xs 14"
    using in_words_append [of 14 xs] assms by (simp add: in_words_def)
  ultimately show ?thesis by (simp add: in_words_def)
qed

section \<open>Blocks\<close>

lemma md5_blocks_short: "length bs < 64 \<Longrightarrow> md5_blocks buf bs = buf"
  by (simp add: md5_blocks.simps [of buf bs])

lemma md5_blocks_Cons:
  "length b = 64 \<Longrightarrow> md5_blocks buf (b @ bs) = md5_blocks (Transform buf (in_words b 16)) bs"
  by (simp add: md5_blocks.simps [of buf "b @ bs"])

definition tail64 :: "byte list \<Rightarrow> byte list" where
  "tail64 m = drop (64 * (length m div 64)) m"

lemma length_tail64: "length (tail64 m) = length m mod 64"
  by (simp add: tail64_def minus_mult_div_eq_mod)

lemma tail64_short: "length m < 64 \<Longrightarrow> tail64 m = m"
  by (simp add: tail64_def)

lemma tail64_blocks: "length b = 64 * k \<Longrightarrow> tail64 (b @ m) = tail64 m"
  by (simp add: tail64_def)

lemma tail64_block: "length b = 64 \<Longrightarrow> tail64 (b @ m) = tail64 m"
  using tail64_blocks [of b 1] by simp

lemma tail64_append: "tail64 (tail64 m @ xs) = tail64 (m @ xs)"
proof -
  let ?k = "length m div 64"
  have "m @ xs = take (64 * ?k) m @ tail64 m @ xs" by (simp add: tail64_def)
  moreover have "length (take (64 * ?k) m) = 64 * ?k" by simp
  ultimately show ?thesis by (metis tail64_blocks)
qed

lemma md5_blocks_append: "md5_blocks buf (m @ xs) = md5_blocks (md5_blocks buf m) (tail64 m @ xs)"
proof (induction buf m rule: md5_blocks.induct)
  case (1 buf m)
  show ?case
  proof (cases "length m < 64")
    case True
    then show ?thesis by (simp add: md5_blocks_short tail64_short)
  next
    case False
    let ?b = "take 64 m" and ?r = "drop 64 m"
    have b: "length ?b = 64" and m: "m = ?b @ ?r" using False by simp_all
    have "md5_blocks buf (m @ xs) = md5_blocks (Transform buf (in_words ?b 16)) (?r @ xs)"
      by (subst m) (simp only: append_assoc md5_blocks_Cons [OF b])
    also have "\<dots> = md5_blocks (md5_blocks (Transform buf (in_words ?b 16)) ?r) (tail64 ?r @ xs)"
      using "1.IH" [OF False] .
    also have "md5_blocks (Transform buf (in_words ?b 16)) ?r = md5_blocks buf m"
      using md5_blocks_Cons [OF b, of buf ?r] by simp
    also have "tail64 ?r = tail64 m"
      using tail64_block [OF b, of ?r] by simp
    finally show ?thesis .
  qed
qed

lemma md5_feed_correct:
  assumes "length inb = 64" "mdi < 64" "md5_feed buf inb mdi cs = (buf', inb')"
  shows "buf' = md5_blocks buf (take mdi inb @ cs) \<and> length inb' = 64 \<and>
         take ((mdi + length cs) mod 64) inb' = tail64 (take mdi inb @ cs)"
  using assms
proof (induction cs arbitrary: buf inb mdi)
  case Nil
  then show ?case by (simp add: md5_blocks_short tail64_short)
next
  case (Cons c cs)
  let ?inb = "inb[mdi := c]"
  have tk: "take (Suc mdi) ?inb = take mdi inb @ [c]"
    using Cons.prems(1,2) by (simp add: take_Suc_conv_app_nth)
  show ?case
  proof (cases "mdi = 63")
    case True
    have blk: "take 63 inb @ [c] = ?inb" using tk True Cons.prems(1) by simp
    have "md5_feed (Transform buf (in_words ?inb 16)) ?inb 0 cs = (buf', inb')"
      using Cons.prems(3) True by (simp add: Let_def)
    from Cons.IH [OF _ _ this] Cons.prems(1)
    have IH: "buf' = md5_blocks (Transform buf (in_words ?inb 16)) cs" "length inb' = 64"
      "take (length cs mod 64) inb' = tail64 cs"
      by simp_all
    have eq: "take mdi inb @ c # cs = ?inb @ cs"
      using blk True by (metis append.assoc append_Cons append_Nil)
    show ?thesis
      unfolding eq using IH Cons.prems(1) True by (simp add: md5_blocks_Cons tail64_block)
  next
    case False
    then have "md5_feed buf ?inb (Suc mdi) cs = (buf', inb')"
      using Cons.prems(3) by (simp add: Let_def)
    from Cons.IH [OF _ _ this] Cons.prems(1,2) False tk show ?thesis
      by simp
  qed
qed

section \<open>The bit counter\<close>

definition count64 :: "md5_ctx \<Rightarrow> nat" where
  "count64 ctx = unat (ctx_i0 ctx) + 2 ^ 32 * unat (ctx_i1 ctx)"

lemma unat_word32_less: "unat (w :: word32) < 2 ^ 32"
  using unsigned_less [of w, where 'a = nat] by simp

lemma add_carry:
  "unat (a + b) + 2 ^ 32 * (if a + b < a then 1 else 0) = unat a + unat b" for a b :: word32
proof (cases "unat a + unat b < 2 ^ 32")
  case True
  then have "unat (a + b) = unat a + unat b" by (simp add: unat_word_ariths)
  then show ?thesis by (simp add: word_less_nat_alt)
next
  case False
  then have "unat (a + b) = unat a + unat b - 2 ^ 32"
    using unat_word32_less [of a] unat_word32_less [of b]
    by (simp add: unat_word_ariths mod_if)
  then show ?thesis
    using False unat_word32_less [of b] by (auto simp: word_less_nat_alt)
qed

lemma count64_less: "count64 ctx < 2 ^ 64"
  using unat_word32_less [of "ctx_i0 ctx"] unat_word32_less [of "ctx_i1 ctx"]
  by (simp add: count64_def)

lemma count64_step:
  fixes i0 i1 :: word32
  assumes "n < 2 ^ 32" "inLen = (of_nat n :: word32)"
  defines "j0 \<equiv> i0 + push_bit 3 inLen"
    and "j1 \<equiv> (if i0 + push_bit 3 inLen < i0 then i1 + 1 else i1) + drop_bit 29 inLen"
  shows "unat j0 + 2 ^ 32 * unat j1 = (unat i0 + 2 ^ 32 * unat i1 + 8 * n) mod 2 ^ 64"
proof -
  define c :: nat where "c = (if j0 < i0 then 1 else 0)"
  have len: "unat inLen = n" using assms(1,2) by (simp add: unat_of_nat)
  have p: "unat (push_bit 3 inLen) = 8 * n mod 2 ^ 32"
    using len by (simp add: push_bit_eq_mult unat_word_ariths mult.commute)
  have d: "unat (drop_bit 29 inLen) = n div 2 ^ 29"
    using len by (simp add: drop_bit_eq_div unat_div)
  have j0: "unat j0 + 2 ^ 32 * c = unat i0 + 8 * n mod 2 ^ 32"
    using add_carry [of i0 "push_bit 3 inLen"] p unfolding j0_def c_def by simp
  have "j1 = i1 + of_nat c + drop_bit 29 inLen"
    by (simp add: j1_def j0_def c_def)
  then have j1: "unat j1 = (unat i1 + c + n div 2 ^ 29) mod 2 ^ 32"
    using d by (simp add: unat_word_ariths unat_of_nat mod_simps c_def)
  have n8: "8 * n = 2 ^ 32 * (n div 2 ^ 29) + 8 * n mod 2 ^ 32"
    using mult_div_mod_eq [of "2 ^ 32" "8 * n"] div_mult_mult1 [of 8 n "2 ^ 29"] by simp
  have "unat i0 + 2 ^ 32 * unat i1 + 8 * n = unat j0 + 2 ^ 32 * (unat i1 + c + n div 2 ^ 29)"
    using j0 n8 by (simp add: algebra_simps)
  also have "\<dots> mod 2 ^ 64 = unat j0 + 2 ^ 32 * ((unat i1 + c + n div 2 ^ 29) mod 2 ^ 32)"
  proof -
    have "(x + 2 ^ 32 * y) mod 2 ^ 64 = x + 2 ^ 32 * (y mod 2 ^ 32)" if "x < 2 ^ 32" for x y :: nat
    proof -
      have "(x + 2 ^ 32 * y) mod (2 ^ 32 * 2 ^ 32) =
            2 ^ 32 * ((x + 2 ^ 32 * y) div 2 ^ 32 mod 2 ^ 32) + (x + 2 ^ 32 * y) mod 2 ^ 32"
        by (rule mod_mult2_eq)
      then show ?thesis using that by simp
    qed
    then show ?thesis using unat_word32_less by blast
  qed
  finally show ?thesis using j1 by simp
qed

section \<open>A context represents a message\<close>

definition rep :: "byte list \<Rightarrow> md5_ctx \<Rightarrow> bool" where
  "rep m ctx \<longleftrightarrow>
     length (ctx_in ctx) = 64 \<and> ctx_buf ctx = md5_blocks md5_iv m \<and>
     count64 ctx = 8 * length m mod 2 ^ 64 \<and>
     take (length m mod 64) (ctx_in ctx) = tail64 m"

lemma rep_i0: "rep m ctx \<Longrightarrow> ctx_i0 ctx = of_nat (8 * length m)"
proof (rule word_unat_eq_iff [THEN iffD2])
  assume "rep m ctx"
  then have "(unat (ctx_i0 ctx) + 2 ^ 32 * unat (ctx_i1 ctx)) mod 2 ^ 32 = 8 * length m mod 2 ^ 64 mod 2 ^ 32"
    by (simp add: rep_def count64_def)
  then have "unat (ctx_i0 ctx) = 8 * length m mod 2 ^ 32"
    using unat_word32_less [of "ctx_i0 ctx"] by (simp add: mod_mod_cancel)
  then show "unat (ctx_i0 ctx) = unat (of_nat (8 * length m) :: word32)"
    unfolding unat_of_nat by simp
qed

lemma mod_square_div: "0 < a \<Longrightarrow> x mod (a * a) div a = x div a mod a" for x a :: nat
  by (simp add: mod_mult2_eq)

lemma rep_i1: "rep m ctx \<Longrightarrow> ctx_i1 ctx = of_nat (8 * length m div 2 ^ 32)"
proof (rule word_unat_eq_iff [THEN iffD2])
  assume "rep m ctx"
  then have "(unat (ctx_i0 ctx) + 2 ^ 32 * unat (ctx_i1 ctx)) div 2 ^ 32 = 8 * length m mod (2 ^ 32 * 2 ^ 32) div 2 ^ 32"
    by (simp add: rep_def count64_def)
  also have "(unat (ctx_i0 ctx) + 2 ^ 32 * unat (ctx_i1 ctx)) div 2 ^ 32 = unat (ctx_i1 ctx)"
    using unat_word32_less [of "ctx_i0 ctx"] by simp
  also have "8 * length m mod (2 ^ 32 * 2 ^ 32) div 2 ^ 32 = 8 * length m div 2 ^ 32 mod 2 ^ 32"
    by (rule mod_square_div) simp
  finally show "unat (ctx_i1 ctx) = unat (of_nat (8 * length m div 2 ^ 32) :: word32)"
    unfolding unat_of_nat by simp
qed

lemma rep_byte_index:
  assumes "rep m ctx"
  shows "byte_index ctx = length m mod 64"
proof -
  have "unat (ctx_i0 ctx) = 8 * length m mod 2 ^ 32"
    unfolding rep_i0 [OF assms] unat_of_nat by simp
  moreover have "byte_index ctx = unat (ctx_i0 ctx) div 8 mod 64"
  proof -
    have "drop_bit 3 (ctx_i0 ctx) AND 0x3F = take_bit 6 (drop_bit 3 (ctx_i0 ctx))"
      by (simp add: take_bit_eq_mask mask_eq_exp_minus_1)
    then show ?thesis
      by (simp add: byte_index_def unsigned_take_bit_eq take_bit_eq_mod drop_bit_eq_div unat_div unat_mod)
  qed
  ultimately show ?thesis by (simp add: mod_mult2_eq [of _ 8 "2 ^ 29", simplified] mod_mod_cancel)
qed

lemma rep_Init:
  assumes "length (ctx_in ctx) = 64"
  shows "rep [] (MD5Init ctx)"
  using assms by (simp add: rep_def MD5Init_def md5_iv_def count64_def md5_blocks_short tail64_def)

lemma rep_Update:
  assumes "rep m ctx" "length xs < 2 ^ 32"
  shows "rep (m @ xs) (MD5Update ctx xs)"
proof -
  obtain buf inb where f: "md5_feed (ctx_buf ctx) (ctx_in ctx) (byte_index ctx) xs = (buf, inb)"
    by (metis surj_pair)
  have idx: "byte_index ctx = length m mod 64" "byte_index ctx < 64"
    using rep_byte_index [OF assms(1)] by simp_all
  have r: "length (ctx_in ctx) = 64" "ctx_buf ctx = md5_blocks md5_iv m"
    "count64 ctx = 8 * length m mod 2 ^ 64" "take (byte_index ctx) (ctx_in ctx) = tail64 m"
    using assms(1) idx by (simp_all add: rep_def)
  from md5_feed_correct [OF r(1) idx(2) f] r(2,4)
  have b: "buf = md5_blocks md5_iv (m @ xs)" "length inb = 64"
    "take ((byte_index ctx + length xs) mod 64) inb = tail64 (tail64 m @ xs)"
    by (simp_all add: md5_blocks_append [of md5_iv m xs])
  have c: "count64 (MD5Update ctx xs) = (count64 ctx + 8 * length xs) mod 2 ^ 64"
    using count64_step [OF assms(2) refl, of "ctx_i0 ctx" "ctx_i1 ctx"] f
    by (simp add: count64_def MD5Update_def Let_def)
  show ?thesis
    using b c r(3) idx f
    by (simp add: rep_def MD5Update_def Let_def mod_simps distrib_left tail64_append)
qed

lemma take_PADDING: "1 \<le> n \<Longrightarrow> n \<le> 64 \<Longrightarrow> take n PADDING = 0x80 # replicate (n - 1) 0"
  by (cases n) (simp_all add: PADDING_def min_def)

lemma rep_Final:
  assumes "rep m ctx"
  shows "ctx_digest (MD5Final ctx) = md5 m"
proof -
  define r where "r = length m mod 64"
  define padLen where "padLen = (if r < 56 then 56 - r else 120 - r)"
  define pad :: "byte list" where "pad = take padLen PADDING"
  have r: "r < 64" by (simp add: r_def)
  have pd: "1 \<le> padLen" "padLen \<le> 64" using r by (auto simp: padLen_def)
  have "(119 - r) mod 64 = padLen - 1"
  proof (cases "r < 56")
    case True
    then have "119 - r = (55 - r) + 64" by simp
    then have "(119 - r) mod 64 = 55 - r" by (simp only: mod_add_self2) simp
    with True show ?thesis by (simp add: padLen_def)
  next
    case False
    with r show ?thesis by (simp add: padLen_def)
  qed
  moreover have "pad = 0x80 # replicate (padLen - 1) 0"
    unfolding pad_def by (rule take_PADDING) (use pd in auto)
  ultimately have pad: "pad = 0x80 # replicate ((119 - length m mod 64) mod 64) 0"
    by (simp only: r_def)
  have padlen: "length pad = padLen"
    using pd unfolding pad_def by (simp add: PADDING_def)
  have len: "(length m + length pad) mod 64 = 56"
  proof -
    have "(length m + length pad) mod 64 = (r + padLen) mod 64"
      by (simp add: padlen r_def mod_simps)
    also have "\<dots> = 56" using r by (auto simp: padLen_def)
    finally show ?thesis .
  qed
  let ?ctx = "MD5Update ctx pad"
  have "rep (m @ pad) ?ctx"
    by (rule rep_Update [OF assms]) (use padlen pd in auto)
  then have c: "length (ctx_in ?ctx) = 64" "ctx_buf ?ctx = md5_blocks md5_iv (m @ pad)"
    "take 56 (ctx_in ?ctx) = tail64 (m @ pad)"
    using len by (simp_all add: rep_def)
  let ?lb = "word_bytes (ctx_i0 ctx) @ word_bytes (ctx_i1 ctx)"
  have "in_words (ctx_in ?ctx) 14 @ [ctx_i0 ctx, ctx_i1 ctx] = in_words (tail64 (m @ pad) @ ?lb) 16"
    using in_words_tail [of "tail64 (m @ pad)"] len c(3) in_words_take [of 14 56 "ctx_in ?ctx"]
    by (simp add: length_tail64)
  moreover have "md5_pad m = (m @ pad) @ ?lb"
    unfolding md5_pad_def rep_i0 [OF assms] rep_i1 [OF assms] pad by simp
  moreover have "md5_blocks (md5_blocks md5_iv (m @ pad)) (tail64 (m @ pad) @ ?lb) =
      Transform (md5_blocks md5_iv (m @ pad)) (in_words (tail64 (m @ pad) @ ?lb) 16)"
    using md5_blocks_Cons [of "tail64 (m @ pad) @ ?lb" _ "[]"] len
    by (simp add: length_tail64 md5_blocks_short)
  ultimately have "buf_bytes (Transform (ctx_buf ?ctx) (in_words (ctx_in ?ctx) 14 @ [ctx_i0 ctx, ctx_i1 ctx])) = md5 m"
    unfolding md5_def by (simp only: md5_blocks_append [of md5_iv "m @ pad"] c(2))
  then show ?thesis
    by (simp add: MD5Final_def Let_def rep_byte_index [OF assms] pad_def padLen_def r_def [symmetric]
        split: if_splits)
qed

lemma rep_pieces:
  "rep m ctx \<Longrightarrow> rep (m @ bs) (md5_pieces ctx bs)"
proof (induction ctx bs arbitrary: m rule: md5_pieces.induct)
  case (1 ctx bs)
  show ?case
  proof (cases "bs = []")
    case True
    with "1.prems" show ?thesis by (subst md5_pieces.simps) simp
  next
    case False
    have "rep (m @ take 16 bs) (MD5Update ctx (take 16 bs))"
      using "1.prems" by (rule rep_Update) simp
    from "1.IH" [OF False this] False show ?thesis
      by (subst md5_pieces.simps) simp
  qed
qed

section \<open>Correctness\<close>

fun md5_updates :: "md5_ctx \<Rightarrow> byte list list \<Rightarrow> md5_ctx" where
  "md5_updates ctx [] = ctx"
| "md5_updates ctx (bs # bss) = md5_updates (MD5Update ctx bs) bss"

lemma rep_updates:
  "rep m ctx \<Longrightarrow> \<forall>bs\<in>set bss. length bs < 2 ^ 32 \<Longrightarrow> rep (m @ concat bss) (md5_updates ctx bss)"
proof (induction bss arbitrary: m ctx)
  case Nil
  then show ?case by simp
next
  case (Cons bs bss)
  then have "rep (m @ bs) (MD5Update ctx bs)" by (intro rep_Update) simp_all
  from Cons.IH [OF this] Cons.prems(2) show ?case by simp
qed

text \<open>C23: Initialising a context, feeding it a message in any pieces and finalising it gives the
  RFC 1321 digest of the whole message, whatever the context's buffers held before.\<close>

theorem md5_streaming:
  assumes "length (ctx_in ctx) = 64" "\<forall>bs\<in>set pieces. length bs < 2 ^ 32"
  shows "ctx_digest (MD5Final (md5_updates (MD5Init ctx) pieces)) = md5 (concat pieces)"
  using rep_Final [OF rep_updates [OF rep_Init [OF assms(1)] assms(2)]] by simp

theorem md5_streaming_witness:
  "ctx_digest (MD5Final (md5_updates (MD5Init
       \<lparr>ctx_i0 = 7, ctx_i1 = 9, ctx_buf = md5_iv, ctx_in = replicate 64 0, ctx_digest = []\<rparr>) [[97], [98, 99]])) =
     md5 [97, 98, 99]"
  using md5_streaming [of "\<lparr>ctx_i0 = 7, ctx_i1 = 9, ctx_buf = md5_iv, ctx_in = replicate 64 0, ctx_digest = []\<rparr>"
      "[[97], [98, 99]]"]
  by simp

text \<open>The challenge response is the MD5 digest of ten prompt characters followed by the
  password, and the copy buffer overflows exactly when the two need 1024 bytes or more.\<close>

theorem calc_md5_pw_correct:
  assumes "length (ctx_in context) = 64"
  shows "calc_md5_pw context prompt pw =
     (if 1024 \<le> length (take 10 prompt @ pw) then None
      else Some (md5 (bytes_of_string (take 10 prompt @ pw))))"
  using rep_Final [OF rep_pieces [OF rep_Init [OF assms]]] by (simp add: calc_md5_pw_def Let_def)

theorem calc_md5_pw_correct_witness:
  "calc_md5_pw \<lparr>ctx_i0 = 7, ctx_i1 = 9, ctx_buf = md5_iv, ctx_in = replicate 64 0, ctx_digest = []\<rparr>
       ''1234567890AB'' ''pw'' =
     Some (md5 (bytes_of_string ''1234567890pw''))"
  using calc_md5_pw_correct [of "\<lparr>ctx_i0 = 7, ctx_i1 = 9, ctx_buf = md5_iv, ctx_in = replicate 64 0, ctx_digest = []\<rparr>"
      "''1234567890AB''" "''pw''"]
  by simp

end
