(* ===== verification/Access.thy ===== *)
theory Access
  imports Cfgfile Callsign Routing Md5
begin

text \<open>
  Access control and authentication (\<^verbatim>\<open>access.c\<close>, with the random numbers of
  \<^verbatim>\<open>tnos.c\<close>): the list of addresses that may connect, the password file, and the three kinds of
  password prompt.

  The password file is its contents. The results of the system calls on it are the fields of
  \<open>pw_io\<close>; \<open>clock\<close> is what successive calls of \<^verbatim>\<open>time(0)\<close> return.
\<close>

section \<open>The access list\<close>

abbreviation (input) "ACC_BAN \<equiv> (0 :: nat)"
abbreviation (input) "ACC_USER \<equiv> (1 :: nat)"
abbreviation (input) "ACC_HOST \<equiv> (2 :: nat)"
abbreviation (input) "ACC_RESTR \<equiv> (4 :: nat)"
abbreviation (input) "ACC_OBSRV \<equiv> (8 :: nat)"
abbreviation (input) "ACC_HOST_SECURE \<equiv> (16 :: nat)"
abbreviation (input) "ACC_AUTH \<equiv> (32 :: nat)"
abbreviation (input) "ACC_DROP \<equiv> (64 :: nat)"

definition modelist :: bitlist where
  "modelist =
     [(''BAN'', ACC_BAN), (''USER'', ACC_USER), (''HOST'', ACC_HOST), (''RESTRICTED'', ACC_RESTR),
      (''OBSERVER'', ACC_OBSRV), (''HOST_SECURE'', ACC_HOST_SECURE), (''AUTH'', ACC_AUTH), (''DROP'', ACC_DROP)]"

abbreviation (input) "all_ones \<equiv> (0xFFFFFFFF :: 32 word)"

text \<open>The shift is of a 64-bit \<^verbatim>\<open>long\<close>: \<open>None\<close> for a shift count outside its width.\<close>

definition bits_to_mask :: "int \<Rightarrow> 32 word option" where
  "bits_to_mask bits =
     (if bits = 0 then Some 0
      else if 32 - bits < 0 \<or> 64 \<le> 32 - bits then None
      else Some (ucast (push_bit (nat (32 - bits)) (0xFFFFFFFF :: 64 word))))"

definition inet_ntoa :: "32 word \<Rightarrow> string" where
  "inet_ntoa a =
     dec (uint (drop_bit 24 a)) @ ''.'' @ dec (uint (and (drop_bit 16 a) 0xFF)) @ ''.'' @
     dec (uint (and (drop_bit 8 a) 0xFF)) @ ''.'' @ dec (uint (and a 0xFF))"

text \<open>\<^verbatim>\<open>%-15s\<close>.\<close>

definition pad15 :: "string \<Rightarrow> string" where
  "pad15 s = s @ replicate (15 - length s) (CHR '' '')"

text \<open>The entry of an IPv4 address and the text of the log message. The outer \<open>None\<close> is
  undefined behaviour, the inner one the return value -1.\<close>

definition inet_entry :: "env \<Rightarrow> string \<Rightarrow> int \<Rightarrow> (acclist_t \<times> string) option option" where
  "inet_entry E arg now =
     (let host = before arg ''/'';
          m = (case strchr arg (CHR ''/'') of None \<Rightarrow> Some all_ones | Some cp \<Rightarrow> bits_to_mask (atoi (tl cp)));
          hp = e_gethostbyname E host
      in case m of
           None \<Rightarrow> None
         | Some netmask \<Rightarrow>
             if hp = None \<and> netmask \<noteq> all_ones then Some None
             else
               let network = (case hp of None \<Rightarrow> 0 | Some a \<Rightarrow> a);
                   p = (if hp = None then ''unresolved'' else inet_ntoa network);
                   matches = (hp \<noteq> None \<and> p = host);
                   ap = \<lparr>ap_network = and network netmask, ap_netmask = netmask, ap_mode = 0, ap_proto = AF_INET,
                         ap_source_addr = (if netmask = all_ones \<and> \<not> matches then Some host else None),
                         ap_last_resolved = (if netmask = all_ones \<and> \<not> matches then now else 0)\<rparr>
               in Some (Some (ap,
                    if netmask = all_ones
                    then ''host: '' @ host @ (if matches then [] else '' ['' @ p @ ''] (forward resolve)'')
                    else ''network: '' @ pad15 (inet_ntoa network) @ '' netmask: '' @ pad15 (inet_ntoa netmask))))"

definition access_entry :: "env \<Rightarrow> string \<Rightarrow> int \<Rightarrow> (acclist_t \<times> string) option option" where
  "access_entry E arg now =
     (let ap = \<lparr>ap_network = 0, ap_netmask = 0, ap_mode = 0, ap_proto = AF_UNIX, ap_source_addr = None, ap_last_resolved = 0\<rparr> in
      if strneq arg ''unix:'' 5 \<or> strneq arg ''local:'' 6
      then let a = (case strchr arg (CHR '':'') of None \<Rightarrow> [] | Some cp \<Rightarrow> tl cp)
           in Some (Some (ap\<lparr>ap_source_addr := Some a\<rparr>, ''unix socket: '' @ a))
      else if strneq arg ''ax25:'' 5
      then let a = strupr (drop 5 arg)
           in Some (Some (ap\<lparr>ap_proto := AF_AX25, ap_source_addr := Some a\<rparr>, ''ax25: '' @ a))
      else inet_entry E arg now)"

definition do_access :: "env \<Rightarrow> world handler" where
  "do_access E argv w =
     (if length argv < 3 then Some (-1, w)
      else
        case access_entry E (argv ! 1) (w_currtime w) of
          None \<Rightarrow> None
        | Some None \<Rightarrow> Some (-1, w)
        | Some (Some (ap, buf)) \<Rightarrow>
            if 256 \<le> length buf then None
            else
              case bitcfg modelist 0 (drop 2 argv) of
                None \<Rightarrow> Some (-1, w)
              | Some mode \<Rightarrow>
                  (case (if mode \<noteq> 0 then printbits mode modelist buf 256
                         else if length (buf @ '' BAN'') < 256 then Some (buf @ '' BAN'') else None) of
                     None \<Rightarrow> None
                   | Some _ \<Rightarrow> Some (0, w\<lparr>w_accesslist := ap\<lparr>ap_mode := mode\<rparr> # w_accesslist w\<rparr>)))"

definition family :: "sockaddr \<Rightarrow> sa_family" where
  "family addr = (case addr of SA_UNIX _ \<Rightarrow> AF_UNIX | SA_AX25 _ \<Rightarrow> AF_AX25 | SA_INET _ _ \<Rightarrow> AF_INET)"

text \<open>Lines 231 to 240: an entry by name is looked up again after three minutes.\<close>

definition refresh_entry :: "env \<Rightarrow> int \<Rightarrow> acclist_t \<Rightarrow> acclist_t" where
  "refresh_entry E now ap =
     (case ap_source_addr ap of
        Some a \<Rightarrow> if 3 * 60 < now - ap_last_resolved ap
                  then ap\<lparr>ap_network := (case e_gethostbyname E a of None \<Rightarrow> 0 | Some n \<Rightarrow> n), ap_last_resolved := now\<rparr>
                  else ap
      | None \<Rightarrow> ap)"

text \<open>\<^verbatim>\<open>from>to\<close> of an AX.25 entry.\<close>

definition ax25_match :: "string \<Rightarrow> string \<Rightarrow> string \<Rightarrow> bool" where
  "ax25_match want from_src_call to_local_call =
     (let (want_from, want_to) =
            (case strchr want (CHR ''>'') of
               Some q \<Rightarrow> (if before want ''>'' = [] then ''*'' else before want ''>'', tl q)
             | None \<Rightarrow> (want, ''*''))
      in (want_from = ''*'' \<or> strcaseeq want_from from_src_call) \<and> (want_to = ''*'' \<or> strcaseeq want_to to_local_call))"

definition entry_matches :: "bool \<Rightarrow> sockaddr \<Rightarrow> string option \<Rightarrow> acclist_t \<Rightarrow> bool" where
  "entry_matches validate addr local_name ap =
     (case addr of
        SA_INET a port \<Rightarrow> and a (ap_netmask ap) = ap_network ap
      | SA_UNIX _ \<Rightarrow>
          (case ap_source_addr ap of
             None \<Rightarrow> False
           | Some s \<Rightarrow> s = ''*'' \<or>
               (case Option.bind local_name (\<lambda>n. strchr n (CHR '':'')) of None \<Rightarrow> False | Some p \<Rightarrow> s = tl p))
      | SA_AX25 sax \<Rightarrow>
          (case ap_source_addr ap of
             None \<Rightarrow> False
           | Some s \<Rightarrow>
               let from_src_call = ax25_ntoa (sax25_call sax) in
               \<not> (validate \<and> \<not> callvalid from_src_call) \<and>
               ax25_match s from_src_call
                 (case local_name of
                    None \<Rightarrow> ''*''
                  | Some n \<Rightarrow> if strneq n ''ax25:'' 5 \<and> 5 < length n then drop 5 n else ''*'')))"

text \<open>One turn of the walk: the entry as it is afterwards and whether it matches.\<close>

definition walk_entry :: "env \<Rightarrow> bool \<Rightarrow> int \<Rightarrow> sockaddr \<Rightarrow> string option \<Rightarrow> acclist_t \<Rightarrow> acclist_t \<times> bool" where
  "walk_entry E validate now addr local_name ap =
     (if ap_proto ap \<noteq> family addr then (ap, False)
      else
        let ap = (if family addr = AF_INET then refresh_entry E now ap else ap);
            hit = entry_matches validate addr local_name ap
        in (if hit \<and> family addr = AF_INET \<and> ap_source_addr ap \<noteq> None then ap\<lparr>ap_last_resolved := now\<rparr> else ap, hit))"

fun walk_list :: "env \<Rightarrow> bool \<Rightarrow> int \<Rightarrow> sockaddr \<Rightarrow> string option \<Rightarrow> acclist_t list \<Rightarrow> nat \<Rightarrow> acclist_t list \<times> nat" where
  "walk_list E validate now addr local_name [] ret = ([], ret)"
| "walk_list E validate now addr local_name (ap # aps) ret =
     (let (ap', hit) = walk_entry E validate now addr local_name ap;
          (aps', ret') = walk_list E validate now addr local_name aps (if hit then ap_mode ap else ret)
      in (ap' # aps', ret'))"

text \<open>Lines 289 to 300.\<close>

definition host_secure :: "sockaddr \<Rightarrow> nat \<Rightarrow> nat" where
  "host_secure addr ret =
     (let ret = (if flag ret ACC_HOST_SECURE then or ret ACC_HOST else ret);
          rest = and ret (ACC_BAN + ACC_USER + ACC_RESTR + ACC_OBSRV + ACC_AUTH + ACC_DROP)
      in case addr of
           SA_INET a port \<Rightarrow> if flag ret ACC_HOST_SECURE \<and> 1024 \<le> port then (if rest \<noteq> 0 then rest else ACC_BAN) else ret
         | _ \<Rightarrow> ret)"

text \<open>An AX.25 entry of 256 or more characters overruns \<^verbatim>\<open>tmpbuf\<close>; \<open>do_access\<close> stores
  none.\<close>

definition chk_access :: "env \<Rightarrow> sockaddr option \<Rightarrow> string option \<Rightarrow> world \<Rightarrow> nat \<times> world" where
  "chk_access E addr local_name w =
     (case addr of
        None \<Rightarrow> (ACC_BAN, w)
      | Some a \<Rightarrow>
          if w_accesslist w = [] then (ACC_USER + ACC_HOST + ACC_HOST_SECURE, w)
          else
            let (acl, ret) = walk_list E (callvalidate (w_cfg w)) (w_currtime w) a local_name (w_accesslist w) ACC_BAN
            in (host_secure a ret,
                (if family a = AF_AX25 \<and>
                    list_ex (\<lambda>ap. ap_proto ap = AF_AX25 \<and> (case ap_source_addr ap of None \<Rightarrow> False | Some s \<Rightarrow> 256 \<le> length s)) (w_accesslist w)
                 then fault w else w)\<lparr>w_accesslist := acl\<rparr>))"

definition acl_line :: "acclist_t \<Rightarrow> string" where
  "acl_line ap =
     (let src = (case ap_source_addr ap of None \<Rightarrow> ''(null)'' | Some s \<Rightarrow> s);
          s = (case ap_proto ap of
                 AF_INET \<Rightarrow>
                   if ap_netmask ap = all_ones
                   then ''host: '' @ inet_ntoa (ap_network ap) @
                        (if ap_source_addr ap \<noteq> None then '' ['' @ src @ ''] (forward resolve)'' else [])
                   else ''net: '' @ inet_ntoa (ap_network ap) @ ''/'' @ inet_ntoa (ap_netmask ap)
               | AF_UNIX \<Rightarrow> ''unix socket: '' @ src
               | AF_AX25 \<Rightarrow> ''ax25: '' @ src);
          s = take 64 s
      in if ap_mode ap \<noteq> 0 then (case printbits (ap_mode ap) modelist s 1024 of None \<Rightarrow> s | Some t \<Rightarrow> t) else s @ '' BAN'')"

text \<open>\<open>None\<close> is undefined behaviour in \<open>do_access\<close>.\<close>

definition modify_acl :: "env \<Rightarrow> cid \<Rightarrow> string list \<Rightarrow> world \<Rightarrow> (int \<times> world) option" where
  "modify_acl E i argv w =
     (let head = ''*** ('' @ w_ts2 E w @ '') ACL '' in
      if argv = [] \<or> length argv = 2
      then Some (-1, append_general_notice E i (head @ ''modify: wrong parameters.'' @ [NL]) w)
      else if length argv = 1 then
        (if w_accesslist w = [] then Some (0, append_general_notice E i (head @ ''is empty.'' @ [NL]) w)
         else
           let w = append_general_notice E i (head @ ''entries'' @ [NL]) w;
               w = fold (\<lambda>ap w. appendstring E i [NL] (append_general_notice E i (acl_line ap) w)) (w_accesslist w) w
           in Some (-1, appendprompt E i True w))
      else
        (case do_access E argv w of
           None \<Rightarrow> None
         | Some (ret, w) \<Rightarrow>
             if ret < 0 then Some (ret, append_general_notice E i (head @ ''modify failed ('' @ dec ret @ '')'' @ [NL]) w)
             else Some (ret, append_general_notice E i (head @ ''insert: success.'' @ [NL])
                         (w\<lparr>w_accesslist := tl (w_accesslist w) @ [hd (w_accesslist w)]\<rparr>))))"

section \<open>Passwords\<close>

abbreviation (input) "PASSSIZE \<equiv> (80 :: nat)"

text \<open>\<^verbatim>\<open>rip\<close>: one line end less.\<close>

definition rip :: "string \<Rightarrow> string" where
  "rip s = (if s \<noteq> [] \<and> (last s = NL \<or> last s = CHR 0x0D) then butlast s else s)"

definition verify_password :: "string \<Rightarrow> string \<Rightarrow> int" where
  "verify_password got want = (if got = [] then -1 else if strstr got want then 0 else -1)"

record pw_io =
  lock_ok :: bool
  tmp_ok :: bool
  write_ok :: "nat \<Rightarrow> bool"
  rename_ok :: bool

text \<open>Lines 497 to 505: the name an entry is kept under.\<close>

definition pw_name :: "string \<Rightarrow> string option" where
  "pw_name foruser =
     (if foruser = [] \<or> foruser = ''~'' then None
      else
        let name = take NAMESIZE (get_tidy_name (Some (if hd foruser = CHR ''~'' then tl foruser else foruser)))
        in if name = [] then None else Some name)"

text \<open>Lines 548 to 571: the password in one line, if it is for the name.\<close>

definition pw_line :: "string \<Rightarrow> string \<Rightarrow> string option" where
  "pw_line name l =
     (let buffer = before l ''#'' in
      if l = [] \<or> hd l = NL \<or> buffer = [] then None
      else
        case strchr buffer (CHR '':'') of
          None \<Rightarrow> None
        | Some q \<Rightarrow> if rip (before buffer '':'') = name then Some (take PASSSIZE (rip (dropWhile isspace (tl q)))) else None)"

fun pw_find :: "string \<Rightarrow> string list \<Rightarrow> string option" where
  "pw_find name [] = None"
| "pw_find name (l # ls) = (case pw_line name l of None \<Rightarrow> pw_find name ls | Some p \<Rightarrow> Some p)"

text \<open>Lines 533 to 547: the lines written to the new file.\<close>

definition pw_keep :: "string \<Rightarrow> string option \<Rightarrow> string list \<Rightarrow> string list" where
  "pw_keep name pw ls =
     concat (map (\<lambda>l. if l = [] \<or> hd l = NL then []
                      else if is_prefix (name @ '':'') l
                      then (case pw of None \<Rightarrow> [] | Some p \<Rightarrow> [name @ '':'' @ p @ [NL]])
                      else [l]) ls)"

definition pw_changed :: "string \<Rightarrow> string option \<Rightarrow> string list \<Rightarrow> bool" where
  "pw_changed name pw ls \<longleftrightarrow> pw \<noteq> None \<and> list_ex (\<lambda>l. l \<noteq> [] \<and> hd l \<noteq> NL \<and> is_prefix (name @ '':'') l) ls"

definition pw_new_lines :: "string \<Rightarrow> string option \<Rightarrow> string list \<Rightarrow> string list" where
  "pw_new_lines name pw ls =
     pw_keep name pw ls @
     (case pw of None \<Rightarrow> [] | Some p \<Rightarrow> if pw_changed name pw ls then [] else [name @ '':'' @ p @ [NL]])"

definition pw_lines :: "string option \<Rightarrow> string list" where
  "pw_lines file = (case file of None \<Rightarrow> [] | Some text \<Rightarrow> fgets_lines 2047 text)"

definition change_password_file :: "pw_io \<Rightarrow> string \<Rightarrow> string option \<Rightarrow> bool \<Rightarrow> string option \<Rightarrow> string option \<times> string option" where
  "change_password_file io foruser hispass do_write file =
     (case pw_name foruser of
        None \<Rightarrow> (None, file)
      | Some name \<Rightarrow>
          if \<not> do_write then (pw_find name (pw_lines file), file)
          else if \<not> lock_ok io \<or> \<not> tmp_ok io then (None, file)
          else
            let out = pw_new_lines name hispass (pw_lines file) in
            if \<not> list_all (write_ok io) [0..<length out] then (None, file)
            else if \<not> rename_ok io then (None, None)
            else (Some (if hd foruser = CHR ''~'' then tl foruser else foruser), Some (concat out)))"

definition read_password :: "string \<Rightarrow> string option \<Rightarrow> string option" where
  "read_password foruser file =
     fst (change_password_file \<lparr>lock_ok = True, tmp_ok = True, write_ok = (\<lambda>_. True), rename_ok = True\<rparr> foruser None False file)"

definition update_password :: "pw_io \<Rightarrow> string \<Rightarrow> string option \<Rightarrow> string option \<Rightarrow> int \<times> string option" where
  "update_password io foruser password file =
     (let (r, file) = change_password_file io foruser password True file in (if r \<noteq> None then 0 else -1, file))"

definition check_password :: "connection \<Rightarrow> world \<Rightarrow> int" where
  "check_password cp w =
     (let want = (if c_pass_want cp = [] then read_password (c_name cp) (w_passwd w) else Some (c_pass_want cp))
      in case want of
           None \<Rightarrow> if flag (c_needauth cp) 1 then -2 else 1
         | Some p \<Rightarrow> if p = [] then 0 else verify_password (c_pass_got cp) p)"

text \<open>\<^verbatim>\<open>hash\<close> is a \<^verbatim>\<open>short\<close>; the second character of a pair is a signed \<^verbatim>\<open>char\<close> where
  characters are signed.\<close>

fun aprs_hash :: "bool \<Rightarrow> 16 word \<Rightarrow> string \<Rightarrow> 16 word" where
  "aprs_hash sg h [] = h"
| "aprs_hash sg h [a] = xor h (push_bit 8 (of_char a))"
| "aprs_hash sg h (a # b # s) =
     aprs_hash sg (xor (xor h (push_bit 8 (of_char a))) (if sg then scast (of_char b :: 8 word) else of_char b)) s"

definition dec5 :: "int \<Rightarrow> string" where
  "dec5 n = (let s = dec n in replicate (5 - length s) (CHR ''0'') @ s)"

definition compute_aprs_pass :: "bool \<Rightarrow> string \<Rightarrow> string option" where
  "compute_aprs_pass sg call =
     (let rootCall = take 9 (get_tidy_name (Some call)) in
      if rootCall = [] then None
      else Some (dec5 (uint (and (aprs_hash sg 0x73E2 (strupr rootCall)) 0x7FFF))))"

section \<open>Random numbers and the prompts\<close>

definition conv_rand :: "int \<Rightarrow> int \<times> int" where
  "conv_rand seed = (let s = and (1103515245 * seed + 12345) 0x7FFFFFFF in (and s 0x7FFF, s))"

definition conv_randomize :: "int \<Rightarrow> int" where
  "conv_randomize now = and now 0x7FFFFFFF"

definition conv_random :: "int \<Rightarrow> nat \<Rightarrow> int \<Rightarrow> nat \<times> int" where
  "conv_random now num seed = (let (r, s) = conv_rand seed in (nat (and (r * now) 0x7FFFFFFF) mod num, s))"

text \<open>\<^verbatim>\<open>if (seed == 1L) conv_randomize();\<close>\<close>

definition seeded :: "int \<Rightarrow> int \<Rightarrow> int" where
  "seeded now seed = (if seed = 1 then conv_randomize now else seed)"

definition rand_pw_char :: "nat \<Rightarrow> char" where
  "rand_pw_char j = (if j < 10 then char_of (j + 48) else if j - 10 < 26 then char_of (j - 10 + 65) else char_of (j - 36 + 97))"

fun rand_chars :: "nat \<Rightarrow> (nat \<Rightarrow> int) \<Rightarrow> int \<Rightarrow> string \<times> int" where
  "rand_chars 0 clock seed = ([], seed)"
| "rand_chars (Suc n) clock seed =
     (let (j, seed) = conv_random (clock 0) 62 seed; (s, seed) = rand_chars n (\<lambda>k. clock (Suc k)) seed
      in (rand_pw_char j # s, seed))"

definition generate_rand_pw :: "nat \<Rightarrow> (nat \<Rightarrow> int) \<Rightarrow> int \<Rightarrow> string \<times> int" where
  "generate_rand_pw len clock seed = rand_chars (min len PASSSIZE) (\<lambda>k. clock (Suc k)) (seeded (clock 0) seed)"

definition hide_pw :: "string option \<Rightarrow> (nat \<Rightarrow> int) \<Rightarrow> int \<Rightarrow> string \<times> int" where
  "hide_pw pw clock seed =
     (let p = (case pw of None \<Rightarrow> [] | Some p \<Rightarrow> p) in
      if PASSSIZE \<le> length p then (p, seed)
      else
        let (ins_pos, seed) = conv_random (clock 0) (PASSSIZE - length p) seed;
            (a, seed) = generate_rand_pw ins_pos (\<lambda>k. clock (k + 1)) seed;
            (b, seed) = generate_rand_pw (PASSSIZE - length p - ins_pos) (\<lambda>k. clock (k + 2 + PASSSIZE)) seed
        in (a @ p @ b, seed))"

definition get_my_prompt_name :: "world \<Rightarrow> string" where
  "get_my_prompt_name w =
     (let n = map toupper (take 15 (takeWhile isalnum (myhostname (w_cfg w)))) in if callvalid n then n else ''C0NV'')"

definition asked_pass :: "cid \<Rightarrow> string option \<Rightarrow> world \<Rightarrow> string option" where
  "asked_pass i pw w =
     (case pw of
        Some p \<Rightarrow> Some p
      | None \<Rightarrow> (case conn w i of None \<Rightarrow> None | Some cp \<Rightarrow> read_password (c_name cp) (w_passwd w)))"

definition set_pass_want :: "cid \<Rightarrow> string \<Rightarrow> world \<Rightarrow> world" where
  "set_pass_want i p = upd_conn i (\<lambda>c. c\<lparr>c_pass_want := p\<rparr>)"

definition ask_pw_plain :: "env \<Rightarrow> cid \<Rightarrow> string option \<Rightarrow> world \<Rightarrow> world" where
  "ask_pw_plain E i pw w =
     (let w = set_pass_want i [] w in
      case (asked_pass i pw w, conn w i) of
        (Some (c # p), Some cp) \<Rightarrow>
          set_pass_want i (take PASSSIZE (c # p))
            (if c_ircmode cp then w
             else append_general_notice E i (''Enter your password (or type /auth [sys|md5|plain]):'' @ [NL]) w)
      | _ \<Rightarrow> w)"

text \<open>The loop of lines 739 to 752; \<open>n\<close> bounds the calls of \<open>conv_random\<close>, \<open>ds\<close> is what is chosen
  already.\<close>

fun sys_numbers :: "nat \<Rightarrow> (nat \<Rightarrow> int) \<Rightarrow> nat \<Rightarrow> nat list \<Rightarrow> int \<Rightarrow> (nat list \<times> int) option" where
  "sys_numbers 0 clock pwlen ds seed = (if 5 \<le> length ds then Some (ds, seed) else None)"
| "sys_numbers (Suc n) clock pwlen ds seed =
     (if 5 \<le> length ds then Some (ds, seed)
      else
        let (j, seed) = conv_random (clock 0) pwlen seed in
        sys_numbers n (\<lambda>k. clock (Suc k)) pwlen (if j + 1 \<in> set ds then ds else ds @ [j + 1]) seed)"

definition sys_line :: "nat list \<Rightarrow> world \<Rightarrow> string" where
  "sys_line ds w = get_my_prompt_name w @ ''> '' @ concat (map (\<lambda>d. '' '' @ dec (int d)) ds) @ [NL]"

text \<open>\<open>None\<close>: the loop has not ended after \<open>n\<close> numbers.\<close>

definition ask_pw_sys :: "nat \<Rightarrow> env \<Rightarrow> (nat \<Rightarrow> int) \<Rightarrow> cid \<Rightarrow> string option \<Rightarrow> world \<Rightarrow> world option" where
  "ask_pw_sys n E clock i pw w =
     (let w = set_pass_want i [] w in
      case asked_pass i pw w of
        None \<Rightarrow> Some w
      | Some [] \<Rightarrow> Some w
      | Some (c # p) \<Rightarrow>
          (case sys_numbers n (\<lambda>k. clock (Suc k)) (length (c # p)) [] (seeded (clock 0) (w_seed w)) of
             None \<Rightarrow> None
           | Some (ds, seed) \<Rightarrow>
               let w = set_pass_want i (map (\<lambda>d. (c # p) ! (d - 1)) ds) (w\<lparr>w_seed := seed\<rparr>)
               in Some (append_general_notice E i (sys_line ds w) (append_general_notice E i [NL] w))))"

definition char_to_hex :: "byte list \<Rightarrow> string" where
  "char_to_hex c =
     concat (map (\<lambda>b. [''0123456789abcdef'' ! unat (and (drop_bit 4 b) 0xF), ''0123456789abcdef'' ! unat (and b 0xF)]) c)"

text \<open>\<open>ctx\<close> is what \<^verbatim>\<open>calc_md5_pw\<close> finds on its stack.\<close>

definition ask_pw_md5 :: "env \<Rightarrow> md5_ctx \<Rightarrow> (nat \<Rightarrow> int) \<Rightarrow> cid \<Rightarrow> string option \<Rightarrow> world \<Rightarrow> world" where
  "ask_pw_md5 E ctx clock i pw w =
     (let pass = asked_pass i pw w; w = set_pass_want i [] w in
      case pass of
        None \<Rightarrow> w
      | Some [] \<Rightarrow> w
      | Some (c # p) \<Rightarrow>
          let key = take 255 (c # p);
              (challenge, seed) = generate_rand_pw 10 (\<lambda>k. clock (Suc k)) (seeded (clock 0) (w_seed w));
              w = w\<lparr>w_seed := seed\<rparr>;
              w = append_general_notice E i [NL] w;
              w = append_general_notice E i (get_my_prompt_name w @ ''> ['' @ challenge @ '']'' @ [NL]) w
          in (case calc_md5_pw ctx challenge key of
                None \<Rightarrow> fault w
              | Some cipher \<Rightarrow> set_pass_want i (char_to_hex cipher) w))"

section \<open>The first match of the file counts\<close>

lemma walk_list_last:
  "snd (walk_list E v now a n aps ret) =
     (case find (\<lambda>ap. snd (walk_entry E v now a n ap)) (rev aps) of None \<Rightarrow> ret | Some ap \<Rightarrow> ap_mode ap)"
proof (induction aps arbitrary: ret)
  case (Cons ap aps)
  have f: "find P (xs @ [x]) = (case find P xs of None \<Rightarrow> if P x then Some x else None | r \<Rightarrow> r)"
    for P and xs :: "acclist_t list" and x
    by (induction xs) auto
  show ?case by (simp add: Cons split_def Let_def f split: option.split)
qed simp

lemma walk_entry_keeps: "ap_mode (fst (walk_entry E v now a n ap)) = ap_mode ap" "ap_proto (fst (walk_entry E v now a n ap)) = ap_proto ap"
  by (auto simp: walk_entry_def Let_def refresh_entry_def split: option.split)

lemma walk_list_length: "length (fst (walk_list E v now a n aps ret)) = length aps"
  by (induction aps arbitrary: ret) (auto simp: split_def Let_def)


text \<open>Two lines of the file: users from everywhere, nobody from network 44.\<close>

definition two_entries :: "acclist_t list" where
  "two_entries =
     [\<lparr>ap_network = 0x2C000000, ap_netmask = 0xFF000000, ap_mode = ACC_BAN, ap_proto = AF_INET, ap_source_addr = None, ap_last_resolved = 0\<rparr>,
      \<lparr>ap_network = 0, ap_netmask = 0, ap_mode = ACC_USER, ap_proto = AF_INET, ap_source_addr = None, ap_last_resolved = 0\<rparr>]"


section \<open>When the choice of positions ends\<close>

lemma conv_random_less: "0 < num \<Longrightarrow> fst (conv_random now num seed) < num"
  by (simp add: conv_random_def split_def Let_def)

text \<open>The first \<open>n\<close> random positions.\<close>

fun drawn :: "nat \<Rightarrow> (nat \<Rightarrow> int) \<Rightarrow> nat \<Rightarrow> int \<Rightarrow> nat set" where
  "drawn 0 clock pwlen seed = {}"
| "drawn (Suc n) clock pwlen seed =
     (let (j, seed) = conv_random (clock 0) pwlen seed in insert (j + 1) (drawn n (\<lambda>k. clock (Suc k)) pwlen seed))"

lemma finite_drawn [simp]: "finite (drawn n clock pwlen seed)"
  by (induction n arbitrary: clock seed) (auto simp: split_def Let_def)

lemma drawn_range: "0 < pwlen \<Longrightarrow> drawn n clock pwlen seed \<subseteq> {1..pwlen}"
proof (induction n arbitrary: clock seed)
  case (Suc n)
  with conv_random_less [of pwlen "clock 0" seed] show ?case by (auto simp: split_def Let_def Suc_le_eq subset_iff)
qed simp

lemma sys_numbers_ends:
  assumes "distinct ds"
  shows "sys_numbers n clock pwlen ds seed \<noteq> None \<longleftrightarrow> 5 \<le> card (set ds \<union> drawn n clock pwlen seed)"
  using assms
proof (induction n arbitrary: clock ds seed)
  case 0
  then show ?case by (simp add: distinct_card)
next
  case (Suc n)
  obtain j s where j: "conv_random (clock 0) pwlen seed = (j, s)" by force
  show ?case
  proof (cases "5 \<le> length ds")
    case True
    have "card (set ds) \<le> card (set ds \<union> drawn (Suc n) clock pwlen seed)"
      by (rule card_mono) (simp_all del: drawn.simps)
    with True Suc.prems show ?thesis by (simp add: distinct_card)
  next
    case False
    let ?ds = "if j + 1 \<in> set ds then ds else ds @ [j + 1]"
    have "set ?ds \<union> drawn n (\<lambda>k. clock (Suc k)) pwlen s = set ds \<union> drawn (Suc n) clock pwlen seed"
      using j by auto
    with False j Suc.IH [of ?ds "\<lambda>k. clock (Suc k)" s] Suc.prems show ?thesis by simp
  qed
qed

text \<open>The prompt for five positions of the password is ready after \<open>n\<close> random numbers exactly when
  five different positions are among them; for a password of one to four characters the loop never
  ends, however many random numbers are drawn and whatever the clock says.\<close>

theorem ask_pw_sys_ends:
  assumes "pass \<noteq> []"
  shows "(ask_pw_sys n E clock i (Some pass) w \<noteq> None \<longleftrightarrow>
            5 \<le> card (drawn n (\<lambda>k. clock (Suc k)) (length pass) (seeded (clock 0) (w_seed w)))) \<and>
         (length pass < 5 \<longrightarrow> ask_pw_sys n E clock i (Some pass) w = None)"
proof -
  let ?D = "drawn n (\<lambda>k. clock (Suc k)) (length pass) (seeded (clock 0) (w_seed w))"
  have "w_seed (set_pass_want i [] w) = w_seed w" by (simp add: set_pass_want_def upd_conn_def)
  then have ends: "ask_pw_sys n E clock i (Some pass) w \<noteq> None \<longleftrightarrow> 5 \<le> card ?D"
    using assms sys_numbers_ends [of "[]" n "\<lambda>k. clock (Suc k)" "length pass" "seeded (clock 0) (w_seed w)"]
    by (cases pass) (auto simp: ask_pw_sys_def asked_pass_def Let_def split: option.splits)
  have "card ?D \<le> length pass"
    using card_mono [of "{1..length pass}" ?D] drawn_range [of "length pass"] assms by simp
  with ends show ?thesis by linarith
qed

theorem ask_pw_sys_ends_witness:
  "\<forall>n E w. ask_pw_sys n E (\<lambda>k. 1000 + int k) 0 (Some ''abcd'') w = None"
  using ask_pw_sys_ends [of "''abcd''"] by simp

section \<open>A hidden password is accepted\<close>

lemma rand_chars_length: "length (fst (rand_chars n clock seed)) = n"
  by (induction n arbitrary: clock seed) (simp_all add: split_def Let_def)

lemma hide_pw_verified:
  assumes "pw \<noteq> []"
  shows "verify_password (fst (hide_pw (Some pw) clock seed)) pw = 0"
proof -
  have "strstr (a @ pw @ b) pw" "a @ pw @ b \<noteq> []" for a b using assms by (auto simp: strstr_iff)
  moreover have "strstr pw pw" by (auto simp: strstr_iff intro: exI [of _ "[]"])
  ultimately show ?thesis using assms by (simp add: hide_pw_def verify_password_def split_def Let_def)
qed

section \<open>The password file as a map\<close>

text \<open>A file of complete lines, each short enough for the buffer.\<close>

definition pw_text :: "string list \<Rightarrow> string" where
  "pw_text ls = concat (map (\<lambda>l. l @ [NL]) ls)"

definition plain_line :: "string \<Rightarrow> bool" where
  "plain_line l \<longleftrightarrow> NL \<notin> set l \<and> CHR 0x00 \<notin> set l \<and> length l < 2047"

lemma fgets_lines_text: "list_all plain_line ls \<Longrightarrow> fgets_lines 2047 (pw_text ls) = map (\<lambda>l. l @ [NL]) ls"
proof (induction ls)
  case Nil
  then show ?case by (simp add: pw_text_def fgets_lines.simps)
next
  case (Cons l ls)
  have t: "takeWhile (\<lambda>c. c \<noteq> NL) (l @ [NL] @ x) = l" for x
    using Cons.prems by (subst takeWhile_append2) (auto simp: plain_line_def)
  have g: "fgets 2047 (l @ [NL] @ x) = l @ [NL]" for x
    using Cons.prems by (simp only: fgets_def t Let_def) (simp add: plain_line_def)
  have z: "takeWhile (\<lambda>c. c \<noteq> CHR 0x00) (l @ [NL]) = l @ [NL]"
    using Cons.prems by (auto simp: plain_line_def takeWhile_eq_all_conv)
  have "pw_text (l # ls) = l @ [NL] @ pw_text ls" by (simp add: pw_text_def)
  then show ?case
    using Cons g [of "pw_text ls"] z by (subst fgets_lines.simps) (simp add: pw_text_def)
qed

lemma pw_name_no_colon: "pw_name u = Some n \<Longrightarrow> CHR '':'' \<notin> set n \<and> n \<noteq> []"
proof -
  assume n: "pw_name u = Some n"
  define t where "t = tidy_loop (take 63 (if hd u = CHR ''~'' then tl u else u))"
  have "n = take 63 t" "n \<noteq> []" using n by (auto simp: pw_name_def t_def get_tidy_name_def Let_def split: if_splits)
  moreover have "CHR '':'' \<notin> set t" using tidy_no_separators by (auto simp: t_def separators_def)
  ultimately show ?thesis using set_take_subset [of 63 t] by auto
qed

text \<open>Names and passwords that the file can hold.\<close>

definition pw_chars :: "string \<Rightarrow> bool" where
  "pw_chars s \<longleftrightarrow> set s \<inter> {NL, CHR 0x0D, CHR 0x00, CHR ''#''} = {}"

definition good_pw :: "string \<Rightarrow> bool" where
  "good_pw p \<longleftrightarrow> pw_chars p \<and> length p \<le> PASSSIZE \<and> (p \<noteq> [] \<longrightarrow> \<not> isspace (hd p))"

lemma before_append: "set a \<inter> set cs = {} \<Longrightarrow> before (a @ b) cs = a @ before b cs"
  by (induction a) auto

lemma strpbrk_hd: "strpbrk s cs = Some t \<Longrightarrow> \<exists>c r. t = c # r \<and> c \<in> set cs"
  by (induction s) (auto split: if_splits)

lemma rip_chars: "pw_chars s \<Longrightarrow> rip s = s"
  by (auto simp: rip_def pw_chars_def) (metis last_in_set)+

text \<open>The line of a user is read for him alone.\<close>

lemma pw_line_prefix:
  assumes "pw_chars n" "CHR '':'' \<notin> set n" "n \<noteq> []"
  shows "pw_line m (n @ '':'' @ t) =
     (if m = n then Some (take PASSSIZE (rip (dropWhile isspace (before t ''#'')))) else None)"
proof -
  have "before (n @ '':'' @ t) ''#'' = n @ '':'' @ before t ''#''"
    using assms(1) by (subst before_append) (auto simp: pw_chars_def)
  moreover have "before (n @ '':'' @ x) '':'' = n" "strchr (n @ '':'' @ x) (CHR '':'') = Some ('':'' @ x)" for x
    using assms(2) by (simp add: before_append, induction n) (auto simp: strchr_def)
  moreover have "hd (n @ x) \<noteq> NL" for x using assms(1,3) by (cases n) (auto simp: pw_chars_def)
  ultimately show ?thesis using assms(3) rip_chars [OF assms(1)] by (simp add: pw_line_def Let_def)
qed

lemma pw_line_new:
  assumes "pw_chars n" "CHR '':'' \<notin> set n" "n \<noteq> []" "good_pw p"
  shows "pw_line m (n @ '':'' @ p @ [NL]) = (if m = n then Some p else None)"
proof -
  have "before (p @ [NL]) ''#'' = p @ [NL]" using assms(4) by (subst before_append) (auto simp: good_pw_def pw_chars_def)
  moreover have "rip (dropWhile isspace (p @ [NL])) = p"
    using assms(4) by (cases p) (auto simp: good_pw_def rip_def isspace_def)
  ultimately show ?thesis
    using assms(4) pw_line_prefix [OF assms(1-3), of m "p @ [NL]"] by (simp add: good_pw_def)
qed

text \<open>A line that is read for a user starts with his name, perhaps with a carriage return behind it.\<close>

lemma pw_line_name:
  assumes "pw_line n l = Some p" "pw_chars n"
  shows "is_prefix (n @ '':'') l \<or> is_prefix (n @ [CHR 0x0D] @ '':'') l \<or> NL \<in> set (butlast l)"
proof -
  obtain q where q: "strchr (before l ''#'') (CHR '':'') = Some q" "rip (before (before l ''#'') '':'') = n"
    using assms(1) by (auto simp: pw_line_def Let_def split: if_splits option.splits)
  define b where "b = before (before l ''#'') '':''"
  obtain r where r: "before l ''#'' = b @ q" "q = CHR '':'' # r"
    using q(1) strpbrk_SomeD [of "before l ''#''" "'':''" q] strpbrk_hd [of "before l ''#''" "'':''" q]
    by (auto simp: b_def strchr_def)
  obtain x where l: "l = before l ''#'' @ x"
    using strpbrk_SomeD [of l "''#''"] before_id [of l "''#''"] by (cases "strpbrk l ''#''") auto
  have "b = n \<or> b = n @ [NL] \<or> b = n @ [CHR 0x0D]"
    using q(2) append_butlast_last_id [of b] unfolding b_def [symmetric] rip_def by (metis (no_types))
  then show ?thesis using l r by (auto simp: is_prefix_append butlast_append)
qed

text \<open>The lines after a change, for any user.\<close>

lemma pw_find_append: "pw_find m (xs @ ys) = (case pw_find m xs of None \<Rightarrow> pw_find m ys | r \<Rightarrow> r)"
  by (induction xs) (auto split: option.split)

lemma pw_find_none: "list_all (\<lambda>l. pw_line m l = None) ls \<Longrightarrow> pw_find m ls = None"
  by (induction ls) auto

lemma pw_find_some: "list_all (\<lambda>l. pw_line m l = None \<or> pw_line m l = Some p) ls \<Longrightarrow> list_ex (\<lambda>l. pw_line m l \<noteq> None) ls \<Longrightarrow> pw_find m ls = Some p"
  by (induction ls) (auto split: option.split)

definition unread :: "string \<Rightarrow> string list \<Rightarrow> bool" where
  "unread n ls \<longleftrightarrow> list_all (\<lambda>l. \<not> is_prefix (n @ '':'') l \<longrightarrow> pw_line n l = None) ls"

definition new_line :: "string \<Rightarrow> string option \<Rightarrow> string list" where
  "new_line n pw = (case pw of None \<Rightarrow> [] | Some p \<Rightarrow> [n @ '':'' @ p @ [NL]])"

lemma pw_keep_Cons:
  "pw_keep n pw (l # ls) = (if l = [] \<or> hd l = NL then [] else if is_prefix (n @ '':'') l then new_line n pw else [l]) @ pw_keep n pw ls"
  by (auto simp: pw_keep_def new_line_def split: option.split)

lemma pw_line_skip: "l = [] \<or> hd l = NL \<Longrightarrow> pw_line m l = None"
  by (auto simp: pw_line_def Let_def)

lemma pw_find_new_line:
  assumes "pw_chars n" "CHR '':'' \<notin> set n" "n \<noteq> []" "pred_option good_pw pw"
  shows "pw_find m (new_line n pw) = (if m = n then pw else None)"
  using assms(4) by (cases pw) (auto simp: new_line_def pw_line_new [OF assms(1-3), simplified])

lemma pw_find_keep_other:
  assumes n: "pw_chars n" "CHR '':'' \<notin> set n" "n \<noteq> []" and p: "pred_option good_pw pw" and "m \<noteq> n"
  shows "pw_find m (pw_keep n pw ls) = pw_find m ls"
proof (induction ls)
  case (Cons l ls)
  have "pw_line m l = None" if "is_prefix (n @ '':'') l"
    using that pw_line_prefix [OF n, of m] assms(5) by (auto simp: is_prefix_append)
  with Cons pw_find_new_line [OF n p] assms(5) show ?case
    by (auto simp: pw_keep_Cons pw_find_append pw_line_skip split: option.split)
qed (simp add: pw_keep_def)

lemma pw_find_keep_same:
  assumes n: "pw_chars n" "CHR '':'' \<notin> set n" "n \<noteq> []" and p: "pred_option good_pw pw" and "unread n ls"
  shows "pw_find n (pw_keep n pw ls) = (if pw_changed n pw ls then pw else None)"
  using assms(5)
proof (induction ls)
  case (Cons l ls)
  have "\<not> is_prefix (n @ '':'') l" if "l = [] \<or> hd l = NL"
    using that n(1,3) by (cases n; cases l) (auto simp: pw_chars_def)
  with Cons pw_find_new_line [OF n p, of n] show ?case
    by (cases pw) (auto simp: pw_keep_Cons pw_find_append unread_def pw_changed_def split: option.split)
qed (simp add: pw_keep_def pw_changed_def)

lemma pw_find_new_lines:
  assumes n: "pw_chars n" "CHR '':'' \<notin> set n" "n \<noteq> []" and p: "pred_option good_pw pw" and "unread n ls"
  shows "pw_find m (pw_new_lines n pw ls) = (if m = n then pw else pw_find m ls)"
proof -
  have "pw_new_lines n pw ls = pw_keep n pw ls @ (if pw_changed n pw ls then [] else new_line n pw)"
    by (auto simp: pw_new_lines_def new_line_def pw_changed_def split: option.split)
  then show ?thesis
    using pw_find_keep_other [OF n p, of m ls] pw_find_keep_same [OF n p assms(5)] pw_find_new_line [OF n p, of m]
    by (auto simp: pw_find_append pw_changed_def split: option.split)
qed

text \<open>What is written is again a file of complete lines.\<close>

lemma pw_new_lines_text:
  assumes "pw_chars n" "length n \<le> 63" "pred_option good_pw pw" "list_all plain_line ls"
  shows "\<exists>ls'. list_all plain_line ls' \<and> pw_new_lines n pw (map (\<lambda>l. l @ [NL]) ls) = map (\<lambda>l. l @ [NL]) ls'"
proof -
  let ?T = "\<lambda>xs. \<exists>ls'. list_all plain_line ls' \<and> xs = map (\<lambda>l. l @ [NL]) ls'"
  have app: "?T (xs @ ys)" if "?T xs" "?T ys" for xs ys using that by (metis list_all_append map_append)
  have one: "?T [l @ [NL]]" if "plain_line l" for l using that by (intro exI [of _ "[l]"]) simp
  have nil: "?T []" by (intro exI [of _ "[]"]) simp
  have new: "?T (new_line n pw)"
    using assms(1-3) one [of "n @ '':'' @ p" for p] nil
    by (cases pw) (auto simp: new_line_def good_pw_def pw_chars_def plain_line_def)
  have "?T (pw_keep n pw (map (\<lambda>l. l @ [NL]) ls))"
    using assms(4)
  proof (induction ls)
    case (Cons l ls)
    then show ?case unfolding list.map pw_keep_Cons by (intro app) (use new one nil in auto)
  qed (use nil in \<open>simp add: pw_keep_def\<close>)
  with new nil have "?T (pw_keep n pw (map (\<lambda>l. l @ [NL]) ls) @ (if b then [] else new_line n pw))" for b
    by (intro app) auto
  moreover have "pw_new_lines n pw xs = pw_keep n pw xs @ (if pw_changed n pw xs then [] else new_line n pw)" for xs
    by (auto simp: pw_new_lines_def new_line_def pw_changed_def split: option.split)
  ultimately show ?thesis by metis
qed

lemma unread_text:
  assumes "pw_chars n" "list_all plain_line ls" "list_all (\<lambda>l. \<not> is_prefix (n @ [CHR 0x0D] @ '':'') l) ls"
  shows "unread n (map (\<lambda>l. l @ [NL]) ls)"
proof -
  have cr: "is_prefix (n @ [CHR 0x0D] @ '':'') l" if "is_prefix (n @ [CHR 0x0D] @ '':'') (l @ [NL])" for l
  proof -
    from that obtain t where "l @ [NL] = (n @ [CHR 0x0D] @ '':'') @ t" by (auto simp: is_prefix_append)
    then show ?thesis by (cases t rule: rev_cases) (auto simp: is_prefix_append)
  qed
  have "pw_line n (l @ [NL]) = None" if "l \<in> set ls" "\<not> is_prefix (n @ '':'') (l @ [NL])" for l
    using that pw_line_name [OF _ assms(1), of "l @ [NL]"] assms(2,3) cr [of l]
    by (cases "pw_line n (l @ [NL])") (auto simp: list_all_iff plain_line_def)
  then show ?thesis by (auto simp: unread_def list_all_iff)
qed

text \<open>C30: The password file is a map from names to passwords: in a file of complete lines, setting or
  deleting the password of a user succeeds, is what is read for every name that is tidied to the same
  one afterwards, and leaves what is read for every other name as it was.\<close>

theorem update_password_map:
  assumes "pw_name u = Some n" "pw_name v = Some m" "pw_chars n" "pred_option good_pw pw"
    and "list_all plain_line ls" "list_all (\<lambda>l. \<not> is_prefix (n @ [CHR 0x0D] @ '':'') l) ls"
    and "lock_ok io" "tmp_ok io" "\<forall>k. write_ok io k" "rename_ok io"
  shows "fst (update_password io u pw (Some (pw_text ls))) = 0 \<and>
     read_password v (snd (update_password io u pw (Some (pw_text ls)))) =
       (if m = n then pw else read_password v (Some (pw_text ls)))"
proof -
  let ?L = "map (\<lambda>l. l @ [NL]) ls"
  have n: "CHR '':'' \<notin> set n" "n \<noteq> []" "length n \<le> 63"
    using pw_name_no_colon [OF assms(1)] assms(1) by (auto simp: pw_name_def Let_def split: if_splits)
  obtain ls' where ls': "list_all plain_line ls'" "pw_new_lines n pw ?L = map (\<lambda>l. l @ [NL]) ls'"
    using pw_new_lines_text [OF assms(3) n(3) assms(4,5)] by blast
  have up: "update_password io u pw (Some (pw_text ls)) = (0, Some (pw_text ls'))"
    using assms ls'(2) by (simp add: update_password_def change_password_file_def pw_lines_def fgets_lines_text pw_text_def [of ls']
      list_all_iff)
  have rd: "read_password v (Some (pw_text xs)) = pw_find m (map (\<lambda>l. l @ [NL]) xs)" if "list_all plain_line xs" for xs
    using assms(2) that by (simp add: read_password_def change_password_file_def pw_lines_def fgets_lines_text)
  show ?thesis
    using pw_find_new_lines [OF assms(3) n(1,2) assms(4) unread_text [OF assms(3,5,6)], of m] ls' rd assms(5)
    by (simp add: up)
qed

theorem update_password_map_witness:
  "read_password ''dl9sau''
     (snd (update_password \<lparr>lock_ok = True, tmp_ok = True, write_ok = (\<lambda>_. True), rename_ok = True\<rparr>
        ''dl9sau-8'' (Some ''secret'') (Some (pw_text [''db0tud:x'', ''dl9sau:old'']))))
   = Some ''secret''"
proof -
  let ?io = "\<lparr>lock_ok = True, tmp_ok = True, write_ok = (\<lambda>_. True), rename_ok = True\<rparr>"
  have n: "pw_name ''dl9sau-8'' = Some ''dl9sau''" "pw_name ''dl9sau'' = Some ''dl9sau''" by code_simp+
  have c: "pw_chars ''dl9sau''" "pred_option good_pw (Some ''secret'')"
    by (simp_all add: pw_chars_def good_pw_def isspace_def)
  have l: "list_all plain_line [''db0tud:x'', ''dl9sau:old'']"
    "list_all (\<lambda>l. \<not> is_prefix (''dl9sau'' @ [CHR 0x0D] @ '':'') l) [''db0tud:x'', ''dl9sau:old'']"
    by (simp_all add: plain_line_def)
  show ?thesis using update_password_map [OF n c l, of ?io] by simp
qed

end
