(* ===== verification/Noflood.thy ===== *)
theory Noflood
  imports Channels
begin

text \<open>
  The first half of \<^verbatim>\<open>noflood.c\<close>: the list of banned users with its announcements and expiry,
  the static user entries that outlive a session, and the rate limit. The flood checks that send
  messages themselves are in the theory of flood checks.

  A ban is identified by its name without case and SSID (\<^verbatim>\<open>get_tidy_name\<close>).
\<close>

section \<open>Bans\<close>

abbreviation (input) "DO_BAN \<equiv> (1 :: nat)"
abbreviation (input) "ANNOUNCE_BAN \<equiv> (2 :: nat)"
abbreviation (input) "ACCEPT_BAN \<equiv> (4 :: nat)"

definition send_ban :: "env \<Rightarrow> cid \<Rightarrow> ban_list \<Rightarrow> world \<Rightarrow> world" where
  "send_ban E i bl w =
     (case conn w i of
        None \<Rightarrow> w
      | Some cp \<Rightarrow>
          if bl_until bl < w_currtime w + 60 then w
          else
            let minutes = cdiv (bl_until bl - w_currtime w) 60 in
            if c_type cp = CT_HOST then
              if \<not> flag (FeatureBAN (w_cfg w)) ANNOUNCE_BAN then w
              else appendstring E i
                     (SL @ ''BAN '' @ bl_name bl @ '' '' @ bl_announced_from bl @ '' '' @
                      dec (bl_time_refreshed bl) @ '' '' @ dec minutes @ '' '' @ bl_reason bl @ [NL]) w
            else append_general_notice E i
                   (''*** ('' @ w_ts2 E w @ '') Banned '' @ bl_name bl @ '' for '' @
                    ts3 (bl_until bl - w_currtime w) @ '': '' @ bl_reason bl @ [NL]) w)"

definition announce_banned_users :: "env \<Rightarrow> cid \<Rightarrow> world \<Rightarrow> world" where
  "announce_banned_users E i w = fold (\<lambda>bl. send_ban E i bl) (w_banned_users w) w"

definition find_ban :: "string \<Rightarrow> world \<Rightarrow> ban_list option" where
  "find_ban name w = find (\<lambda>bl. strcaseeq (bl_name bl) name) (w_banned_users w)"

definition upd_ban :: "string \<Rightarrow> (ban_list \<Rightarrow> ban_list) \<Rightarrow> world \<Rightarrow> world" where
  "upd_ban name f w =
     w\<lparr>w_banned_users := update_first (\<lambda>bl. strcaseeq (bl_name bl) name) f (w_banned_users w)\<rparr>"

definition announce_ban :: "env \<Rightarrow> string \<Rightarrow> world \<Rightarrow> world" where
  "announce_ban E name w =
     (case find_ban name w of
        None \<Rightarrow> w
      | Some bl \<Rightarrow>
          if w_currtime w < bl_announce_next bl then w
          else
            for_connections (\<lambda>p.
              if (c_type p = CT_HOST \<and> \<not> c_locked p) \<or>
                 (c_type p = CT_USER \<and> c_operator p \<noteq> 0 \<and> (\<not> c_ircmode p \<or> c_verbose p))
              then send_ban E (c_id p) bl else id)
            (upd_ban name (\<lambda>b. b\<lparr>bl_announce_next := w_currtime w + BanTime (w_cfg w) * 60\<rparr>) w))"

definition free_sul_delayqueue :: "nat \<Rightarrow> world \<Rightarrow> world" where
  "free_sul_delayqueue k = upd_sul k (\<lambda>s. s\<lparr>s_delayqueue := [], s_delayqueue_len := 0\<rparr>)"

text \<open>Lines 133 to 161: the entry is made if there is none, then filled in.\<close>

definition record_ban :: "string \<Rightarrow> string \<Rightarrow> int \<Rightarrow> int \<Rightarrow> string \<Rightarrow> world \<Rightarrow> world" where
  "record_ban name announced_from when minutes reason w =
     (let w = (case find_ban name w of
                 Some bl \<Rightarrow> w
               | None \<Rightarrow>
                   w\<lparr>w_banned_users :=
                       \<lparr>bl_name = take NAMESIZE name, bl_announced_from = [], bl_reason = [], bl_time = when,
                        bl_time_refreshed = when, bl_announce_next = w_currtime w, bl_until = 0\<rparr> # w_banned_users w,
                     w_ban_statistic_bans := w_ban_statistic_bans w + 1,
                     w_ban_statistic_last := (name, announced_from, reason, w_currtime w)\<rparr>)
      in upd_ban name (\<lambda>bl. bl\<lparr>bl_announced_from := take NAMESIZE announced_from, bl_reason := take 63 reason,
                               bl_time_refreshed := when,
                               bl_until := (if minutes \<noteq> 0 then w_currtime w + minutes * 60 else 0)\<rparr>) w)"

definition ban_user :: "env \<Rightarrow> string \<Rightarrow> string \<Rightarrow> nat option \<Rightarrow> int \<Rightarrow> int \<Rightarrow> string \<Rightarrow> world \<Rightarrow> world" where
  "ban_user E user announced_from sulp when minutes reason w =
     (let name = get_tidy_name (Some user) in
      if name = [] \<or> strcaseeq name ''conversd'' then w
      else
        let minutes = (if minutes < 1 then (if minutes < 0 then 0 else BanTime (w_cfg w)) else minutes);
            w = record_ban name announced_from when minutes reason w;
            w = (case sulp of None \<Rightarrow> w | Some k \<Rightarrow> free_sul_delayqueue k w)
        in announce_ban E name w)"

definition is_banned :: "string \<Rightarrow> world \<Rightarrow> ban_list option" where
  "is_banned n w =
     (if FeatureBAN (w_cfg w) = 0 then None else find_ban (get_tidy_name (Some n)) w)"

definition ban_active :: "int \<Rightarrow> ban_list \<Rightarrow> bool" where
  "ban_active now bl \<longleftrightarrow> bl_until bl = 0 \<or> now < bl_until bl"

text \<open>The entries that stay are announced in list order, the others leave the list; no announcement
  reads or changes another entry.\<close>

definition expire_banlist :: "env \<Rightarrow> world \<Rightarrow> world" where
  "expire_banlist E w =
     (if \<not> runs ''expire_banlist'' 60 w then w
      else
        let now = w_currtime w;
            w = fold (\<lambda>bl. announce_ban E (bl_name bl)) (filter (ban_active now) (w_banned_users w)) w
        in ran ''expire_banlist'' (w\<lparr>w_banned_users := filter (ban_active now) (w_banned_users w)\<rparr>))"

definition check_user_banned :: "env \<Rightarrow> cid \<Rightarrow> string \<Rightarrow> world \<Rightarrow> bool \<times> world" where
  "check_user_banned E i cmd w =
     (case conn w i of
        None \<Rightarrow> (False, w)
      | Some cp \<Rightarrow>
          if c_operator cp \<noteq> 0 then (False, w)
          else case is_banned (c_name cp) w of
            None \<Rightarrow> (False, w)
          | Some bl \<Rightarrow>
              (True, appendstring E i
                 (if \<not> c_ircmode cp
                  then ''*** ('' @ w_ts2 E w @ '') You are banned ('' @ bl_reason bl @
                       ''). Please wait a while and try again.'' @ [NL]
                  else '':'' @ myhostname (w_cfg w) @ '' 263 '' @ cmd @ '' '' @
                       (if c_nickname cp \<noteq> [] then c_nickname cp else ''*'') @ '' :You are banned ('' @ bl_reason bl @
                       ''). Please wait and try a gain.'' @ [NL]) w))"

section \<open>Static user entries\<close>

abbreviation (input) "SUL_CMD_MAX \<equiv> (10 :: nat)"
abbreviation (input) "SUL_AWAY \<equiv> (1 :: nat)"
abbreviation (input) "SUL_INVI \<equiv> (2 :: nat)"
abbreviation (input) "SUL_JOIN \<equiv> (3 :: nat)"
abbreviation (input) "SUL_MODE \<equiv> (4 :: nat)"
abbreviation (input) "SUL_NICK \<equiv> (5 :: nat)"
abbreviation (input) "SUL_PERS \<equiv> (6 :: nat)"
abbreviation (input) "SUL_TOPIC \<equiv> (7 :: nat)"

definition sul_cmd_names :: "string list" where
  "sul_cmd_names = [''unknown'', ''away'', ''invite'', ''join'', ''mode'', ''nick'', ''pers'', ''topic'',
     ''spam'', ''games'']"

definition get_sul :: "string \<Rightarrow> cid option \<Rightarrow> world \<Rightarrow> static_user_list option" where
  "get_sul user via w =
     (let name = take NAMESIZE (get_tidy_name (Some user)) in
      find (\<lambda>s. s_via s = via \<and> strcaseeq (s_name s) name) (w_static_users w))"

definition relink_sul :: "connection \<Rightarrow> world \<Rightarrow> world" where
  "relink_sul cp w =
     w\<lparr>w_static_users := map (\<lambda>s. if strcaseeq (s_host s) (c_name cp) then s\<lparr>s_via := Some (c_id cp)\<rparr> else s)
         (w_static_users w)\<rparr>"

definition free_sul_sp :: "cid \<Rightarrow> world \<Rightarrow> world" where
  "free_sul_sp i w =
     (case conn w i of
        None \<Rightarrow> w
      | Some cp \<Rightarrow>
          (case c_sul cp of
             None \<Rightarrow> w\<lparr>w_fault := True\<rparr>
           | Some k \<Rightarrow>
               if sul w k = None then w\<lparr>w_fault := True\<rparr>
               else upd_sul k (\<lambda>s. s\<lparr>s_sp := remove1 i (s_sp s)\<rparr>) w))"

definition new_sul :: "nat \<Rightarrow> string \<Rightarrow> connection option \<Rightarrow> world \<Rightarrow> static_user_list" where
  "new_sul k name via w =
     \<lparr>s_id = k, s_name = take NAMESIZE name,
      s_host = take NAMESIZE (case via of None \<Rightarrow> myhostname (w_cfg w) | Some v \<Rightarrow> c_name v),
      s_last_updated = 0, s_stop_process_until = w_currtime w,
      s_time_nextcmd = replicate SUL_CMD_MAX (w_currtime w - int (SulCmdDelay (w_cfg w))),
      s_num_floods = replicate SUL_CMD_MAX 0, s_via = map_option c_id via, s_sp = [],
      s_delayqueue = [], s_delayqueue_len = 0\<rparr>"

definition refresh_sul :: "connection option \<Rightarrow> world \<Rightarrow> static_user_list \<Rightarrow> static_user_list" where
  "refresh_sul via w s =
     (let delay = int (SulCmdDelay (w_cfg w)); now = w_currtime w;
          s = (case via of
                 Some v \<Rightarrow> if s_via s = None then s\<lparr>s_via := Some (c_id v), s_host := take NAMESIZE (c_name v)\<rparr> else s
               | None \<Rightarrow> s)
      in s\<lparr>s_num_floods := map (\<lambda>n. if n \<noteq> 0 then n - 1 else n) (s_num_floods s),
           s_time_nextcmd := map (\<lambda>t. if t \<le> now + delay then now - delay else t) (s_time_nextcmd s)\<rparr>)"

definition generate_sul :: "cid \<Rightarrow> cid option \<Rightarrow> nat option \<Rightarrow> world \<Rightarrow> world" where
  "generate_sul i via oldsul w =
     (case conn w i of
        None \<Rightarrow> w
      | Some cp \<Rightarrow>
          let via_p = (case via of None \<Rightarrow> None | Some v \<Rightarrow> conn w v);
              name = (if c_name cp = [] then ''[login]''
                      else if strcaseeq (c_name cp) ''conversd'' then ''[unknown]''
                      else take NAMESIZE (get_tidy_name (Some (c_name cp))));
              (k, w) = (case get_sul name via w of
                  None \<Rightarrow> (w_next_sid w, w\<lparr>w_static_users := new_sul (w_next_sid w) name via_p w # w_static_users w,
                                          w_next_sid := w_next_sid w + 1\<rparr>)
                | Some s \<Rightarrow> (s_id s, upd_sul (s_id s) (refresh_sul via_p w) w));
              w = (case sul w k of
                  Some s \<Rightarrow> if s_via s = None \<and> c_type cp = CT_HOST then relink_sul cp w else w
                | None \<Rightarrow> w);
              w = (case oldsul of
                  None \<Rightarrow> w
                | Some old \<Rightarrow>
                    (case (sul w k, sul w old) of
                       (Some s, Some s') \<Rightarrow>
                         free_sul_sp i
                           (if s_stop_process_until s > s_stop_process_until s'
                            then upd_sul old (\<lambda>x. x\<lparr>s_stop_process_until := s_stop_process_until s\<rparr>) w
                            else upd_sul k (\<lambda>x. x\<lparr>s_stop_process_until := s_stop_process_until s'\<rparr>) w)
                     | _ \<Rightarrow> w))
          in upd_conn i (\<lambda>c. c\<lparr>c_sul := Some k\<rparr>)
               (upd_sul k (\<lambda>s. s\<lparr>s_sp := i # s_sp s, s_last_updated := w_currtime w\<rparr>) w))"

text \<open>One turn of the loop of line 392: the flag \<open>keep\<close> and the entry.\<close>

definition expire_timer :: "world \<Rightarrow> nat \<Rightarrow> bool \<times> static_user_list \<Rightarrow> bool \<times> static_user_list" where
  "expire_timer w i ks =
     (case ks of (keep, s) \<Rightarrow>
        let old = (s_time_nextcmd s ! i + int (SulLifeTime (w_cfg w)) < w_currtime w) in
        if s_num_floods s ! i \<noteq> 0 then
          if old then (True, s\<lparr>s_num_floods := (s_num_floods s)[i := 0], s_last_updated := w_currtime w\<rparr>) else ks
        else if old then (keep, s\<lparr>s_time_nextcmd := (s_time_nextcmd s)[i := w_currtime w]\<rparr>) else ks)"

definition expire_one_sul :: "world \<Rightarrow> static_user_list \<Rightarrow> static_user_list option" where
  "expire_one_sul w s =
     (let keep = (s_sp s \<noteq> []);
          s = (if s_sp s = [] \<and> s_delayqueue s \<noteq> [] then s\<lparr>s_delayqueue := [], s_delayqueue_len := 0\<rparr> else s);
          (keep, s) = (if s_name s \<noteq> [] then
              if is_banned (s_name s) w \<noteq> None then (True, s\<lparr>s_last_updated := w_currtime w\<rparr>)
              else if w_currtime w < s_last_updated s + int (SulLifeTime (w_cfg w)) then (True, s)
              else (keep, s)
            else (keep, s));
          (keep, s) = fold (expire_timer w) [0..<SUL_CMD_MAX] (keep, s)
      in if keep then Some s else None)"

definition expire_sul :: "world \<Rightarrow> world" where
  "expire_sul w =
     (if \<not> runs ''expire_sul'' 60 w then w
      else ran ''expire_sul''
        (w\<lparr>w_static_users := List.map_filter (expire_one_sul w) (w_static_users w)\<rparr>))"

section \<open>Rate limit\<close>

text \<open>Line 443 as C reads it: the conditional binds weaker than the sum in front of it, so the
  length of the text only takes part in the comparison.\<close>

definition ratelimit :: "config \<Rightarrow> string \<Rightarrow> string \<Rightarrow> string \<Rightarrow> nat" where
  "ratelimit cfg name nickname s =
     (if 0 < RateLimitLine cfg then RateLimitLine cfg else 0) +
     (if 0 < RateLimitContent cfg then
        (if 9 < length s + length name then length name
         else 0 + (if \<not> strcaseeq name nickname
                   then (if 9 < length nickname then 2 * length nickname else length nickname) else 0))
        div RateLimitContent cfg
      else 0)"

definition update_ratelimit :: "nat option \<Rightarrow> string \<Rightarrow> string \<Rightarrow> string \<Rightarrow> world \<Rightarrow> world" where
  "update_ratelimit sulp name nickname s w =
     (case sulp of
        None \<Rightarrow> w
      | Some k \<Rightarrow>
          upd_sul k (\<lambda>x. x\<lparr>s_stop_process_until := s_stop_process_until x + int (ratelimit (w_cfg w) name nickname s)\<rparr>) w)"

section \<open>The ban list\<close>

interpretation ban: keyed "\<lambda>bl k. strcaseeq (bl_name bl) k" bl_name
  by unfold_locales (auto simp: strcaseeq_strlwr)

definition bans_ok :: "world \<Rightarrow> bool" where
  "bans_ok w \<longleftrightarrow> uniq_by (\<lambda>x y. strcaseeq (bl_name x) (bl_name y)) (w_banned_users w)"

lemma upd_ban_frame [simp, frame]:
  "w_connections (upd_ban n f w) = w_connections w" "w_currtime (upd_ban n f w) = w_currtime w"
  "w_cfg (upd_ban n f w) = w_cfg w"
  by (simp_all add: upd_ban_def)

lemma flowing_cong: "w_connections w' = w_connections w \<Longrightarrow> w_currtime w' = w_currtime w \<Longrightarrow> flowing w' = flowing w"
  by (simp add: flowing_def)

lemma sends_send_ban [inv_intros]: "flowing w \<Longrightarrow> sends w (send_ban E i bl w)"
  by (auto simp: send_ban_def Let_def intro: inv_intros split: option.split)

text \<open>An announcement sends, and notes when the next one is due.\<close>

lemma announce_ban_sends:
  assumes "flowing w"
  shows "sends (if (\<exists>bl. find_ban name w = Some bl \<and> bl_announce_next bl \<le> w_currtime w)
                then upd_ban name (\<lambda>b. b\<lparr>bl_announce_next := w_currtime w + BanTime (w_cfg w) * 60\<rparr>) w else w)
               (announce_ban E name w)"
proof (cases "find_ban name w")
  case None
  then show ?thesis using assms by (simp add: announce_ban_def sends_refl)
next
  case (Some bl)
  have fl: "flowing (upd_ban name f w)" for f using assms by (simp cong: flowing_cong)
  show ?thesis
  proof (cases "w_currtime w < bl_announce_next bl")
    case True
    then show ?thesis using Some assms by (simp add: announce_ban_def sends_refl)
  next
    case False
    then show ?thesis
      using Some fl by (auto simp: announce_ban_def id_def intro!: sends_for_connections inv_intros)
  qed
qed

lemma announce_ban_frame:
  assumes "flowing w"
  shows "flowing (announce_ban E name w)" "w_currtime (announce_ban E name w) = w_currtime w"
    "w_cfg (announce_ban E name w) = w_cfg w" "w_last_run (announce_ban E name w) = w_last_run w"
    "w_static_users (announce_ban E name w) = w_static_users w"
    "\<exists>t. w_banned_users (announce_ban E name w) =
       update_first (\<lambda>bl. strcaseeq (bl_name bl) name) (\<lambda>b. b\<lparr>bl_announce_next := t b\<rparr>) (w_banned_users w)"
proof -
  note s = announce_ban_sends [OF assms, of name E]
  have id: "update_first P (\<lambda>b. b) xs = xs" for P and xs :: "ban_list list"
    by (induction xs) auto
  show "flowing (announce_ban E name w)" using s by (rule sends_flowing)
  show "w_currtime (announce_ban E name w) = w_currtime w" "w_cfg (announce_ban E name w) = w_cfg w"
    "w_last_run (announce_ban E name w) = w_last_run w"
    "w_static_users (announce_ban E name w) = w_static_users w"
    using sends_frame [OF s] by (auto simp: upd_ban_def split: if_splits)
  show "\<exists>t. w_banned_users (announce_ban E name w) =
       update_first (\<lambda>bl. strcaseeq (bl_name bl) name) (\<lambda>b. b\<lparr>bl_announce_next := t b\<rparr>) (w_banned_users w)"
  proof (cases "\<exists>bl. find_ban name w = Some bl \<and> bl_announce_next bl \<le> w_currtime w")
    case True
    then show ?thesis
      unfolding sends_frame(4) [OF s]
      by (intro exI [of _ "\<lambda>b. w_currtime w + BanTime (w_cfg w) * 60"]) (simp add: upd_ban_def)
  next
    case False
    then show ?thesis
      unfolding sends_frame(4) [OF s] if_not_P [OF False] by (intro exI [of _ bl_announce_next]) (simp add: id)
  qed
qed

lemma find_ban_announce:
  assumes "flowing w"
  shows "\<exists>t. find_ban k (announce_ban E name w) = map_option (\<lambda>b. b\<lparr>bl_announce_next := t b\<rparr>) (find_ban k w)"
proof -
  obtain t where t: "w_banned_users (announce_ban E name w) =
       update_first (\<lambda>bl. strcaseeq (bl_name bl) name) (\<lambda>b. b\<lparr>bl_announce_next := t b\<rparr>) (w_banned_users w)"
    using announce_ban_frame(6) [OF assms] by blast
  have id: "map_option (\<lambda>b. b\<lparr>bl_announce_next := bl_announce_next b\<rparr>) x = x" for x by (cases x) auto
  show ?thesis
  proof (cases "strcaseeq k name")
    case True
    then have eq: "(\<lambda>bl. strcaseeq (bl_name bl) k) = (\<lambda>bl. strcaseeq (bl_name bl) name)"
      by (simp add: fun_eq_iff strcaseeq_strlwr)
    show ?thesis unfolding find_ban_def t eq
      by (rule exI [of _ t], rule ban.find_update_same) simp
  next
    case False
    then have "find_ban k (announce_ban E name w) = find_ban k w"
      unfolding find_ban_def t by (intro ban.find_update_other) (auto simp: strcaseeq_strlwr)
    then show ?thesis using id by metis
  qed
qed

lemma bans_ok_announce [inv_intros]: "flowing w \<Longrightarrow> bans_ok w \<Longrightarrow> bans_ok (announce_ban E name w)"
  using announce_ban_frame(6) [of w E name] by (auto simp: bans_ok_def ban.uniq_update)


lemma find_ban_record:
  assumes "length name \<le> 63"
  shows "find_ban k (record_ban name from when m reason w) =
    (if strcaseeq k name
     then Some ((case find_ban name w of Some bl \<Rightarrow> bl
                 | None \<Rightarrow> \<lparr>bl_name = name, bl_announced_from = [], bl_reason = [], bl_time = when,
                        bl_time_refreshed = when, bl_announce_next = w_currtime w, bl_until = 0\<rparr>)
                \<lparr>bl_announced_from := take NAMESIZE from, bl_reason := take 63 reason, bl_time_refreshed := when,
                 bl_until := (if m \<noteq> 0 then w_currtime w + m * 60 else 0)\<rparr>)
     else find_ban k w)"
proof -
  have eq: "(\<lambda>bl. strcaseeq (bl_name bl) k) = (\<lambda>bl. strcaseeq (bl_name bl) name)" if "strcaseeq k name"
    using that by (simp add: fun_eq_iff strcaseeq_strlwr)
  have ne: "\<not> strcaseeq (bl_name bl) k" if "\<not> strcaseeq k name" "strcaseeq (bl_name bl) name" for bl
    using that by (simp add: strcaseeq_strlwr)
  show ?thesis
  proof (cases "find_ban name w")
    case None
    then show ?thesis
      using assms eq by (auto simp: record_ban_def upd_ban_def find_ban_def strcaseeq_sym [of name])
  next
    case (Some bl)
    have "find (\<lambda>bl. strcaseeq (bl_name bl) name) (w_banned_users (record_ban name from when m reason w)) =
        Some (bl\<lparr>bl_announced_from := take NAMESIZE from, bl_reason := take 63 reason, bl_time_refreshed := when,
                 bl_until := (if m \<noteq> 0 then w_currtime w + m * 60 else 0)\<rparr>)"
      using Some unfolding record_ban_def upd_ban_def find_ban_def
      by (subst Let_def) (simp add: ban.find_update_same)
    moreover have "find_ban k (record_ban name from when m reason w) = find_ban k w" if "\<not> strcaseeq k name"
      using Some unfolding record_ban_def upd_ban_def find_ban_def
      by (simp add: ban.find_update_other ne [OF that])
    ultimately show ?thesis
    proof (cases "strcaseeq k name")
      case True
      with Some \<open>find _ _ = Some _\<close> show ?thesis unfolding find_ban_def eq [OF True] by simp
    qed simp
  qed
qed

lemma bans_ok_record [inv_intros]:
  assumes "bans_ok w" "length name \<le> 63"
  shows "bans_ok (record_ban name from when m reason w)"
proof (cases "find_ban name w")
  case None
  then show ?thesis
    using assms ban.uniq_Cons [of "w_banned_users w"
        "\<lparr>bl_name = name, bl_announced_from = [], bl_reason = [], bl_time = when,
          bl_time_refreshed = when, bl_announce_next = w_currtime w, bl_until = 0\<rparr>"]
    by (simp add: record_ban_def upd_ban_def bans_ok_def find_ban_def)
next
  case (Some bl)
  then show ?thesis using assms by (simp add: record_ban_def upd_ban_def bans_ok_def ban.uniq_update)
qed

lemma record_ban_frame [simp]:
  "w_connections (record_ban name from when m reason w) = w_connections w"
  "w_currtime (record_ban name from when m reason w) = w_currtime w"
  "w_cfg (record_ban name from when m reason w) = w_cfg w"
  by (simp_all add: record_ban_def Let_def split: option.split)

lemma free_sul_delayqueue_frame [simp]:
  "w_connections (free_sul_delayqueue k w) = w_connections w" "w_currtime (free_sul_delayqueue k w) = w_currtime w"
  "w_cfg (free_sul_delayqueue k w) = w_cfg w" "w_banned_users (free_sul_delayqueue k w) = w_banned_users w"
  by (simp_all add: free_sul_delayqueue_def upd_sul_def)




section \<open>Bans end\<close>

definition ban_core :: "ban_list \<Rightarrow> ban_list" where
  "ban_core bl = bl\<lparr>bl_announce_next := 0\<rparr>"

lemma ban_core_simps [simp]:
  "bl_name (ban_core bl) = bl_name bl" "bl_until (ban_core bl) = bl_until bl"
  "ban_core (bl\<lparr>bl_announce_next := t\<rparr>) = ban_core bl" "ban_active now (ban_core bl) = ban_active now bl"
  by (simp_all add: ban_core_def ban_active_def)

lemma announce_fold:
  assumes "flowing w"
  shows "flowing (fold (\<lambda>bl. announce_ban E (bl_name bl)) xs w) \<and>
     map ban_core (w_banned_users (fold (\<lambda>bl. announce_ban E (bl_name bl)) xs w)) = map ban_core (w_banned_users w) \<and>
     w_currtime (fold (\<lambda>bl. announce_ban E (bl_name bl)) xs w) = w_currtime w \<and>
     w_cfg (fold (\<lambda>bl. announce_ban E (bl_name bl)) xs w) = w_cfg w"
  using assms
proof (induction xs arbitrary: w)
  case (Cons bl xs)
  obtain t where "w_banned_users (announce_ban E (bl_name bl) w) =
     update_first (\<lambda>b. strcaseeq (bl_name b) (bl_name bl)) (\<lambda>b. b\<lparr>bl_announce_next := t b\<rparr>) (w_banned_users w)"
    using announce_ban_frame(6) [OF Cons.prems] by blast
  then have "map ban_core (w_banned_users (announce_ban E (bl_name bl) w)) = map ban_core (w_banned_users w)"
    by (simp add: map_update_first)
  with Cons.IH [OF announce_ban_frame(1) [OF Cons.prems, of E "bl_name bl"]] show ?case
    using announce_ban_frame [OF Cons.prems, of E "bl_name bl"] by simp
qed simp

lemma find_map_core:
  "map_option ban_core (find (\<lambda>bl. strcaseeq (bl_name bl) k) xs) = find (\<lambda>bl. strcaseeq (bl_name bl) k) (map ban_core xs)"
  by (induction xs) auto

lemma filter_map_core: "map ban_core (filter (ban_active now) xs) = filter (ban_active now) (map ban_core xs)"
  by (induction xs) auto

lemma uniq_map_core:
  "uniq_by (\<lambda>x y. strcaseeq (bl_name x) (bl_name y)) (map ban_core xs) =
   uniq_by (\<lambda>x y. strcaseeq (bl_name x) (bl_name y)) xs"
  by (rule uniq_by_map) simp

lemma find_filter_uniq:
  assumes "uniq_by (\<lambda>x y. strcaseeq (bl_name x) (bl_name y)) xs"
  shows "find (\<lambda>bl. strcaseeq (bl_name bl) k) (filter P xs) =
     (case find (\<lambda>bl. strcaseeq (bl_name bl) k) xs of None \<Rightarrow> None | Some bl \<Rightarrow> if P bl then Some bl else None)"
  using assms
proof (induction xs)
  case (Cons x xs)
  have "find (\<lambda>bl. strcaseeq (bl_name bl) k) (filter P xs) = None" if "strcaseeq (bl_name x) k"
    using Cons.prems that by (auto simp: find_None_iff list_all_iff strcaseeq_strlwr)
  with Cons show ?case by auto
qed simp

text \<open>C11: The expiry run ends exactly the bans whose time has come: who was banned stays banned with
  the same reason and end as long as the end is in the future or the ban is for ever, and nobody
  is banned by it.\<close>

theorem expire_banlist_ends:
  assumes "flowing w" "bans_ok w" "runs ''expire_banlist'' 60 w"
  shows "bans_ok (expire_banlist E w) \<and>
     (\<forall>n. map_option ban_core (is_banned n (expire_banlist E w)) =
          (case is_banned n w of
             None \<Rightarrow> None
           | Some bl \<Rightarrow> if bl_until bl = 0 \<or> w_currtime w < bl_until bl then Some (ban_core bl) else None))"
proof -
  let ?now = "w_currtime w"
  define v where "v = fold (\<lambda>bl. announce_ban E (bl_name bl)) (filter (ban_active ?now) (w_banned_users w)) w"
  note av = announce_fold [OF assms(1), of E "filter (ban_active ?now) (w_banned_users w)", folded v_def]
  define l where "l = filter (ban_active ?now) (w_banned_users v)"
  have e: "w_banned_users (expire_banlist E w) = l" "w_cfg (expire_banlist E w) = w_cfg w"
    using assms(3) av by (simp_all add: expire_banlist_def v_def [symmetric] l_def ran_def Let_def)
  have core: "map ban_core l = map ban_core (filter (ban_active ?now) (w_banned_users w))"
    using av unfolding l_def filter_map_core by simp
  have u: "uniq_by (\<lambda>x y. strcaseeq (bl_name x) (bl_name y)) (w_banned_users w)"
    using assms(2) by (simp add: bans_ok_def)
  have "bans_ok (expire_banlist E w)"
    unfolding bans_ok_def e(1) uniq_map_core [of l, symmetric] core uniq_map_core
    by (rule uniq_by_filter [OF u])
  moreover have "map_option ban_core (is_banned n (expire_banlist E w)) =
          (case is_banned n w of None \<Rightarrow> None
           | Some bl \<Rightarrow> if bl_until bl = 0 \<or> ?now < bl_until bl then Some (ban_core bl) else None)" for n
  proof -
    have "map_option ban_core (find_ban k (expire_banlist E w)) =
        map_option ban_core (find (\<lambda>bl. strcaseeq (bl_name bl) k) (filter (ban_active ?now) (w_banned_users w)))" for k
      unfolding find_ban_def e(1) find_map_core core ..
    then show ?thesis
      using find_filter_uniq [OF u]
      by (auto simp: is_banned_def e(2) find_ban_def ban_active_def split: option.split)
  qed
  ultimately show ?thesis by blast
qed

theorem expire_banlist_ends_witness:
  "\<forall>E. is_banned ''dl9sau'' (expire_banlist E ((boot_world ''db0tud'' 1000)\<lparr>w_banned_users :=
      [\<lparr>bl_name = ''dl9sau'', bl_announced_from = ''db0tud'', bl_reason = ''flood'', bl_time = 500,
        bl_time_refreshed = 500, bl_announce_next = 5000, bl_until = 900\<rparr>]\<rparr>)) = None"
proof
  fix E
  let ?w = "(boot_world ''db0tud'' 1000)\<lparr>w_banned_users :=
      [\<lparr>bl_name = ''dl9sau'', bl_announced_from = ''db0tud'', bl_reason = ''flood'', bl_time = 500,
        bl_time_refreshed = 500, bl_announce_next = 5000, bl_until = 900\<rparr>]\<rparr>"
  have t: "get_tidy_name (Some ''dl9sau'') = ''dl9sau''"
    by (simp add: get_tidy_name_def tidy_id set_separators)
  have "flowing ?w" "bans_ok ?w" "runs ''expire_banlist'' 60 ?w" "FeatureBAN (w_cfg ?w) \<noteq> 0" "w_currtime ?w = 1000"
    by (simp_all add: flowing_def bans_ok_def boot_world_def default_config_def runs_def)
  with expire_banlist_ends [of ?w E] show "is_banned ''dl9sau'' (expire_banlist E ?w) = None"
    by (auto simp: is_banned_def find_ban_def t dest!: spec [of _ "''dl9sau''"] split: if_splits)
qed

section \<open>The rate limit ignores the text\<close>

text \<open>What a message costs does not depend on its length once the name and the text together
  have ten characters: a text of 750 characters is charged like one of ten.\<close>

theorem ratelimit_ignores_text:
  assumes "9 < length s + length name" "9 < length s' + length name"
  shows "ratelimit cfg name nickname s = ratelimit cfg name nickname s'"
  using assms by (simp add: ratelimit_def)

theorem ratelimit_ignores_text_witness:
  "ratelimit (default_config ''db0tud'') ''dl9sau'' ''thomas'' ''hello'' =
   ratelimit (default_config ''db0tud'') ''dl9sau'' ''thomas'' (replicate 750 (CHR ''x''))"
  by (rule ratelimit_ignores_text) simp_all

section \<open>Static user entries in use stay\<close>

lemma expire_timers_frame:
  "s_id (snd (fold (expire_timer w) is (keep, s))) = s_id s \<and>
   s_sp (snd (fold (expire_timer w) is (keep, s))) = s_sp s \<and>
   s_delayqueue (snd (fold (expire_timer w) is (keep, s))) = s_delayqueue s \<and>
   (keep \<longrightarrow> fst (fold (expire_timer w) is (keep, s)))"
proof (induction "is" arbitrary: keep s)
  case (Cons i is')
  obtain keep' s' where e: "expire_timer w i (keep, s) = (keep', s')" by force
  then have "s_id s' = s_id s" "s_sp s' = s_sp s" "s_delayqueue s' = s_delayqueue s" "keep \<longrightarrow> keep'"
    by (auto simp: expire_timer_def Let_def split: if_splits)
  with Cons [of keep' s'] e show ?case by (cases keep) simp_all
qed simp

text \<open>The entry that the timers start from: the flag \<open>keep\<close> and the entry after line 391.\<close>

lemma expire_one_sul_fold:
  "\<exists>keep s1. expire_one_sul w s =
     (let r = fold (expire_timer w) [0..<SUL_CMD_MAX] (keep, s1) in if fst r then Some (snd r) else None) \<and>
   s_id s1 = s_id s \<and> s_sp s1 = s_sp s \<and> (s_sp s \<noteq> [] \<longrightarrow> keep \<and> s_delayqueue s1 = s_delayqueue s) \<and>
   (is_banned (s_name s) w \<noteq> None \<and> s_name s \<noteq> [] \<longrightarrow> keep)"
proof -
  define s0 where "s0 = (if s_sp s = [] \<and> s_delayqueue s \<noteq> [] then s\<lparr>s_delayqueue := [], s_delayqueue_len := 0\<rparr> else s)"
  define k1 where "k1 = (if s_name s0 \<noteq> [] then
              if is_banned (s_name s0) w \<noteq> None then (True, s0\<lparr>s_last_updated := w_currtime w\<rparr>)
              else if w_currtime w < s_last_updated s0 + int (SulLifeTime (w_cfg w)) then (True, s0)
              else (s_sp s \<noteq> [], s0)
            else (s_sp s \<noteq> [], s0))"
  have "expire_one_sul w s = (let r = fold (expire_timer w) [0..<SUL_CMD_MAX] (fst k1, snd k1) in if fst r then Some (snd r) else None)"
    unfolding expire_one_sul_def s0_def [symmetric] k1_def [symmetric] Let_def
    by (simp split: prod.split)
  moreover have "s_id (snd k1) = s_id s \<and> s_sp (snd k1) = s_sp s" "s_sp s \<noteq> [] \<Longrightarrow> fst k1 \<and> s_delayqueue (snd k1) = s_delayqueue s"
    "is_banned (s_name s) w \<noteq> None \<Longrightarrow> s_name s \<noteq> [] \<Longrightarrow> fst k1"
    by (auto simp: k1_def s0_def)
  ultimately show ?thesis by blast
qed

lemma expire_one_in_use:
  assumes "s_sp s \<noteq> []"
  shows "\<exists>s'. expire_one_sul w s = Some s' \<and> s_id s' = s_id s \<and> s_sp s' = s_sp s \<and> s_delayqueue s' = s_delayqueue s"
proof -
  obtain keep s1 where e: "keep" "expire_one_sul w s =
     (let r = fold (expire_timer w) [0..<SUL_CMD_MAX] (keep, s1) in if fst r then Some (snd r) else None)"
    "s_id s1 = s_id s" "s_sp s1 = s_sp s" "s_delayqueue s1 = s_delayqueue s"
    using expire_one_sul_fold [of w s] assms by blast
  then show ?thesis
    using expire_timers_frame [of w "[0..<SUL_CMD_MAX]" keep s1] by (simp add: Let_def del: upt_rec_numeral)
qed

lemma expire_one_id:
  assumes "expire_one_sul w s = Some s'"
  shows "s_id s' = s_id s"
proof -
  obtain keep s1 where e: "expire_one_sul w s =
     (let r = fold (expire_timer w) [0..<SUL_CMD_MAX] (keep, s1) in if fst r then Some (snd r) else None)"
    "s_id s1 = s_id s"
    using expire_one_sul_fold [of w s] by blast
  then show ?thesis
    using assms expire_timers_frame [of w "[0..<SUL_CMD_MAX]" keep s1]
    by (auto simp: Let_def simp del: upt_rec_numeral split: if_splits)
qed

lemma find_map_filter_id:
  assumes "\<And>x y. f x = Some y \<Longrightarrow> g y = g x" "find (\<lambda>x. g x = k) xs = Some x" "f x = Some y"
  shows "find (\<lambda>x. g x = k) (List.map_filter f xs) = Some y"
  using assms(2)
proof (induction xs)
  case (Cons z zs)
  then show ?case
    using assms(1) [of z] assms(3) assms(1) [of x y]
    by (auto simp: List.map_filter_simps split: if_splits option.split)
qed simp

text \<open>The static user entry of a user with a session, local or remote, outlives every expiry
  run, with its sessions and its queue of delayed messages as they were.\<close>

theorem expire_sul_keeps_used:
  assumes "sul w k = Some s" "s_sp s \<noteq> []"
  shows "\<exists>s'. sul (expire_sul w) k = Some s' \<and> s_sp s' = s_sp s \<and> s_delayqueue s' = s_delayqueue s"
proof (cases "runs ''expire_sul'' 60 w")
  case True
  obtain s' where s': "expire_one_sul w s = Some s'" "s_sp s' = s_sp s" "s_delayqueue s' = s_delayqueue s"
    using expire_one_in_use [OF assms(2)] by blast
  have "find (\<lambda>x. s_id x = k) (List.map_filter (expire_one_sul w) (w_static_users w)) = Some s'"
    by (rule find_map_filter_id [OF expire_one_id]) (use assms(1) s'(1) in \<open>simp_all add: sul_def\<close>)
  with s' True show ?thesis by (simp add: expire_sul_def sul_def ran_def)
qed (use assms in \<open>simp add: expire_sul_def\<close>)

theorem expire_sul_keeps_used_witness:
  "\<exists>s'. sul (expire_sul ((boot_world ''db0tud'' 100000)\<lparr>w_static_users :=
      [(new_sul 7 ''dl9sau'' None (boot_world ''db0tud'' 1000))\<lparr>s_sp := [3]\<rparr>]\<rparr>)) 7 = Some s' \<and> s_sp s' = [3]"
  using expire_sul_keeps_used [of "(boot_world ''db0tud'' 100000)\<lparr>w_static_users :=
      [(new_sul 7 ''dl9sau'' None (boot_world ''db0tud'' 1000))\<lparr>s_sp := [3]\<rparr>]\<rparr>" 7
      "(new_sul 7 ''dl9sau'' None (boot_world ''db0tud'' 1000))\<lparr>s_sp := [3]\<rparr>"]
  by (auto simp: sul_def new_sul_def)

end
