(* ===== verification/Messages.thy ===== *)
theory Messages
  imports Routing Noflood
begin

text \<open>
  The delivery of messages (\<^verbatim>\<open>conversd.c\<close>): to a user, to a channel, and the notices of away
  texts, modes, operators, topics and servers. A message for users behind a neighbour goes over the
  link of the neighbour once: the link is locked by the first copy, and the link a message came
  from is locked before.

  A text longer than its limit is cut in the caller's buffer; here the operation cuts its own
  argument. A function that calls itself for an answer does so with the sender \<^verbatim>\<open>conversd\<close>, for
  which it does not call itself again: the answer is a definition of its own.
\<close>

section \<open>Filters\<close>

abbreviation (input) "MSG_PRIV_USER \<equiv> (1 :: nat)"
abbreviation (input) "MSG_CHAN_USER \<equiv> (2 :: nat)"
abbreviation (input) "MSG_PRIV_CONV \<equiv> (4 :: nat)"
abbreviation (input) "MSG_CHAN_CONV \<equiv> (6 :: nat)"
abbreviation (input) "MSG_USER_FILT \<equiv> (8 :: nat)"

definition send_filter_msg :: "env \<Rightarrow> string \<Rightarrow> string \<Rightarrow> int \<Rightarrow> string \<Rightarrow> world \<Rightarrow> world" where
  "send_filter_msg E fromname hostname time filt =
     for_connections (\<lambda>cp w.
       if c_type cp = CT_HOST \<and> \<not> c_locked cp \<and> flag (c_features cp) FEATURE_FILTER
       then lock_conn (c_id cp) (appendstring E (c_id cp)
              (SL @ ''FILT '' @ dec time @ '' '' @ fromname @ '' '' @ hostname @ '' '' @ filt @ [NL]) w)
       else w)"

text \<open>\<^verbatim>\<open>sscanf(text, "*** %s ", buffer)\<close> as far as the buffer goes.\<close>

definition scan_sender :: "string \<Rightarrow> string" where
  "scan_sender s =
     (if is_prefix ''***'' s
      then takeWhile (\<lambda>c. \<not> isspace c) (dropWhile isspace (drop 3 s)) else [])"

text \<open>The words of a line as \<^verbatim>\<open>getarg\<close> returns them one after the other.\<close>

function arg_words :: "string \<Rightarrow> string list" where
  "arg_words line =
     (let (arg, rest) = getarg line False in if arg = [] then [] else arg # arg_words rest)"
  by pat_completeness auto

lemma getarg_shorter: "getarg line False = (arg, rest) \<Longrightarrow> arg \<noteq> [] \<Longrightarrow> length rest < length line"
proof -
  assume "getarg line False = (arg, rest)" "arg \<noteq> []"
  then have a: "strlwr (takeWhile (\<lambda>c. \<not> isspace c) (dropWhile isspace line)) \<noteq> []"
    and r: "rest = tl (dropWhile (\<lambda>c. \<not> isspace c) (dropWhile isspace line))"
    by (auto simp: getarg_def Let_def)
  have "length (dropWhile (\<lambda>c. \<not> isspace c) (dropWhile isspace line)) < length (dropWhile isspace line)"
    using a by (cases "dropWhile isspace line") (auto simp: strlwr_def length_dropWhile_le less_Suc_eq_le split: if_splits)
  then show ?thesis using r length_dropWhile_le [of isspace line] by auto
qed

termination arg_words
  by (relation "measure length") (auto intro: getarg_shorter [OF sym])

declare arg_words.simps [simp del]

definition has_badword :: "connection \<Rightarrow> string option \<Rightarrow> bool" where
  "has_badword cp txt =
     (case (c_filterwords cp, txt) of
        (Some fw, Some s) \<Rightarrow>
          list_ex (\<lambda>arg. strstr (strlwr (take 2047 s)) arg) (arg_words (strlwr (take 2047 fw)))
      | _ \<Rightarrow> False)"

text \<open>Lines 3118 to 3144: the sender in the three spellings.\<close>

definition has_badcall :: "string \<Rightarrow> string \<Rightarrow> string \<Rightarrow> bool" where
  "has_badcall filt buffer fromuser =
     (let b = strlwr (take 2046 buffer) @ '' '' in
      strstr filt b \<or>
      (6 + 1 < length b \<and> strstr filt (take 6 b @ '' '')) \<or>
      strstr filt (strlwr (take NAMESIZE (get_tidy_name (Some fromuser))) @ '' ''))"

definition is_filtered :: "string option \<Rightarrow> string option \<Rightarrow> connection \<Rightarrow> string option \<Rightarrow> bool" where
  "is_filtered from_orig fromuser cp txt =
     (case c_filter cp of
        None \<Rightarrow> has_badword cp txt
      | Some filt \<Rightarrow>
          if from_orig = None \<and> fromuser = None then has_badword cp txt
          else
            let user = (case fromuser of None \<Rightarrow> [] | Some u \<Rightarrow> u) in
            if from_orig = Some ''conversd'' then
              (case txt of
                 None \<Rightarrow> False
               | Some s \<Rightarrow>
                   let buffer = before (scan_sender s) ''@'' in
                   (buffer \<noteq> [] \<and> has_badcall filt buffer user) \<or> has_badword cp txt)
            else if fromuser = None then has_badword cp txt
            else has_badcall filt user user \<or> has_badword cp txt)"

section \<open>Messages of servers\<close>

text \<open>\<^verbatim>\<open>strstr\<close> with the pointer it returns, and the text before the last \<open>:\<close>.\<close>

fun strstr_at :: "string \<Rightarrow> string \<Rightarrow> string option" where
  "strstr_at [] p = (if p = [] then Some [] else None)"
| "strstr_at (c # s) p = (if is_prefix p (c # s) then Some (c # s) else strstr_at s p)"

definition before_last :: "char \<Rightarrow> string \<Rightarrow> string" where
  "before_last c s = (if c \<in> set s then rev (tl (dropWhile (\<lambda>x. x \<noteq> c) (rev s))) else s)"

text \<open>Lines 2918 to 2945: the state, the rest of the message and the DCC command.\<close>

definition parse_notice_head :: "string \<Rightarrow> nat \<times> string \<times> string option" where
  "parse_notice_head msg =
     (let notice = strncaseeq msg ''notice: '' 8;
          state = (if notice then 3 else 0);
          msg = (if notice then drop 8 msg else msg);
          (state, msg) = (if strncaseeq msg ''req :'' 5 then (1, drop 5 msg)
                          else if strncaseeq msg ''ack :'' 5 then (2, drop 5 msg) else (state, msg))
      in if state \<noteq> 0 then
           if state < 3 then (state, before_last (CHR '':'') msg, Some []) else (state, dropWhile isspace msg, None)
         else (1, msg, Some ''ACTION''))"

definition notice_for_irc ::
  "env \<Rightarrow> connection \<Rightarrow> int \<Rightarrow> string \<Rightarrow> string \<Rightarrow> nat \<times> string \<times> string option \<Rightarrow> world \<Rightarrow> world" where
  "notice_for_irc E cp channel fromname hostname h w =
     (case h of (state, msg, dcc) \<Rightarrow>
        let i = c_id cp; msg = take IRC_MAX_MSGSIZE msg;
            w = appendstring E i ('':'' @ fromname @ ''!'' @ fromname @ ''@'' @ hostname @ '' '' @
                  (if state = 1 then ''PRIVMSG'' else ''NOTICE'') @
                  (if channel < 0 then '' '' @ c_name cp else '' #'' @ dec channel) @ '' :'') w;
            w = (case dcc of
                   None \<Rightarrow> w
                 | Some cmd \<Rightarrow>
                     let w = appendstring E i [CHR 0x01] w in
                     if cmd \<noteq> [] then appendstring E i '' '' (appendstring E i cmd w) else w);
            w = (if msg \<noteq> [] then appendstring E i msg w else w)
        in appendstring E i (if dcc \<noteq> None then [CHR 0x01, NL] else [NL]) w)"

definition info_words :: "string list" where
  "info_words = [''VERSION'', ''USERINFO'', ''INFO'', ''NEWS'', ''DATE'', ''ACTIVITY'', ''CS'']"

definition notice_for_convers ::
  "env \<Rightarrow> connection \<Rightarrow> string \<Rightarrow> nat \<times> string \<times> string option \<Rightarrow> world \<Rightarrow> bool \<times> world" where
  "notice_for_convers E cp fromname h w =
     (case h of (state, msg, dcc) \<Rightarrow>
        let i = c_id cp; msg = take MAX_MSGSIZE msg in
        if msg = [] \<or> state \<noteq> 1 then (False, w)
        else if strncaseeq msg ''PING '' 5 then
          (True, appendstring E i ('':'' @ [NL]) (appendstring E i msg
             (appendstring E i (''//ECHO /notice '' @ fromname @ '' ack :'') w)))
        else if strncaseeq msg ''TALK '' 5 then
          (let to = dropWhile isspace (drop 5 msg);
               rest = dropWhile (\<lambda>c. \<not> isspace c) to;
               m = dropWhile isspace (tl rest)
           in if rest = [] \<or> m = [] then (False, w)
              else (True, appendstring E i (''//TALK '' @ takeWhile (\<lambda>c. \<not> isspace c) to @ '' <'' @ fromname @ ''> '' @ m @ [NL]) w))
        else if list_ex (\<lambda>k. strcaseeq msg k) info_words then
          (True, appendstring E i (''//ECHO /query '' @ c_query cp @ [NL])
             (appendstring E i (''//'' @ (if strcaseeq msg ''USERINFO'' then ''INFO'' else msg) @ [NL])
                (appendstring E i (''//ECHO /query '' @ fromname @ [NL]) w)))
        else (False, w))"

definition parse_notice_for_user ::
  "env \<Rightarrow> connection \<Rightarrow> int \<Rightarrow> string \<Rightarrow> string \<Rightarrow> string \<Rightarrow> world \<Rightarrow> bool \<times> world" where
  "parse_notice_for_user E cp channel fromname hostname msg w =
     (if strstr fromname ''conversd'' \<and> strstr msg ''is up for '' then (False, w)
      else
        let h = parse_notice_head msg in
        if c_ircmode cp then (True, notice_for_irc E cp channel fromname hostname h w)
        else notice_for_convers E cp fromname h w)"

definition interprete_conversd_messages :: "env \<Rightarrow> connection option \<Rightarrow> string \<Rightarrow> int \<Rightarrow> world \<Rightarrow> bool \<times> world" where
  "interprete_conversd_messages E cp s channel w =
     (if \<not> strneq s ''*** '' 4 then (False, w)
      else if \<not> strneq s ''*** ('' 5 then
        let buffer = take 2047 s in
        if strncaseeq buffer ''*** route: '' 11 then (False, learn_destination_relation_from_route E buffer w)
        else
          (case (cp, strchr buffer (CHR ''@''), get_user_host (drop 4 buffer)) of
             (Some p, Some r, (res, fromname, hostname)) \<Rightarrow>
               if res \<noteq> 2 then (False, w)
               else
                 (case strstr_at (tl r) hostname of
                    None \<Rightarrow> (False, w)
                  | Some q \<Rightarrow>
                      parse_notice_for_user E p channel fromname hostname (dropWhile isspace (drop (length hostname) q)) w)
           | _ \<Rightarrow> (False, w))
      else
        (case cp of
           None \<Rightarrow> (False, w)
         | Some p \<Rightarrow>
             (case strstr_at (strlwr (take 2047 s)) '' invitation sent to '' of
                None \<Rightarrow> (False, w)
              | Some q \<Rightarrow>
                  (case get_user_host (drop (length '' invitation sent to '') q) of
                     (res, fromname, hostname) \<Rightarrow>
                       if res = 2 \<and> c_ircmode p
                       then (True, appendstring E (c_id p) ('':'' @ hostname @ '' 341 '' @ c_name p @ '' '' @ fromname @ '' *'' @ [NL]) w)
                       else (False, w)))))"

section \<open>Messages to a user\<close>

definition is_addressee :: "string \<Rightarrow> connection \<Rightarrow> bool" where
  "is_addressee toname p \<longleftrightarrow> c_type p = CT_USER \<and> (strcaseeq (c_name p) toname \<or> strcaseeq (c_nickname p) toname)"

definition away_line :: "env \<Rightarrow> connection \<Rightarrow> world \<Rightarrow> string" where
  "away_line E p w = ''*** ('' @ w_ts2 E w @ '') '' @ getTXname (c_name p) (c_nickname p) @ '' is away: '' @ c_away p"

definition irc_privmsg :: "string \<Rightarrow> string \<Rightarrow> string \<Rightarrow> connection \<Rightarrow> string \<Rightarrow> string \<Rightarrow> string" where
  "irc_privmsg from_orig fromuser fromnick p to s =
     take IRC_MAX_MSGSIZE ('':'' @ (if from_orig \<noteq> [] \<and> hd from_orig = CHR ''~'' then ''~'' else []) @
       (if c_shownicks p then fromnick else fromuser) @ '' PRIVMSG '' @ to @ '' :'' @ s)"

text \<open>One turn of the loop of \<^verbatim>\<open>send_msg_to_local_user\<close>; \<open>answer\<close> is the call for the away text.\<close>

definition local_user_turn ::
  "env \<Rightarrow> (string \<Rightarrow> string \<Rightarrow> world \<Rightarrow> world) \<Rightarrow> string \<Rightarrow> string \<Rightarrow> string \<Rightarrow> string \<Rightarrow> string \<Rightarrow> connection \<Rightarrow> world \<Rightarrow> world" where
  "local_user_turn E answer from_orig fromuser fromnick toname s p w =
     (let i = c_id p in
      if \<not> is_addressee toname p \<or> c_locked p \<or> c_via p \<noteq> None then w
      else if (c_filter p \<noteq> None \<or> c_filterwords p \<noteq> None) \<and> is_filtered (Some from_orig) (Some fromuser) p (Some s)
      then lock_conn i w
      else
        let w = appendc E i 3 False (appendc E i 0 False w);
            w = (if from_orig \<noteq> ''conversd'' then
                   let w = (if \<not> c_ircmode p
                            then appendstring E i (formatline (''<*'' @ (if c_shownicks p then from_orig else fromuser) @ ''*>:'') 0 s (c_width p)) w
                            else appendstring E i [NL] (appendstring E i (irc_privmsg from_orig fromuser fromnick p (c_nickname p) s) w))
                   in if \<not> c_ircmode p \<and> c_away p \<noteq> [] \<and> (s = [] \<or> hd s \<noteq> CHR ''*'')
                      then answer fromuser (away_line E p w) w else w
                 else appendstring E i [NL] (append_general_notice E i s w))
        in lock_conn i (appendprompt E i False w))"

definition send_conversd_to_local_user :: "env \<Rightarrow> string \<Rightarrow> string \<Rightarrow> world \<Rightarrow> world" where
  "send_conversd_to_local_user E toname s =
     for_connections (local_user_turn E (\<lambda>_ _ w. w) ''conversd'' ''conversd'' ''conversd'' toname s)"

definition send_msg_to_local_user :: "env \<Rightarrow> string \<Rightarrow> string \<Rightarrow> string \<Rightarrow> string \<Rightarrow> string \<Rightarrow> world \<Rightarrow> world" where
  "send_msg_to_local_user E from_orig fromuser fromnick toname s =
     for_connections (local_user_turn E (send_conversd_to_local_user E) from_orig fromuser fromnick toname s)"

definition send_server_notice :: "env \<Rightarrow> string \<Rightarrow> string \<Rightarrow> bool \<Rightarrow> bool \<Rightarrow> world \<Rightarrow> world" where
  "send_server_notice E host s local_only priority =
     for_connections (\<lambda>p w.
       if c_locked p \<or> \<not> (c_type p = CT_USER \<or> c_type p = CT_HOST) then w
       else if c_type p = CT_HOST \<and> local_only then w
       else if c_type p = CT_USER \<and>
               (c_via p \<noteq> None \<or> (\<not> priority \<and> \<not> c_verbose p \<and> (c_ircmode p \<or> c_operator p \<noteq> 2))) then w
       else if c_type p = CT_HOST
       then lock_conn (c_id p) (appendstring E (c_id p) (SL @ ''INFO '' @ host @ '' '' @ s @ [NL]) w)
       else lock_conn (c_id p) (appendstring E (c_id p)
              (if c_ircmode p then '':'' @ host @ '' NOTICE '' @ c_name p @ '' :'' @ s @ [NL]
               else ''*** ('' @ w_ts2 E w @ '') server notice: '' @ host @ '' '' @ s @ [NL]) w))"

definition add_time_stamp :: "env \<Rightarrow> cid \<Rightarrow> world \<Rightarrow> world" where
  "add_time_stamp E i w =
     (case conn w i of
        None \<Rightarrow> w
      | Some cp \<Rightarrow>
          if c_ircmode cp \<or> c_timestamp cp = 0 then w
          else
            let now = w_currtime w;
                days = cdiv (now - c_timestamp cp) (60 * 60 * 24);
                s_days = (if 0 < days
                          then '' [last msg '' @ dec days @ '' day'' @ (if 1 < days then ''s'' else []) @ '' ago]'' else []);
                w = (if 60 * cdiv (c_timestamp cp) 60 \<noteq> 60 * cdiv now 60
                     then appendstring E i (''- '' @ w_ts2 E w @ s_days @ '' -'' @ [NL]) w else w)
            in upd_conn i (\<lambda>c. c\<lparr>c_timestamp := now\<rparr>) w)"

text \<open>The bits a message is filtered by, and its delivery to a local user.\<close>

definition user_filtered :: "string \<Rightarrow> string \<Rightarrow> string \<Rightarrow> connection \<Rightarrow> nat \<Rightarrow> nat" where
  "user_filtered from_orig fromuser s p filtered =
     (let f = (if filtered = 0 \<and> c_filtermsgs p \<noteq> 0 then
                 let f = (if flag (c_filtermsgs p) MSG_PRIV_CONV \<and> strcaseeq fromuser ''conversd'' then c_filtermsgs p else 0)
                 in if flag (c_filtermsgs p) MSG_PRIV_USER then or f (c_filtermsgs p) else f
               else filtered)
      in if f = 0 \<and> (c_filter p \<noteq> None \<or> c_filterwords p \<noteq> None) \<and>
            is_filtered (Some from_orig) (Some fromuser) p (Some s)
         then MSG_USER_FILT else f)"

definition deliver_private ::
  "env \<Rightarrow> string \<Rightarrow> string \<Rightarrow> string \<Rightarrow> string \<Rightarrow> connection \<Rightarrow> world \<Rightarrow> world" where
  "deliver_private E from_orig fromuser fromnick s p w =
     (let i = c_id p;
          w = appendc E i 3 False (appendc E i 0 False w);
          w = (if from_orig \<noteq> ''conversd'' then
                 let w = (if \<not> c_ircmode p
                          then appendstring E i (formatline (''<*'' @ (if c_shownicks p then from_orig else fromuser) @ ''*>:'') 0 s (c_width p))
                                 (add_time_stamp E i w)
                          else appendstring E i [NL] (appendstring E i (irc_privmsg from_orig fromuser fromnick p (c_nickname p) s) w))
                 in if \<not> c_ircmode p \<and> c_away p \<noteq> [] \<and> (s = [] \<or> hd s \<noteq> CHR ''*'')
                    then send_conversd_to_local_user E fromuser (away_line E p w) w else w
               else
                 (case interprete_conversd_messages E (Some p) s (-1) w of
                    (True, w) \<Rightarrow> w
                  | (False, w) \<Rightarrow> appendstring E i [NL] (append_general_notice E i s w)))
      in lock_conn i (appendprompt E i False w))"

definition umsg_line :: "string \<Rightarrow> string \<Rightarrow> string \<Rightarrow> string" where
  "umsg_line from_orig toname s = SL @ ''UMSG '' @ from_orig @ '' '' @ toname @ '' '' @ s @ [NL]"

definition user2_turn ::
  "env \<Rightarrow> string \<Rightarrow> string \<Rightarrow> string \<Rightarrow> string \<Rightarrow> string \<Rightarrow> cid \<Rightarrow> nat \<times> world \<Rightarrow> nat \<times> world" where
  "user2_turn E from_orig fromuser fromnick toname s i fw =
     (case fw of (filtered, w) \<Rightarrow>
        (case conn w i of
           None \<Rightarrow> fw
         | Some p \<Rightarrow>
             if \<not> is_addressee toname p \<or> c_locked p then fw
             else
               (case c_via p of
                  Some v \<Rightarrow>
                    if is_locked w v then fw
                    else (filtered, lock_conn i (lock_conn v (appendstring E v (umsg_line from_orig toname s) w)))
                | None \<Rightarrow>
                    let filtered = user_filtered from_orig fromuser s p filtered in
                    if filtered \<noteq> 0 then (filtered, lock_conn i w)
                    else (0, deliver_private E from_orig fromuser fromnick s p w))))"

definition is_operator_user :: "string \<Rightarrow> world \<Rightarrow> bool" where
  "is_operator_user fromuser w =
     list_ex (\<lambda>p. c_type p = CT_USER \<and> strcaseeq (c_name p) fromuser \<and> c_operator p = 2) (w_connections w)"

definition deliver_user2 ::
  "env \<Rightarrow> string \<Rightarrow> string \<Rightarrow> string \<Rightarrow> string \<Rightarrow> string \<Rightarrow> bool \<Rightarrow> world \<Rightarrow> nat \<times> world" where
  "deliver_user2 E from_orig fromuser fromnick toname s flood_checked w =
     (let w = (if from_orig = ''conversd'' then snd (interprete_conversd_messages E None s (-1) w) else w) in
      if \<not> flood_checked \<and> \<not> is_operator_user fromuser w \<and> is_banned fromuser w \<noteq> None then (0, w)
      else fold (user2_turn E from_orig fromuser fromnick toname s) (conn_ids w) (0, w))"

text \<open>The answer of line 3389 comes from \<^verbatim>\<open>conversd\<close>, so it is not answered itself.\<close>

definition send_conversd_to_user :: "env \<Rightarrow> string \<Rightarrow> string \<Rightarrow> world \<Rightarrow> world" where
  "send_conversd_to_user E toname s w =
     snd (deliver_user2 E ''conversd'' ''conversd'' ''conversd'' toname (take MAX_MSGSIZE s) True w)"

definition send_msg_to_user2 ::
  "env \<Rightarrow> string \<Rightarrow> string \<Rightarrow> string \<Rightarrow> string \<Rightarrow> string \<Rightarrow> bool \<Rightarrow> world \<Rightarrow> world" where
  "send_msg_to_user2 E from_orig fromuser fromnick toname s flood_checked w =
     (case deliver_user2 E from_orig fromuser fromnick toname (take MAX_MSGSIZE s) flood_checked w of
        (filtered, w) \<Rightarrow>
          if filtered \<noteq> 0 \<and> \<not> strcaseeq fromuser ''conversd''
          then send_conversd_to_user E fromuser
                 (''*** ('' @ w_ts2 E w @ '') Your messages are ignored by '' @ toname @
                  (if filtered = MSG_PRIV_USER then '' (no privmsgs)'' else []) @ ''.'') (clear_locks w)
          else w)"

definition send_msg_to_user :: "env \<Rightarrow> string \<Rightarrow> string \<Rightarrow> string \<Rightarrow> world \<Rightarrow> world" where
  "send_msg_to_user E fromname toname s =
     send_msg_to_user2 E fromname (get_user_from_name fromname) (get_nick_from_name fromname) toname s True"

section \<open>Messages to a channel\<close>

definition on_channel :: "connection \<Rightarrow> int \<Rightarrow> bool" where
  "on_channel p channel \<longleftrightarrow> c_channel p = channel \<or> on_chan_list p channel"

definition chan_filtered :: "string \<Rightarrow> string \<Rightarrow> string \<Rightarrow> connection \<Rightarrow> bool" where
  "chan_filtered from_orig fromuser s p \<longleftrightarrow>
     (c_filtermsgs p \<noteq> 0 \<and>
       ((flag (c_filtermsgs p) MSG_CHAN_CONV \<and> strcaseeq fromuser ''conversd'') \<or> flag (c_filtermsgs p) MSG_CHAN_USER)) \<or>
     ((c_filter p \<noteq> None \<or> c_filterwords p \<noteq> None) \<and> is_filtered (Some from_orig) (Some fromuser) p (Some s))"

definition cmsg_line :: "string \<Rightarrow> int \<Rightarrow> string \<Rightarrow> string" where
  "cmsg_line from_orig channel s = SL @ ''CMSG '' @ from_orig @ '' '' @ dec channel @ '' '' @ s @ [NL]"

definition deliver_channel ::
  "env \<Rightarrow> string \<Rightarrow> string \<Rightarrow> string \<Rightarrow> int \<Rightarrow> string \<Rightarrow> connection \<Rightarrow> world \<Rightarrow> world" where
  "deliver_channel E from_orig fromuser fromnick channel s p w =
     (let i = c_id p;
          addchan = (if c_channel p = channel then [] else dec channel @ '':'');
          w = appendc E i 3 False (appendc E i 0 False w);
          w = (if from_orig \<noteq> ''conversd'' then
                 if \<not> c_ircmode p
                 then appendstring E i (formatline (''<'' @ addchan @ (if c_shownicks p then from_orig else fromuser) @ ''>:'') 0 s (c_width p))
                        (add_time_stamp E i w)
                 else appendstring E i [NL] (appendstring E i (irc_privmsg from_orig fromuser fromnick p (''#'' @ dec channel) s) w)
               else
                 (case interprete_conversd_messages E (Some p) s channel w of
                    (True, w) \<Rightarrow> w
                  | (False, w) \<Rightarrow> appendstring E i [NL] (append_chan_notice E i s channel w)))
      in lock_conn i (appendprompt E i False w))"

definition channel_turn ::
  "env \<Rightarrow> string \<Rightarrow> string \<Rightarrow> string \<Rightarrow> int \<Rightarrow> string \<Rightarrow> connection \<Rightarrow> world \<Rightarrow> world" where
  "channel_turn E from_orig fromuser fromnick channel s p w =
     (if c_type p \<noteq> CT_USER \<or> \<not> on_channel p channel then w
      else
        (case c_via p of
           Some v \<Rightarrow>
             if \<not> is_locked w v \<and> (case find_channel channel w of None \<Rightarrow> True | Some ch \<Rightarrow> \<not> flag (ch_flags ch) M_CHAN_L)
             then lock_conn v (appendstring E v (cmsg_line from_orig channel s) w) else w
         | None \<Rightarrow>
             if c_locked p then w
             else if chan_filtered from_orig fromuser s p then lock_conn (c_id p) w
             else deliver_channel E from_orig fromuser fromnick channel s p w))"

definition is_sender :: "string \<Rightarrow> string \<Rightarrow> connection \<Rightarrow> bool" where
  "is_sender fromuser fromnick p \<longleftrightarrow>
     c_type p = CT_USER \<and> (strcaseeq (c_name p) fromuser \<or> strcaseeq (c_nickname p) fromnick)"

definition stamp_sender :: "int \<Rightarrow> string \<Rightarrow> string \<Rightarrow> connection \<Rightarrow> connection" where
  "stamp_sender now fromuser fromnick p = (if is_sender fromuser fromnick p then p\<lparr>c_mtime := now\<rparr> else p)"

definition send_msg_to_channel2 ::
  "env \<Rightarrow> string \<Rightarrow> string \<Rightarrow> string \<Rightarrow> int \<Rightarrow> string \<Rightarrow> bool \<Rightarrow> world \<Rightarrow> world" where
  "send_msg_to_channel2 E from_orig fromuser fromnick channel s flood_checked w =
     (let s = take MAX_MSGSIZE s in
      if find_channel channel w = None then w
      else
        let w = add_history channel from_orig s w;
            isop = list_ex (\<lambda>p. is_sender fromuser fromnick p \<and> c_operator p = 2) (w_connections w);
            w = w\<lparr>w_connections := map (stamp_sender (w_currtime w) fromuser fromnick) (w_connections w)\<rparr>
        in if \<not> flood_checked \<and> \<not> isop \<and> is_banned fromuser w \<noteq> None then w
           else for_connections (channel_turn E from_orig fromuser fromnick channel s) w)"

definition send_msg_to_channel :: "env \<Rightarrow> string \<Rightarrow> int \<Rightarrow> string \<Rightarrow> world \<Rightarrow> world" where
  "send_msg_to_channel E fromname channel s =
     send_msg_to_channel2 E fromname (get_user_from_name fromname) (get_nick_from_name fromname) channel s True"

section \<open>Notices\<close>

definition ison_user_filter :: "string \<Rightarrow> connection \<Rightarrow> string option \<Rightarrow> bool" where
  "ison_user_filter fromname p txt \<longleftrightarrow>
     (c_filter p \<noteq> None \<or> c_filterwords p \<noteq> None) \<and> is_filtered None (Some fromname) p txt"

definition away_turn ::
  "env \<Rightarrow> string \<Rightarrow> string \<Rightarrow> string \<Rightarrow> int \<Rightarrow> string \<Rightarrow> bool \<Rightarrow> connection \<Rightarrow> world \<Rightarrow> world" where
  "away_turn E fromname fromnickname hostname time s text_changed p w =
     (let i = c_id p in
      if c_ircmode p then
        if \<not> c_locked p \<and>
           (c_type p = CT_HOST \<or>
            (c_type p = CT_USER \<and> c_via p = None \<and> (c_verbose p \<or> text_changed) \<and> isonchannel p fromname hostname w))
        then let nick = (if c_shownicks p then fromnickname else fromname) in
             lock_conn i (appendstring E i [NL] (appendstring E i (take IRC_MAX_MSGSIZE
               ('':'' @ nick @ ''!'' @ fromname @ ''@'' @ hostname @ '' MODE '' @ nick @ '' '' @
                (if s \<noteq> [] then ''+'' else ''-'') @ ''a'' @ (if s \<noteq> [] then '' :'' @ s else []))) w))
        else w
      else if c_type p = CT_HOST then
        if \<not> c_locked p
        then lock_conn i (appendstring E i
               (SL @ ''AWAY '' @ fromname @ '' '' @ hostname @ (if c_oldaway p then '' 69 '' else '' '') @ dec time @ '' '' @ s @ [NL]) w)
        else w
      else if c_type p = CT_USER \<and> \<not> c_locked p \<and> c_via p = None \<and> (c_verbose p \<or> text_changed) then
        if ison_user_filter fromname p (Some s) then lock_conn i w
        else if isonchannel p fromname hostname w then
          lock_conn i (appendprompt E i False (append_general_notice E i
            (''*** ('' @ w_ts2 E w @ '') '' @ fromname @ ''@'' @ hostname @
             (if s \<noteq> [] then '' has gone away:'' @ [NL] @ ''    '' @ s @ [NL] else '' is back again.'' @ [NL]))
            (appendc E i 3 False (appendc E i 0 False w))))
        else w
      else w)"

definition send_awaymsg :: "env \<Rightarrow> string \<Rightarrow> string \<Rightarrow> string \<Rightarrow> int \<Rightarrow> string \<Rightarrow> bool \<Rightarrow> world \<Rightarrow> world" where
  "send_awaymsg E fromname fromnickname hostname time s text_changed =
     for_connections (away_turn E fromname fromnickname hostname time (take AWAYSIZE s) text_changed)"

text \<open>The IRC letters of the flags that are set in the first argument and not in the second.\<close>

definition irc_flags :: "nat \<Rightarrow> nat \<Rightarrow> string" where
  "irc_flags new old =
     (let c = (\<lambda>m s. if flag new m \<and> \<not> flag old m then s else []) in
      c M_CHAN_S ''p'' @ c M_CHAN_P ''i'' @ c M_CHAN_T ''t'' @ c M_CHAN_I ''s'' @ c M_CHAN_M ''m'')"

definition mode_turn ::
  "env \<Rightarrow> connection option \<Rightarrow> string \<Rightarrow> channel \<Rightarrow> nat \<Rightarrow> connection \<Rightarrow> world \<Rightarrow> world" where
  "mode_turn E cp fromname ch oldflags p w =
     (let i = c_id p; flags = strupr (get_mode_flags (ch_flags ch));
          plus = irc_flags (ch_flags ch) oldflags; minus = irc_flags oldflags (ch_flags ch)
      in
      if c_locked p then w
      else if c_via p \<noteq> None then lock_conn i w
      else if \<not> c_ircmode p then
        lock_conn i
          (if c_type p = CT_HOST
           then appendstring E i (SL @ ''MODE '' @ dec (ch_chan ch) @ '' -sptiml+'' @ flags @ [NL]) w
           else if map_option c_id cp = Some i \<and> c_type p = CT_USER
           then appendstring E i (''*** Flags: '' @ flags @ [NL]) w else w)
      else if c_type p = CT_HOST \<or> c_type p = CT_USER then
        if c_type p = CT_USER \<and> \<not> (c_operator p = 2 \<and> c_verbose p) \<and> \<not> on_channel p (ch_chan ch) then w
        else lock_conn i (appendstring E i
               ('':'' @ fromname @ '' MODE #'' @ dec (ch_chan ch) @ '' '' @ (if minus \<noteq> [] then ''-'' else []) @ minus @
                (if plus \<noteq> [] then ''+'' else []) @ plus @ [NL]) w)
      else lock_conn i w)"

definition send_mode :: "env \<Rightarrow> connection option \<Rightarrow> int \<Rightarrow> nat \<Rightarrow> world \<Rightarrow> world" where
  "send_mode E cp channel oldflags w =
     (case find_channel channel w of
        None \<Rightarrow> w
      | Some ch \<Rightarrow>
          let flags = strupr (get_mode_flags (ch_flags ch));
              fromname = (case cp of
                  None \<Rightarrow> myhostname (w_cfg w)
                | Some c \<Rightarrow> if c_type c = CT_USER
                    then (if c_shownicks c then c_nickname c else c_name c) @ ''!'' @ c_name c @ ''@'' @ c_host c
                    else c_name c)
          in for_connections (mode_turn E cp fromname ch oldflags)
               (add_history channel ''conversd''
                  (if flags \<noteq> [] then ''*** mode change: '' @ flags else ''*** mode cleared.'') w))"

definition chan_word :: "channel option \<Rightarrow> bool \<Rightarrow> string" where
  "chan_word ch debug =
     (case ch of
        None \<Rightarrow> []
      | Some c \<Rightarrow> if debug then ''debug ''
                  else if flag (ch_flags c) M_CHAN_I then ''invisible ''
                  else if flag (ch_flags c) M_CHAN_S then ''secret '' else [])"

definition oper_turn ::
  "env \<Rightarrow> string \<Rightarrow> string \<Rightarrow> string \<Rightarrow> string \<Rightarrow> string \<Rightarrow> string \<Rightarrow> int \<Rightarrow> bool \<Rightarrow> string \<Rightarrow> nat \<Rightarrow> connection \<Rightarrow> world \<Rightarrow> world" where
  "oper_turn E toname tonickname hostname fromname fromnickname fromhost channel changed chan flags p w =
     (let i = c_id p; w0 = w; w = lock_conn i w;
          ison = (0 \<le> channel \<and> on_channel p channel);
          isuser = (c_type p = CT_USER); ishost = (c_type p = CT_HOST);
          nick = (if isuser \<and> c_shownicks p then tonickname else toname);
          fromstring = (if fromname \<noteq> fromhost
                        then (if isuser \<and> \<not> c_shownicks p then fromname else fromnickname) @ ''!'' @ fromname @ ''@'' @ fromhost
                        else fromname);
          hidden = (\<not> ison \<and> (\<not> c_verbose p \<or> flag flags M_CHAN_I \<or> (chan \<noteq> [] \<and> c_operator p \<noteq> 2)));
          filtered = (c_filter p \<noteq> None \<and>
                      (is_filtered None (Some fromname) p None \<or> is_filtered None (Some toname) p None))
      in
      if c_locked p then w0
      else if c_ircmode p then
        if channel = -1 then
          if ishost \<or> (isuser \<and> (c_verbose p \<or> strcaseeq toname (c_name p)) \<and> changed)
          then appendstring E i ('':'' @ fromstring @ '' MODE '' @ nick @ '' +o'' @ [NL]) w else w
        else if \<not> isuser \<and> \<not> ishost then w
        else if isuser \<and> (c_via p \<noteq> None \<or> \<not> changed \<or> hidden \<or> filtered) then w
        else appendstring E i ('':'' @ fromstring @ '' MODE #'' @ dec channel @ '' +o '' @ nick @ [NL]) w
      else if ishost then
        if changed then appendstring E i (SL @ ''OPER '' @ fromname @ '' '' @ dec channel @ '' '' @ toname @ [NL]) w else w
      else if isuser then
        if c_via p \<noteq> None \<or> \<not> changed \<or> filtered \<or> channel = -1 then w
        else if strcaseeq (c_name p) toname \<and> c_channel p = channel then
          appendprompt E i False (append_chan_notice E i
            (''*** ('' @ w_ts2 E w @ '') '' @ fromname @ '' made you a channel operator for channel '' @ dec channel @ ''.'' @ [NL]) channel
            (appendc E i 3 False (appendc E i 0 False w)))
        else if hidden then w
        else
          let chan_name = (if chan \<noteq> [] \<and> \<not> ison \<and> c_operator p \<noteq> 2 then [] else dec channel) in
          appendprompt E i False (append_chan_notice E i
            (''*** ('' @ w_ts2 E w @ '') '' @ toname @ ''@'' @ hostname @ '' is now a channel operator for '' @
             (if \<not> ison then chan else []) @ ''channel'' @ (if chan_name \<noteq> [] then '' '' else []) @ chan_name @ ''.'' @ [NL]) channel
            (appendc E i 3 False (appendc E i 0 False w)))
      else w)"

definition send_opermsg ::
  "env \<Rightarrow> string \<Rightarrow> string \<Rightarrow> string \<Rightarrow> string \<Rightarrow> string \<Rightarrow> string \<Rightarrow> int \<Rightarrow> bool \<Rightarrow> world \<Rightarrow> world" where
  "send_opermsg E toname tonickname hostname fromname fromnickname fromhost channel changed w =
     (let ch = (if 0 \<le> channel then find_channel channel w else None);
          chan = chan_word ch (channel = debugchannel (w_cfg w));
          flags = (case ch of None \<Rightarrow> 0 | Some c \<Rightarrow> ch_flags c)
      in for_connections (oper_turn E toname tonickname hostname fromname fromnickname fromhost channel changed chan flags) w)"

definition topic_turn ::
  "env \<Rightarrow> string \<Rightarrow> string \<Rightarrow> string \<Rightarrow> int \<Rightarrow> int \<Rightarrow> string \<Rightarrow> string \<Rightarrow> nat \<Rightarrow> connection \<Rightarrow> world \<Rightarrow> world" where
  "topic_turn E fromname fromnickname hostname time channel s chan flags p w =
     (let i = c_id p; nick = (if c_shownicks p then fromnickname else fromname) in
      if c_type p = CT_HOST then
        if c_locked p then w
        else lock_conn i
          (if \<not> c_ircmode p
           then appendstring E i (SL @ ''TOPI '' @ fromname @ '' '' @ hostname @ '' '' @ dec time @ '' '' @ dec channel @ '' '' @ s @ [NL]) w
           else appendstring E i [NL] (appendstring E i (take IRC_MAX_MSGSIZE
                  (nick @ ''!'' @ fromname @ ''@'' @ hostname @ '' TOPIC #'' @ dec channel @ '' :'' @ s)) w))
      else if c_type p = CT_USER then
        if c_locked p \<or> c_via p \<noteq> None then w
        else if ison_user_filter fromname p (Some s) then lock_conn i w
        else
          let mine = on_chan_list p channel;
              hide_chan_name = (chan \<noteq> [] \<and> \<not> mine \<and> c_operator p \<noteq> 2);
              here = (c_channel p = channel);
              line = ''*** ('' @ w_ts2 E w @ '') '' @ fromname @ ''@'' @ hostname @
                     (if here then [] else '' on '' @ (if mine then [] else chan) @ ''channel'' @
                        (if hide_chan_name then [] else '' '' @ dec channel)) @ '' '' @
                     (if s \<noteq> [] then ''set'' else ''removed'') @ '' channel topic'' @
                     (if s \<noteq> [] then '':'' @ [NL] @ ''    '' else ''.'') @ s @ [NL]
          in lock_conn i
            (if (\<not> flag flags M_CHAN_I \<and> c_verbose p) \<or> mine then
               appendprompt E i False
                 (if \<not> c_ircmode p then appendstring E i line (appendc E i 3 False (appendc E i 0 False w))
                  else appendstring E i [NL] (appendstring E i (take IRC_MAX_MSGSIZE
                         ('':'' @ nick @ ''!'' @ fromname @ ''@'' @ hostname @ '' TOPIC '' @
                          (if hide_chan_name then ''*'' else ''#'' @ dec channel) @ '' :'' @ s)) w))
             else w)
      else w)"

definition send_topic :: "env \<Rightarrow> string \<Rightarrow> string \<Rightarrow> string \<Rightarrow> int \<Rightarrow> int \<Rightarrow> string \<Rightarrow> world \<Rightarrow> world" where
  "send_topic E fromname fromnickname hostname time channel s w =
     (let s = take TOPICSIZE s in
      case find_channel channel w of
        None \<Rightarrow> w
      | Some ch \<Rightarrow>
          if ch_expires ch \<noteq> 0 then w
          else
            let w = (if time \<noteq> 0 \<and> time < ch_ctime ch then upd_channel channel (\<lambda>c. c\<lparr>ch_ctime := time\<rparr>) w else w) in
            if \<not> ch_time ch < time then w
            else
              let s = map (\<lambda>c. if c = CHR 0x07 then CHR '' '' else c) s in
              if ch_topic ch = s \<and> (strcaseeq fromname (ch_tsetby ch) \<or> fromname = ''conversd'') then w
              else
                let w = upd_channel channel (\<lambda>c. c\<lparr>ch_time := time, ch_topic := s, ch_tsetby := take NAMESIZE fromname\<rparr>) w;
                    w = (if fromname \<noteq> ''conversd''
                         then add_history channel ''conversd''
                                (''*** '' @ fromname @ ''@'' @ hostname @
                                 (if s \<noteq> [] then '' set channel topic:'' @ [NL] @ ''    '' @ s else '' removed channel topic.'')) w
                         else w)
                in for_connections (topic_turn E fromname fromnickname hostname time channel s (chan_word (Some ch) False) (ch_flags ch)) w)"

section \<open>Who is not spoken to\<close>

text \<open>\<open>w'\<close> is \<open>w\<close> with texts queued and locks set, and the connection \<open>i\<close> is as it was.\<close>

definition spares :: "cid \<Rightarrow> world \<Rightarrow> world \<Rightarrow> bool" where
  "spares i w w' \<longleftrightarrow> sends w w' \<and> conn w' i = conn w i"

lemma spares_refl: "flowing w \<Longrightarrow> spares i w w"
  by (simp add: spares_def sends_refl)

lemma spares_trans: "spares i w w' \<Longrightarrow> spares i w' w'' \<Longrightarrow> spares i w w''"
  by (auto simp: spares_def intro: sends_trans)

lemma spares_step: "spares i w w' \<Longrightarrow> (flowing w' \<Longrightarrow> spares i w' (f w')) \<Longrightarrow> spares i w (f w')"
  using spares_trans sends_flowing unfolding spares_def by blast

lemma sends_timestamp: "flowing w \<Longrightarrow> sends w (upd_conn i (\<lambda>c. c\<lparr>c_timestamp := t\<rparr>) w)"
proof -
  let ?P = "\<lambda>c. c_obuf c = [] \<or> w_currtime w \<le> c_time_write c + 120"
  have "list_all ?P (update_first Q (\<lambda>c. c\<lparr>c_timestamp := t\<rparr>) cs) = list_all ?P cs" for Q cs
    by (induction cs) auto
  then show "flowing w \<Longrightarrow> sends w (upd_conn i (\<lambda>c. c\<lparr>c_timestamp := t\<rparr>) w)"
    by (auto simp: sends_def flowing_def upd_conn_def map_update_first_idle)
qed

lemma sends_add_time_stamp [inv_intros]: "flowing w \<Longrightarrow> sends w (add_time_stamp E i w)"
  by (auto simp: add_time_stamp_def Let_def intro: sends_refl sends_appendstring sends_timestamp
      intro!: sends_step [OF _ sends_timestamp] split: option.split)

lemma spares_appendstring: "flowing w \<Longrightarrow> j \<noteq> i \<Longrightarrow> spares i w (appendstring E j s w)"
  by (simp add: spares_def sends_appendstring) (simp add: appendstring_flowing conn_queue_text)

lemma spares_lock: "flowing w \<Longrightarrow> j \<noteq> i \<Longrightarrow> spares i w (lock_conn j w)"
  by (simp add: spares_def sends_lock) (simp add: lock_conn_def conn_upd_conn)

lemma spares_send_notice: "flowing w \<Longrightarrow> j \<noteq> i \<Longrightarrow> spares i w (send_notice E j from ch w)"
  by (auto simp: send_notice_def intro: spares_appendstring spares_refl split: option.split)

lemma spares_append_chan_notice: "flowing w \<Longrightarrow> j \<noteq> i \<Longrightarrow> spares i w (append_chan_notice E j s ch w)"
  by (auto simp: append_chan_notice_def Let_def intro: spares_appendstring spares_refl spares_send_notice spares_step
      split: option.split)

lemma spares_append_general_notice: "flowing w \<Longrightarrow> j \<noteq> i \<Longrightarrow> spares i w (append_general_notice E j s w)"
  by (simp add: append_general_notice_def spares_append_chan_notice)

lemma spares_appendc: "flowing w \<Longrightarrow> j \<noteq> i \<Longrightarrow> spares i w (appendc E j n ast w)"
  by (auto simp: appendc_def Let_def intro: spares_appendstring spares_refl split: option.split)

lemma spares_appendprompt: "flowing w \<Longrightarrow> j \<noteq> i \<Longrightarrow> spares i w (appendprompt E j ast w)"
  by (auto simp: appendprompt_def intro: spares_appendc spares_refl split: option.split)

lemma spares_timestamp: "flowing w \<Longrightarrow> j \<noteq> i \<Longrightarrow> spares i w (upd_conn j (\<lambda>c. c\<lparr>c_timestamp := t\<rparr>) w)"
  by (simp add: spares_def sends_timestamp conn_upd_conn)

lemma spares_add_time_stamp: "flowing w \<Longrightarrow> j \<noteq> i \<Longrightarrow> spares i w (add_time_stamp E j w)"
  by (auto simp: add_time_stamp_def Let_def intro: spares_refl spares_timestamp spares_appendstring
      intro!: spares_step [OF _ spares_timestamp] split: option.split)

lemmas spares_intros = spares_appendstring spares_lock spares_append_chan_notice spares_append_general_notice
  spares_appendc spares_appendprompt spares_add_time_stamp

lemma spares_seq:
  assumes "spares i w v" "j \<noteq> i"
  shows "spares i w (appendstring E j s v)" "spares i w (lock_conn j v)" "spares i w (append_chan_notice E j s ch v)"
    "spares i w (append_general_notice E j s v)" "spares i w (appendc E j n ast v)" "spares i w (appendprompt E j ast v)"
    "spares i w (add_time_stamp E j v)"
  using assms by (auto intro: spares_step [OF assms(1)] spares_intros)

lemma sends_seq:
  assumes "sends w v"
  shows "sends w (appendstring E j s v)" "sends w (lock_conn j v)" "sends w (append_chan_notice E j s ch v)"
    "sends w (append_general_notice E j s v)" "sends w (appendc E j n ast v)" "sends w (appendprompt E j ast v)"
    "sends w (add_time_stamp E j v)" "sends w (clear_locks v)"
  using assms by (auto intro: sends_step [OF assms] inv_intros)

section \<open>Messages to a channel\<close>

lemma sends_deliver_channel:
  assumes "flowing w" "from_orig \<noteq> ''conversd''"
  shows "sends w (deliver_channel E from_orig fromuser fromnick channel s p w)"
  using assms by (simp add: deliver_channel_def Let_def sends_seq sends_refl)

lemma spares_deliver_channel:
  assumes "flowing w" "from_orig \<noteq> ''conversd''" "c_id p \<noteq> i"
  shows "spares i w (deliver_channel E from_orig fromuser fromnick channel s p w)"
  using assms by (simp add: deliver_channel_def Let_def spares_seq spares_refl)

lemma channel_turn_spares:
  assumes "flowing w" "from_orig \<noteq> ''conversd''" "c_id p \<noteq> i" "c_via p \<noteq> Some i"
  shows "spares i w (channel_turn E from_orig fromuser fromnick channel s p w)"
  using assms spares_deliver_channel [OF assms(1-3)]
  by (auto simp: channel_turn_def intro: spares_refl spares_seq split: option.split)

lemma sends_channel_turn:
  assumes "flowing w" "from_orig \<noteq> ''conversd''"
  shows "sends w (channel_turn E from_orig fromuser fromnick channel s p w)"
  using assms sends_deliver_channel [OF assms]
  by (auto simp: channel_turn_def intro: sends_refl sends_seq split: option.split)

text \<open>Whether a connection is a user on the channel behind the link \<open>v\<close>.\<close>

definition behind :: "int \<Rightarrow> cid \<Rightarrow> connection \<Rightarrow> bool" where
  "behind channel v p \<longleftrightarrow> c_type p = CT_USER \<and> on_channel p channel \<and> c_via p = Some v"

definition heard_behind :: "int \<Rightarrow> cid \<Rightarrow> world \<Rightarrow> cid list \<Rightarrow> bool" where
  "heard_behind channel v w is \<longleftrightarrow> list_ex (\<lambda>i. case conn w i of None \<Rightarrow> False | Some p \<Rightarrow> behind channel v p) is"

lemma behind_idle: "behind channel v (idle p) = behind channel v p"
  by (simp add: behind_def on_channel_def on_chan_list_def)

lemma heard_behind_sends:
  assumes "sends w w'"
  shows "heard_behind channel v w' is = heard_behind channel v w is"
proof -
  have "(case conn w' i of None \<Rightarrow> False | Some p \<Rightarrow> behind channel v p) =
      (case conn w i of None \<Rightarrow> False | Some p \<Rightarrow> behind channel v p)" for i
  proof (cases "conn w i")
    case (Some p)
    with sends_conn [OF assms, of i] obtain p' where p': "conn w' i = Some p'" "idle p' = idle p" by (cases "conn w' i") auto
    have "behind channel v p' = behind channel v p"
      unfolding behind_idle [of channel v p', symmetric] p'(2) by (rule behind_idle)
    with Some p'(1) show ?thesis by simp
  qed (use sends_conn [OF assms, of i] in simp)
  then show ?thesis by (simp add: heard_behind_def)
qed

lemma obuf_of_lock [simp]: "obuf_of (lock_conn j w) i = obuf_of w i"
  by (auto simp: obuf_of_def lock_conn_def conn_upd_conn split: option.split)

lemma cmsg_line_Nil [simp]: "cmsg_line from_orig channel s \<noteq> []"
  by (simp add: cmsg_line_def)

definition link_open :: "int \<Rightarrow> world \<Rightarrow> bool" where
  "link_open channel w = (case find_channel channel w of None \<Rightarrow> True | Some ch \<Rightarrow> \<not> flag (ch_flags ch) M_CHAN_L)"

lemma channel_loop_link:
  assumes "from_orig \<noteq> ''conversd''" "flowing w" "conn w v = Some c" "c_type c = CT_HOST" "c_fd c \<noteq> -1"
  shows "obuf_of (for_ids is (channel_turn E from_orig fromuser fromnick channel s) w) v =
     obuf_of w v @ (if \<not> c_locked c \<and> link_open channel w \<and> heard_behind channel v w is
                    then [cmsg_line from_orig channel s] else [])"
  using assms(2-)
proof (induction "is" arbitrary: w c)
  case (Cons i js)
  let ?t = "channel_turn E from_orig fromuser fromnick channel s"
  define w1 where "w1 = (case conn w i of None \<Rightarrow> w | Some p \<Rightarrow> ?t p w)"
  have s1: "sends w w1"
    using sends_channel_turn [OF Cons.prems(1) assms(1)] sends_refl [OF Cons.prems(1)] by (auto simp: w1_def split: option.split)
  have open1: "link_open channel w1 = link_open channel w"
    using sends_frame(3) [OF s1] by (simp add: link_open_def find_channel_def)
  note heard1 = heard_behind_sends [OF s1, of channel v js]
  obtain c1 where c1: "conn w1 v = Some c1" "c_type c1 = CT_HOST" "c_fd c1 \<noteq> -1"
    using same_conn [OF sends_conn [OF s1] Cons.prems(2)] Cons.prems(3,4) by metis
  note IH = Cons.IH [OF sends_flowing [OF s1] c1]
  have step: "for_ids (i # js) ?t w = for_ids js ?t w1" by (simp add: w1_def)
  show ?case
  proof (cases "\<exists>p. conn w i = Some p \<and> behind channel v p")
    case True
    then obtain p where p: "conn w i = Some p" "behind channel v p" by blast
    have h: "heard_behind channel v w (i # js)" using p by (simp add: heard_behind_def)
    show ?thesis
    proof (cases "\<not> c_locked c \<and> link_open channel w")
      case True
      have w1: "w1 = lock_conn v (appendstring E v (cmsg_line from_orig channel s) w)"
        using p True Cons.prems(2)
        by (simp add: w1_def channel_turn_def behind_def is_locked_def link_open_def)
      have "obuf_of w1 v = obuf_of w v @ [cmsg_line from_orig channel s]"
        using obuf_of_appendstring [OF Cons.prems(1,2,4), of "cmsg_line from_orig channel s" E] out_data_host [OF Cons.prems(3)]
        by (simp add: w1)
      moreover have "c_locked c1" using c1(1) by (auto simp: w1 lock_conn_def conn_upd_conn)
      ultimately show ?thesis using IH True h unfolding step by simp
    next
      case False
      then have "w1 = w"
        using p Cons.prems(2) by (auto simp: w1_def channel_turn_def behind_def is_locked_def link_open_def split: option.splits)
      with IH False c1 Cons.prems(2) show ?thesis unfolding step by auto
    qed
  next
    case False
    have "conn w1 v = conn w v"
    proof (cases "conn w i")
      case (Some p)
      have id: "c_id p = i" using conn_SomeD [OF Some] by simp
      show ?thesis
      proof (cases "c_via p = Some v \<or> i = v")
        case True
        with Some False id Cons.prems(2,3) have "w1 = w"
          by (auto simp: w1_def channel_turn_def behind_def)
        then show ?thesis by simp
      next
        case no: False
        then show ?thesis
          using channel_turn_spares [OF Cons.prems(1) assms(1), of p v] id Some by (simp add: w1_def spares_def)
      qed
    qed (simp add: w1_def)
    moreover have "heard_behind channel v w (i # js) = heard_behind channel v w js"
      using False by (auto simp: heard_behind_def split: option.split)
    ultimately show ?thesis
      using IH c1(1) Cons.prems(2) unfolding step heard1 open1 by (auto simp: obuf_of_def)
  qed
qed (simp add: heard_behind_def)


text \<open>The world when the loop of line 3532 starts.\<close>

definition channel_entry :: "string \<Rightarrow> string \<Rightarrow> string \<Rightarrow> int \<Rightarrow> string \<Rightarrow> world \<Rightarrow> world" where
  "channel_entry from_orig fromuser fromnick channel s w =
     (add_history channel from_orig s w)\<lparr>w_connections := map (stamp_sender (w_currtime w) fromuser fromnick) (w_connections w)\<rparr>"

lemma stamp_sender_sel [simp]:
  "c_id (stamp_sender now u n p) = c_id p" "c_obuf (stamp_sender now u n p) = c_obuf p"
  "c_time_write (stamp_sender now u n p) = c_time_write p" "c_type (stamp_sender now u n p) = c_type p"
  "c_fd (stamp_sender now u n p) = c_fd p" "c_locked (stamp_sender now u n p) = c_locked p"
  "c_via (stamp_sender now u n p) = c_via p" "on_channel (stamp_sender now u n p) = on_channel p"
  "idle (stamp_sender now u n p) = idle p"
  by (simp_all add: stamp_sender_def fun_eq_iff on_channel_def on_chan_list_def)

lemma add_history_frame [simp, frame]:
  "w_connections (add_history ch f s w) = w_connections w" "w_currtime (add_history ch f s w) = w_currtime w"
  "w_cfg (add_history ch f s w) = w_cfg w" "w_banned_users (add_history ch f s w) = w_banned_users w"
  by (simp_all add: add_history_def upd_channel_def)

lemma send_msg_to_channel2_loop:
  assumes "find_channel channel w \<noteq> None" "flood_checked"
  shows "send_msg_to_channel2 E from_orig fromuser fromnick channel s flood_checked w =
     for_connections (channel_turn E from_orig fromuser fromnick channel (take MAX_MSGSIZE s))
       (channel_entry from_orig fromuser fromnick channel (take MAX_MSGSIZE s) w)"
  using assms by (auto simp: send_msg_to_channel2_def channel_entry_def Let_def)

lemma channel_entry_conn:
  "conn (channel_entry from_orig fromuser fromnick channel s w) i =
     map_option (stamp_sender (w_currtime w) fromuser fromnick) (conn w i)"
  using find_map_id [of "stamp_sender (w_currtime w) fromuser fromnick" i "w_connections w"]
  by (simp add: channel_entry_def conn_def)

lemma channel_entry_frame:
  "flowing (channel_entry from_orig fromuser fromnick channel s w) = flowing w"
  "conn_ids (channel_entry from_orig fromuser fromnick channel s w) = conn_ids w"
  "link_open channel (channel_entry from_orig fromuser fromnick channel s w) = link_open channel w"
  "obuf_of (channel_entry from_orig fromuser fromnick channel s w) i = obuf_of w i"
proof -
  let ?w = "channel_entry from_orig fromuser fromnick channel s w"
  show "flowing ?w = flowing w" "conn_ids ?w = conn_ids w"
    by (simp_all add: channel_entry_def flowing_def list_all_iff conn_ids_def comp_def)
  have "find_channel channel ?w = map_option (add_to_history (w_cfg w) (w_currtime w) from_orig s) (find_channel channel w)"
    using find_update_first [of "\<lambda>ch. ch_chan ch = channel" "add_to_history (w_cfg w) (w_currtime w) from_orig s" "w_channels w"]
    by (simp add: channel_entry_def add_history_def upd_channel_def find_channel_def add_to_history_def Let_def)
  then show "link_open channel ?w = link_open channel w"
    by (simp add: link_open_def add_to_history_def Let_def split: option.split)
  show "obuf_of ?w i = obuf_of w i"
    by (auto simp: obuf_of_def channel_entry_conn split: option.split)
qed

text \<open>C5: A channel message goes over each link to a neighbour exactly once if a user on the channel
  is behind that link, and not at all if the link is locked, which is how the link a message came
  from is left out, or if the channel is local.\<close>

theorem channel_msg_once_per_link:
  assumes "flowing w" "from_orig \<noteq> ''conversd''" "find_channel channel w = Some ch"
    "conn w v = Some c" "c_type c = CT_HOST" "c_fd c \<noteq> -1"
  shows "obuf_of (send_msg_to_channel2 E from_orig fromuser fromnick channel s True w) v = obuf_of w v @
     (if \<not> c_locked c \<and> \<not> flag (ch_flags ch) M_CHAN_L \<and> (\<exists>i p. conn w i = Some p \<and> behind channel v p)
      then [cmsg_line from_orig channel (take MAX_MSGSIZE s)] else [])"
proof -
  let ?s = "take MAX_MSGSIZE s"
  let ?v = "channel_entry from_orig fromuser fromnick channel ?s w"
  obtain c' where c': "conn ?v v = Some c'" "c_type c' = CT_HOST" "c_fd c' \<noteq> -1" "c_locked c' = c_locked c"
    using assms(4-6) by (auto simp: channel_entry_conn)
  have b: "behind channel v (stamp_sender t fromuser fromnick p) = behind channel v p" for p t
    by (simp add: behind_def)
  have "heard_behind channel v ?v (conn_ids w) \<longleftrightarrow> (\<exists>i p. conn w i = Some p \<and> behind channel v p)"
  proof
    assume "\<exists>i p. conn w i = Some p \<and> behind channel v p"
    then obtain i p where p: "conn w i = Some p" "behind channel v p" by blast
    then have "i \<in> set (conn_ids w)" using conn_None_iff [of w i] by auto
    with p show "heard_behind channel v ?v (conn_ids w)"
      by (auto simp: heard_behind_def list_ex_iff channel_entry_conn b intro!: bexI [of _ i])
  qed (auto simp: heard_behind_def list_ex_iff channel_entry_conn b split: option.splits)
  moreover have "link_open channel w \<longleftrightarrow> \<not> flag (ch_flags ch) M_CHAN_L" using assms(3) by (simp add: link_open_def)
  ultimately show ?thesis
    using channel_loop_link [OF assms(2) _ c'(1-3), where E = E and fromuser = fromuser and fromnick = fromnick
        and channel = channel and s = ?s] assms(1,3) c'(4)
    by (simp add: send_msg_to_channel2_loop for_connections_def channel_entry_frame)
qed


section \<open>Local users on a channel\<close>

text \<open>\<open>w'\<close> is \<open>w\<close> with texts queued, at the end of the queue of \<open>i\<close> in particular.\<close>

definition grows :: "cid \<Rightarrow> world \<Rightarrow> world \<Rightarrow> bool" where
  "grows i w w' \<longleftrightarrow> sends w w' \<and> (\<exists>xs. obuf_of w' i = obuf_of w i @ xs)"

lemma grows_refl: "flowing w \<Longrightarrow> grows i w w"
  by (simp add: grows_def sends_refl)

lemma grows_trans: "grows i w w' \<Longrightarrow> grows i w' w'' \<Longrightarrow> grows i w w''"
  by (auto simp: grows_def intro: sends_trans)

lemma grows_flowing: "grows i w w' \<Longrightarrow> flowing w'"
  using sends_flowing unfolding grows_def by blast

lemma grows_step: "grows i w w' \<Longrightarrow> (flowing w' \<Longrightarrow> grows i w' (f w')) \<Longrightarrow> grows i w (f w')"
  using grows_trans sends_flowing unfolding grows_def by blast

lemma grows_appendstring: "flowing w \<Longrightarrow> grows i w (appendstring E j s w)"
proof -
  assume fl: "flowing w"
  have "\<exists>xs. obuf_of (queue_text j s w) i = obuf_of w i @ xs"
    by (auto simp: obuf_of_def conn_queue_text enqueue_def outq.items_enq split: option.split)
  then show ?thesis using fl by (simp add: grows_def sends_appendstring) (simp add: appendstring_flowing)
qed

lemma grows_lock: "flowing w \<Longrightarrow> grows i w (lock_conn j w)"
  by (simp add: grows_def sends_lock)

lemma grows_send_notice: "flowing w \<Longrightarrow> grows i w (send_notice E j from ch w)"
  by (auto simp: send_notice_def intro: grows_appendstring grows_refl split: option.split)

lemma grows_append_chan_notice: "flowing w \<Longrightarrow> grows i w (append_chan_notice E j s ch w)"
  by (auto simp: append_chan_notice_def Let_def intro: grows_appendstring grows_refl grows_send_notice grows_step
      split: option.split)

lemma grows_appendc: "flowing w \<Longrightarrow> grows i w (appendc E j n ast w)"
  by (auto simp: appendc_def Let_def intro: grows_appendstring grows_refl split: option.split)

lemma grows_appendprompt: "flowing w \<Longrightarrow> grows i w (appendprompt E j ast w)"
  by (auto simp: appendprompt_def intro: grows_appendc grows_refl split: option.split)

lemma grows_timestamp: "flowing w \<Longrightarrow> grows i w (upd_conn j (\<lambda>c. c\<lparr>c_timestamp := t\<rparr>) w)"
  by (auto simp: grows_def sends_timestamp obuf_of_def conn_upd_conn split: option.split)

lemma grows_add_time_stamp: "flowing w \<Longrightarrow> grows i w (add_time_stamp E j w)"
  by (auto simp: add_time_stamp_def Let_def intro: grows_refl grows_timestamp grows_appendstring
      intro!: grows_step [OF _ grows_timestamp] split: option.split)

lemma grows_seq:
  assumes "grows i w v"
  shows "grows i w (appendstring E j s v)" "grows i w (lock_conn j v)" "grows i w (append_chan_notice E j s ch v)"
    "grows i w (appendc E j n ast v)" "grows i w (appendprompt E j ast v)" "grows i w (add_time_stamp E j v)"
  using assms by (auto intro: grows_step [OF assms] grows_appendstring grows_lock grows_append_chan_notice grows_appendc
      grows_appendprompt grows_add_time_stamp)

text \<open>What a user reads of a message.\<close>

definition channel_text :: "string \<Rightarrow> string \<Rightarrow> string \<Rightarrow> int \<Rightarrow> string \<Rightarrow> connection \<Rightarrow> string" where
  "channel_text from_orig fromuser fromnick channel s p =
     (if \<not> c_ircmode p
      then formatline (''<'' @ (if c_channel p = channel then [] else dec channel @ '':'') @
             (if c_shownicks p then from_orig else fromuser) @ ''>:'') 0 s (c_width p)
      else irc_privmsg from_orig fromuser fromnick p (''#'' @ dec channel) s)"

lemma obuf_through:
  assumes "grows i w v" "conn w i = Some p" "c_fd p \<noteq> -1" "s \<noteq> []" "grows i (appendstring E i s v) w'"
  shows "\<exists>xs ys. obuf_of w' i = obuf_of w i @ xs @ out_data p s # ys"
proof -
  have sv: "sends w v" using assms(1) by (simp add: grows_def)
  obtain c where c: "conn v i = Some c" "idle c = idle p" "c_fd c = c_fd p"
    using same_conn [OF sends_conn [OF sv] assms(2)] by blast
  have "out_data c s = out_data p s"
    using idle_eqD(2,16) [OF c(2)] by (simp add: out_data_def)
  with obuf_of_appendstring [OF sends_flowing [OF sv] c(1) _ assms(4), of E] c(3) assms(3)
  have "obuf_of (appendstring E i s v) i = obuf_of v i @ [out_data p s]" by simp
  moreover obtain xs ys where "obuf_of v i = obuf_of w i @ xs" "obuf_of w' i = obuf_of (appendstring E i s v) i @ ys"
    using assms(1,5) by (auto simp: grows_def)
  ultimately have "obuf_of w' i = obuf_of w i @ xs @ out_data p s # ys" by simp
  then show ?thesis by blast
qed

lemma deliver_channel_obuf:
  assumes "flowing w" "conn w (c_id p) = Some p" "c_fd p \<noteq> -1" "from_orig \<noteq> ''conversd''"
    "channel_text from_orig fromuser fromnick channel s p \<noteq> []"
  shows "\<exists>xs ys. obuf_of (deliver_channel E from_orig fromuser fromnick channel s p w) (c_id p) =
     obuf_of w (c_id p) @ xs @ out_data p (channel_text from_orig fromuser fromnick channel s p) # ys"
proof -
  let ?i = "c_id p" and ?t = "channel_text from_orig fromuser fromnick channel s p"
  let ?v = "appendc E ?i 3 False (appendc E ?i 0 False w)"
  define u where "u = (if \<not> c_ircmode p then add_time_stamp E ?i ?v else ?v)"
  have u: "grows ?i w u" using grows_refl [OF assms(1)] by (simp add: grows_seq u_def)
  have "deliver_channel E from_orig fromuser fromnick channel s p w =
      lock_conn ?i (appendprompt E ?i False (if \<not> c_ircmode p then appendstring E ?i ?t u
        else appendstring E ?i [NL] (appendstring E ?i ?t u)))"
    using assms(4) by (simp add: deliver_channel_def Let_def channel_text_def u_def)
  then have "grows ?i (appendstring E ?i ?t u) (deliver_channel E from_orig fromuser fromnick channel s p w)"
    using grows_refl [OF grows_flowing [OF grows_seq(1) [OF u]], of ?i] by (simp add: grows_seq)
  from obuf_through [OF u assms(2,3,5) this] show ?thesis .
qed

definition hears :: "string \<Rightarrow> string \<Rightarrow> int \<Rightarrow> string \<Rightarrow> connection \<Rightarrow> bool" where
  "hears from_orig fromuser channel s c \<longleftrightarrow> on_channel c channel \<and> \<not> chan_filtered from_orig fromuser s c"


lemma hears_idle:
  assumes "idle c = idle d"
  shows "hears from_orig fromuser channel s c = hears from_orig fromuser channel s d"
    "channel_text from_orig fromuser fromnick channel s c = channel_text from_orig fromuser fromnick channel s d"
    "out_data c t = out_data d t"
proof -
  note e = idle_eqD [OF assms]
  have f: "is_filtered a b c t = is_filtered a b d t" for a b t
  proof -
    have "has_badword c t = has_badword d t" for t unfolding has_badword_def e(13) ..
    then show ?thesis unfolding is_filtered_def e(12) by (simp only:)
  qed
  show "hears from_orig fromuser channel s c = hears from_orig fromuser channel s d"
    by (simp add: hears_def on_channel_def on_chan_list_def chan_filtered_def f e)
  show "channel_text from_orig fromuser fromnick channel s c = channel_text from_orig fromuser fromnick channel s d"
    "out_data c t = out_data d t"
    by (simp_all add: channel_text_def irc_privmsg_def out_data_def e)
qed

lemma channel_loop_user:
  assumes "from_orig \<noteq> ''conversd''" "flowing w" "conn w i = Some c" "c_type c = CT_USER" "c_via c = None" "c_fd c \<noteq> -1"
    "\<forall>j p. conn w j = Some p \<longrightarrow> c_via p \<noteq> Some i"
    "channel_text from_orig fromuser fromnick channel s c \<noteq> []"
  shows "if i \<in> set is \<and> \<not> c_locked c \<and> hears from_orig fromuser channel s c
     then \<exists>xs ys. obuf_of (for_ids is (channel_turn E from_orig fromuser fromnick channel s) w) i =
            obuf_of w i @ xs @ out_data c (channel_text from_orig fromuser fromnick channel s c) # ys
     else obuf_of (for_ids is (channel_turn E from_orig fromuser fromnick channel s) w) i = obuf_of w i"
  using assms(2-)
proof (induction "is" arbitrary: w c)
  case (Cons j js)
  let ?t = "channel_turn E from_orig fromuser fromnick channel s"
  define w1 where "w1 = (case conn w j of None \<Rightarrow> w | Some p \<Rightarrow> ?t p w)"
  have s1: "sends w w1"
    using sends_channel_turn [OF Cons.prems(1) assms(1)] sends_refl [OF Cons.prems(1)] by (auto simp: w1_def split: option.split)
  obtain c1 where c1: "conn w1 i = Some c1" "idle c1 = idle c" "c_type c1 = c_type c" "c_fd c1 = c_fd c"
    using same_conn [OF sends_conn [OF s1] Cons.prems(2)] by blast
  have via1: "\<forall>j p. conn w1 j = Some p \<longrightarrow> c_via p \<noteq> Some i"
  proof (intro allI impI)
    fix j p assume "conn w1 j = Some p"
    from sends_type [OF s1 this] obtain q where "conn w j = Some q" "idle p = idle q" by blast
    with idle_eqD(6) [of p q] Cons.prems(6) show "c_via p \<noteq> Some i" by metis
  qed
  note h1 = hears_idle [OF c1(2)]
  have step: "for_ids (j # js) ?t w = for_ids js ?t w1" by (simp add: w1_def)
  note IH = Cons.IH [OF sends_flowing [OF s1] c1(1) _ _ _ via1, unfolded h1 c1(3,4), OF Cons.prems(3) _ Cons.prems(5,7)]
  have via_c1: "c_via c1 = None" using idle_eqD(6) [OF c1(2)] Cons.prems(4) by simp
  show ?case
  proof (cases "j = i")
    case True
    have id: "c_id c = i" using conn_SomeD [OF Cons.prems(2)] by simp
    show ?thesis
    proof (cases "\<not> c_locked c \<and> hears from_orig fromuser channel s c")
      case hear: True
      then have w1: "w1 = deliver_channel E from_orig fromuser fromnick channel s c w"
        using True Cons.prems(2-4) by (simp add: w1_def channel_turn_def hears_def)
      have "c_locked c1"
        using c1(1) id by (auto simp: w1 deliver_channel_def Let_def lock_conn_def conn_upd_conn)
      with IH [OF via_c1] have "obuf_of (for_ids (j # js) ?t w) i = obuf_of w1 i" unfolding step by simp
      moreover have "\<exists>xs ys. obuf_of w1 i = obuf_of w i @ xs @ out_data c (channel_text from_orig fromuser fromnick channel s c) # ys"
        using deliver_channel_obuf [OF Cons.prems(1) _ Cons.prems(5) assms(1) Cons.prems(7), of E] Cons.prems(2) id by (simp add: w1)
      ultimately show ?thesis using hear True by simp
    next
      case quiet: False
      have "obuf_of w1 i = obuf_of w i"
        using quiet True Cons.prems(2-4) by (auto simp: w1_def channel_turn_def hears_def)
      moreover have "c_locked c1 \<or> \<not> hears from_orig fromuser channel s c"
        using quiet True Cons.prems(2-4) c1(1) by (auto simp: w1_def channel_turn_def hears_def)
      ultimately show ?thesis using quiet IH [OF via_c1] unfolding step by auto
    qed
  next
    case False
    have "conn w1 i = conn w i"
    proof (cases "conn w j")
      case (Some p)
      then have "c_id p \<noteq> i" "c_via p \<noteq> Some i" using conn_SomeD [OF Some] False Cons.prems(6) by auto
      from channel_turn_spares [OF Cons.prems(1) assms(1) this] Some show ?thesis by (simp add: w1_def spares_def)
    qed (simp add: w1_def)
    moreover from this c1(1) Cons.prems(2) have "c1 = c" by simp
    moreover from calculation(1) have "obuf_of w1 i = obuf_of w i" by (simp add: obuf_of_def)
    ultimately show ?thesis using IH [OF via_c1] False unfolding step by (auto split: if_splits)
  qed
qed simp

text \<open>C6: A local user reads a channel message if and only if he is on the channel, is not locked and
  has not filtered its sender or one of its words; the text he gets is the formatted message in his
  character set.\<close>

theorem channel_msg_reaches_users:
  assumes "flowing w" "from_orig \<noteq> ''conversd''" "find_channel channel w \<noteq> None"
    "conn w i = Some c" "c_type c = CT_USER" "c_via c = None" "c_fd c \<noteq> -1"
    "\<forall>j p. conn w j = Some p \<longrightarrow> c_via p \<noteq> Some i"
    "s' = take MAX_MSGSIZE s" "channel_text from_orig fromuser fromnick channel s' c \<noteq> []"
  shows "if \<not> c_locked c \<and> on_channel c channel \<and> \<not> chan_filtered from_orig fromuser s' c
     then \<exists>xs ys. obuf_of (send_msg_to_channel2 E from_orig fromuser fromnick channel s True w) i =
            obuf_of w i @ xs @ out_data c (channel_text from_orig fromuser fromnick channel s' c) # ys
     else obuf_of (send_msg_to_channel2 E from_orig fromuser fromnick channel s True w) i = obuf_of w i"
proof -
  let ?v = "channel_entry from_orig fromuser fromnick channel s' w"
  let ?c = "stamp_sender (w_currtime w) fromuser fromnick c"
  have c: "conn ?v i = Some ?c" using assms(4) by (simp add: channel_entry_conn)
  have i: "i \<in> set (conn_ids w)" using assms(4) conn_None_iff [of w i] by auto
  have via: "\<forall>j p. conn ?v j = Some p \<longrightarrow> c_via p \<noteq> Some i" using assms(8) by (auto simp: channel_entry_conn)
  note h = hears_idle [of ?c c, OF stamp_sender_sel(9)]
  have "flowing ?v" "c_type ?c = CT_USER" "c_via ?c = None" "c_fd ?c \<noteq> -1"
    "channel_text from_orig fromuser fromnick channel s' ?c \<noteq> []"
    using assms(1,5-7,10) by (simp_all add: channel_entry_frame h)
  note L = channel_loop_user [OF assms(2) this(1) c this(2-4) via this(5), of "conn_ids w" E]
  have "send_msg_to_channel2 E from_orig fromuser fromnick channel s True w =
      for_ids (conn_ids w) (channel_turn E from_orig fromuser fromnick channel s') ?v"
    using assms(3) by (simp add: send_msg_to_channel2_loop for_connections_def channel_entry_frame assms(9))
  then show ?thesis
    using L [unfolded h channel_entry_frame stamp_sender_sel] i unfolding hears_def by simp
qed


definition talk_world :: world where
  "talk_world = (boot_world ''db0tud'' 1000)\<lparr>
     w_connections := [(blank_connection 0 4 1000)\<lparr>c_type := CT_HOST\<rparr>,
                       (blank_connection 1 (-1) 1000)\<lparr>c_type := CT_USER, c_name := ''dl1abc'', c_via := Some 0, c_channel := 7\<rparr>,
                       (blank_connection 2 5 1000)\<lparr>c_type := CT_USER, c_name := ''dl2xyz'', c_ircmode := True, c_channel := 7\<rparr>],
     w_channels := [fresh_channel False 0 7 None]\<rparr>"

lemma talk_world_conns:
  "conn talk_world i = (if i = 0 then Some ((blank_connection 0 4 1000)\<lparr>c_type := CT_HOST\<rparr>)
     else if i = 1 then Some ((blank_connection 1 (-1) 1000)\<lparr>c_type := CT_USER, c_name := ''dl1abc'', c_via := Some 0, c_channel := 7\<rparr>)
     else if i = 2 then Some ((blank_connection 2 5 1000)\<lparr>c_type := CT_USER, c_name := ''dl2xyz'', c_ircmode := True, c_channel := 7\<rparr>)
     else None)"
  by (simp add: conn_def talk_world_def blank_connection_def)

lemma talk_world_ok: "flowing talk_world" "find_channel 7 talk_world = Some (fresh_channel False 0 7 None)"
  by (simp_all add: talk_world_def flowing_def blank_connection_def find_channel_def fresh_channel_def)

theorem channel_msg_once_per_link_witness:
  "\<forall>E. obuf_of (send_msg_to_channel2 E ''dl9sau'' ''dl9sau'' ''dl9sau'' 7 ''hi'' True talk_world) 0 =
     [cmsg_line ''dl9sau'' 7 ''hi'']"
proof
  fix E
  let ?c = "(blank_connection 0 4 1000)\<lparr>c_type := CT_HOST\<rparr>"
  have "conn talk_world 0 = Some ?c" "c_type ?c = CT_HOST" "c_fd ?c \<noteq> -1" "''dl9sau'' \<noteq> ''conversd''"
    by (simp_all add: talk_world_conns) (simp add: blank_connection_def)
  note channel_msg_once_per_link [OF talk_world_ok(1) this(4) talk_world_ok(2) this(1-3), of E "''dl9sau''" "''dl9sau''" "''hi''"]
  moreover have "\<exists>i p. conn talk_world i = Some p \<and> behind 7 0 p"
    by (rule exI [of _ 1]) (simp add: talk_world_conns behind_def on_channel_def)
  ultimately show "obuf_of (send_msg_to_channel2 E ''dl9sau'' ''dl9sau'' ''dl9sau'' 7 ''hi'' True talk_world) 0 =
     [cmsg_line ''dl9sau'' 7 ''hi'']"
    by (simp add: obuf_of_def talk_world_conns blank_connection_def fresh_channel_def flag_def)
qed

theorem channel_msg_reaches_users_witness:
  "\<forall>E. obuf_of (send_msg_to_channel2 E ''dl9sau'' ''dl9sau'' ''dl9sau'' 7 ''hi'' True talk_world) 2 \<noteq> []"
proof
  fix E
  let ?c = "(blank_connection 2 5 1000)\<lparr>c_type := CT_USER, c_name := ''dl2xyz'', c_ircmode := True, c_channel := 7\<rparr>"
  have h: "''dl9sau'' \<noteq> ''conversd''" "find_channel 7 talk_world \<noteq> None" "conn talk_world 2 = Some ?c" "c_type ?c = CT_USER"
    "c_via ?c = None" "c_fd ?c \<noteq> -1" "\<forall>j p. conn talk_world j = Some p \<longrightarrow> c_via p \<noteq> Some 2" "''hi'' = take MAX_MSGSIZE ''hi''"
    by (simp_all add: talk_world_conns talk_world_ok(2)) (auto simp: blank_connection_def split: if_splits)
  have t: "channel_text ''dl9sau'' ''dl9sau'' ''dl9sau'' 7 ''hi'' ?c \<noteq> []"
    by (simp add: channel_text_def irc_privmsg_def)
  have "\<not> c_locked ?c \<and> on_channel ?c 7 \<and> \<not> chan_filtered ''dl9sau'' ''dl9sau'' ''hi'' ?c"
    by (simp add: on_channel_def chan_filtered_def blank_connection_def)
  with channel_msg_reaches_users [OF talk_world_ok(1) h t, of E]
  show "obuf_of (send_msg_to_channel2 E ''dl9sau'' ''dl9sau'' ''dl9sau'' 7 ''hi'' True talk_world) 2 \<noteq> []" by auto
qed

end
