(* ===== verification/Flood.thy ===== *)
theory Flood
  imports Messages
begin

text \<open>
  The second half of \<^verbatim>\<open>noflood.c\<close>: the checks that a message, a command or a channel join passes
  before it is carried out, and the delay queue of messages that came too fast.

  A user whose rate limit is used up has his messages queued at his static user entry; they are
  delivered in order once the limit allows it. A user who fills the queue is banned.
\<close>

section \<open>Definitions\<close>

abbreviation (input) "NO_SERVER_FLOOD \<equiv> (1 :: nat)"
abbreviation (input) "NO_LOCAL_COMMAND_FLOOD \<equiv> (2 :: nat)"
abbreviation (input) "NO_LOCAL_JOIN_FLOOD \<equiv> (4 :: nat)"
abbreviation (input) "NO_REMOTE_COMMAND_FLOOD \<equiv> (8 :: nat)"
abbreviation (input) "NO_REMOTE_MESSAGE_FLOOD \<equiv> (16 :: nat)"
abbreviation (input) "NO_REMOTE_JOIN_FLOOD \<equiv> (32 :: nat)"
abbreviation (input) "MAX_CHAN_PER_USER_AND_HOST \<equiv> (15 :: nat)"

text \<open>Lines 545 to 563: a new entry at the end of the queue.\<close>

definition put_delayed :: "sul_qp \<Rightarrow> static_user_list \<Rightarrow> static_user_list" where
  "put_delayed qp s =
     s\<lparr>s_delayqueue_len := s_delayqueue_len s + qp_text_len qp, s_delayqueue := s_delayqueue s @ [qp]\<rparr>"

definition flood_reason :: "connection \<Rightarrow> string option \<Rightarrow> int \<Rightarrow> string" where
  "flood_reason cp toname channel =
     (if c_type cp = CT_HOST then ''Remote'' else ''Local'') @ '' Message Flood to '' @
     (case toname of Some t \<Rightarrow> ''<'' @ t @ ''>'' | None \<Rightarrow> ''#'' @ dec channel)"

definition flood_notice :: "env \<Rightarrow> string option \<Rightarrow> int \<Rightarrow> string \<Rightarrow> world \<Rightarrow> world" where
  "flood_notice E toname channel buffer w =
     (case toname of
        Some t \<Rightarrow> send_msg_to_user E ''conversd'' t buffer w
      | None \<Rightarrow> send_msg_to_channel E ''conversd'' channel buffer w)"

definition add_to_sul_delayqueue ::
  "env \<Rightarrow> connection \<Rightarrow> static_user_list \<Rightarrow> string option \<Rightarrow> int \<Rightarrow> string \<Rightarrow> string \<Rightarrow> world \<Rightarrow> world" where
  "add_to_sul_delayqueue E cp s toname channel name txt w =
     (let text_len = int (length txt); toname = map_option (take NAMESIZE) toname; name = take NAMESIZE name in
      if text_len = 0 then w
      else if FLOODSIZE < s_delayqueue_len s + text_len \<and> flag (FeatureBAN (w_cfg w)) DO_BAN then
        if strcaseeq (s_name s) (get_tidy_name toname) then w
        else
          let reason = flood_reason cp toname channel;
              buffer = ''*** ('' @ w_ts2 E w @ '') conversd@'' @ myhostname (w_cfg w) @ '' Banned '' @ name @ '' for '' @
                       ts3 (BanTime (w_cfg w) * 60) @ '': '' @ reason;
              w = flood_notice E toname channel buffer w;
              buffer = reason @ '' ('' @ name @ (if c_type cp = CT_HOST then '' via '' else ''@'') @
                       (if c_type cp = CT_HOST then c_name cp else myhostname (w_cfg w)) @ '')''
          in ban_user E name (myhostname (w_cfg w)) (Some (s_id s)) (w_currtime w) (BanTime (w_cfg w)) buffer
               (lock_conn (c_id cp) (clear_locks w))
      else upd_sul (s_id s) (put_delayed
             \<lparr>qp_name = name, qp_text = txt, qp_text_len = text_len, qp_channel = channel, qp_toname = toname\<rparr>) w)"

text \<open>Lines 493 to 494 and 612 to 613: a limit in the past counts from now.\<close>

definition start_limit :: "nat \<Rightarrow> world \<Rightarrow> world" where
  "start_limit k w = upd_sul k (\<lambda>s. s\<lparr>s_stop_process_until := max (s_stop_process_until s) (w_currtime w)\<rparr>) w"

definition check_msg_flood ::
  "env \<Rightarrow> cid \<Rightarrow> string option \<Rightarrow> int \<Rightarrow> string \<Rightarrow> string \<Rightarrow> string \<Rightarrow> world \<Rightarrow> bool \<times> world" where
  "check_msg_flood E i toname channel name nickname txt w =
     (case conn w i of
        None \<Rightarrow> (False, w)
      | Some cp \<Rightarrow>
          let fl = FeatureFLOOD (w_cfg w) in
          if (c_type cp = CT_HOST \<and> \<not> flag fl NO_REMOTE_MESSAGE_FLOOD) \<or> \<not> flag fl NO_SERVER_FLOOD then (False, w)
          else if strcaseeq name ''conversd'' then (False, w)
          else if is_banned name w \<noteq> None then (True, w)
          else
            (case get_sul name (Some i) w of
               None \<Rightarrow> (False, w)
             | Some s \<Rightarrow>
                 let k = s_id s;
                     w = start_limit k (upd_sul k (\<lambda>s. s\<lparr>s_last_updated := w_currtime w\<rparr>) w)
                 in (case sul w k of
                       None \<Rightarrow> (False, w)
                     | Some s \<Rightarrow>
                         if s_delayqueue s \<noteq> [] \<or> w_currtime w + int (RateLimitMAX (w_cfg w)) < s_stop_process_until s
                         then (True, add_to_sul_delayqueue E cp s toname channel name txt w)
                         else (False, update_ratelimit (Some k) name nickname txt w))))"

text \<open>Lines 616 to 633: the session of the sender that may still say this.\<close>

definition delayed_sender :: "static_user_list \<Rightarrow> sul_qp \<Rightarrow> world \<Rightarrow> connection option" where
  "delayed_sender s qp w =
     List.find (\<lambda>p. c_type p = CT_USER \<and> strcaseeq (c_name p) (qp_name qp) \<and>
                    (qp_toname qp \<noteq> None \<or> c_channel p = qp_channel qp \<or> on_chan_list p (qp_channel qp)))
       (List.map_filter (conn w) (s_sp s))"

definition send_delayed :: "env \<Rightarrow> cid \<Rightarrow> nat \<Rightarrow> sul_qp \<Rightarrow> connection \<Rightarrow> world \<Rightarrow> world" where
  "send_delayed E v k qp p w =
     (let w = lock_conn v (clear_locks w);
          w = (case qp_toname qp of
                 Some t \<Rightarrow> send_msg_to_user2 E (c_name p) (c_name p) (c_nickname p) t (qp_text qp) True w
               | None \<Rightarrow> send_msg_to_channel2 E (c_name p) (c_name p) (c_nickname p) (qp_channel qp) (qp_text qp) True w)
      in update_ratelimit (Some k) (c_name p) (c_nickname p) (qp_text qp) w)"

text \<open>The loop of line 611: the entries that stay, and the state.\<close>

fun delay_loop :: "env \<Rightarrow> cid \<Rightarrow> nat \<Rightarrow> sul_qp list \<Rightarrow> world \<Rightarrow> sul_qp list \<times> world" where
  "delay_loop E v k [] w = ([], w)"
| "delay_loop E v k (qp # qs) w =
     (let w = start_limit k w in
      case sul w k of
        None \<Rightarrow> (qp # qs, w)
      | Some s \<Rightarrow>
          if w_currtime w + int (RateLimitMAX (w_cfg w)) < s_stop_process_until s then (qp # qs, w)
          else
            let w = (case delayed_sender s qp w of None \<Rightarrow> w | Some p \<Rightarrow> send_delayed E v k qp p w) in
            delay_loop E v k qs (upd_sul k (\<lambda>s. s\<lparr>s_delayqueue_len := s_delayqueue_len s - qp_text_len qp\<rparr>) w))"

definition sul_turn :: "env \<Rightarrow> nat \<Rightarrow> world \<Rightarrow> world" where
  "sul_turn E k w =
     (case sul w k of
        None \<Rightarrow> w
      | Some s \<Rightarrow>
          if s_delayqueue_len s = 0 then w
          else
            (case s_via s of
               None \<Rightarrow> free_sul_delayqueue k w
             | Some v \<Rightarrow>
                 if (case conn w v of None \<Rightarrow> True | Some c \<Rightarrow> c_type c = CT_CLOSED) \<or> s_sp s = []
                 then free_sul_delayqueue k w
                 else
                   (case delay_loop E v k (s_delayqueue s) w of
                      (qs, w) \<Rightarrow> upd_sul k (\<lambda>s. s\<lparr>s_delayqueue := qs\<rparr>) w)))"

definition send_sul_delayed_messages :: "env \<Rightarrow> world \<Rightarrow> world" where
  "send_sul_delayed_messages E w =
     (if \<not> runs ''send_sul_delayed_messages'' 60 w then w
      else ran ''send_sul_delayed_messages'' (fold (sul_turn E) (map s_id (w_static_users w)) w))"

definition complain_flood :: "env \<Rightarrow> cid \<Rightarrow> string \<Rightarrow> int \<Rightarrow> int \<Rightarrow> world \<Rightarrow> world" where
  "complain_flood E i cmd_name floods time_next w =
     (case conn w i of
        None \<Rightarrow> w
      | Some cp \<Rightarrow>
          let nick = (if c_nickname cp \<noteq> [] then c_nickname cp else ''*'') in
          appendstring E i
            (if floods < 3 \<or> \<not> flag (FeatureBAN (w_cfg w)) DO_BAN then
               if \<not> c_ircmode cp
               then ''*** ('' @ w_ts2 E w @ '') Flood protection for '' @ [CHR 0x27] @ ''/'' @ cmd_name @ [CHR 0x27] @ ''. Please wait '' @
                    ts3 (time_next - w_currtime w) @ '' and try again.'' @ [NL]
               else '':'' @ myhostname (w_cfg w) @ '' 263 '' @ nick @ '' '' @ strupr cmd_name @ '' :Please wait '' @
                    ts3 (time_next - w_currtime w) @ '' and try again.'' @ [NL]
             else if \<not> c_ircmode cp
             then ''*** ('' @ w_ts2 E w @ '') Please do not flood. You will be banned'' @
                  (if 4 < floods then '' really'' else []) @ '' soon.'' @ [NL]
             else '':'' @ myhostname (w_cfg w) @ '' 466 '' @ nick @ '' :You will be banned.'' @
                  (if 4 < floods then '' Don't say you have not been warned.'' else []) @ [NL]) w)"

definition set_cmd_timer :: "nat \<Rightarrow> nat \<Rightarrow> int \<Rightarrow> world \<Rightarrow> world" where
  "set_cmd_timer k cmd t = upd_sul k (\<lambda>s. s\<lparr>s_time_nextcmd := (s_time_nextcmd s)[cmd := t]\<rparr>)"

definition set_floods :: "nat \<Rightarrow> nat \<Rightarrow> int \<Rightarrow> world \<Rightarrow> world" where
  "set_floods k cmd n = upd_sul k (\<lambda>s. s\<lparr>s_num_floods := (s_num_floods s)[cmd := n]\<rparr>)"

text \<open>Lines 725 to 754: the sixth command in a row that comes too early.\<close>

definition cmd_flood_ban ::
  "env \<Rightarrow> connection \<Rightarrow> nat \<Rightarrow> bool \<Rightarrow> string \<Rightarrow> string option \<Rightarrow> nat \<Rightarrow> world \<Rightarrow> world" where
  "cmd_flood_ban E cp k is_local name host cmd w =
     (let i = c_id cp; name = take NAMESIZE name; me = myhostname (w_cfg w);
          host = (case host of None \<Rightarrow> [] | Some h \<Rightarrow> take NAMESIZE h);
          cmd_name = strupr (take 4 (sul_cmd_names ! cmd));
          reason = (if is_local then ''Local'' else ''Remote'') @ '' Command Flood '' @ cmd_name @ '' ('' @ name @
                   (if host \<noteq> [] then ''@'' else []) @ host @ (if is_local then [] else '' via '' @ c_name cp) @ '')'';
          w = clear_locks w
      in if is_local then
           let w = ban_user E name me (Some k) (w_currtime w) (BanTime (w_cfg w)) reason w;
               buffer = (if \<not> c_ircmode cp
                         then ''*** Closing Link: '' @ c_name cp @ '' by '' @ me @ '' (Command Flood)'' @
                              (if c_ax25 cp then [CHR 0x0D] else [NL])
                         else ''ERROR :Closing Link: '' @ c_nickname cp @ '' by '' @ me @ '' (Command Flood)'' @ [CHR 0x0D, NL])
           in e_bye E i ''Command Flood'' (snd (fast_write E i buffer 0 w))
         else ban_user E name me (Some k) (w_currtime w) (BanTime (w_cfg w)) reason (lock_conn i w))"

text \<open>Lines 716 to 779; \<open>time_next\<close> is an \<^verbatim>\<open>int\<close>.\<close>

definition cmd_flood_rate ::
  "env \<Rightarrow> connection \<Rightarrow> nat \<Rightarrow> string \<Rightarrow> string option \<Rightarrow> nat \<Rightarrow> bool \<Rightarrow> world \<Rightarrow> int \<times> world" where
  "cmd_flood_rate E cp k name host cmd warn w =
     (case sul w k of
        None \<Rightarrow> (0, w)
      | Some s \<Rightarrow>
          let is_local = (c_type cp \<noteq> CT_HOST \<and> c_via cp = None);
              time_next = signed_take_bit 31 (s_time_nextcmd s ! cmd);
              delay = int (SulCmdDelay (w_cfg w));
              floods = s_num_floods s ! cmd
          in if w_currtime w < time_next then
               let time_next = signed_take_bit 31 (time_next + delay * 2);
                   w = set_cmd_timer k cmd time_next w
               in if 5 \<le> floods \<and> flag (FeatureBAN (w_cfg w)) DO_BAN
                  then (-1, cmd_flood_ban E cp k is_local name host cmd w)
                  else
                    let w = set_floods k cmd (floods + 1) w in
                    (floods + 1,
                     if is_local \<and> warn
                     then complain_flood E (c_id cp) (take 15 (sul_cmd_names ! cmd)) (floods + 1) time_next w else w)
             else
               let time_next = signed_take_bit 31 (time_next + delay);
                   w = set_cmd_timer k cmd time_next w
               in (0, if floods \<noteq> 0 then
                        set_floods k cmd
                          (if (time_next + int (SulLifeTime (w_cfg w)) div 4) mod 2 ^ 32 < w_currtime w then 0 else floods - 1) w
                      else w))"

definition check_cmd_flood ::
  "env \<Rightarrow> cid \<Rightarrow> string \<Rightarrow> string option \<Rightarrow> nat \<Rightarrow> bool \<Rightarrow> string \<Rightarrow> world \<Rightarrow> int \<times> world" where
  "check_cmd_flood E i name host cmd warn cmdline w =
     (case conn w i of
        None \<Rightarrow> (0, w)
      | Some cp \<Rightarrow>
          let fl = FeatureFLOOD (w_cfg w); ishost = (c_type cp = CT_HOST) in
          if (ishost \<and> \<not> flag fl NO_REMOTE_COMMAND_FLOOD) \<or> \<not> flag fl NO_LOCAL_COMMAND_FLOOD then (0, w)
          else if SUL_CMD_MAX \<le> cmd then (0, w)
          else if c_type cp = CT_USER \<and> c_operator cp \<noteq> 0 then (0, w)
          else
            (case (if ishost then map_option s_id (get_sul name (Some i) w) else c_sul cp) of
               None \<Rightarrow> (0, w)
             | Some k \<Rightarrow>
                 cmd_flood_rate E cp k name host cmd warn
                   (let w = upd_sul k (\<lambda>s. s\<lparr>s_last_updated := w_currtime w\<rparr>) w
                    in if ishost then update_ratelimit (Some k) name name cmdline w else w)))"

text \<open>Lines 825 to 839: the channels a user has joined, and the last of his sessions.\<close>

definition join_sessions :: "connection \<Rightarrow> string \<Rightarrow> string \<Rightarrow> world \<Rightarrow> connection list" where
  "join_sessions cp name host w =
     filter (\<lambda>p. c_type p = CT_USER \<and> user_matches name (c_name p) \<and>
        (if c_type cp = CT_HOST then c_via p = Some (c_id cp) \<and> strcaseeq (c_host p) host else c_via p = None))
       (w_connections w)"

definition on_channels :: "connection \<Rightarrow> connection list \<Rightarrow> nat" where
  "on_channels cp ps =
     (if c_type cp = CT_HOST then length ps else sum_list (map (\<lambda>p. length (c_chan_list p)) ps))"

text \<open>Lines 841 to 866.\<close>

definition join_limit :: "env \<Rightarrow> connection \<Rightarrow> string \<Rightarrow> string \<Rightarrow> int \<Rightarrow> world \<Rightarrow> int \<times> world" where
  "join_limit E cp name host channel w =
     (let ps = join_sessions cp name host w in
      if on_channels cp ps < MAX_CHAN_PER_USER_AND_HOST then (0, w)
      else if c_type cp = CT_HOST then
        if c_operator (last ps) \<noteq> 0 then (0, w)
        else
          (1, if flag (FeatureBAN (w_cfg w)) DO_BAN
              then ban_user E (take NAMESIZE name) (myhostname (w_cfg w)) (c_sul (last ps)) (w_currtime w) (BanTime (w_cfg w))
                     (''Remote Join Flood to #'' @ dec channel @ '' ('' @ take NAMESIZE name @ ''@'' @ take NAMESIZE host @
                      '' via '' @ c_name cp @ '')'') w
              else w)
      else
        (1, appendstring E (c_id cp)
           (if \<not> c_ircmode cp
            then ''*** ('' @ w_ts2 E w @ '') Cannot join #'' @ dec channel @ '': You have joined too many channels.'' @ [NL]
            else '':'' @ myhostname (w_cfg w) @ '' 405 '' @ c_nickname cp @ '' #'' @ dec channel @
                 '' :You have joined too many channels'' @ [NL]) w))"

definition check_join_flood :: "env \<Rightarrow> cid \<Rightarrow> string \<Rightarrow> string \<Rightarrow> int \<Rightarrow> world \<Rightarrow> int \<times> world" where
  "check_join_flood E i name host channel w =
     (case conn w i of
        None \<Rightarrow> (-1, w)
      | Some cp \<Rightarrow>
          let fl = FeatureFLOOD (w_cfg w); me = myhostname (w_cfg w) in
          if fl = 0 then (0, w)
          else if c_type cp = CT_USER then
            (case check_cmd_flood E i (c_name cp) (Some me) SUL_JOIN (\<not> c_ircmode cp) (c_pers cp) w of
               (ret, w) \<Rightarrow>
                 if ret \<noteq> 0 then
                   (1, if c_ircmode cp \<and> 0 < ret
                       then appendstring E i ('':'' @ me @ '' 437 '' @ c_nickname cp @ '' #'' @ dec channel @
                              '' :Nick/channel is temporarily unavailable'' @ [NL]) w
                       else w)
                 else if \<not> flag fl NO_LOCAL_JOIN_FLOOD \<or> c_operator cp \<noteq> 0 then (0, w)
                 else join_limit E cp name host channel w)
          else if c_type cp = CT_HOST then
            if \<not> flag fl NO_REMOTE_JOIN_FLOOD then (0, w) else join_limit E cp name host channel w
          else (-1, w))"

interpretation dq: fifo put_delayed s_delayqueue
  by unfold_locales (simp add: put_delayed_def)

section \<open>Operations that only speak\<close>

text \<open>\<open>w'\<close> is \<open>w\<close> after messages were sent: connections change in their queues, locks and times
  only, channels in their history only, and the flood control's own state stays.\<close>

definition talks :: "world \<Rightarrow> world \<Rightarrow> bool" where
  "talks w w' \<longleftrightarrow>
     flowing w' \<and> map idle (w_connections w') = map idle (w_connections w) \<and>
     w_static_users w' = w_static_users w \<and> w_currtime w' = w_currtime w \<and> w_cfg w' = w_cfg w \<and>
     w_banned_users w' = w_banned_users w \<and> w_last_run w' = w_last_run w"

lemma talks_refl: "flowing w \<Longrightarrow> talks w w"
  by (simp add: talks_def)

lemma talks_trans: "talks w w' \<Longrightarrow> talks w' w'' \<Longrightarrow> talks w w''"
  by (simp add: talks_def)

lemma talks_sends: "sends w w' \<Longrightarrow> talks w w'"
  by (auto simp: talks_def sends_def)

text \<open>Texts that operations speak themselves: nothing is learned from them.\<close>

definition plain_text :: "string \<Rightarrow> string \<Rightarrow> bool" where
  "plain_text from_orig s \<longleftrightarrow> (from_orig = ''conversd'' \<longrightarrow> strneq s ''*** ('' 5)"

lemma plain_text_server: "plain_text from_orig (''*** ('' @ s)" "plain_text from_orig (take MAX_MSGSIZE (''*** ('' @ s))"
  by (simp_all add: plain_text_def strneq_def)

lemma sends_interprete:
  assumes "flowing w" "plain_text ''conversd'' s"
  shows "sends w (snd (interprete_conversd_messages E cp s channel w))"
proof (cases "strneq s ''*** '' 4")
  case True
  then show ?thesis
    using assms unfolding interprete_conversd_messages_def plain_text_def
    by (simp add: sends_refl sends_seq split: option.split prod.split)
qed (use assms in \<open>simp add: interprete_conversd_messages_def sends_refl\<close>)

lemma sends_local_user_turn:
  assumes "flowing w" "\<And>u t v. flowing v \<Longrightarrow> sends v (answer u t v)"
  shows "sends w (local_user_turn E answer from_orig fromuser fromnick toname s p w)"
proof -
  have seq: "sends w v \<Longrightarrow> sends w (answer u t v)" for u t v
    using assms(2) by (blast intro: sends_trans dest: sends_flowing)
  show ?thesis
    using assms(1) by (simp add: local_user_turn_def Let_def sends_refl sends_seq seq)
qed

lemma sends_conversd_to_local_user [inv_intros]: "flowing w \<Longrightarrow> sends w (send_conversd_to_local_user E toname s w)"
  unfolding send_conversd_to_local_user_def by (intro sends_for_connections sends_local_user_turn sends_refl)

lemma sends_deliver_private:
  assumes "flowing w" "plain_text from_orig s"
  shows "sends w (deliver_private E from_orig fromuser fromnick s p w)"
proof -
  have away: "sends w v \<Longrightarrow> sends w (send_conversd_to_local_user E u t v)" for u t v
    by (blast intro: sends_trans sends_conversd_to_local_user dest: sends_flowing)
  have notice: "sends w v \<Longrightarrow> sends w (case interprete_conversd_messages E (Some p) s (-1) v of
       (True, w) \<Rightarrow> w | (False, w) \<Rightarrow> appendstring E i [NL] (append_general_notice E i s w))"
    if "from_orig = ''conversd''" for v i
  proof -
    assume "sends w v"
    then have "sends w (snd (interprete_conversd_messages E (Some p) s (-1) v))"
      using sends_trans sends_interprete [OF sends_flowing] assms(2) that by blast
    then show ?thesis by (cases "interprete_conversd_messages E (Some p) s (-1) v") (simp add: sends_seq split: bool.split)
  qed
  show ?thesis
    using assms(1) by (simp add: deliver_private_def Let_def sends_refl sends_seq away notice)
qed

lemma sends_user2_turn:
  assumes "flowing (snd fw)" "plain_text from_orig s"
  shows "sends (snd fw) (snd (user2_turn E from_orig fromuser fromnick toname s i fw))"
  using assms sends_deliver_private [of "snd fw" from_orig s E fromuser fromnick]
  by (cases fw) (auto simp: user2_turn_def Let_def sends_refl sends_seq split: option.split)

lemma sends_user2_fold:
  "flowing (snd fw) \<Longrightarrow> plain_text from_orig s \<Longrightarrow>
   sends (snd fw) (snd (fold (user2_turn E from_orig fromuser fromnick toname s) is fw))"
proof (induction "is" arbitrary: fw)
  case (Cons i js)
  note t = sends_user2_turn [OF Cons.prems]
  from sends_trans [OF t Cons.IH [OF sends_flowing [OF t] Cons.prems(2)]] show ?case by simp
qed (simp add: sends_refl)

lemma sends_deliver_user2:
  assumes "flowing w" "plain_text from_orig s"
  shows "sends w (snd (deliver_user2 E from_orig fromuser fromnick toname s flood_checked w))"
proof -
  define v where "v = (if from_orig = ''conversd'' then snd (interprete_conversd_messages E None s (-1) w) else w)"
  have "sends w v" using sends_interprete [OF assms(1)] assms by (auto simp: v_def intro: sends_refl)
  from sends_trans [OF this sends_user2_fold [of "(0, v)", simplified, OF sends_flowing [OF this] assms(2)]] this
  show ?thesis by (simp add: deliver_user2_def v_def [symmetric] Let_def)
qed

lemma sends_msg_to_user2:
  assumes "flowing w" "plain_text from_orig (take MAX_MSGSIZE s)"
  shows "sends w (send_msg_to_user2 E from_orig fromuser fromnick toname s flood_checked w)"
proof -
  obtain f v where d: "deliver_user2 E from_orig fromuser fromnick toname (take MAX_MSGSIZE s) flood_checked w = (f, v)"
    by (cases "deliver_user2 E from_orig fromuser fromnick toname (take MAX_MSGSIZE s) flood_checked w")
  have v: "sends w v" using sends_deliver_user2 [OF assms, of E fromuser fromnick toname flood_checked] d by simp
  have "sends v (send_conversd_to_user E u t (clear_locks v))" if "plain_text ''conversd'' (take MAX_MSGSIZE t)" for u t
    unfolding send_conversd_to_user_def
    by (rule sends_step [OF sends_lock(2) [OF sends_flowing [OF v]]]) (rule sends_deliver_user2 [OF _ that])
  from sends_trans [OF v this [OF plain_text_server(2)]] v show ?thesis
    by (simp add: send_msg_to_user2_def d)
qed

lemma talks_msg_to_user:
  "flowing w \<Longrightarrow> plain_text from (take MAX_MSGSIZE s) \<Longrightarrow> talks w (send_msg_to_user E from toname s w)"
  unfolding send_msg_to_user_def by (rule talks_sends [OF sends_msg_to_user2])

lemma sends_deliver_channel':
  assumes "flowing w" "plain_text from_orig s"
  shows "sends w (deliver_channel E from_orig fromuser fromnick channel s p w)"
proof (cases "from_orig = ''conversd''")
  case True
  have notice: "sends w v \<Longrightarrow> sends w (case interprete_conversd_messages E (Some p) s channel v of
       (True, w) \<Rightarrow> w | (False, w) \<Rightarrow> appendstring E i [NL] (append_chan_notice E i s channel w))" for v i
  proof -
    assume "sends w v"
    then have "sends w (snd (interprete_conversd_messages E (Some p) s channel v))"
      using sends_trans sends_interprete [OF sends_flowing] assms(2) True by blast
    then show ?thesis by (cases "interprete_conversd_messages E (Some p) s channel v") (simp add: sends_seq split: bool.split)
  qed
  show ?thesis
    using assms(1) True by (simp add: deliver_channel_def Let_def sends_refl sends_seq notice)
qed (rule sends_deliver_channel [OF assms(1)])

lemma talks_msg_to_channel2:
  assumes "flowing w" "plain_text from_orig (take MAX_MSGSIZE s)"
  shows "talks w (send_msg_to_channel2 E from_orig fromuser fromnick channel s True w)"
proof (cases "find_channel channel w = None")
  case False
  let ?v = "channel_entry from_orig fromuser fromnick channel (take MAX_MSGSIZE s) w"
  have "sends u (channel_turn E from_orig fromuser fromnick channel (take MAX_MSGSIZE s) p u)" if "flowing u" for p u
    using that sends_deliver_channel' [OF that assms(2)]
    by (auto simp: channel_turn_def intro: sends_refl sends_seq split: option.split)
  then have "talks ?v (send_msg_to_channel2 E from_orig fromuser fromnick channel s True w)"
    using assms(1) False
    by (simp add: send_msg_to_channel2_loop channel_entry_frame(1) talks_sends sends_for_connections)
  moreover have "talks w ?v"
    using channel_entry_frame(1) [of from_orig fromuser fromnick channel "take MAX_MSGSIZE s" w] assms(1)
    by (simp add: talks_def channel_entry_def comp_def) (simp add: add_history_def upd_channel_def)
  ultimately show ?thesis using talks_trans by blast
qed (use assms in \<open>simp add: send_msg_to_channel2_def talks_refl\<close>)

lemma talks_flood_notice:
  "flowing w \<Longrightarrow> plain_text ''conversd'' (take MAX_MSGSIZE s) \<Longrightarrow> talks w (flood_notice E toname channel s w)"
  unfolding flood_notice_def send_msg_to_channel_def
  by (cases toname) (simp_all add: talks_msg_to_user talks_msg_to_channel2)

section \<open>The delay queues are bounded\<close>

definition qp_ok :: "sul_qp \<Rightarrow> bool" where
  "qp_ok qp \<longleftrightarrow> qp_text qp \<noteq> [] \<and> qp_text_len qp = int (length (qp_text qp)) \<and> \<not> strcaseeq (qp_name qp) ''conversd''"

definition queue_len :: "sul_qp list \<Rightarrow> int" where
  "queue_len qs = sum_list (map qp_text_len qs)"

definition sul_ok :: "config \<Rightarrow> static_user_list \<Rightarrow> bool" where
  "sul_ok cfg s \<longleftrightarrow>
     list_all qp_ok (s_delayqueue s) \<and> s_delayqueue_len s = queue_len (s_delayqueue s) \<and>
     (flag (FeatureBAN cfg) DO_BAN \<longrightarrow> s_delayqueue_len s \<le> FLOODSIZE)"

definition flood_ok :: "world \<Rightarrow> bool" where
  "flood_ok w \<longleftrightarrow> distinct (map s_id (w_static_users w)) \<and> list_all (sul_ok (w_cfg w)) (w_static_users w)"

lemma queue_len_simps [simp]: "queue_len [] = 0" "queue_len (q # qs) = qp_text_len q + queue_len qs"
  "queue_len (qs @ rs) = queue_len qs + queue_len rs"
  by (simp_all add: queue_len_def)

lemma queue_len_nonneg: "list_all qp_ok qs \<Longrightarrow> 0 \<le> queue_len qs"
  by (induction qs) (auto simp: qp_ok_def)

lemma queue_len_pos: "list_all qp_ok qs \<Longrightarrow> qs \<noteq> [] \<Longrightarrow> 0 < queue_len qs"
  using queue_len_nonneg [of "tl qs"] by (cases qs) (auto simp: qp_ok_def intro: add_pos_nonneg)

lemma queue_len_drop: "list_all qp_ok qs \<Longrightarrow> queue_len (drop n qs) \<le> queue_len qs"
  using queue_len_nonneg [of "take n qs"] queue_len_simps(3) [of "take n qs" "drop n qs"]
  by (auto simp: list_all_iff dest: in_set_takeD)

lemma upd_sul_frame [simp, frame]:
  "w_connections (upd_sul k f w) = w_connections w" "w_currtime (upd_sul k f w) = w_currtime w"
  "w_cfg (upd_sul k f w) = w_cfg w" "w_banned_users (upd_sul k f w) = w_banned_users w"
  "w_last_run (upd_sul k f w) = w_last_run w" "conn (upd_sul k f w) = conn w" "flowing (upd_sul k f w) = flowing w"
  by (simp_all add: upd_sul_def conn_def fun_eq_iff flowing_def)

lemma sul_upd_sul:
  assumes "\<And>s. s_id (f s) = s_id s"
  shows "sul (upd_sul k f w) j = (if j = k then map_option f (sul w k) else sul w j)"
proof -
  have "find (\<lambda>s. s_id s = j) (update_first (\<lambda>s. s_id s = k) f xs) =
     (if j = k then map_option f (find (\<lambda>s. s_id s = k) xs) else find (\<lambda>s. s_id s = j) xs)" for xs
    by (induction xs) (auto simp: assms)
  then show ?thesis by (simp add: sul_def upd_sul_def)
qed

lemma sul_SomeD: "sul w k = Some s \<Longrightarrow> s \<in> set (w_static_users w) \<and> s_id s = k"
  by (auto simp: sul_def find_Some_iff)

lemma flood_ok_sul: "flood_ok w \<Longrightarrow> sul w k = Some s \<Longrightarrow> sul_ok (w_cfg w) s"
  by (auto simp: flood_ok_def list_all_iff dest: sul_SomeD)

lemma flood_ok_upd:
  assumes "flood_ok w" "\<And>s. s_id (f s) = s_id s" "\<And>s. sul w k = Some s \<Longrightarrow> sul_ok (w_cfg w) (f s)"
  shows "flood_ok (upd_sul k f w)"
proof -
  have "list_all P (update_first Q f xs)" if "list_all P xs" "\<And>s. find Q xs = Some s \<Longrightarrow> P (f s)" for P Q and xs :: "static_user_list list"
    using that by (induction xs) (auto split: if_splits)
  then show ?thesis
    using assms by (simp add: flood_ok_def map_update_first upd_sul_def sul_def)
qed

lemma flood_ok_talks: "talks w w' \<Longrightarrow> flood_ok w' = flood_ok w"
  by (simp add: talks_def flood_ok_def)

lemma sul_ok_cong [simp]:
  "sul_ok cfg (s\<lparr>s_stop_process_until := t\<rparr>) = sul_ok cfg s" "sul_ok cfg (s\<lparr>s_last_updated := t\<rparr>) = sul_ok cfg s"
  "sul_ok cfg (s\<lparr>s_delayqueue := [], s_delayqueue_len := 0\<rparr>)"
  by (simp_all add: sul_ok_def)

lemma flood_ok_start_limit: "flood_ok w \<Longrightarrow> flood_ok (start_limit k w)"
  unfolding start_limit_def by (rule flood_ok_upd) (auto dest: flood_ok_sul)

lemma flood_ok_update_ratelimit: "flood_ok w \<Longrightarrow> flood_ok (update_ratelimit k name nick s w)"
  unfolding update_ratelimit_def by (auto intro!: flood_ok_upd dest: flood_ok_sul split: option.split)

lemma flood_ok_record_ban: "flood_ok w \<Longrightarrow> flood_ok (record_ban name from when m reason w)"
  by (simp add: flood_ok_def) (simp add: record_ban_def Let_def upd_ban_def split: option.split)

lemma flood_ok_announce: "flowing w \<Longrightarrow> flood_ok w \<Longrightarrow> flood_ok (announce_ban E name w)"
  using announce_ban_frame [of w E name] by (simp add: flood_ok_def)

lemma flood_ok_ban_user:
  assumes "flowing w" "flood_ok w"
  shows "flood_ok (ban_user E user from k when m reason w)"
proof -
  have "flood_ok (free_sul_delayqueue j v)" if "flood_ok v" for j v
    unfolding free_sul_delayqueue_def by (rule flood_ok_upd) (simp_all add: that)
  moreover have "flowing (record_ban name from when m reason w)" for name m
    using assms(1) flowing_cong [of "record_ban name from when m reason w" w] by simp
  moreover have "flowing (free_sul_delayqueue j v) = flowing v" for j v
    by (rule flowing_cong) simp_all
  ultimately show ?thesis
    using assms(2) flood_ok_record_ban flood_ok_announce
    by (auto simp: ban_user_def Let_def split: option.split)
qed

lemma take_conversd: "strcaseeq (take NAMESIZE name) ''conversd'' \<Longrightarrow> strcaseeq name ''conversd''"
proof -
  assume a: "strcaseeq (take NAMESIZE name) ''conversd''"
  then have "length (strlwr (take NAMESIZE name)) = 8" by (simp add: strcaseeq_strlwr strlwr_def)
  then have "take NAMESIZE name = name" by (simp add: strlwr_def min_def split: if_splits)
  with a show ?thesis by simp
qed

lemma flood_ok_locks: "flood_ok (lock_conn i w) = flood_ok w" "flood_ok (clear_locks w) = flood_ok w"
  by (simp_all add: flood_ok_def lock_conn_def)

lemma flood_ok_add:
  assumes "flowing w" "flood_ok w" "sul w (s_id s) = Some s" "\<not> strcaseeq name ''conversd''"
  shows "flood_ok (add_to_sul_delayqueue E cp s toname channel name txt w)"
proof (cases "FLOODSIZE < s_delayqueue_len s + int (length txt) \<and> flag (FeatureBAN (w_cfg w)) DO_BAN")
  case True
  have "flowing (flood_notice E t channel (''*** ('' @ x) w) \<and> flood_ok (flood_notice E t channel (''*** ('' @ x) w)" for t x
    using talks_flood_notice [OF assms(1) plain_text_server(2), of E t channel x] flood_ok_talks assms(2)
    unfolding talks_def by blast
  then show ?thesis
    using True assms(2) by (simp add: add_to_sul_delayqueue_def Let_def flood_ok_ban_user flood_ok_locks)
next
  case False
  note ok = flood_ok_sul [OF assms(2,3)]
  have "flood_ok (upd_sul (s_id s) (put_delayed qp) w)"
    if "qp_ok qp" "flag (FeatureBAN (w_cfg w)) DO_BAN \<longrightarrow> s_delayqueue_len s + qp_text_len qp \<le> FLOODSIZE" for qp
    using that ok assms(3) by (intro flood_ok_upd [OF assms(2)]) (auto simp: put_delayed_def sul_ok_def)
  moreover have n: "\<not> strcaseeq (take NAMESIZE name) ''conversd''" using assms(4) take_conversd by blast
  ultimately show ?thesis
    using False assms(2) by (cases "txt = []") (auto simp: add_to_sul_delayqueue_def Let_def qp_ok_def)
qed

lemma flood_ok_check_msg_flood:
  assumes "flowing w" "flood_ok w"
  shows "flood_ok (snd (check_msg_flood E i toname channel name nickname txt w))"
proof -
  have ok: "flood_ok (start_limit k (upd_sul k (\<lambda>s. s\<lparr>s_last_updated := t\<rparr>) w))" for k t
    using assms(2) by (intro flood_ok_start_limit flood_ok_upd) (auto dest: flood_ok_sul)
  have fl: "flowing (start_limit k (upd_sul k (\<lambda>s. s\<lparr>s_last_updated := t\<rparr>) w))" for k t
    using assms(1) by (simp add: start_limit_def)
  show ?thesis
    using assms ok flood_ok_add [OF fl ok] flood_ok_update_ratelimit [OF ok] sul_SomeD
    by (auto simp: check_msg_flood_def Let_def split: option.split)
qed

section \<open>A run over the delay queues\<close>

lemma talks_upd_sul: "talks w w' \<Longrightarrow> talks (upd_sul k f w) (upd_sul k f w')"
  by (simp add: talks_def) (simp add: upd_sul_def)

lemma upd_sul_twice:
  assumes "\<And>s. s_id (f s) = s_id s"
  shows "upd_sul k g (upd_sul k f w) = upd_sul k (\<lambda>s. g (f s)) w"
proof -
  have "update_first (\<lambda>s. s_id s = k) g (update_first (\<lambda>s. s_id s = k) f xs) =
      update_first (\<lambda>s. s_id s = k) (\<lambda>s. g (f s)) xs" for xs
    by (induction xs) (auto simp: assms)
  then show ?thesis by (simp add: upd_sul_def)
qed

text \<open>What the loop has done to the entry when it has taken \<open>n\<close> messages.\<close>

definition took :: "int \<Rightarrow> int \<Rightarrow> static_user_list \<Rightarrow> static_user_list" where
  "took t l s = s\<lparr>s_stop_process_until := t, s_delayqueue_len := s_delayqueue_len s - l\<rparr>"

lemma took_sel [simp]: "s_id (took t l s) = s_id s" "s_stop_process_until (took t l s) = t"
  "s_delayqueue_len (took t l s) = s_delayqueue_len s - l" "s_delayqueue (took t l s) = s_delayqueue s"
  "took t l (took t' l' s) = took t (l' + l) s"
  by (simp_all add: took_def)

lemma upd_sul_cong: "sul w k = Some s \<Longrightarrow> f s = g s \<Longrightarrow> upd_sul k f w = upd_sul k g w"
  unfolding sul_def upd_sul_def by (drule (1) update_first_cong) simp

lemma delayed_sender_name:
  assumes "delayed_sender s qp w = Some p" "qp_ok qp"
  shows "c_name p \<noteq> ''conversd''"
proof -
  from assms(1) have "strcaseeq (c_name p) (qp_name qp)" by (auto simp: delayed_sender_def find_Some_iff)
  with assms(2) show ?thesis using strcaseeq_sym by (auto simp: qp_ok_def)
qed

lemma send_delayed_effect:
  assumes "flowing w" "sul w k = Some s" "c_name p \<noteq> ''conversd''"
  shows "\<exists>t. talks (upd_sul k (took t 0) w) (send_delayed E v k qp p w)"
proof -
  have fl: "flowing (lock_conn v (clear_locks w))" using assms(1) by simp
  have "plain_text (c_name p) x" for x using assms(3) by (simp add: plain_text_def)
  then have msg: "talks (lock_conn v (clear_locks w)) (case qp_toname qp of
      Some t \<Rightarrow> send_msg_to_user2 E (c_name p) (c_name p) (c_nickname p) t (qp_text qp) True (lock_conn v (clear_locks w))
    | None \<Rightarrow> send_msg_to_channel2 E (c_name p) (c_name p) (c_nickname p) (qp_channel qp) (qp_text qp) True (lock_conn v (clear_locks w)))"
    (is "talks _ ?u")
    using fl by (cases "qp_toname qp") (simp_all add: talks_msg_to_channel2 talks_sends [OF sends_msg_to_user2])
  have "talks w (lock_conn v (clear_locks w))"
    using assms(1) by (rule talks_sends [OF sends_seq(2) [OF sends_lock(2)]])
  from talks_trans [OF this msg] have u: "talks w ?u" .
  let ?t = "s_stop_process_until s + int (ratelimit (w_cfg w) (c_name p) (c_nickname p) (qp_text qp))"
  have "w_static_users ?u = w_static_users w" "w_cfg ?u = w_cfg w" using u by (simp_all add: talks_def)
  then have "sul ?u k = Some s" "w_cfg ?u = w_cfg w" using assms(2) by (simp_all add: sul_def)
  then have "send_delayed E v k qp p w = upd_sul k (took ?t 0) ?u"
    unfolding send_delayed_def Let_def update_ratelimit_def option.case
    by (intro upd_sul_cong) (simp_all add: took_def)
  with talks_upd_sul [OF u, of k "took ?t 0"] show ?thesis by auto
qed

lemma start_limit_took: "sul w k = Some s \<Longrightarrow> start_limit k w = upd_sul k (took (max (s_stop_process_until s) (w_currtime w)) 0) w"
  unfolding start_limit_def by (rule upd_sul_cong) (simp_all add: took_def)

lemma delay_loop_effect:
  assumes "flowing w" "sul w k = Some s" "list_all qp_ok qs" "delay_loop E v k qs w = (qs', w')"
  shows "\<exists>n t. n \<le> length qs \<and> qs' = drop n qs \<and> talks (upd_sul k (took t (queue_len (take n qs))) w) w' \<and>
     (qs \<noteq> [] \<and> s_stop_process_until s \<le> w_currtime w + int (RateLimitMAX (w_cfg w)) \<longrightarrow> 0 < n)"
  using assms
proof (induction qs arbitrary: w s)
  case Nil
  then have "upd_sul k (took (s_stop_process_until s) 0) w = w"
    unfolding sul_def upd_sul_def by (simp add: took_def update_first_id)
  with Nil show ?case by (auto intro!: exI [of _ "s_stop_process_until s"] simp: talks_refl)
next
  case (Cons q qs)
  define t1 where "t1 = max (s_stop_process_until s) (w_currtime w)"
  define w1 where "w1 = upd_sul k (took t1 0) w"
  have sl: "start_limit k w = w1" using start_limit_took [OF Cons.prems(2)] by (simp add: w1_def t1_def)
  have s1: "sul w1 k = Some (took t1 0 s)" "flowing w1" "w_currtime w1 = w_currtime w" "w_cfg w1 = w_cfg w"
    using Cons.prems(1,2) by (simp_all add: w1_def sul_upd_sul)
  show ?case
  proof (cases "w_currtime w + int (RateLimitMAX (w_cfg w)) < t1")
    case True
    then have "qs' = q # qs" "w' = w1" "\<not> s_stop_process_until s \<le> w_currtime w + int (RateLimitMAX (w_cfg w))"
      using Cons.prems(4) s1 sl by (auto simp: Let_def t1_def max_def split: if_splits)
    then show ?thesis using s1(2) by (intro exI [of _ 0] exI [of _ t1]) (simp add: w1_def talks_refl)
  next
    case False
    define w2 where "w2 = (case delayed_sender (took t1 0 s) q w1 of None \<Rightarrow> w1 | Some p \<Rightarrow> send_delayed E v k q p w1)"
    obtain t2 where t2: "talks (upd_sul k (took t2 0) w1) w2"
    proof (cases "delayed_sender (took t1 0 s) q w1")
      case None
      have "upd_sul k (took t1 0) w1 = w1"
        unfolding w1_def by (subst upd_sul_twice) (simp_all)
      with None s1(2) that [of t1] show ?thesis by (simp add: w2_def talks_refl)
    next
      case (Some p)
      with send_delayed_effect [OF s1(2,1) delayed_sender_name [OF Some]] Cons.prems(3) that
      show ?thesis by (auto simp: w2_def)
    qed
    define w3 where "w3 = upd_sul k (took t2 (qp_text_len q)) w"
    let ?w4 = "upd_sul k (\<lambda>s. s\<lparr>s_delayqueue_len := s_delayqueue_len s - qp_text_len q\<rparr>) w2"
    have "talks (upd_sul k (\<lambda>s. s\<lparr>s_delayqueue_len := s_delayqueue_len s - qp_text_len q\<rparr>) (upd_sul k (took t2 0) w1)) ?w4"
      using t2 by (rule talks_upd_sul)
    then have w4: "talks w3 ?w4" by (simp add: w1_def w3_def upd_sul_twice) (simp add: took_def [abs_def])
    then have f4: "flowing ?w4" "w_static_users ?w4 = w_static_users w3" "w_currtime ?w4 = w_currtime w" "w_cfg ?w4 = w_cfg w"
      by (auto simp: talks_def w3_def)
    then have s4: "sul ?w4 k = Some (took t2 (qp_text_len q) s)"
      using Cons.prems(2) by (simp add: sul_def) (simp add: sul_def [symmetric] w3_def sul_upd_sul)
    have d: "delay_loop E v k qs ?w4 = (qs', w')"
      using Cons.prems(4) False s1 sl by (simp add: Let_def w2_def)
    obtain n t where n: "n \<le> length qs" "qs' = drop n qs" "talks (upd_sul k (took t (queue_len (take n qs))) ?w4) w'"
      using Cons.IH [OF f4(1) s4 _ d] Cons.prems(3) by auto
    have "talks (upd_sul k (took t (queue_len (take n qs))) w3) w'"
      using talks_trans [OF talks_upd_sul [OF w4] n(3)] .
    then have "talks (upd_sul k (took t (queue_len (take (Suc n) (q # qs)))) w) w'"
      by (simp add: w3_def upd_sul_twice)
    with n(1,2) show ?thesis by (intro exI [of _ "Suc n"] exI [of _ t]) simp
  qed
qed

text \<open>A run takes messages from the front of an entry's queue, at least one if the limit allows.\<close>

definition run_takes :: "world \<Rightarrow> static_user_list \<Rightarrow> static_user_list \<Rightarrow> bool" where
  "run_takes w s s' \<longleftrightarrow> (\<exists>n. s_delayqueue s' = drop n (s_delayqueue s) \<and>
     (s_delayqueue s \<noteq> [] \<and> s_stop_process_until s \<le> w_currtime w + int (RateLimitMAX (w_cfg w)) \<longrightarrow> 0 < n))"

lemma sul_turn_effect:
  assumes "flowing w" "flood_ok w"
  shows "\<exists>f. (\<forall>s. s_id (f s) = s_id s) \<and> talks (upd_sul k f w) (sul_turn E k w) \<and>
     (\<forall>s. sul w k = Some s \<longrightarrow> sul_ok (w_cfg w) (f s) \<and> run_takes w s (f s))"
proof (cases "sul w k")
  case None
  then have "upd_sul k id w = w" by (simp add: sul_def upd_sul_def update_first_none)
  with None assms(1) show ?thesis by (intro exI [of _ id]) (simp add: sul_turn_def talks_refl)
next
  case (Some s)
  note ok = flood_ok_sul [OF assms(2) Some]
  show ?thesis
  proof (cases "s_delayqueue_len s = 0")
    case True
    then have "s_delayqueue s = []" using ok queue_len_pos [of "s_delayqueue s"] by (auto simp: sul_ok_def)
    moreover have "upd_sul k id w = w" using Some unfolding sul_def upd_sul_def by (simp add: update_first_id)
    ultimately show ?thesis
      using Some True ok assms(1) by (intro exI [of _ id]) (simp add: sul_turn_def talks_refl run_takes_def)
  next
    case False
    let ?free = "\<lambda>s. s\<lparr>s_delayqueue := [], s_delayqueue_len := 0\<rparr>"
    have freed: ?thesis if "sul_turn E k w = free_sul_delayqueue k w"
    proof -
      have "run_takes w s (?free s)" by (auto simp: run_takes_def intro!: exI [of _ "length (s_delayqueue s)"])
      then show ?thesis
        using that Some assms(1) by (intro exI [of _ ?free]) (simp add: free_sul_delayqueue_def talks_refl)
    qed
    show ?thesis
    proof (cases "\<exists>v c. s_via s = Some v \<and> conn w v = Some c \<and> c_type c \<noteq> CT_CLOSED \<and> s_sp s \<noteq> []")
      case True
      then obtain v c where v: "s_via s = Some v" "conn w v = Some c" "c_type c \<noteq> CT_CLOSED" "s_sp s \<noteq> []" by blast
      obtain qs w' where d: "delay_loop E v k (s_delayqueue s) w = (qs, w')" by (cases "delay_loop E v k (s_delayqueue s) w")
      have q: "list_all qp_ok (s_delayqueue s)" using ok by (simp add: sul_ok_def)
      from delay_loop_effect [OF assms(1) Some q d] obtain n t where
        n: "qs = drop n (s_delayqueue s)" "talks (upd_sul k (took t (queue_len (take n (s_delayqueue s)))) w) w'"
          "s_delayqueue s \<noteq> [] \<and> s_stop_process_until s \<le> w_currtime w + int (RateLimitMAX (w_cfg w)) \<longrightarrow> 0 < n"
        by blast
      let ?f = "\<lambda>x. (took t (queue_len (take n (s_delayqueue s))) x)\<lparr>s_delayqueue := qs\<rparr>"
      have "talks (upd_sul k ?f w) (sul_turn E k w)"
        using talks_upd_sul [OF n(2), of k "\<lambda>s. s\<lparr>s_delayqueue := qs\<rparr>"] Some False v d
        by (simp add: sul_turn_def upd_sul_twice)
      moreover have "queue_len qs = queue_len (s_delayqueue s) - queue_len (take n (s_delayqueue s))"
        using queue_len_simps(3) [of "take n (s_delayqueue s)" "drop n (s_delayqueue s)"] n(1) by simp
      then have "sul_ok (w_cfg w) (?f s)"
        using ok queue_len_drop [OF q, of n] n(1) by (auto simp: sul_ok_def list_all_iff dest: in_set_dropD)
      moreover have "run_takes w s (?f s)" using n(1,3) by (auto simp: run_takes_def)
      ultimately show ?thesis using Some by (intro exI [of _ ?f]) simp
    next
      case closed: False
      show ?thesis
        by (rule freed) (use closed Some False in \<open>auto simp: sul_turn_def split: option.split\<close>)
    qed
  qed
qed

lemma sul_turn_ok:
  assumes "flowing w" "flood_ok w"
  shows "flowing (sul_turn E k w)" "flood_ok (sul_turn E k w)" "w_currtime (sul_turn E k w) = w_currtime w"
    "w_cfg (sul_turn E k w) = w_cfg w" "map s_id (w_static_users (sul_turn E k w)) = map s_id (w_static_users w)"
    "\<And>j. j \<noteq> k \<Longrightarrow> sul (sul_turn E k w) j = sul w j"
    "\<And>s. sul w k = Some s \<Longrightarrow> \<exists>s'. sul (sul_turn E k w) k = Some s' \<and> run_takes w s s'"
proof -
  obtain f where f: "\<forall>s. s_id (f s) = s_id s" "talks (upd_sul k f w) (sul_turn E k w)"
    "\<forall>s. sul w k = Some s \<longrightarrow> sul_ok (w_cfg w) (f s) \<and> run_takes w s (f s)"
    using sul_turn_effect [OF assms] by blast
  from f(2) show "flowing (sul_turn E k w)" "w_currtime (sul_turn E k w) = w_currtime w" "w_cfg (sul_turn E k w) = w_cfg w"
    by (simp_all add: talks_def)
  show "flood_ok (sul_turn E k w)"
    using f flood_ok_upd [OF assms(2)] flood_ok_talks [OF f(2)] by blast
  have su: "w_static_users (sul_turn E k w) = w_static_users (upd_sul k f w)" using f(2) by (simp add: talks_def)
  then show "map s_id (w_static_users (sul_turn E k w)) = map s_id (w_static_users w)"
    using f(1) by (simp add: upd_sul_def map_update_first)
  have "sul (sul_turn E k w) j = sul (upd_sul k f w) j" for j using su by (simp add: sul_def)
  then show "\<And>j. j \<noteq> k \<Longrightarrow> sul (sul_turn E k w) j = sul w j"
    "\<And>s. sul w k = Some s \<Longrightarrow> \<exists>s'. sul (sul_turn E k w) k = Some s' \<and> run_takes w s s'"
    using f(1,3) by (simp_all add: sul_upd_sul)
qed

lemma sul_turns_ok:
  assumes "flowing w" "flood_ok w" "distinct ks"
  shows "flood_ok (fold (sul_turn E) ks w) \<and>
     (\<forall>j. j \<notin> set ks \<longrightarrow> sul (fold (sul_turn E) ks w) j = sul w j) \<and>
     (\<forall>k s. k \<in> set ks \<and> sul w k = Some s \<longrightarrow> (\<exists>s'. sul (fold (sul_turn E) ks w) k = Some s' \<and> run_takes w s s'))"
  using assms
proof (induction ks arbitrary: w)
  case (Cons k ks)
  note t = sul_turn_ok [OF Cons.prems(1,2)]
  have IH: "flood_ok (fold (sul_turn E) ks (sul_turn E k w))"
    "\<And>j. j \<notin> set ks \<Longrightarrow> sul (fold (sul_turn E) ks (sul_turn E k w)) j = sul (sul_turn E k w) j"
    "\<And>j s. j \<in> set ks \<Longrightarrow> sul (sul_turn E k w) j = Some s \<Longrightarrow>
       \<exists>s'. sul (fold (sul_turn E) ks (sul_turn E k w)) j = Some s' \<and> run_takes (sul_turn E k w) s s'"
    using Cons.IH [OF t(1,2)] Cons.prems(3) by auto
  have rt: "run_takes (sul_turn E k w) s s' = run_takes w s s'" for s s'
    using t(3,4) [of E k] by (simp add: run_takes_def)
  have other: "\<exists>s'. sul (fold (sul_turn E) ks (sul_turn E k w)) j = Some s' \<and> run_takes w s s'"
    if "j \<in> set ks" "sul w j = Some s" for j s
    using IH(3) [of j s] t(6) [of j k E] that Cons.prems(3) rt by auto
  show ?case
    using IH(1,2) t(6,7) [where k = k and E = E] Cons.prems(3) other by auto
qed simp

lemma send_sul_delayed_messages_ok:
  assumes "flowing w" "flood_ok w"
  shows "flood_ok (send_sul_delayed_messages E w)"
    "runs ''send_sul_delayed_messages'' 60 w \<Longrightarrow> sul w k = Some s \<Longrightarrow>
     \<exists>s'. sul (send_sul_delayed_messages E w) k = Some s' \<and> run_takes w s s'"
proof -
  note f = sul_turns_ok [OF assms, of "map s_id (w_static_users w)" E]
  have d: "distinct (map s_id (w_static_users w))" using assms(2) by (simp add: flood_ok_def)
  show "flood_ok (send_sul_delayed_messages E w)"
    using f d assms(2) by (simp add: send_sul_delayed_messages_def flood_ok_def ran_def)
  assume r: "runs ''send_sul_delayed_messages'' 60 w" and s: "sul w k = Some s"
  have "k \<in> set (map s_id (w_static_users w))" using sul_SomeD [OF s] by auto
  with f d s r show "\<exists>s'. sul (send_sul_delayed_messages E w) k = Some s' \<and> run_takes w s s'"
    by (simp add: send_sul_delayed_messages_def ran_def) (simp add: sul_def)
qed

section \<open>Properties\<close>

text \<open>C12: The length kept with a delay queue is the length of the texts in it, and while banning is
  on no queue ever holds more than 1785 bytes: checking a message and delivering delayed messages
  keep this for every user.\<close>

theorem flood_queue_bounded:
  assumes "flowing w" "flood_ok w"
  shows "flood_ok (snd (check_msg_flood E i toname channel name nickname txt w)) \<and>
         flood_ok (send_sul_delayed_messages E w)"
  using flood_ok_check_msg_flood [OF assms] send_sul_delayed_messages_ok(1) [OF assms] by blast

text \<open>A user \<^verbatim>\<open>oe1abc\<close> behind the link 0, with the given delay queue.\<close>

definition flood_world :: "sul_qp list \<Rightarrow> world" where
  "flood_world qs =
     (boot_world ''db0tud'' 1000)\<lparr>w_connections :=
        [(blank_connection 0 4 1000)\<lparr>c_type := CT_HOST, c_name := ''db0abc''\<rparr>,
         (blank_connection 1 (-1) 1000)\<lparr>c_type := CT_USER, c_name := ''oe1abc'', c_nickname := ''oe1abc'',
            c_via := Some 0, c_channel := 7, c_sul := Some 0\<rparr>],
      w_static_users := [(new_sul 0 ''oe1abc'' None (boot_world ''db0tud'' 1000))\<lparr>s_via := Some 0, s_sp := [1],
            s_delayqueue := qs, s_delayqueue_len := queue_len qs\<rparr>], w_next_sid := 1\<rparr>"

lemma flood_world_flowing: "flowing (flood_world qs)"
  by (simp add: flood_world_def flowing_def blank_connection_def)

lemma flood_world_ok: "list_all qp_ok qs \<Longrightarrow> queue_len qs \<le> FLOODSIZE \<Longrightarrow> flood_ok (flood_world qs)"
  by (simp add: flood_world_def flood_ok_def sul_ok_def new_sul_def)

theorem flood_queue_bounded_witness:
  "\<forall>E. flood_ok (snd (check_msg_flood E 0 None 7 ''oe1abc'' ''oe1abc'' ''hello'' (flood_world []))) \<and>
       flood_ok (send_sul_delayed_messages E (flood_world []))"
  using flood_queue_bounded [OF flood_world_flowing flood_world_ok [of "[]"]] by simp

text \<open>C13: Delayed messages are delivered in the end. If the runs over the delay queues come at times
  when the rate limit of a user allows another message, and nothing is added meanwhile, his queue
  is empty after at most as many runs as it had messages.\<close>

theorem delayed_messages_drain:
  assumes "\<And>n. flowing (W n)" "\<And>n. flood_ok (W n)" "\<And>n. runs ''send_sul_delayed_messages'' 60 (W n)"
    and "\<And>n. sul (W n) k = Some (S n)"
    and "\<And>n. s_stop_process_until (S n) \<le> w_currtime (W n) + int (RateLimitMAX (w_cfg (W n)))"
    and "\<And>n. map_option s_delayqueue (sul (send_sul_delayed_messages E (W n)) k) = Some (s_delayqueue (S (Suc n)))"
  shows "\<exists>n \<le> length (s_delayqueue (S 0)). s_delayqueue (S n) = []"
proof -
  have less: "s_delayqueue (S n) \<noteq> [] \<Longrightarrow> length (s_delayqueue (S (Suc n))) < length (s_delayqueue (S n))" for n
  proof -
    assume ne: "s_delayqueue (S n) \<noteq> []"
    obtain s' where s': "sul (send_sul_delayed_messages E (W n)) k = Some s'" "run_takes (W n) (S n) s'"
      using send_sul_delayed_messages_ok(2) [OF assms(1,2,3,4)] by blast
    with assms(6) [of n] have "s_delayqueue (S (Suc n)) = s_delayqueue s'" by simp
    with s'(2) ne assms(5) [of n] show ?thesis by (auto simp: run_takes_def)
  qed
  have "\<exists>n \<le> l. s_delayqueue (S (m + n)) = []" if "length (s_delayqueue (S m)) \<le> l" for l m
    using that
  proof (induction l arbitrary: m)
    case (Suc l)
    show ?case
    proof (cases "s_delayqueue (S m) = []")
      case True
      then show ?thesis by (intro exI [of _ 0]) simp
    next
      case False
      with less [OF False] Suc.prems Suc.IH [of "Suc m"] obtain n where "n \<le> l" "s_delayqueue (S (Suc m + n)) = []"
        by auto
      then show ?thesis by (intro exI [of _ "Suc n"]) simp
    qed
  qed auto
  from this [of 0 "length (s_delayqueue (S 0))"] show ?thesis by simp
qed

definition hello :: sul_qp where
  "hello = \<lparr>qp_name = ''oe1abc'', qp_text = ''hello'', qp_text_len = 5, qp_channel = 7, qp_toname = None\<rparr>"

theorem delayed_messages_drain_witness:
  "\<forall>E. \<exists>n \<le> (1 :: nat). map_option s_delayqueue (sul (if n = 0 then flood_world [hello] else send_sul_delayed_messages E (flood_world [hello])) 0) = Some []"
proof
  fix E
  let ?S = "\<lambda>qs. (new_sul 0 ''oe1abc'' None (boot_world ''db0tud'' 1000))\<lparr>s_via := Some 0, s_sp := [1],
            s_delayqueue := qs, s_delayqueue_len := queue_len qs\<rparr>"
  define q :: "nat \<Rightarrow> sul_qp list" where "q = (\<lambda>n. if n = 0 then [hello] else [])"
  have ok: "flood_ok (flood_world (q n))" for n
    by (rule flood_world_ok) (simp_all add: q_def hello_def qp_ok_def)
  have s: "sul (flood_world qs) 0 = Some (?S qs)" for qs
    by (simp add: sul_def flood_world_def new_sul_def)
  have r: "runs ''send_sul_delayed_messages'' 60 (flood_world qs)" for qs
    by (simp add: runs_def flood_world_def boot_world_def)
  have t: "s_stop_process_until (?S qs) \<le> w_currtime (flood_world qs) + int (RateLimitMAX (w_cfg (flood_world qs)))" for qs
    by (simp add: new_sul_def flood_world_def boot_world_def)
  have next_q: "map_option s_delayqueue (sul (send_sul_delayed_messages E (flood_world (q n))) 0) = Some (s_delayqueue (?S (q (Suc n))))" for n
  proof -
    obtain s' where s': "sul (send_sul_delayed_messages E (flood_world (q n))) 0 = Some s'" "run_takes (flood_world (q n)) (?S (q n)) s'"
      using send_sul_delayed_messages_ok(2) [OF flood_world_flowing ok r s] by blast
    then have "s_delayqueue s' = []" using t [of "q n"] by (auto simp: run_takes_def q_def)
    with s'(1) show ?thesis by (simp add: q_def)
  qed
  have "\<exists>n \<le> length (s_delayqueue (?S (q 0))). s_delayqueue (?S (q n)) = []"
    by (rule delayed_messages_drain [where W = "\<lambda>n. flood_world (q n)" and S = "\<lambda>n. ?S (q n)" and k = 0 and E = E, OF flood_world_flowing ok r s t next_q])
  then obtain n where "n \<le> 1" "s_delayqueue (?S (q n)) = []" by (auto simp: q_def)
  with next_q [of 0] s [of "q 0"] show "\<exists>n \<le> (1 :: nat). map_option s_delayqueue
      (sul (if n = 0 then flood_world [hello] else send_sul_delayed_messages E (flood_world [hello])) 0) = Some []"
    by (intro exI [of _ n]) (auto simp: q_def split: if_splits)
qed

end
