(* ===== verification/Session.thy ===== *)
theory Session
  imports Flood
begin

text \<open>
  The life of a connection: it is made for a descriptor (\<open>alloc_connection\<close>), a user comes and
  goes on channels (\<open>send_user_change_msg\<close>), it is closed (\<open>bye_command2\<close>, with the quit messages
  of \<open>send_quits\<close>) and freed (\<open>free_closed_connections\<close>).

  Closing sends messages, and sending closes a stuck connection. \<open>bye\<close> ties the knot: it is
  \<open>bye_command2\<close> in surroundings whose closing operation is \<open>bye\<close> again, with the depth of the
  calls as fuel; when the fuel is used up a fault is recorded.
\<close>

section \<open>Making a connection\<close>

definition alloc_connection :: "int \<Rightarrow> world \<Rightarrow> cid \<times> world" where
  "alloc_connection fd w =
     (let i = w_next_cid w;
          w = w\<lparr>w_connections := blank_connection i fd (w_currtime w) # w_connections w, w_next_cid := i + 1\<rparr>
      in (i, generate_sul i None None w))"

section \<open>Users coming and going\<close>

text \<open>The macro \<^verbatim>\<open>send_buffer(1)\<close>.\<close>

definition send_buffer :: "env \<Rightarrow> cid \<Rightarrow> string \<Rightarrow> world \<Rightarrow> world" where
  "send_buffer E i buffer w =
     lock_conn i (appendprompt E i False (appendstring E i buffer (appendc E i 3 False (appendc E i 0 False w))))"

text \<open>Lines 2533 to 2564: the flags of a channel and the word for it.\<close>

definition change_flags :: "int \<Rightarrow> world \<Rightarrow> nat" where
  "change_flags channel w = (case find_channel channel w of None \<Rightarrow> 0 | Some ch \<Rightarrow> ch_flags ch)"

definition change_word :: "int \<Rightarrow> world \<Rightarrow> string" where
  "change_word channel w =
     (case find_channel channel w of
        None \<Rightarrow> []
      | Some ch \<Rightarrow> if ch_chan ch = debugchannel (w_cfg w) then ''debug ''
                   else if flag (ch_flags ch) M_CHAN_I then ''invisible ''
                   else if flag (ch_flags ch) M_CHAN_S then ''secret '' else [])"

record change =
  g_name :: string
  g_nickname :: string
  g_host :: string
  g_old :: int
  g_new :: int
  g_pers :: string
  g_pers_changed :: bool
  g_time :: int
  g_observer :: bool
  g_quits_sent :: bool
  g_chanop :: nat
  g_nick_changed :: bool
  g_oldnick :: string

text \<open>The personal text without the mark of a user who is not authenticated, and whether there is
  one at all.\<close>

definition bare_pers :: "string \<Rightarrow> string" where
  "bare_pers pers = (if pers \<noteq> [] \<and> hd pers = CHR ''~'' then tl pers else pers)"

definition short_pers :: "string \<Rightarrow> bool" where
  "short_pers pers \<longleftrightarrow> length pers < 2"

text \<open>Lines 2590 to 2620: the user stays on his channel.\<close>

definition change_stays :: "env \<Rightarrow> change \<Rightarrow> connection \<Rightarrow> world \<Rightarrow> world" where
  "change_stays E g p w =
     (let i = c_id p; pers = g_pers g; marked = (pers \<noteq> [] \<and> hd pers = CHR ''~'');
          name = g_name g; host = g_host g; nick = g_nickname g;
          w = (if g_pers_changed g then
                 send_buffer E i
                   (if c_ircmode p then
                      take IRC_MAX_MSGSIZE
                        ('':'' @ myhostname (w_cfg w) @ '' 311 '' @ c_nickname p @ '' '' @ (if c_shownicks p then nick else name) @
                         '' '' @ name @ '' '' @ host @ '' * :'' @
                         (if pers \<noteq> [] \<and> hd pers \<noteq> CHR ''@'' \<and> pers \<noteq> ''~'' then bare_pers pers else ''No Info'') @
                         (if marked then '' [NonAuth]'' else [])) @ [NL]
                    else ''*** ('' @ w_ts2 E w @ '') '' @ name @ ''@'' @ host @
                         (if pers \<noteq> [] \<and> pers \<noteq> ''@'' \<and> pers \<noteq> ''~''
                          then '' set personal text:'' @ [NL] @ ''    '' @ bare_pers pers @ [NL]
                          else '' removed personal text.'' @ [NL])) w
               else w)
      in if g_nick_changed g \<and> c_shownicks p then
           send_buffer E i
             (if c_ircmode p then '':'' @ g_oldnick g @ ''!'' @ name @ ''@'' @ host @ '' NICK '' @ nick @ [NL]
              else ''*** ('' @ w_ts2 E w @ '') '' @ name @
                   (if strcaseeq name (g_oldnick g) then [] else '':'' @ g_oldnick g) @ '' is now known as '' @ nick @ ''.'' @ [NL]) w
         else w)"

text \<open>Lines 2633 to 2680: he leaves a channel.\<close>

definition change_leaves :: "env \<Rightarrow> change \<Rightarrow> nat \<Rightarrow> string \<Rightarrow> connection \<Rightarrow> world \<Rightarrow> world" where
  "change_leaves E g oldflags oldchan p w =
     (let i = c_id p; pers = g_pers g; name = g_name g; host = g_host g; nick = g_nickname g; old = g_old g;
          here = on_channel p old;
          why = (if short_pers pers then ''.'' else '' ('' @ bare_pers pers @ '').'') @ [NL]
      in if old < 0 then w
         else if here \<or> (\<not> flag oldflags M_CHAN_I \<and> (c_verbose p \<or> check_for_notify (c_notify p) name nick host old)) then
           let hide_chan_name = (oldchan \<noteq> [] \<and> \<not> here \<and> c_operator p \<noteq> 2);
               special = (c_ircmode p \<and> here \<and> strcaseeq nick (c_nickname p));
               w = (if special then send_notice E i (myhostname (w_cfg w)) (if hide_chan_name then -1 else old) w else w)
           in send_buffer E i
                (if \<not> c_ircmode p \<or> special
                 then ''*** ('' @ w_ts2 E w @ '') '' @ name @ ''@'' @ host @ '' left '' @ (if here then [] else oldchan) @ ''channel'' @
                      (if hide_chan_name then [] else '' '' @ dec old) @ why
                 else take IRC_MAX_MSGSIZE
                        ('':'' @ (if c_shownicks p then nick else name) @ ''!'' @ name @ ''@'' @ host @ '' PART '' @
                         (if hide_chan_name then ''*'' else ''#'' @ dec old) @ '' :'' @
                         (if \<not> (pers \<noteq> [] \<and> hd pers = CHR ''@'') \<and> pers \<noteq> ''~'' then bare_pers pers else [])) @ [NL]) w
         else if c_operator p = 2 \<and> oldchan \<noteq> [] \<and> hd oldchan = CHR ''d'' then
           send_buffer E i
             (''*** ('' @ w_ts2 E w @ '') '' @ name @ ''@'' @ host @ '' left '' @ oldchan @ ''channel'' @ why)
             (if c_ircmode p then send_notice E i (myhostname (w_cfg w)) (-1) w else w)
         else w)"

text \<open>Lines 2681 to 2749: he joins a channel.\<close>

definition change_joins :: "env \<Rightarrow> change \<Rightarrow> nat \<Rightarrow> string \<Rightarrow> bool \<Rightarrow> connection \<Rightarrow> world \<Rightarrow> world" where
  "change_joins E g newflags newchan here_old p w =
     (let i = c_id p; pers = g_pers g; name = g_name g; host = g_host g; nick = g_nickname g; new = g_new g;
          me = myhostname (w_cfg w);
          here = (on_channel p new \<or> (here_old \<and> g_old g = new));
          notified = (\<not> here \<and> \<not> flag newflags M_CHAN_I \<and> \<not> c_verbose p \<and> check_for_notify (c_notify p) name nick host new)
      in if new < 0 then w
         else if here \<or> (\<not> flag newflags M_CHAN_I \<and> (c_verbose p \<or> notified)) then
           let hide_chan_name = (newchan \<noteq> [] \<and> \<not> here \<and> c_operator p \<noteq> 2);
               special2 = (c_ircmode p \<and> here \<and> strcaseeq nick (c_nickname p));
               w = (if special2 then send_notice E i me (if hide_chan_name then -1 else new) w else w)
           in if \<not> c_ircmode p \<or> special2 then
                send_buffer E i
                  (''*** ('' @ w_ts2 E w @ '') '' @ name @ ''@'' @ host @ '' joined '' @ (if here then [] else newchan) @ ''channel'' @
                   (if hide_chan_name then [] else '' '' @ dec new) @
                   (if short_pers pers \<or> (case c_filter p of None \<Rightarrow> False | Some f \<Rightarrow> strstr f name)
                    then ''.'' @ [NL] else '':'' @ [NL] @ ''    '' @ bare_pers pers @ [NL])) w
              else
                let shown = (if c_shownicks p then nick else name);
                    buffer = '':'' @ shown @ ''!'' @ name @ ''@'' @ host @ '' JOIN :'' @
                             (if hide_chan_name then ''*'' else ''#'' @ dec new) @ [NL];
                    (buffer, w) = (if notified
                      then ('':'' @ me @ '' 303 '' @ c_nickname p @ '' :'' @
                            (if strcaseeq name nick \<or> \<not> c_shownicks p then name else nick @ '' '' @ name) @ [NL],
                            appendstring E i buffer w)
                      else (buffer, w));
                    (buffer, w) = (if g_observer g
                      then ('':'' @ host @ '' MODE '' @ shown @ '' +r'' @ [NL], appendstring E i buffer w)
                      else (buffer, w))
                in send_buffer E i buffer w
         else if c_operator p = 2 \<and> newchan \<noteq> [] \<and> hd newchan = CHR ''d'' then
           send_buffer E i
             (''*** ('' @ w_ts2 E w @ '') '' @ name @ ''@'' @ host @ '' joined '' @ newchan @ ''channel'' @
              (if short_pers pers then ''.'' else '' ('' @ bare_pers pers @ '').'') @ [NL])
             (if c_ircmode p then send_notice E i me (-1) w else w)
         else w)"

text \<open>Lines 2751 to 2792: the line for a neighbour.\<close>

definition netjoin_line :: "change \<Rightarrow> int \<Rightarrow> string" where
  "netjoin_line g time =
     (let nick_reset = (g_observer g \<or> (g_nick_changed g \<and> g_name g = g_nickname g)) in
      SL @ ''NJ '' @ g_name g @ '' '' @ g_host g @ '' '' @ (if g_observer g then ''r'' else []) @
      (if g_nick_changed g then (if nick_reset then ''-'' else ''+'') else ''='') @
      (if g_nick_changed g \<and> \<not> nick_reset then g_nickname g else []) @
      (if g_new g \<noteq> g_old g
       then '' '' @ dec (g_new g) @
            (if \<not> g_observer g \<and> g_chanop g \<noteq> 0 then (if g_chanop g = 2 then '':@@'' else '':@'') else []) @ '' '' @ dec time
       else []) @
      (if \<not> g_observer g \<and> g_pers_changed g then '' :'' @ (if g_pers g = ''@'' then [] else g_pers g) else []))"

definition user_line :: "change \<Rightarrow> int \<Rightarrow> bool \<Rightarrow> string" where
  "user_line g time amprnet =
     SL @ (if g_observer g then ''OBSV'' else ''USER'') @ '' '' @ g_name g @ '' '' @ g_host g @ '' '' @ dec time @ '' '' @
     dec (g_old g) @ '' '' @ dec (g_new g) @ '' '' @ (if amprnet \<or> g_new g < 0 then g_pers g else []) @ [NL]"

definition change_host :: "env \<Rightarrow> change \<Rightarrow> connection \<Rightarrow> world \<Rightarrow> world" where
  "change_host E g p w =
     (let i = c_id p; old = g_old g; new = g_new g; pers = g_pers g;
          time = (if g_time g = w_currtime w then g_time g + 1 else g_time g);
          saupp = flag (c_features p) FEATURE_SAUPP_I
      in if saupp \<and> new < 0 \<and> g_quits_sent g then w
         else if saupp \<and> ((old < 0 \<and> 0 \<le> new) \<or> new = old) then
           let w = appendstring E i [NL] (appendstring E i (netjoin_line g time) w)
           in if g_chanop g \<noteq> 0 then lock_conn i w else w
         else
           let w = (if new \<noteq> old \<or> (c_amprnet p \<and> 0 \<le> new \<and> 0 \<le> old)
                    then appendstring E i (user_line g time (c_amprnet p)) w else w)
           in if (0 \<le> new \<and> old < 0) \<or> old = new then
                let w = (if flag (c_features p) FEATURE_NICK \<and> g_nick_changed g
                         then appendstring E i [NL] (appendstring E i
                                (SL @ ''UADD '' @ g_name g @ '' '' @ g_host g @ '' '' @ g_nickname g @
                                 (if g_pers_changed g \<and> pers \<noteq> [] \<and> old = new then '' -1 '' @ pers else [])) w)
                         else w)
                in if \<not> c_amprnet p \<and> \<not> g_observer g \<and> g_pers_changed g \<and> pers \<noteq> []
                   then appendstring E i
                          (SL @ ''UDAT '' @ g_name g @ '' '' @ g_host g @ '' '' @ (if pers = ''@'' then [] else pers) @ [NL]) w
                   else w
              else w)"

definition change_filtered :: "change \<Rightarrow> connection \<Rightarrow> bool" where
  "change_filtered g p \<longleftrightarrow>
     (c_filter p \<noteq> None \<or> c_filterwords p \<noteq> None) \<and>
     (is_filtered None (Some (g_name g)) p (Some (g_pers g)) \<or>
      (c_filterwords p \<noteq> None \<and> is_filtered None None p (Some (g_nickname g))))"

text \<open>One turn of the loop of line 2570. What follows a text reads the connection again, which the
  text may have closed.\<close>

definition change_turn :: "env \<Rightarrow> change \<Rightarrow> nat \<Rightarrow> string \<Rightarrow> nat \<Rightarrow> string \<Rightarrow> connection \<Rightarrow> world \<Rightarrow> world" where
  "change_turn E g oldflags oldchan newflags newchan p w =
     (if c_via p \<noteq> None \<or> c_locked p then w
      else if c_type p = CT_USER then
        if change_filtered g p then lock_conn (c_id p) w
        else if \<not> (0 < g_old g \<and> g_new g = -1) \<and> g_new g = g_old g \<and>
                ((c_verbose p \<and> \<not> flag newflags M_CHAN_I) \<or> isonchannel p (g_name g) (g_host g) w)
        then change_stays E g p w
        else
          let w = change_leaves E g oldflags oldchan p w in
          (case conn w (c_id p) of
             None \<Rightarrow> w
           | Some p' \<Rightarrow> change_joins E g newflags newchan (on_channel p (g_old g)) p' w)
      else if c_type p = CT_HOST then change_host E g p w
      else w)"

definition send_user_change_msg :: "env \<Rightarrow> change \<Rightarrow> world \<Rightarrow> world" where
  "send_user_change_msg E g w =
     (let g = g\<lparr>g_pers := take PERSSIZE (g_pers g)\<rparr> in
      if g_host g = [] then w
      else for_connections (change_turn E g (change_flags (g_old g) w) (change_word (g_old g) w)
             (change_flags (g_new g) w) (change_word (g_new g) w)) w)"

section \<open>Quits\<close>

definition quit_turn :: "env \<Rightarrow> cid \<Rightarrow> bool \<Rightarrow> string \<Rightarrow> string \<Rightarrow> connection \<Rightarrow> world \<Rightarrow> world" where
  "quit_turn E i is_squit host buffer p w =
     (if c_type p = CT_HOST then
        if c_id p \<noteq> i \<and> flag (c_features p) FEATURE_SAUPP_I then appendstring E (c_id p) buffer w else w
      else if is_squit \<and> c_via p = Some i \<and> strcaseeq (c_host p) host then lock_conn (c_id p) w
      else w)"

text \<open>Lines 2485 to 2504: one further host behind the broken link.\<close>

definition squit_turn2 :: "env \<Rightarrow> cid \<Rightarrow> string \<Rightarrow> string \<Rightarrow> connection \<Rightarrow> world \<Rightarrow> world" where
  "squit_turn2 E i host reason p2 w =
     (let w = (if c_type p2 = CT_HOST \<and> c_id p2 \<noteq> i \<and> flag (c_features p2) FEATURE_SAUPP_I
               then appendstring E (c_id p2) (SL @ ''SQUIT '' @ host @ '' '' @ reason @ [NL]) w else w)
      in if \<not> is_locked w (c_id p2) \<and> c_via p2 = Some i \<and> strcaseeq host (c_host p2) then lock_conn (c_id p2) w else w)"

definition squit_turn :: "env \<Rightarrow> cid \<Rightarrow> string \<Rightarrow> connection \<Rightarrow> world \<Rightarrow> world" where
  "squit_turn E i reason p w =
     (if c_locked p \<or> c_via p \<noteq> Some i then w
      else for_connections (squit_turn2 E i (c_host p) reason) w)"

definition send_quits :: "env \<Rightarrow> cid \<Rightarrow> string option \<Rightarrow> string \<Rightarrow> string \<Rightarrow> world \<Rightarrow> world" where
  "send_quits E i name host reason w =
     (case conn w i of
        None \<Rightarrow> w
      | Some cp \<Rightarrow>
          if c_type cp \<noteq> CT_USER \<and> c_type cp \<noteq> CT_HOST then w
          else
            let buffer = (case name of
                    None \<Rightarrow> SL @ ''SQUIT '' @ host @ '' '' @ reason @ [NL]
                  | Some n \<Rightarrow> SL @ ''UQUIT '' @ n @ '' '' @ host @ '' '' @ reason @ [NL]);
                w = for_connections (quit_turn E i (name = None) host buffer) (lock_conn i (clear_locks w))
            in if name \<noteq> None \<or> \<not> strcaseeq (c_name cp) host then w
               else for_connections (squit_turn E i reason) w)"

section \<open>Closing\<close>

definition leave_change :: "connection \<Rightarrow> int \<Rightarrow> string \<Rightarrow> bool \<Rightarrow> string \<Rightarrow> int \<Rightarrow> change" where
  "leave_change p channel reason quits_sent oldnick now =
     \<lparr>g_name = c_name p, g_nickname = c_nickname p, g_host = c_host p, g_old = channel, g_new = -1, g_pers = reason,
      g_pers_changed = True, g_time = now, g_observer = False, g_quits_sent = quits_sent, g_chanop = 0,
      g_nick_changed = False, g_oldnick = oldnick\<rparr>"

definition set_type :: "conn_type \<Rightarrow> cid \<Rightarrow> world \<Rightarrow> world" where
  "set_type t i = upd_conn i (\<lambda>c. c\<lparr>c_type := t\<rparr>)"

text \<open>Lines 287 to 300 of \<^verbatim>\<open>user.c\<close>: the channels of a local user, one after the other.\<close>

fun leave_channels :: "env \<Rightarrow> connection \<Rightarrow> string \<Rightarrow> bool \<Rightarrow> clist list \<Rightarrow> world \<Rightarrow> world" where
  "leave_channels E cp reason quits_sent [] w = w"
| "leave_channels E cp reason quits_sent (cl # cls) w =
     (let channel = cl_channel cl;
          w = send_user_change_msg E (leave_change cp channel reason quits_sent (c_nickname cp) (w_currtime w)) (clear_locks w);
          w = upd_conn (c_id cp) (\<lambda>c. c\<lparr>c_chan_list := cls\<rparr>) w;
          w = (if count_user channel w = 0 then destroy_channel channel False w
               else update_channel_history None channel (c_name cp) (c_host cp) w)
      in leave_channels E cp reason quits_sent cls w)"

text \<open>Lines 307 to 322: the channels that lose users get a line in their history.\<close>

definition netsplit_history :: "connection \<Rightarrow> world \<Rightarrow> world" where
  "netsplit_history cp w =
     w\<lparr>w_channels := map (\<lambda>ch.
         if ch_locked ch \<or>
            list_ex (\<lambda>p. c_type p = CT_USER \<and> c_via p = Some (c_id cp) \<and> c_channel p = ch_chan ch) (w_connections w)
         then (add_to_history (w_cfg w) (w_currtime w) ''conversd'' (''*** Netsplit: link '' @ c_name cp) ch)\<lparr>ch_locked := False\<rparr>
         else ch) (w_channels w)\<rparr>"

text \<open>Lines 325 to 339: a user behind the broken link.\<close>

definition split_turn :: "env \<Rightarrow> connection \<Rightarrow> string \<Rightarrow> connection \<Rightarrow> world \<Rightarrow> world" where
  "split_turn E cp reason p w =
     (if c_via p \<noteq> Some (c_id cp) then w
      else
        let channel = c_channel p;
            w = upd_conn (c_id p) (\<lambda>c. c\<lparr>c_channel := -1\<rparr>) (clear_locks (set_type CT_CLOSED (c_id p) w));
            w = send_user_change_msg E (leave_change p channel reason True (c_nickname cp) (w_currtime w)) w;
            w = (if count_user channel w = 0 then destroy_channel channel True w
                 else update_channel_history (Some (c_id cp)) channel (c_name p) (c_host p) w)
        in free_sul_sp (c_id p) w)"

definition drop_sul_via :: "cid \<Rightarrow> world \<Rightarrow> world" where
  "drop_sul_via i w =
     w\<lparr>w_static_users := map (\<lambda>s. if s_via s = Some i then s\<lparr>s_via := None\<rparr> else s) (w_static_users w)\<rparr>"

definition second_login :: "connection \<Rightarrow> world \<Rightarrow> bool" where
  "second_login cp w =
     list_ex (\<lambda>p. c_type p = CT_USER \<and> c_id p \<noteq> c_id cp \<and> c_via cp = None \<and> strcaseeq (c_name cp) (c_name p)) (w_connections w)"

definition bye_command2 :: "env \<Rightarrow> cid \<Rightarrow> string \<Rightarrow> world \<Rightarrow> world" where
  "bye_command2 E i reason w =
     (case conn w i of
        None \<Rightarrow> w
      | Some cp \<Rightarrow>
          (case c_type cp of
             CT_UNKNOWN \<Rightarrow> set_type CT_CLOSED i w
           | CT_USER \<Rightarrow>
               let second = second_login cp w;
                   w = (if second then w else send_quits E i (Some (c_name cp)) (c_host cp) reason w);
                   w = set_type CT_CLOSED i w
               in (case conn w i of
                     None \<Rightarrow> w
                   | Some c \<Rightarrow> leave_channels E cp reason (\<not> second) (c_chan_list c) w)
           | CT_HOST \<Rightarrow>
               let w = set_type CT_CLOSED i (send_quits E i None (c_name cp) reason w);
                   w = snd (update_permlinks E (c_name cp) None 0 w);
                   w = netsplit_history cp w;
                   w = for_connections (split_turn E cp reason) w
               in route_cleanup cp (drop_sul_via i w)
           | CT_CLOSED \<Rightarrow> w
           | CT_OBSERVER \<Rightarrow> w))"

fun bye :: "nat \<Rightarrow> env \<Rightarrow> cid \<Rightarrow> string \<Rightarrow> world \<Rightarrow> world" where
  "bye 0 E i reason w = fault w"
| "bye (Suc n) E i reason w = bye_command2 (E\<lparr>e_bye := bye n E\<rparr>) i reason w"

definition bye_command :: "env \<Rightarrow> cid \<Rightarrow> string \<Rightarrow> world \<Rightarrow> world" where
  "bye_command E i args w =
     (case conn w i of
        None \<Rightarrow> w
      | Some cp \<Rightarrow>
          let w = (if flag (c_compress cp) 2 then snd (fast_write E i (CHR 0x0D # ''//COMP 0'' @ [CHR 0x0D]) 1 w) else w);
              s = fst (getargcs args True);
              s = (if s \<noteq> [] \<and> c_ircmode cp \<and> hd s = CHR '':'' then tl s else s)
          in if s = [] \<or> c_observer cp then e_bye E i ''/quit'' w
             else e_bye E i ([CHR 0x22] @ s @ [CHR 0x22]) w)"

section \<open>Freeing\<close>

text \<open>\<^verbatim>\<open>permlink\<close>s that point to a connection.\<close>

definition perm_of :: "cid \<Rightarrow> world \<Rightarrow> nat option" where
  "perm_of i w = find_perm (\<lambda>p. pl_connection p = Some i) w"

text \<open>Lines 980 to 988.\<close>

definition drop_link :: "cid \<Rightarrow> world \<Rightarrow> world" where
  "drop_link i w = (case perm_of i w of None \<Rightarrow> w
     | Some k \<Rightarrow> upd_perm k (\<lambda>p. p\<lparr>pl_connection := None, pl_statetime := w_currtime w\<rparr>) w)"

definition free_connection :: "cid \<Rightarrow> world \<Rightarrow> world" where
  "free_connection i w =
     (let w = free_sul_sp i (drop_link i w)
      in w\<lparr>w_connections := filter (\<lambda>c. c_id c \<noteq> i) (w_connections w)\<rparr>)"

definition to_be_freed :: "connection \<Rightarrow> world \<Rightarrow> bool" where
  "to_be_freed cp w \<longleftrightarrow>
     c_type cp = CT_CLOSED \<or>
     (case Option.bind (perm_of (c_id cp) w) (perm w) of
        None \<Rightarrow> False
      | Some l \<Rightarrow> c_type cp = CT_UNKNOWN \<and> c_time cp + pl_waittime l - 5 < w_currtime w)"

definition free_closed_connections :: "world \<Rightarrow> world" where
  "free_closed_connections = for_connections (\<lambda>cp w. if to_be_freed cp w then free_connection (c_id cp) w else w)"

section \<open>Channels without operator\<close>

text \<open>Lines 773 to 812: whether a user already has the operator status, and otherwise the one to
  get it. \<open>None\<close> is the jump out of the loop.\<close>

definition prefers :: "connection \<Rightarrow> connection \<Rightarrow> bool" where
  "prefers p q \<longleftrightarrow>
     c_isauth q < c_isauth p \<or>
     (\<not> c_isauth p < c_isauth q \<and> \<not> (c_away p \<noteq> [] \<and> (c_away q = [] \<or> c_atime p < c_atime q)) \<and> \<not> c_time q < c_time p)"

fun opless :: "int \<Rightarrow> connection list \<Rightarrow> connection option \<Rightarrow> bool \<Rightarrow> (connection option \<times> bool) option" where
  "opless chan [] pref loc = Some (pref, loc)"
| "opless chan (p # ps) pref loc =
     (let cl = find (\<lambda>cl. cl_channel cl = chan) (c_chan_list p);
          isop = (if c_channel p = chan then c_channelop p else (case cl of None \<Rightarrow> False | Some cl \<Rightarrow> cl_channelop cl))
      in if c_type p \<noteq> CT_USER \<or> c_observer p \<or> \<not> user_check (c_name p) then opless chan ps pref loc
         else if isop then None
         else if c_channel p \<noteq> chan \<and> cl = None then opless chan ps pref loc
         else opless chan ps
                (case pref of None \<Rightarrow> Some p | Some q \<Rightarrow> if prefers p q then Some p else pref)
                (loc \<or> c_via p = None))"

definition make_chanop :: "int \<Rightarrow> connection \<Rightarrow> connection" where
  "make_chanop chan c =
     c\<lparr>c_channelop := (c_channel c = chan \<or> c_channelop c),
       c_chan_list := update_first (\<lambda>cl. cl_channel cl = chan) (\<lambda>cl. cl\<lparr>cl_channelop := True\<rparr>) (c_chan_list c)\<rparr>"

definition opless_turn :: "env \<Rightarrow> int \<Rightarrow> world \<Rightarrow> world" where
  "opless_turn E chan w =
     (let me = myhostname (w_cfg w) in
      if chan = 0 \<and> ban_zero (w_cfg w) then w
      else
        (case opless chan (w_connections w) None False of
           Some (Some p, True) \<Rightarrow>
             send_opermsg E (c_name p) (c_nickname p) (c_host p) me me me chan True
               (clear_locks (upd_conn (c_id p) (make_chanop chan) w))
         | _ \<Rightarrow> w))"

definition check_opless_channels :: "env \<Rightarrow> world \<Rightarrow> world" where
  "check_opless_channels E w =
     (if \<not> runs ''check_opless_channels'' (15 * 60) w then w
      else ran ''check_opless_channels'' (fold (opless_turn E) (map ch_chan (w_channels w)) w))"

section \<open>What closing and speaking keep\<close>

text \<open>The connections the cells of \<^verbatim>\<open>permarray\<close> point to.\<close>

definition links :: "permlink option list \<Rightarrow> cid option list" where
  "links ps = map (\<lambda>p. Option.bind p pl_connection) ps"

definition link_at :: "world \<Rightarrow> nat \<Rightarrow> cid option" where
  "link_at w k = (if k < length (w_permarray w) then links (w_permarray w) ! k else None)"

text \<open>A property of the state that speaking, closing, and the changes of destinations, channels and
  permanent links do not touch.\<close>

locale kept =
  fixes P :: "world \<Rightarrow> bool" and E :: env
  assumes kept_bye: "P w \<Longrightarrow> P (e_bye E i r w)"
    and kept_conns: "P w \<Longrightarrow> map idle cs = map idle (w_connections w) \<Longrightarrow> P (w\<lparr>w_connections := cs\<rparr>)"
    and kept_dests: "P w \<Longrightarrow> P (w\<lparr>w_destinations := ds\<rparr>)"
    and kept_channels: "P w \<Longrightarrow> P (w\<lparr>w_channels := chs\<rparr>)"
    and kept_fault: "P w \<Longrightarrow> P (w\<lparr>w_fault := True\<rparr>)"
    and kept_perms: "P w \<Longrightarrow> (\<And>k. link_at (w\<lparr>w_permarray := ps\<rparr>) k \<in> {None, link_at w k}) \<Longrightarrow> P (w\<lparr>w_permarray := ps\<rparr>)"
begin

lemma kept_upd_conn: "P w \<Longrightarrow> (\<And>c. idle (f c) = idle c) \<Longrightarrow> P (upd_conn i f w)"
  unfolding upd_conn_def by (rule kept_conns) (auto intro: map_update_first_idle)

lemma kept_locks: "P w \<Longrightarrow> P (lock_conn i w)" "P w \<Longrightarrow> P (clear_locks w)"
  by (simp add: lock_conn_def kept_upd_conn) (simp add: clear_locks_def kept_conns comp_def)

lemma kept_for_ids: "(\<And>p v. P v \<Longrightarrow> P (body p v)) \<Longrightarrow> P w \<Longrightarrow> P (for_ids is body w)"
  by (induction "is" arbitrary: w) (auto split: option.split)

lemma kept_for: "(\<And>p v. P v \<Longrightarrow> P (body p v)) \<Longrightarrow> P w \<Longrightarrow> P (for_connections body w)"
  unfolding for_connections_def by (rule kept_for_ids)

lemma kept_fold: "(\<And>x v. P v \<Longrightarrow> P (f x v)) \<Longrightarrow> P w \<Longrightarrow> P (fold f xs w)"
  by (induction xs arbitrary: w) auto

lemma kept_appendstring: "P w \<Longrightarrow> P (appendstring E i s w)"
  by (simp add: appendstring_def Let_def kept_bye kept_upd_conn split: option.split)

lemma kept_send_notice: "P w \<Longrightarrow> P (send_notice E i from ch w)"
  by (auto simp: send_notice_def intro: kept_appendstring split: option.split)

lemma kept_append_chan_notice: "P w \<Longrightarrow> P (append_chan_notice E i s ch w)"
  by (auto simp: append_chan_notice_def Let_def intro: kept_appendstring kept_send_notice split: option.split)

lemma kept_append_general_notice: "P w \<Longrightarrow> P (append_general_notice E i s w)"
  by (simp add: append_general_notice_def kept_append_chan_notice)

lemma kept_appendc: "P w \<Longrightarrow> P (appendc E i n ast w)"
  by (auto simp: appendc_def Let_def intro: kept_appendstring split: option.split)

lemma kept_appendprompt: "P w \<Longrightarrow> P (appendprompt E i ast w)"
  by (auto simp: appendprompt_def intro: kept_appendc split: option.split)

lemmas kept_speech = kept_locks kept_appendstring kept_send_notice kept_append_chan_notice
  kept_append_general_notice kept_appendc kept_appendprompt

lemma kept_upd_dest: "P w \<Longrightarrow> P (upd_dest k f w)"
  by (simp add: upd_dest_def kept_dests)

lemma kept_upd_channel: "P w \<Longrightarrow> P (upd_channel n f w)"
  by (simp add: upd_channel_def kept_channels)

lemma kept_fault': "P w \<Longrightarrow> P (fault w)"
  by (simp add: fault_def kept_fault)

lemma kept_notify_users: "P w \<Longrightarrow> P (notify_users E host rv state w)"
  unfolding notify_users_def by (rule kept_for) (auto intro: kept_speech)

lemma kept_notify: "P w \<Longrightarrow> P (notify_destinations E dp host rv state w)"
  by (auto simp: notify_destinations_def intro: kept_notify_users kept_upd_dest split: option.split)

lemma kept_store_dest: "P w \<Longrightarrow> P (snd (store_dest name rtt rv hops hisneigh w))"
  by (auto simp: store_dest_def Let_def intro!: kept_upd_dest kept_dests split: option.split)

lemma kept_relink: "P w \<Longrightarrow> P (relink_dest E p k name rv w)"
  by (auto simp: relink_dest_def intro!: kept_upd_dest kept_notify split: option.split)

lemma kept_refresh: "P w \<Longrightarrow> P (refresh_neighbour E p k name rtt w)"
proof -
  have "P (neighbour_turn E pi k name x v)" if "P v" for pi x v
    using that by (auto simp: neighbour_turn_def Let_def intro!: kept_upd_dest kept_appendstring kept_fault' split: option.split)
  then show "P w \<Longrightarrow> P (refresh_neighbour E p k name rtt w)"
    by (auto simp: refresh_neighbour_def intro: kept_fold split: option.split)
qed

lemma kept_announce: "P w \<Longrightarrow> P (announce_dest E p k name rtt w)"
  unfolding announce_dest_def
  by (rule kept_fold) (auto simp: announce_turn_def intro: kept_appendstring split: option.split)

lemma kept_update_destinations: "P w \<Longrightarrow> P (update_destinations E p name rtt rv hops hisneigh w)"
  using kept_store_dest [of w name rtt rv "hops + 1" hisneigh]
  by (auto simp: update_destinations_def Let_def split_beta
      intro!: kept_upd_dest kept_fault' kept_announce kept_refresh kept_relink split: option.split)

lemma kept_upd_perm:
  assumes "P w" "\<And>p. pl_connection (f p) \<in> {None, pl_connection p}"
  shows "P (upd_perm k f w)"
proof (cases "perm w k")
  case (Some p)
  then have "k < length (w_permarray w)" "w_permarray w ! k = Some p" by (auto simp: perm_def split: if_splits)
  moreover have "pl_connection (f p) \<in> {None, pl_connection p}" by (rule assms(2))
  ultimately have "link_at (w\<lparr>w_permarray := (w_permarray w)[k := Some (f p)]\<rparr>) j \<in> {None, link_at w j}" for j
    by (auto simp: link_at_def links_def nth_list_update)
  with Some assms(1) show ?thesis by (simp add: upd_perm_def kept_perms)
qed (use assms in \<open>simp add: upd_perm_def\<close>)

lemma kept_drop_dest: "P w \<Longrightarrow> P (drop_dest E p down k w)"
  by (auto simp: drop_dest_def Let_def intro!: kept_update_destinations kept_notify split: option.split)

lemma kept_delay_down: "P w \<Longrightarrow> P (delay_down n delay l w)"
  by (induction n delay l w rule: delay_down.induct) (simp_all add: kept_fault' kept_upd_perm split: option.split)

lemma kept_delay_up: "P w \<Longrightarrow> P (delay_up n delay l w)"
  by (induction n delay l w rule: delay_up.induct) (simp_all add: kept_fault' kept_upd_perm split: option.split)

lemma kept_delay: "P w \<Longrightarrow> P (delay_permlink_connect lp delay w)"
  by (auto simp: delay_permlink_connect_def Let_def
      intro!: kept_delay_up kept_delay_down kept_fault' kept_upd_perm split: option.split)

lemma kept_link_down: "P w \<Longrightarrow> P (link_down E pl isperm w)"
  by (auto simp: link_down_def Let_def intro!: kept_delay kept_fault' kept_notify kept_upd_perm split: option.split)

lemma kept_update_permlinks: "P w \<Longrightarrow> P (snd (update_permlinks E name None isperm w))"
proof -
  assume w: "P w"
  define v where "v = (if w_permarray w = [] then w\<lparr>w_permarray := replicate (NR_PERMLINKS (w_cfg w)) None\<rparr> else w)"
  have v: "P v" using w by (auto simp: v_def link_at_def links_def intro!: kept_perms split: if_splits)
  have new: "P (v\<lparr>w_permarray := (w_permarray v)[pl := Some (link_up None isperm now b)]\<rparr>)" for pl now b
  proof (rule kept_perms [OF v])
    fix k
    show "link_at (v\<lparr>w_permarray := (w_permarray v)[pl := Some (link_up None isperm now b)]\<rparr>) k \<in> {None, link_at v k}"
      by (cases "k = pl") (simp_all add: link_at_def links_def link_up_def)
  qed
  show ?thesis
    using v new by (auto simp: update_permlinks_def v_def [symmetric] Let_def intro!: kept_link_down kept_fold kept_drop_dest split: option.split)
qed

lemma kept_add_history: "P w \<Longrightarrow> P (add_history ch from s w)"
  by (simp add: add_history_def kept_upd_channel)

lemma kept_destroy: "P w \<Longrightarrow> P (destroy_channel n lock w)"
  by (simp add: destroy_channel_def kept_upd_channel)

lemma kept_update_channel_history: "P w \<Longrightarrow> P (update_channel_history v ch name host w)"
  by (simp add: update_channel_history_def kept_add_history split: option.split)

lemma kept_route_cleanup: "P w \<Longrightarrow> P (route_cleanup cp w)"
  by (simp add: route_cleanup_def kept_dests)

lemma kept_netsplit_history: "P w \<Longrightarrow> P (netsplit_history cp w)"
  by (simp add: netsplit_history_def kept_channels)

lemma kept_send_buffer: "P w \<Longrightarrow> P (send_buffer E i buffer w)"
  by (simp add: send_buffer_def kept_speech)

lemma kept_change_turn: "P w \<Longrightarrow> P (change_turn E g oldflags oldchan newflags newchan p w)"
proof -
  have stays: "P (change_stays E g p v)" if "P v" for p v
    using that by (simp add: change_stays_def Let_def kept_send_buffer)
  have leaves: "P (change_leaves E g oldflags oldchan p v)" if "P v" for p v
    using that by (simp add: change_leaves_def Let_def kept_send_buffer kept_send_notice)
  have joins: "P (change_joins E g newflags newchan h p v)" if "P v" for h p v
    using that by (simp add: change_joins_def Let_def kept_send_buffer kept_send_notice kept_appendstring)
  have host: "P (change_host E g p v)" if "P v" for p v
    using that by (simp add: change_host_def Let_def kept_appendstring kept_locks)
  show "P w \<Longrightarrow> P (change_turn E g oldflags oldchan newflags newchan p w)"
    by (simp add: change_turn_def Let_def stays leaves joins host kept_locks split: option.split)
qed

lemma kept_send_user_change_msg: "P w \<Longrightarrow> P (send_user_change_msg E g w)"
  by (simp add: send_user_change_msg_def Let_def kept_for kept_change_turn)

lemma kept_send_quits: "P w \<Longrightarrow> P (send_quits E i name host reason w)"
proof -
  have quit: "P (quit_turn E i sq h b p v)" if "P v" for sq h b p v
    using that by (simp add: quit_turn_def kept_appendstring kept_locks)
  have squit: "P (squit_turn E i r p v)" if "P v" for r p v
    using that by (simp add: squit_turn_def squit_turn2_def Let_def kept_for kept_appendstring kept_locks)
  show "P w \<Longrightarrow> P (send_quits E i name host reason w)"
    by (simp add: send_quits_def Let_def kept_for quit squit kept_locks split: option.split)
qed

end

section \<open>Pointers\<close>

text \<open>What never changes of the connections while others are closed, and their types.\<close>

type_synonym shape = "cid \<times> cid option \<times> nat option"

definition shape :: "connection \<Rightarrow> shape" where
  "shape c = (c_id c, c_via c, c_sul c)"

definition ty :: "world \<Rightarrow> cid \<Rightarrow> conn_type option" where
  "ty w i = map_option c_type (conn w i)"

text \<open>Every pointer to a connection leads to a connection of the list, every cell of
  \<^verbatim>\<open>permarray\<close> to another one, and the list of sessions of a static user entry holds
  connections that point back. An open connection behind a link has an open link, apart from the
  links \<open>H\<close> that are just being closed. The connections \<open>N\<close> are not links, the
  connections \<open>S\<close> are closed.\<close>

definition ptrs :: "shape list \<Rightarrow> cid set \<Rightarrow> cid set \<Rightarrow> cid set \<Rightarrow> world \<Rightarrow> bool" where
  "ptrs I H N S w \<longleftrightarrow>
     map shape (w_connections w) = I \<and> distinct (map fst I) \<and>
     (\<forall>(i, v, k) \<in> set I. \<forall>u. v = Some u \<longrightarrow> u \<in> fst ` set I \<and> ty w i \<in> {Some CT_USER, Some CT_CLOSED} \<and>
        (ty w i = Some CT_CLOSED \<or> u \<in> H \<or> ty w u = Some CT_HOST)) \<and>
     (\<forall>k i. link_at w k = Some i \<longrightarrow> i \<in> fst ` set I) \<and>
     (\<forall>j k i. link_at w j = Some i \<and> link_at w k = Some i \<longrightarrow> j = k) \<and>
     (\<forall>s \<in> set (w_static_users w).
        (\<forall>u. s_via s = Some u \<longrightarrow> u \<in> fst ` set I \<and> (u \<in> H \<or> ty w u = Some CT_HOST)) \<and>
        distinct (s_sp s) \<and> (\<forall>j \<in> set (s_sp s). \<exists>v. (j, v, Some (s_id s)) \<in> set I)) \<and>
     distinct (map s_id (w_static_users w)) \<and>
     (\<forall>i \<in> N. ty w i \<noteq> Some CT_HOST) \<and> (\<forall>i \<in> S. ty w i = Some CT_CLOSED)"

lemma ptrs_cong:
  assumes "map shape (w_connections w') = map shape (w_connections w)" "ty w' = ty w"
    "link_at w' = link_at w" "w_static_users w' = w_static_users w"
  shows "ptrs I H N S w' = ptrs I H N S w"
  unfolding ptrs_def assms by (rule refl)

lemma shape_idle: "shape (idle c) = shape c"
  by (simp add: shape_def)

lemma map_shape_idle: "map idle cs = map idle ds \<Longrightarrow> map shape cs = map shape ds"
proof -
  assume "map idle cs = map idle ds"
  then have "map shape (map idle cs) = map shape (map idle ds)" by (simp only:)
  then show ?thesis by (simp add: shape_idle comp_def)
qed

lemma ty_idle: "map idle cs = map idle (w_connections w) \<Longrightarrow> ty (w\<lparr>w_connections := cs\<rparr>) = ty w"
proof
  fix i
  assume a: "map idle cs = map idle (w_connections w)"
  have "map_option c_type (find (\<lambda>c. c_id c = i) xs) = map_option c_type (find (\<lambda>c. c_id c = i) (map idle xs))" for xs
    by (induction xs) auto
  from this [of cs] this [of "w_connections w"] a show "ty (w\<lparr>w_connections := cs\<rparr>) i = ty w i"
    by (simp add: ty_def conn_def)
qed

lemma kept_ptrs:
  assumes "\<And>i r w. ptrs I H N S w \<Longrightarrow> ptrs I H N S (e_bye E i r w)"
  shows "kept (ptrs I H N S) E"
proof
  fix w cs ds chs ps
  assume w: "ptrs I H N S w"
  have l: "link_at (w\<lparr>w_connections := cs\<rparr>) = link_at w" "link_at (w\<lparr>w_destinations := ds\<rparr>) = link_at w"
    "link_at (w\<lparr>w_channels := chs\<rparr>) = link_at w" "link_at (w\<lparr>w_fault := True\<rparr>) = link_at w"
    by (simp_all add: fun_eq_iff link_at_def)
  have t: "ty (w\<lparr>w_destinations := ds\<rparr>) = ty w" "ty (w\<lparr>w_channels := chs\<rparr>) = ty w" "ty (w\<lparr>w_fault := True\<rparr>) = ty w"
    "ty (w\<lparr>w_permarray := ps\<rparr>) = ty w"
    by (simp_all add: fun_eq_iff ty_def conn_def)
  show "ptrs I H N S (w\<lparr>w_connections := cs\<rparr>)" if a: "map idle cs = map idle (w_connections w)"
    using w by (subst ptrs_cong) (simp_all add: map_shape_idle [OF a] ty_idle [OF a] l)
  show "ptrs I H N S (w\<lparr>w_destinations := ds\<rparr>)" "ptrs I H N S (w\<lparr>w_channels := chs\<rparr>)" "ptrs I H N S (w\<lparr>w_fault := True\<rparr>)"
    using w ptrs_cong [of "w\<lparr>w_destinations := ds\<rparr>" w I H N S] ptrs_cong [of "w\<lparr>w_channels := chs\<rparr>" w I H N S]
      ptrs_cong [of "w\<lparr>w_fault := True\<rparr>" w I H N S] l t
    by simp_all
  show "ptrs I H N S (w\<lparr>w_permarray := ps\<rparr>)" if b: "\<And>k. link_at (w\<lparr>w_permarray := ps\<rparr>) k \<in> {None, link_at w k}"
  proof -
    have "link_at (w\<lparr>w_permarray := ps\<rparr>) k = Some i \<Longrightarrow> link_at w k = Some i" for k i using b [of k] by auto
    then have "\<forall>k i. link_at (w\<lparr>w_permarray := ps\<rparr>) k = Some i \<longrightarrow> i \<in> fst ` set I"
      "\<forall>j k i. link_at (w\<lparr>w_permarray := ps\<rparr>) j = Some i \<and> link_at (w\<lparr>w_permarray := ps\<rparr>) k = Some i \<longrightarrow> j = k"
      using w unfolding ptrs_def by blast+
    with w show ?thesis unfolding ptrs_def t by simp
  qed
qed (rule assms)

lemma ty_upd_conn: "(\<And>c. c_id (f c) = c_id c) \<Longrightarrow> (\<And>c. c_type (f c) = c_type c) \<Longrightarrow> ty (upd_conn i f w) = ty w"
  by (auto simp: fun_eq_iff ty_def conn_upd_conn option.map_comp comp_def)

lemma ty_set_type: "ty (set_type t i w) j = (if j = i \<and> ty w i \<noteq> None then Some t else ty w j)"
  by (auto simp: ty_def set_type_def conn_upd_conn)

lemma shape_upd_conn: "(\<And>c. shape (f c) = shape c) \<Longrightarrow> map shape (w_connections (upd_conn i f w)) = map shape (w_connections w)"
  by (simp add: upd_conn_def map_update_first)

lemma ptrs_upd_conn:
  assumes "\<And>c. shape (f c) = shape c" "\<And>c. c_type (f c) = c_type c"
  shows "ptrs I H N S (upd_conn i f w) = ptrs I H N S w"
proof (rule ptrs_cong)
  have "c_id (f c) = c_id c" for c using assms(1) [of c] by (simp add: shape_def)
  then show "ty (upd_conn i f w) = ty w" using assms(2) by (rule ty_upd_conn)
qed (simp_all add: shape_upd_conn assms link_at_def fun_eq_iff)

text \<open>Closing one connection.\<close>

lemma set_type_frame:
  "map shape (w_connections (set_type t i w)) = map shape (w_connections w)"
  "link_at (set_type t i w) = link_at w" "w_static_users (set_type t i w) = w_static_users w"
  by (simp_all add: set_type_def shape_upd_conn shape_def link_at_def fun_eq_iff)

lemma ptrs_ids: "ptrs I H N S w \<Longrightarrow> i \<in> fst ` set I \<longleftrightarrow> ty w i \<noteq> None"
proof -
  assume "ptrs I H N S w"
  then have "map fst I = conn_ids w" by (auto simp: ptrs_def conn_ids_def shape_def comp_def)
  then have "fst ` set I = set (conn_ids w)" by (metis set_map)
  then show ?thesis by (simp add: ty_def conn_None_iff)
qed

lemma ptrs_close_link:
  assumes "ptrs I H N S w" "i \<in> fst ` set I"
  shows "ptrs I (insert i H) N (insert i S) (set_type CT_CLOSED i w)"
  using assms(1) ptrs_ids [OF assms(1), of i] assms(2)
  unfolding ptrs_def set_type_frame ty_set_type by (auto split: if_splits)

lemma ptrs_close:
  assumes "ptrs I H N S w" "ty w i \<noteq> Some CT_HOST" "i \<in> fst ` set I"
  shows "ptrs I H N (insert i S) (set_type CT_CLOSED i w)"
  using assms(1) ptrs_ids [OF assms(1), of i] assms(2,3)
  unfolding ptrs_def set_type_frame ty_set_type by (auto split: if_splits)

lemma ptrs_mono: "ptrs I H N S w \<Longrightarrow> N' \<subseteq> N \<Longrightarrow> S' \<subseteq> S \<Longrightarrow> ptrs I H N' S' w"
  unfolding ptrs_def by blast

lemma ptrs_not_link: "ptrs I H N S w \<Longrightarrow> ty w i \<noteq> Some CT_HOST \<Longrightarrow> ptrs I H (insert i N) S w"
  unfolding ptrs_def by blast

lemma ptrs_free_sul_sp:
  assumes "ptrs I H N S w"
  shows "ptrs I H N S (free_sul_sp i w)"
proof -
  have t: "ty (upd_sul k f w) = ty w" "link_at (upd_sul k f w) = link_at w" for k f
    by (simp_all add: fun_eq_iff ty_def link_at_def upd_sul_def conn_def)
  have "ptrs I H N S (upd_sul k (\<lambda>s. s\<lparr>s_sp := remove1 i (s_sp s)\<rparr>) w)" for k
  proof -
    let ?f = "\<lambda>s. s\<lparr>s_sp := remove1 i (s_sp s)\<rparr>"
    have m: "map s_id (update_first Q ?f xs) = map s_id xs" for Q xs by (simp add: map_update_first)
    have "s \<in> set (update_first Q ?f xs) \<Longrightarrow> \<exists>s' \<in> set xs. s = s' \<or> s = ?f s'" for s Q xs
      using set_update_first [of Q ?f xs] by blast
    moreover have "set (remove1 i xs) \<subseteq> set xs" for xs by (rule set_remove1_subset)
    ultimately show ?thesis
      using assms unfolding ptrs_def t by (simp add: m upd_sul_def) (fastforce dest: notin_set_remove1)
  qed
  moreover have "ptrs I H N S (w\<lparr>w_fault := True\<rparr>)"
    using assms ptrs_cong [of "w\<lparr>w_fault := True\<rparr>" w I H N S] by (simp add: fun_eq_iff ty_def conn_def link_at_def)
  ultimately show ?thesis using assms by (auto simp: free_sul_sp_def split: option.split)
qed

lemma ptrs_leave_channels:
  assumes K: "kept (ptrs I H N S) E"
  shows "ptrs I H N S w \<Longrightarrow> ptrs I H N S (leave_channels E cp reason quits_sent cls w)"
proof (induction cls arbitrary: w)
  case (Cons cl cls)
  have "ptrs I H N S (upd_conn i (\<lambda>c. c\<lparr>c_chan_list := l\<rparr>) v) = ptrs I H N S v" for i l v
    by (rule ptrs_upd_conn) (simp_all add: shape_def)
  then show ?case
    using Cons by (simp add: Let_def kept.kept_destroy [OF K] kept.kept_update_channel_history [OF K]
        kept.kept_send_user_change_msg [OF K] kept.kept_locks [OF K])
qed simp

lemma ptrs_split_turn:
  assumes K: "\<And>S. kept (ptrs I H N S) E" and "ptrs I H N S w" "conn w (c_id p) = Some p"
  shows "ptrs I H N (if c_via p = Some (c_id cp) then insert (c_id p) S else S) (split_turn E cp reason p w)"
proof (cases "c_via p = Some (c_id cp)")
  case True
  let ?i = "c_id p" and ?S = "insert (c_id p) S"
  have "(?i, Some (c_id cp), c_sul p) \<in> set I"
    using assms(2) conn_SomeD [OF assms(3)] True by (auto simp: ptrs_def shape_def rev_image_eqI)
  moreover from this have "ty w ?i \<in> {Some CT_USER, Some CT_CLOSED}" using assms(2) unfolding ptrs_def by blast
  ultimately have "?i \<in> fst ` set I" "ty w ?i \<noteq> Some CT_HOST" by force+
  with assms(2) have "ptrs I H N ?S (set_type CT_CLOSED ?i w)" by (auto intro: ptrs_close)
  then have "ptrs I H N ?S (upd_conn ?i (\<lambda>c. c\<lparr>c_channel := -1\<rparr>) (clear_locks (set_type CT_CLOSED ?i w)))"
    by (subst ptrs_upd_conn) (simp_all add: shape_def kept.kept_locks [OF K])
  then show ?thesis
    using True
    by (simp add: split_turn_def Let_def ptrs_free_sul_sp kept.kept_destroy [OF K]
        kept.kept_update_channel_history [OF K] kept.kept_send_user_change_msg [OF K])
qed (use assms(2) in \<open>simp add: split_turn_def\<close>)

lemma ptrs_split_loop:
  assumes K: "\<And>S. kept (ptrs I H N S) E"
  shows "ptrs I H N S w \<Longrightarrow>
    ptrs I H N (S \<union> {j \<in> set is. \<exists>k. (j, Some (c_id cp), k) \<in> set I}) (for_ids is (split_turn E cp reason) w)"
proof (induction "is" arbitrary: S w)
  case (Cons i js)
  show ?case
  proof (cases "conn w i")
    case None
    then have "i \<notin> fst ` set I" using ptrs_ids [OF Cons.prems, of i] by (simp add: ty_def)
    then have "{j \<in> set (i # js). \<exists>k. (j, Some (c_id cp), k) \<in> set I} = {j \<in> set js. \<exists>k. (j, Some (c_id cp), k) \<in> set I}"
      by force
    with None Cons.IH [OF Cons.prems] show ?thesis by simp
  next
    case (Some p)
    have i: "c_id p = i" using conn_SomeD [OF Some] by simp
    define S' where "S' = (if c_via p = Some (c_id cp) then insert i S else S)"
    have t: "ptrs I H N S' (split_turn E cp reason p w)"
      using ptrs_split_turn [OF K Cons.prems, of p cp reason] Some i by (simp add: S'_def split: if_splits)
    have "shape p \<in> set I" using Cons.prems conn_SomeD [OF Some] by (auto simp: ptrs_def)
    moreover have "distinct (map fst I)" using Cons.prems by (simp add: ptrs_def)
    ultimately have "(i, v, k) \<in> set I \<Longrightarrow> v = c_via p" for v k
      using eq_key_imp_eq_value [of I i] i by (force simp: shape_def)
    then have "S \<union> {j \<in> set (i # js). \<exists>k. (j, Some (c_id cp), k) \<in> set I} \<subseteq>
        S' \<union> {j \<in> set js. \<exists>k. (j, Some (c_id cp), k) \<in> set I}"
      by (auto simp: S'_def)
    from ptrs_mono [OF Cons.IH [OF t] order_refl this] Some show ?thesis by simp
  qed
qed simp

lemma ptrs_drop_sul_via:
  assumes "ptrs I (insert i H) N S w" "\<And>j k. (j, Some i, k) \<in> set I \<Longrightarrow> j \<in> S"
  shows "ptrs I H N S (drop_sul_via i w)"
proof -
  have t: "ty (drop_sul_via i w) = ty w" "link_at (drop_sul_via i w) = link_at w"
    "w_connections (drop_sul_via i w) = w_connections w" "map s_id (w_static_users (drop_sul_via i w)) = map s_id (w_static_users w)"
    by (simp_all add: fun_eq_iff ty_def conn_def link_at_def drop_sul_via_def)
  have "\<forall>(j, v, k) \<in> set I. \<forall>u. v = Some u \<longrightarrow> u \<in> fst ` set I \<and> ty w j \<in> {Some CT_USER, Some CT_CLOSED} \<and>
      (ty w j = Some CT_CLOSED \<or> u \<in> H \<or> ty w u = Some CT_HOST)"
  proof (clarify)
    fix j u k
    assume a: "(j, Some u, k) \<in> set I"
    with assms(1) have "u \<in> fst ` set I" "ty w j \<in> {Some CT_USER, Some CT_CLOSED}"
      "ty w j = Some CT_CLOSED \<or> u \<in> insert i H \<or> ty w u = Some CT_HOST"
      unfolding ptrs_def by blast+
    moreover have "u = i \<Longrightarrow> ty w j = Some CT_CLOSED"
      using a assms by (auto simp: ptrs_def)
    ultimately show "u \<in> fst ` set I \<and> ty w j \<in> {Some CT_USER, Some CT_CLOSED} \<and>
      (ty w j = Some CT_CLOSED \<or> u \<in> H \<or> ty w u = Some CT_HOST)" by blast
  qed
  moreover have "\<forall>s \<in> set (w_static_users (drop_sul_via i w)).
      (\<forall>u. s_via s = Some u \<longrightarrow> u \<in> fst ` set I \<and> (u \<in> H \<or> ty w u = Some CT_HOST)) \<and>
      distinct (s_sp s) \<and> (\<forall>j \<in> set (s_sp s). \<exists>v. (j, v, Some (s_id s)) \<in> set I)"
    using assms(1) by (auto simp: ptrs_def drop_sul_via_def)
  ultimately show ?thesis using assms(1) unfolding ptrs_def t by simp
qed

text \<open>The connections that closing \<open>i\<close> closes for sure.\<close>

definition closes :: "shape list \<Rightarrow> cid \<Rightarrow> conn_type option \<Rightarrow> cid set" where
  "closes I i t =
     (if t = Some CT_HOST then insert i {j. \<exists>k. (j, Some i, k) \<in> set I}
      else if t = Some CT_OBSERVER \<or> t = None then {} else {i})"

lemma ptrs_bye_command2:
  assumes K: "\<And>H N S. kept (ptrs I H N S) E" and w: "ptrs I H N S w"
  shows "ptrs I H N (S \<union> closes I i (ty w i)) (bye_command2 E i reason w)"
proof (cases "conn w i")
  case None
  with w show ?thesis by (simp add: bye_command2_def ty_def closes_def)
next
  case (Some cp)
  have i: "i \<in> fst ` set I" using ptrs_ids [OF w, of i] Some by (simp add: ty_def)
  have t: "ty w i = Some (c_type cp)" using Some by (simp add: ty_def)
  have id: "c_id cp = i" using conn_SomeD [OF Some] by simp
  show ?thesis
  proof (cases "c_type cp")
    case CT_UNKNOWN
    with ptrs_close [OF w _ i] Some t show ?thesis by (simp add: bye_command2_def closes_def)
  next
    case CT_USER
    define w1 where "w1 = (if second_login cp w then w else send_quits E i (Some (c_name cp)) (c_host cp) reason w)"
    have "ptrs I H (insert i N) S w" using ptrs_not_link [OF w] t CT_USER by simp
    then have w1: "ptrs I H (insert i N) S w1" by (simp add: w1_def kept.kept_send_quits [OF K])
    then have "ty w1 i \<noteq> Some CT_HOST" by (auto simp: ptrs_def)
    from ptrs_close [OF w1 this i] have w2: "ptrs I H N (insert i S) (set_type CT_CLOSED i w1)"
      by (rule ptrs_mono) auto
    from ptrs_ids [OF w2, of i] i obtain c where "conn (set_type CT_CLOSED i w1) i = Some c" by (auto simp: ty_def)
    with ptrs_leave_channels [OF K w2] CT_USER Some t show ?thesis
      by (simp add: bye_command2_def closes_def w1_def [symmetric])
  next
    case CT_HOST
    define w1 where "w1 = set_type CT_CLOSED i (send_quits E i None (c_name cp) reason w)"
    have "ptrs I (insert i H) N (insert i S) w1"
      unfolding w1_def by (rule ptrs_close_link [OF kept.kept_send_quits [OF K w] i])
    then have "ptrs I (insert i H) N (insert i S) (netsplit_history cp (snd (update_permlinks E (c_name cp) None 0 w1)))"
      (is "ptrs _ _ _ _ ?w2") by (simp add: kept.kept_netsplit_history [OF K] kept.kept_update_permlinks [OF K])
    from ptrs_split_loop [OF K this, of "conn_ids ?w2" cp reason]
    have "ptrs I (insert i H) N (insert i S \<union> {j \<in> set (conn_ids ?w2). \<exists>k. (j, Some i, k) \<in> set I})
        (for_connections (split_turn E cp reason) ?w2)" (is "ptrs _ _ _ ?S ?w3")
      by (simp add: for_connections_def id)
    moreover have all: "j \<in> ?S" if "(j, Some i, k) \<in> set I" for j k
      using that ptrs_ids [OF \<open>ptrs I (insert i H) N (insert i S) ?w2\<close>, of j] by (force simp: ty_def conn_None_iff)
    ultimately have "ptrs I H N ?S (drop_sul_via i ?w3)" by (rule ptrs_drop_sul_via)
    then have "ptrs I H N ?S (route_cleanup cp (drop_sul_via i ?w3))" by (simp add: kept.kept_route_cleanup [OF K])
    moreover have "S \<union> closes I i (ty w i) \<subseteq> ?S" using all t CT_HOST by (auto simp: closes_def)
    ultimately have "ptrs I H N (S \<union> closes I i (ty w i)) (route_cleanup cp (drop_sul_via i ?w3))"
      by (blast intro: ptrs_mono)
    with CT_HOST Some show ?thesis by (simp add: bye_command2_def w1_def)
  next
    case CT_CLOSED
    with w Some t show ?thesis by (simp add: bye_command2_def closes_def ptrs_def)
  next
    case CT_OBSERVER
    with w Some t show ?thesis by (simp add: bye_command2_def closes_def)
  qed
qed

lemma ptrs_fault: "ptrs I H N S (fault w) = ptrs I H N S w"
  by (rule ptrs_cong) (simp_all add: fault_def fun_eq_iff ty_def conn_def link_at_def)

lemma ptrs_bye: "ptrs I H N S w \<Longrightarrow> ptrs I H N S (bye n E i reason w)"
proof (induction n arbitrary: H N S i reason w)
  case (Suc n)
  have "kept (ptrs I H N S) (E\<lparr>e_bye := bye n E\<rparr>)" for H N S
    by (rule kept_ptrs) (simp add: Suc.IH)
  from ptrs_mono [OF ptrs_bye_command2 [OF this Suc.prems] order_refl Un_upper1] show ?case by simp
qed (simp add: ptrs_fault)

interpretation closing: kept "ptrs I H N S" "E\<lparr>e_bye := bye n E\<rparr>" for I H N S E n
  by (rule kept_ptrs) (simp add: ptrs_bye)

section \<open>Freeing\<close>

text \<open>What is left of the state when the connections \<open>D\<close> are freed.\<close>

definition freed :: "cid set \<Rightarrow> world \<Rightarrow> world \<Rightarrow> bool" where
  "freed D w w' \<longleftrightarrow>
     w_connections w' = filter (\<lambda>c. c_id c \<notin> D) (w_connections w) \<and>
     (\<forall>k. link_at w' k \<in> {None, link_at w k} - Some ` D) \<and>
     map s_id (w_static_users w') = map s_id (w_static_users w) \<and>
     (\<forall>s' \<in> set (w_static_users w'). \<exists>s \<in> set (w_static_users w). s_id s' = s_id s \<and> s_via s' = s_via s \<and>
        distinct (s_sp s') \<and> set (s_sp s') \<subseteq> set (s_sp s) - D)"

lemma link_at_perm: "link_at w k = Option.bind (perm w k) pl_connection"
  by (simp add: link_at_def links_def perm_def)

lemma link_at_conns: "link_at (w\<lparr>w_connections := cs\<rparr>) = link_at w"
  by (simp add: fun_eq_iff link_at_def)

lemma link_at_upd_perm:
  "link_at (upd_perm k f w) j = (if j = k then Option.bind (perm w k) (\<lambda>p. pl_connection (f p)) else link_at w j)"
  by (auto simp: upd_perm_def link_at_perm perm_def split: option.split)

lemma perm_of_Some: "perm_of i w = Some k \<Longrightarrow> link_at w k = Some i"
  by (auto simp: perm_of_def find_perm_def find_Some_iff link_at_perm split: option.splits)

lemma perm_of_None: "perm_of i w = None \<Longrightarrow> link_at w k \<noteq> Some i"
proof
  assume n: "perm_of i w = None" and l: "link_at w k = Some i"
  then have "k < length (w_permarray w)" by (auto simp: link_at_def split: if_splits)
  with n l show False by (auto simp: perm_of_def find_perm_def find_None_iff link_at_perm split: option.splits bind_splits)
qed

lemma upd_perm_frame [simp]:
  "w_connections (upd_perm k f w) = w_connections w" "w_static_users (upd_perm k f w) = w_static_users w"
  "conn (upd_perm k f w) = conn w"
  by (simp_all add: upd_perm_def conn_def fun_eq_iff split: option.split)

lemma free_sul_sp_frame [simp]:
  "w_connections (free_sul_sp i w) = w_connections w" "link_at (free_sul_sp i w) = link_at w"
  by (simp_all add: free_sul_sp_def upd_sul_def link_at_def fun_eq_iff split: option.split)

text \<open>A session leaves the entry it belongs to; in the other entries it is not listed.\<close>

abbreviation (input) without_sp :: "cid \<Rightarrow> static_user_list \<Rightarrow> static_user_list" where
  "without_sp i s \<equiv> s\<lparr>s_sp := filter (\<lambda>j. j \<noteq> i) (s_sp s)\<rparr>"

lemma without_sp_id: "i \<notin> set (s_sp s) \<Longrightarrow> without_sp i s = s"
proof -
  assume "i \<notin> set (s_sp s)"
  then have "filter (\<lambda>j. j \<noteq> i) (s_sp s) = s_sp s" by (intro filter_True) auto
  then show ?thesis by simp
qed

lemma remove_sp:
  fixes ss :: "static_user_list list"
  assumes "distinct (map s_id ss)" "\<And>s. s \<in> set ss \<Longrightarrow> distinct (s_sp s) \<and> (i \<in> set (s_sp s) \<longrightarrow> s_id s = k)"
  shows "update_first (\<lambda>s. s_id s = k) (\<lambda>s. s\<lparr>s_sp := remove1 i (s_sp s)\<rparr>) ss = map (without_sp i) ss"
  using assms
proof (induction ss)
  case (Cons s ss)
  show ?case
  proof (cases "s_id s = k")
    case True
    have "i \<notin> set (s_sp x)" if x: "x \<in> set ss" for x
    proof
      assume "i \<in> set (s_sp x)"
      then have "s_id x = s_id s" using x Cons.prems(2) [of x] True by auto
      with imageI [OF x, of s_id] have "s_id s \<in> s_id ` set ss" by (simp only:)
      with Cons.prems(1) show False by simp
    qed
    then have "map (without_sp i) ss = ss" by (intro map_idI without_sp_id)
    then show ?thesis
      using True Cons.prems(2) [of s] by (simp add: distinct_remove1_removeAll removeAll_filter_not_eq eq_commute [of i])
  next
    case False
    then have "i \<notin> set (s_sp s)" using Cons.prems(2) [of s] by auto
    then have "without_sp i s = s" by (rule without_sp_id)
    moreover have "update_first (\<lambda>s. s_id s = k) (\<lambda>s. s\<lparr>s_sp := remove1 i (s_sp s)\<rparr>) ss = map (without_sp i) ss"
      by (rule Cons.IH) (use Cons.prems in auto)
    ultimately show ?thesis using False by (simp only: update_first.simps list.map if_False)
  qed
qed simp

lemma free_sul_sp_users:
  assumes "distinct (map s_id (w_static_users w))" "conn w i = Some c"
    and "\<And>s. s \<in> set (w_static_users w) \<Longrightarrow> distinct (s_sp s) \<and> (i \<in> set (s_sp s) \<longrightarrow> c_sul c = Some (s_id s))"
  shows "w_static_users (free_sul_sp i w) = map (without_sp i) (w_static_users w)"
proof (cases "\<exists>k s. c_sul c = Some k \<and> sul w k = Some s")
  case True
  then obtain k s where k: "c_sul c = Some k" "sul w k = Some s" by blast
  then have "w_static_users (free_sul_sp i w) =
      update_first (\<lambda>s. s_id s = k) (\<lambda>s. s\<lparr>s_sp := remove1 i (s_sp s)\<rparr>) (w_static_users w)"
    using assms(2) by (simp add: free_sul_sp_def upd_sul_def)
  with remove_sp [OF assms(1), of i k] assms(3) k(1) show ?thesis by auto
next
  case False
  have "i \<notin> set (s_sp s)" if "s \<in> set (w_static_users w)" for s
    using assms(3) [OF that] that False by (auto simp: sul_def find_None_iff)
  then have "map (without_sp i) (w_static_users w) = w_static_users w" by (intro map_idI without_sp_id)
  with False assms(2) show ?thesis by (auto simp: free_sul_sp_def split: option.split)
qed

lemma freed_conn:
  assumes "freed D w w'"
  shows "conn w' i = (if i \<in> D then None else conn w i)"
proof -
  have "find (\<lambda>c. c_id c = i) (filter (\<lambda>c. c_id c \<notin> D) cs) = (if i \<in> D then None else find (\<lambda>c. c_id c = i) cs)"
    for cs :: "connection list"
    by (induction cs) auto
  with assms show ?thesis by (simp add: freed_def conn_def)
qed

lemma freed_link:
  assumes "freed D w w'" "link_at w' k = Some j"
  shows "link_at w k = Some j \<and> j \<notin> D"
proof -
  have "link_at w' k \<in> {None, link_at w k} - Some ` D" using assms(1) by (simp add: freed_def)
  with assms(2) show ?thesis by auto
qed

lemma freed_user:
  assumes "freed D w w'" "s \<in> set (w_static_users w')"
  obtains s0 where "s0 \<in> set (w_static_users w)" "s_id s = s_id s0" "s_via s = s_via s0" "distinct (s_sp s)"
    "set (s_sp s) \<subseteq> set (s_sp s0) - D"
proof -
  have "\<exists>s0 \<in> set (w_static_users w). s_id s = s_id s0 \<and> s_via s = s_via s0 \<and> distinct (s_sp s) \<and> set (s_sp s) \<subseteq> set (s_sp s0) - D"
    using assms by (simp add: freed_def)
  with that show ?thesis by blast
qed

lemma drop_link_frame [simp]:
  "w_connections (drop_link i w) = w_connections w" "w_static_users (drop_link i w) = w_static_users w" "conn (drop_link i w) = conn w"
  by (simp_all add: drop_link_def split: option.split)

lemma freed_drop_link:
  assumes P: "ptrs I {} {} {} w" and F: "freed D w w'"
  shows "link_at (drop_link i w') k \<in> {None, link_at w k} - Some ` insert i D"
proof -
  have l: "link_at w' k \<in> {None, link_at w k} - Some ` D" using F by (simp add: freed_def)
  show ?thesis
  proof (cases "perm_of i w'")
    case None
    then show ?thesis using l perm_of_None [OF None, of k] by (auto simp: drop_link_def)
  next
    case (Some j)
    have "\<forall>j k i. link_at w j = Some i \<and> link_at w k = Some i \<longrightarrow> j = k" using P unfolding ptrs_def by (elim conjE)
    then have "k \<noteq> j \<Longrightarrow> link_at w' k \<noteq> Some i" using freed_link [OF F] perm_of_Some [OF Some] by blast
    moreover have "link_at (drop_link i w') k = (if k = j then None else link_at w' k)"
      by (auto simp: drop_link_def Some link_at_upd_perm split: bind_splits)
    ultimately show ?thesis using l by auto
  qed
qed

lemma freed_free_connection:
  assumes P: "ptrs I {} {} {} w" and F: "freed D w w'" and c: "conn w' i = Some c"
  shows "freed (insert i D) w (free_connection i w')"
proof -
  define w1 where "w1 = drop_link i w'"
  have fc: "free_connection i w' = (free_sul_sp i w1)\<lparr>w_connections := filter (\<lambda>c. c_id c \<noteq> i) (w_connections (free_sul_sp i w1))\<rparr>"
    by (simp add: free_connection_def w1_def Let_def)
  have "c \<in> set (w_connections w)" "c_id c = i" using conn_SomeD [OF c] F by (auto simp: freed_def)
  then have cI: "(i, c_via c, c_sul c) \<in> set I" using P by (auto simp: ptrs_def shape_def)
  have d: "distinct (map fst I)" using P by (simp add: ptrs_def)
  have sp: "distinct (s_sp s) \<and> (i \<in> set (s_sp s) \<longrightarrow> c_sul c = Some (s_id s))" if "s \<in> set (w_static_users w1)" for s
  proof -
    from that have "s \<in> set (w_static_users w')" by (simp add: w1_def)
    with F obtain s0 where s0: "s0 \<in> set (w_static_users w)" "s_id s = s_id s0" "distinct (s_sp s)" "set (s_sp s) \<subseteq> set (s_sp s0) - D"
      by (rule freed_user)
    have "\<exists>v. (i, v, Some (s_id s0)) \<in> set I" if "i \<in> set (s_sp s0)" using P s0(1) that unfolding ptrs_def by blast
    then have "c_sul c = Some (s_id s0)" if "i \<in> set (s_sp s0)"
      using that eq_key_imp_eq_value [OF d cI] by auto
    with s0 show ?thesis by auto
  qed
  have "distinct (map s_id (w_static_users w1))" using F P by (simp add: w1_def freed_def ptrs_def)
  from free_sul_sp_users [OF this _ sp] c
  have users: "w_static_users (free_connection i w') = map (without_sp i) (w_static_users w')"
    by (simp add: fc w1_def)
  have "\<exists>s0 \<in> set (w_static_users w). s_id s' = s_id s0 \<and> s_via s' = s_via s0 \<and> distinct (s_sp s') \<and> set (s_sp s') \<subseteq> set (s_sp s0) - insert i D"
    if "s' \<in> set (w_static_users (free_connection i w'))" for s'
  proof -
    from that users obtain s where s: "s \<in> set (w_static_users w')" and s': "s' = without_sp i s" by auto
    from F s show ?thesis by (rule freed_user) (auto simp: s')
  qed
  moreover have "map s_id (w_static_users (free_connection i w')) = map s_id (w_static_users w)"
    using F by (simp add: users comp_def freed_def)
  moreover have "w_connections (free_connection i w') = filter (\<lambda>c. c_id c \<notin> insert i D) (w_connections w)"
    using F by (simp add: fc w1_def freed_def conj_commute)
  moreover have "link_at (free_connection i w') = link_at w1" by (simp add: fc link_at_conns)
  ultimately show ?thesis using freed_drop_link [OF P F, of i] unfolding freed_def w1_def by simp
qed

lemma freed_loop:
  assumes P: "ptrs I {} {} {} w"
  shows "freed D w w' \<Longrightarrow> D \<subseteq> {j. ty w j \<in> {Some CT_CLOSED, Some CT_UNKNOWN}} \<Longrightarrow>
    \<exists>D'. freed D' w (for_ids is (\<lambda>cp w. if to_be_freed cp w then free_connection (c_id cp) w else w) w') \<and>
       D' \<subseteq> {j. ty w j \<in> {Some CT_CLOSED, Some CT_UNKNOWN}} \<and> D \<union> {j \<in> set is. ty w j = Some CT_CLOSED} \<subseteq> D'"
proof (induction "is" arbitrary: D w')
  case (Cons i js)
  note conn' = freed_conn [OF Cons.prems(1), of i]
  show ?case
  proof (cases "conn w' i")
    case None
    then have "i \<in> D \<or> ty w i = None" using conn' by (auto simp: ty_def split: if_splits)
    with None Cons.IH [OF Cons.prems] show ?thesis by auto
  next
    case (Some c)
    have "conn w i = Some c" using conn' Some by (simp split: if_splits)
    then have c: "c_id c = i" "ty w i = Some (c_type c)" using conn_SomeD [OF Some] by (simp_all add: ty_def)
    show ?thesis
    proof (cases "to_be_freed c w'")
      case True
      then have "c_type c \<in> {CT_CLOSED, CT_UNKNOWN}" by (auto simp: to_be_freed_def split: option.splits)
      with Cons.prems(2) c have "insert i D \<subseteq> {j. ty w j \<in> {Some CT_CLOSED, Some CT_UNKNOWN}}" by auto
      from Cons.IH [OF freed_free_connection [OF P Cons.prems(1) Some] this] True Some c show ?thesis by auto
    next
      case False
      then have "ty w i \<noteq> Some CT_CLOSED" using c by (auto simp: to_be_freed_def)
      with False Some Cons.IH [OF Cons.prems] show ?thesis by auto
    qed
  qed
qed auto

definition ptrs_ok :: "world \<Rightarrow> bool" where
  "ptrs_ok w \<longleftrightarrow> ptrs (map shape (w_connections w)) {} {} {} w"

text \<open>What is left of the shapes, the types and the two kinds of pointers.\<close>

lemma freed_ids:
  assumes "freed D w w'"
  shows "map shape (w_connections w') = filter (\<lambda>x. fst x \<notin> D) (map shape (w_connections w))"
    "i \<in> fst ` set (map shape (w_connections w')) \<longleftrightarrow> i \<in> fst ` set (map shape (w_connections w)) \<and> i \<notin> D"
    "ty w' i = (if i \<in> D then None else ty w i)"
proof -
  show e: "map shape (w_connections w') = filter (\<lambda>x. fst x \<notin> D) (map shape (w_connections w))"
    using assms by (simp add: freed_def filter_map comp_def shape_def)
  show "i \<in> fst ` set (map shape (w_connections w')) \<longleftrightarrow> i \<in> fst ` set (map shape (w_connections w)) \<and> i \<notin> D"
    unfolding e by force
  show "ty w' i = (if i \<in> D then None else ty w i)" by (simp add: ty_def freed_conn [OF assms])
qed

lemma freed_via:
  assumes P: "ptrs I {} {} {} w" and F: "freed D w w'" and "map shape (w_connections w') = I'"
    and D: "D \<subseteq> {j. ty w j \<in> {Some CT_CLOSED, Some CT_UNKNOWN}}" "{j. ty w j = Some CT_CLOSED} \<subseteq> D"
    and a: "(i, Some u, k) \<in> set I'"
  shows "u \<in> fst ` set I' \<and> ty w' i \<in> {Some CT_USER, Some CT_CLOSED} \<and> (ty w' i = Some CT_CLOSED \<or> u \<in> {} \<or> ty w' u = Some CT_HOST)"
proof -
  have I: "I = map shape (w_connections w)" using P by (simp add: ptrs_def)
  have b: "(i, Some u, k) \<in> set I" "i \<notin> D" using a freed_ids(1) [OF F] assms(3) I by auto
  from b(1) P have q: "u \<in> fst ` set I" "ty w i \<in> {Some CT_USER, Some CT_CLOSED}" "ty w i = Some CT_CLOSED \<or> ty w u = Some CT_HOST"
    unfolding ptrs_def by blast+
  then have "ty w u = Some CT_HOST" "ty w i = Some CT_USER" "u \<notin> D" using b(2) D by auto
  then show ?thesis using q(1) b(2) freed_ids(2,3) [OF F] assms(3) I by auto
qed

lemma freed_users:
  assumes P: "ptrs I {} {} {} w" and F: "freed D w w'" and "map shape (w_connections w') = I'"
    and D: "D \<subseteq> {j. ty w j \<in> {Some CT_CLOSED, Some CT_UNKNOWN}}" and s': "s' \<in> set (w_static_users w')"
  shows "(\<forall>u. s_via s' = Some u \<longrightarrow> u \<in> fst ` set I' \<and> (u \<in> {} \<or> ty w' u = Some CT_HOST)) \<and>
     distinct (s_sp s') \<and> (\<forall>j \<in> set (s_sp s'). \<exists>v. (j, v, Some (s_id s')) \<in> set I')"
proof -
  have I: "I = map shape (w_connections w)" using P by (simp add: ptrs_def)
  have users: "\<forall>s \<in> set (w_static_users w).
        (\<forall>u. s_via s = Some u \<longrightarrow> u \<in> fst ` set I \<and> (u \<in> {} \<or> ty w u = Some CT_HOST)) \<and>
        distinct (s_sp s) \<and> (\<forall>j \<in> set (s_sp s). \<exists>v. (j, v, Some (s_id s)) \<in> set I)"
    using P unfolding ptrs_def by (elim conjE)
  from F s' obtain s where s: "s \<in> set (w_static_users w)" "s_id s' = s_id s" "s_via s' = s_via s" "distinct (s_sp s')"
    "set (s_sp s') \<subseteq> set (s_sp s) - D" by (rule freed_user)
  have "u \<in> fst ` set I' \<and> ty w' u = Some CT_HOST" if "s_via s' = Some u" for u
  proof -
    have "u \<in> fst ` set I" "ty w u = Some CT_HOST" using users s(1,3) that by auto
    moreover from this(2) have "u \<notin> D" using D by auto
    ultimately show ?thesis using freed_ids(2,3) [OF F] assms(3) I by auto
  qed
  moreover have "\<exists>v. (j, v, Some (s_id s')) \<in> set I'" if "j \<in> set (s_sp s')" for j
  proof -
    have j: "j \<in> set (s_sp s)" "j \<notin> D" using that s(5) by auto
    with users s(1) obtain v where "(j, v, Some (s_id s)) \<in> set I" by blast
    with j(2) s(2) have "(j, v, Some (s_id s')) \<in> set (filter (\<lambda>x. fst x \<notin> D) I)" by simp
    then show ?thesis using freed_ids(1) [OF F] assms(3) I by auto
  qed
  ultimately show ?thesis using s(4) by blast
qed

lemma ptrs_ok_freed:
  assumes P: "ptrs_ok w" and F: "freed D w w'"
    and D: "D \<subseteq> {j. ty w j \<in> {Some CT_CLOSED, Some CT_UNKNOWN}}" "{j. ty w j = Some CT_CLOSED} \<subseteq> D"
  shows "ptrs_ok w'"
proof -
  let ?I = "map shape (w_connections w)" and ?I' = "map shape (w_connections w')"
  note p = P [unfolded ptrs_ok_def]
  have l1: "\<forall>k i. link_at w k = Some i \<longrightarrow> i \<in> fst ` set ?I" using p unfolding ptrs_def by (elim conjE)
  have l2: "\<forall>j k i. link_at w j = Some i \<and> link_at w k = Some i \<longrightarrow> j = k" using p unfolding ptrs_def by (elim conjE)
  have d: "distinct (map fst ?I)" "distinct (map s_id (w_static_users w))" using p by (simp_all add: ptrs_def)
  have "distinct (map fst ?I')" using d(1) unfolding freed_ids(1) [OF F] by (rule distinct_map_filter)
  moreover have "\<forall>k i. link_at w' k = Some i \<longrightarrow> i \<in> fst ` set ?I'"
    using l1 freed_link [OF F] freed_ids(2) [OF F] by blast
  moreover have "\<forall>j k i. link_at w' j = Some i \<and> link_at w' k = Some i \<longrightarrow> j = k"
    using l2 freed_link [OF F] by blast
  moreover have "distinct (map s_id (w_static_users w'))" using d(2) F by (simp add: freed_def)
  ultimately show ?thesis
    unfolding ptrs_ok_def ptrs_def using freed_via [OF p F refl D] freed_users [OF p F refl D(1)] by blast
qed

section \<open>Closing without end\<close>

text \<open>A property that does not depend on the connections and static user entries either.\<close>

locale kept_all = kept +
  assumes kept_any_conns: "P w \<Longrightarrow> P (w\<lparr>w_connections := cs\<rparr>)"
    and kept_suls: "P w \<Longrightarrow> P (w\<lparr>w_static_users := ss\<rparr>)"
begin

lemma kept_any_upd: "P w \<Longrightarrow> P (upd_conn i f w)" "P w \<Longrightarrow> P (set_type t i w)"
  by (simp_all add: upd_conn_def set_type_def kept_any_conns)

lemma kept_free_sul_sp: "P w \<Longrightarrow> P (free_sul_sp i w)"
  by (simp add: free_sul_sp_def upd_sul_def kept_suls kept_fault split: option.split)

lemma kept_leave_channels: "P w \<Longrightarrow> P (leave_channels E cp reason quits_sent cls w)"
  by (induction cls arbitrary: w)
    (simp_all add: Let_def kept_any_upd kept_destroy kept_update_channel_history kept_send_user_change_msg kept_locks)

lemma kept_split_turn: "P w \<Longrightarrow> P (split_turn E cp reason p w)"
  by (simp add: split_turn_def Let_def kept_free_sul_sp kept_any_upd kept_destroy kept_update_channel_history
      kept_send_user_change_msg kept_locks)

lemma kept_bye_command2: "P w \<Longrightarrow> P (bye_command2 E i reason w)"
  by (simp add: bye_command2_def Let_def kept_any_upd kept_send_quits kept_leave_channels kept_route_cleanup drop_sul_via_def
      kept_suls kept_for kept_split_turn kept_netsplit_history kept_update_permlinks split: option.split conn_type.split)

end

lemma kept_all_fault: "(\<And>i r w. w_fault w \<Longrightarrow> w_fault (e_bye E i r w)) \<Longrightarrow> kept_all w_fault E"
  by unfold_locales simp_all

lemma fault_bye: "w_fault w \<Longrightarrow> w_fault (bye n E i reason w)"
proof (induction n arbitrary: i reason w)
  case (Suc n)
  have "kept_all w_fault (E\<lparr>e_bye := bye n E\<rparr>)" by (rule kept_all_fault) (simp add: Suc.IH)
  from kept_all.kept_bye_command2 [OF this Suc.prems] show ?case by simp
qed (simp add: fault_def)

interpretation faults: kept_all w_fault "E\<lparr>e_bye := bye n E\<rparr>" for E n
  by (rule kept_all_fault) (simp add: fault_bye)

text \<open>A neighbour that knows quit messages and has not taken anything for two minutes, with a queue
  over the limit.\<close>

definition stuck :: "world \<Rightarrow> connection \<Rightarrow> bool" where
  "stuck w c \<longleftrightarrow>
     c_type c = CT_HOST \<and> c_fd c \<noteq> -1 \<and> flag (c_features c) FEATURE_SAUPP_I \<and>
     c_time_write c + 120 < w_currtime w \<and> c_obuf c \<noteq> [] \<and> max_h_queue (w_cfg w) < queuelength (c_obuf c)"

definition two_stuck :: "world \<Rightarrow> bool" where
  "two_stuck w \<longleftrightarrow> conn_ids w = [0, 1] \<and> list_all (stuck w) (w_connections w)"

lemma queuelength_alt: "queuelength bp = int (sum_list (map length bp))"
proof -
  have "foldl (\<lambda>len d. len + int (length d)) a bp = a + int (sum_list (map length bp))" for a
    by (induction bp arbitrary: a) simp_all
  then show ?thesis by (simp add: queuelength_def)
qed

lemma stuck_enqueue: "stuck w c \<Longrightarrow> s \<noteq> [] \<Longrightarrow> stuck w (enqueue now s c) \<and> outq_full w (enqueue now s c)"
  by (auto simp: stuck_def outq_full_def enqueue_def put_obuf_def queuelength_alt)

lemma two_stuck_conns:
  assumes "two_stuck w"
  obtains a b where "w_connections w = [a, b]" "c_id a = 0" "c_id b = 1" "stuck w a" "stuck w b"
proof -
  from assms obtain a b where "w_connections w = [a, b]"
    by (auto simp: two_stuck_def conn_ids_def map_eq_Cons_conv)
  with assms that show ?thesis by (auto simp: two_stuck_def conn_ids_def)
qed

lemma two_stuck_send:
  assumes "two_stuck w" "i \<in> {0, 1}" "s \<noteq> []"
  shows "\<exists>r w'. two_stuck w' \<and> appendstring E i s w = e_bye E i r w'"
proof -
  obtain a b where ab: "w_connections w = [a, b]" "c_id a = 0" "c_id b = 1" "stuck w a" "stuck w b"
    using assms(1) by (rule two_stuck_conns)
  define w' where "w' = upd_conn i (enqueue (w_currtime w) s) w"
  have st: "stuck w' = stuck w" "outq_full w' = outq_full w" by (simp_all add: fun_eq_iff stuck_def outq_full_def w'_def)
  have "two_stuck w'"
    using ab assms(2,3) stuck_enqueue [of w a s] stuck_enqueue [of w b s]
    unfolding two_stuck_def st by (auto simp: w'_def conn_ids_def upd_conn_def)
  moreover have time: "w_currtime w' = w_currtime w" by (simp add: w'_def)
  moreover have "\<exists>c. conn w i = Some c \<and> stuck w c" using ab assms(2) by (auto simp: conn_def)
  then obtain c where c: "conn w i = Some c" "stuck w c" by blast
  then have "outq_full w' (enqueue (w_currtime w) s c)" "c_fd c \<noteq> -1"
    using stuck_enqueue [OF c(2) assms(3)] st by (auto simp: stuck_def)
  ultimately show ?thesis
    using c(1) assms(3) by (auto simp: appendstring_def Let_def w'_def [symmetric] time)
qed

text \<open>Announcing the loss of the one closes the other.\<close>

lemma two_stuck_quits:
  assumes w: "two_stuck w" and i: "i \<in> {0, 1}" and cp: "conn w i = Some cp" "c_type cp = CT_HOST"
    and IH: "\<And>j r w. two_stuck w \<Longrightarrow> j \<in> {0, 1} \<Longrightarrow> w_fault (bye n E j r w)"
  shows "w_fault (send_quits (E\<lparr>e_bye := bye n E\<rparr>) i None (c_name cp) reason w)"
proof -
  define E' where "E' = E\<lparr>e_bye := bye n E\<rparr>"
  define w0 where "w0 = lock_conn i (clear_locks w)"
  define j where "j = (if i = 0 then 1 else 0 :: nat)"
  define buffer where "buffer = SL @ ''SQUIT '' @ c_name cp @ '' '' @ reason @ [NL]"
  let ?turn = "quit_turn E' i True (c_name cp) buffer"
  have ji: "j \<in> {0, 1}" "j \<noteq> i" and ne: "buffer \<noteq> []" using i by (auto simp: j_def buffer_def)
  have w0: "two_stuck w0"
    using w by (rule two_stuck_conns)
      (use i in \<open>auto simp: w0_def two_stuck_def stuck_def conn_ids_def lock_conn_def upd_conn_def clear_locks_def\<close>)
  have in0: "c_id p = k \<and> stuck w0 p" if "conn w0 k = Some p" for k p
    using conn_SomeD [OF that] w0 by (auto simp: two_stuck_def list_all_iff)
  have send: "w_fault (?turn p w0)" if "conn w0 j = Some p" for p
  proof -
    obtain r w' where "two_stuck w'" "appendstring E' j buffer w0 = bye n E j r w'"
      using two_stuck_send [OF w0 ji(1) ne, of E'] by (auto simp: E'_def)
    with IH [of w' j r] ji(1) have "w_fault (appendstring E' j buffer w0)" by simp
    with in0 [OF that] ji(2) show ?thesis by (simp add: quit_turn_def stuck_def)
  qed
  have skip: "?turn p w0 = w0" if "conn w0 i = Some p" for p
    using in0 [OF that] by (simp add: quit_turn_def stuck_def)
  have fault_turn: "w_fault v \<Longrightarrow> w_fault (?turn p v)" for p v
    by (simp add: quit_turn_def E'_def faults.kept_appendstring faults.kept_locks)
  have ids: "conn_ids w0 = [0, 1]" using w0 by (simp add: two_stuck_def)
  then obtain p q where pq: "conn w0 0 = Some p" "conn w0 1 = Some q"
    using conn_None_iff [of w0 0] conn_None_iff [of w0 1] by auto
  have "w_fault (for_connections ?turn w0)"
    using i skip [of p] send [of q] send [of p] pq fault_turn
    by (auto simp: for_connections_def ids j_def split: option.split)
  moreover have "w_fault (squit_turn E' i reason p v)" if "w_fault v" for p v
    using that by (simp add: squit_turn_def squit_turn2_def Let_def E'_def faults.kept_for faults.kept_appendstring faults.kept_locks)
  ultimately have "w_fault (for_connections (squit_turn E' i reason) (for_connections ?turn w0))"
    using faults.kept_for by blast
  then show ?thesis using cp by (simp add: send_quits_def Let_def w0_def buffer_def E'_def)
qed

text \<open>C38: Two neighbours whose queues are stuck and full close each other without end: announcing the
  loss of the one to the other finds the other stuck, whose loss is announced to the first one, which
  is still marked open. No depth of calls is enough.\<close>

theorem closing_recursion:
  assumes "two_stuck w" "i \<in> {0, 1}"
  shows "w_fault (bye n E i reason w)"
  using assms
proof (induction n arbitrary: i reason w)
  case (Suc n)
  from Suc.prems obtain cp where cp: "conn w i = Some cp" "c_type cp = CT_HOST"
    by (auto elim!: two_stuck_conns simp: conn_def stuck_def)
  from two_stuck_quits [OF Suc.prems cp Suc.IH] have "w_fault (bye_command2 (E\<lparr>e_bye := bye n E\<rparr>) i reason w)"
    unfolding bye_command2_def cp option.case conn_type.case Let_def
    by (simp add: route_cleanup_def drop_sul_via_def faults.kept_for faults.kept_split_turn faults.kept_netsplit_history
        faults.kept_update_permlinks faults.kept_any_upd)
  then show ?case by simp
qed (simp add: fault_def)

lemma option_exI: "(case x of None \<Rightarrow> False | Some c \<Rightarrow> Q c) \<Longrightarrow> \<exists>c. x = Some c \<and> Q c"
  by (cases x) simp_all

definition plain_env :: env where
  "plain_env = \<lparr>e_localtime = (\<lambda>_. None), e_write = (\<lambda>_ _ s. int (length s)), e_eagain = (\<lambda>_. False),
     e_char_signed = True, e_uninit = False, e_bye = (\<lambda>_ _ w. w),
     e_gethostbyname = (\<lambda>_. None), e_inet_aton = (\<lambda>_. None), e_getservbyname = (\<lambda>_. None)\<rparr>"

text \<open>A link with a user behind it who has not done anything for two hours.\<close>

definition idle_user_world :: world where
  "idle_user_world =
     (boot_world ''db0tud'' 10000)\<lparr>w_connections :=
        [(blank_connection 1 (-1) 1000)\<lparr>c_type := CT_USER, c_name := ''oe1abc'', c_nickname := ''oe1abc'', c_host := ''db0abc'',
            c_via := Some 0, c_channel := 7, c_sul := Some 1\<rparr>,
         (blank_connection 0 4 1000)\<lparr>c_type := CT_HOST, c_name := ''db0abc'', c_sul := Some 0\<rparr>],
      w_next_cid := 2,
      w_static_users := [(new_sul 1 ''oe1abc'' None (boot_world ''db0tud'' 1000))\<lparr>s_via := Some 0, s_sp := [1], s_last_updated := 1000\<rparr>,
        (new_sul 0 ''db0abc'' None (boot_world ''db0tud'' 1000))\<lparr>s_sp := [0], s_last_updated := 9999\<rparr>], w_next_sid := 2\<rparr>"


text \<open>A closed connection whose static user entry is gone is freed through a dangling pointer.\<close>

lemma free_without_entry:
  assumes "conn w i = Some c" "c_type c = CT_CLOSED" "c_sul c = Some k" "sul w k = None" "i \<in> set is"
  shows "w_fault (for_ids is (\<lambda>cp w. if to_be_freed cp w then free_connection (c_id cp) w else w) w)"
proof -
  let ?body = "\<lambda>cp w. if to_be_freed cp w then free_connection (c_id cp) w else w"
  have fault: "w_fault v \<Longrightarrow> w_fault (free_connection j v)" for j v
    by (simp add: free_connection_def free_sul_sp_def upd_sul_def drop_link_def upd_perm_def Let_def split: option.split)
  have stays: "w_fault v \<Longrightarrow> w_fault (for_ids js ?body v)" for js v
    by (induction js arbitrary: v) (simp_all add: fault split: option.split)
  have none: "sul (free_connection j v) k = None" if "sul v k = None" for j v
  proof -
    have "sul (upd_sul a (\<lambda>s. s\<lparr>s_sp := remove1 j (s_sp s)\<rparr>) u) k = None" if "sul u k = None" for a u
      using that sul_upd_sul [of "\<lambda>s. s\<lparr>s_sp := remove1 j (s_sp s)\<rparr>" a u k] by auto
    then have "sul (free_sul_sp j u) k = None" if "sul u k = None" for u
      using that by (auto simp: free_sul_sp_def sul_def split: option.split)
    from this [of "drop_link j v"] that show ?thesis by (simp add: free_connection_def Let_def sul_def)
  qed
  have other: "conn (free_connection j v) i = conn v i" if "j \<noteq> i" for j v
  proof -
    have "find (\<lambda>c. c_id c = i) (filter (\<lambda>c. c_id c \<noteq> j) cs) = find (\<lambda>c. c_id c = i) cs" for cs :: "connection list"
      using that by (induction cs) auto
    then show ?thesis by (simp add: free_connection_def Let_def conn_def split: option.split)
  qed
  show ?thesis
    using assms(1,4,5)
  proof (induction "is" arbitrary: w)
    case (Cons j js)
    show ?case
    proof (cases "j = i")
      case True
      have "sul (drop_link i w) k = None" using Cons.prems by (simp add: sul_def)
      then have "w_fault (free_connection i w)"
        using Cons.prems assms(3) by (simp add: free_connection_def Let_def free_sul_sp_def)
      with True Cons.prems(1) assms(2) conn_SomeD [OF Cons.prems(1)] stays show ?thesis
        by (simp add: to_be_freed_def)
    next
      case False
      define v where "v = (case conn w j of None \<Rightarrow> w | Some p \<Rightarrow> ?body p w)"
      have "conn v i = Some c" "sul v k = None"
        using Cons.prems False other none conn_SomeD [of w j] by (auto simp: v_def split: option.split)
      with Cons.IH [of v] Cons.prems(3) False show ?thesis by (simp add: v_def)
    qed
  qed simp
qed

lemma expire_idle_entry:
  assumes "s_sp s = []" "is_banned (s_name s) w = None" "s_last_updated s + int (SulLifeTime (w_cfg w)) \<le> w_currtime w"
    "s_num_floods s = replicate SUL_CMD_MAX 0"
  shows "expire_one_sul w s = None"
proof -
  have "fst (fold (expire_timer w) is (False, t)) = False \<and> s_num_floods (snd (fold (expire_timer w) is (False, t))) = s_num_floods t"
    if "\<And>i. i \<in> set is \<Longrightarrow> s_num_floods t ! i = 0" for "is" t
    using that by (induction "is" arbitrary: t) (auto simp: expire_timer_def Let_def)
  from this [of "[0..<SUL_CMD_MAX]"] assms show ?thesis
    by (auto simp: expire_one_sul_def Let_def split_beta simp del: upt_rec_numeral)
qed

text \<open>C39: The static user entry of a user behind a link that was lost can be freed before his connection
  is: closing the link empties the list of sessions of the entry, an entry without sessions is freed
  when the user was idle for an hour, and freeing the connection then follows its pointer to the
  entry.\<close>

theorem netsplit_dangling_entry:
  assumes "conn w i = Some c" "c_type c = CT_CLOSED" "c_sul c = Some k" "sul w k = Some s"
    and "s_sp s = []" "is_banned (s_name s) w = None" "s_last_updated s + int (SulLifeTime (w_cfg w)) \<le> w_currtime w"
    and "s_num_floods s = replicate SUL_CMD_MAX 0" "distinct (map s_id (w_static_users w))" "runs ''expire_sul'' 60 w"
  shows "w_fault (free_closed_connections (expire_sul w))"
proof -
  note gone = expire_idle_entry [OF assms(5-8)]
  have only: "t = s" if "t \<in> set (w_static_users w)" "s_id t = k" for t
    using that sul_SomeD [OF assms(4)] assms(9) by (metis distinct_map inj_onD)
  have "s_id s' \<noteq> k" if s': "s' \<in> set (List.map_filter (expire_one_sul w) (w_static_users w))" for s'
  proof
    assume "s_id s' = k"
    moreover from s' obtain t where t: "t \<in> set (w_static_users w)" "expire_one_sul w t = Some s'"
      by (force simp: List.map_filter_def)
    ultimately show False using only [OF t(1)] expire_one_id [OF t(2)] gone by simp
  qed
  then have "sul (expire_sul w) k = None"
    using assms(10) by (simp add: expire_sul_def sul_def ran_def find_None_iff)
  moreover have "conn (expire_sul w) = conn w" "conn_ids (expire_sul w) = conn_ids w"
    by (simp_all add: expire_sul_def conn_def ran_def fun_eq_iff conn_ids_def)
  moreover have "i \<in> set (conn_ids w)" using assms(1) conn_None_iff [of w i] by auto
  ultimately show ?thesis
    using assms(1-3) unfolding free_closed_connections_def for_connections_def by (auto intro: free_without_entry)
qed

theorem netsplit_dangling_entry_witness:
  "w_fault (free_closed_connections (expire_sul (bye 3 plain_env 0 ''x'' idle_user_world)))"
proof -
  let ?w = "bye 3 plain_env 0 ''x'' idle_user_world"
  have "\<exists>c. conn ?w 1 = Some c \<and> c_type c = CT_CLOSED \<and> c_sul c = Some 1"
    by (rule option_exI) code_simp
  moreover have "\<exists>s. sul ?w 1 = Some s \<and> s_sp s = [] \<and> is_banned (s_name s) ?w = None \<and>
      s_last_updated s + int (SulLifeTime (w_cfg ?w)) \<le> w_currtime ?w \<and> s_num_floods s = replicate SUL_CMD_MAX 0"
    by (rule option_exI) code_simp
  moreover have "distinct (map s_id (w_static_users ?w))" by code_simp
  moreover have "runs ''expire_sul'' 60 ?w" by code_simp
  ultimately show ?thesis using netsplit_dangling_entry [of ?w 1 _ 1] by blast
qed



lemma idle_user_world_ok: "ptrs_ok idle_user_world"
proof -
  have "w_connections idle_user_world = [(blank_connection 1 (-1) 1000)\<lparr>c_type := CT_USER, c_name := ''oe1abc'',
      c_nickname := ''oe1abc'', c_host := ''db0abc'', c_via := Some 0, c_channel := 7, c_sul := Some 1\<rparr>,
      (blank_connection 0 4 1000)\<lparr>c_type := CT_HOST, c_name := ''db0abc'', c_sul := Some 0\<rparr>]"
    by (simp add: idle_user_world_def)
  moreover from this have "ty idle_user_world 0 = Some CT_HOST" "ty idle_user_world 1 = Some CT_USER"
    by (simp_all add: ty_def conn_def blank_connection_def)
  moreover have "link_at idle_user_world k = None" for k
    by (simp add: link_at_def idle_user_world_def boot_world_def)
  ultimately show ?thesis
    by (auto simp: ptrs_ok_def ptrs_def shape_def blank_connection_def idle_user_world_def new_sul_def)
qed



text \<open>Two links with queues over the limit.\<close>

definition stuck_world :: world where
  "stuck_world =
     (boot_world ''db0tud'' 10000)\<lparr>w_connections :=
        map (\<lambda>i. (blank_connection i (int i + 4) 1000)\<lparr>c_type := CT_HOST, c_features := FEATURE_SAUPP_I,
           c_obuf := [replicate (100 * 1024 + 1) (CHR ''x'')]\<rparr>) [0, 1], w_next_cid := 2\<rparr>"

theorem closing_recursion_witness:
  "\<forall>n E reason. w_fault (bye n E 0 reason stuck_world)"
proof (intro allI)
  fix n E reason
  have "two_stuck stuck_world"
    by (simp add: two_stuck_def stuck_def stuck_world_def conn_ids_def blank_connection_def boot_world_def default_config_def
        queuelength_alt flag_def)
  then show "w_fault (bye n E 0 reason stuck_world)" by (rule closing_recursion) simp
qed

end
