(* ===== verification/Config.thy ===== *)
theory Config
  imports Access Session
begin

text \<open>
  The configuration of the server (\<^verbatim>\<open>config.c\<close>) with the logging commands of
  \<^verbatim>\<open>log.c\<close>: the table of commands, the links with their backups, and what
  \<^verbatim>\<open>read_config\<close> demands of the result. What is logged is not modelled.
\<close>

section \<open>Commands\<close>

definition upd_cfg :: "(config \<Rightarrow> config) \<Rightarrow> world \<Rightarrow> world" where
  "upd_cfg f w = w\<lparr>w_cfg := f (w_cfg w)\<rparr>"

definition do_security :: "world handler" where
  "do_security argv w =
     (case argv of
        a # b # _ \<Rightarrow>
          if b \<noteq> [] \<and> hd b = CHR ''r'' then Some (0, upd_cfg (\<lambda>c. c\<lparr>restrictedmode := 1\<rparr>) w)
          else if b \<noteq> [] \<and> hd b = CHR ''o'' then Some (0, upd_cfg (\<lambda>c. c\<lparr>restrictedmode := 2\<rparr>) w)
          else Some (-1, w)
      | _ \<Rightarrow> Some (-1, w))"

text \<open>Lines 298 to 302: the end of the chain of backups, or the link before \<open>p\<close> on it. A chain
  that comes back to itself makes the loop run forever; \<open>None\<close> when the fuel is used up.\<close>

fun chain_end :: "nat \<Rightarrow> nat \<Rightarrow> nat \<Rightarrow> world \<Rightarrow> nat option" where
  "chain_end n p p2 w =
     (case Option.bind (perm w p2) pl_backup of
        None \<Rightarrow> Some p2
      | Some b \<Rightarrow> if b = p then Some p2 else (case n of 0 \<Rightarrow> None | Suc n \<Rightarrow> chain_end n p b w))"

text \<open>Lines 285 to 314.\<close>

definition link_primary :: "nat \<Rightarrow> string option \<Rightarrow> world \<Rightarrow> world option" where
  "link_primary p primary_link w =
     (case Option.bind primary_link (\<lambda>n. find_permlink n w) of
        None \<Rightarrow> Some w
      | Some p2 \<Rightarrow>
          let w = upd_perm p (\<lambda>x. x\<lparr>pl_waittime := 30\<rparr>) w in
          (case chain_end (length (w_permarray w)) p p2 w of
             None \<Rightarrow> None
           | Some p2 \<Rightarrow>
               if p2 = p then Some w
               else Some (upd_perm p2 (\<lambda>x. x\<lparr>pl_backup := Some p\<rparr>) (upd_perm p (\<lambda>x. x\<lparr>pl_primary := Some p2\<rparr>) w))))"

abbreviation (input) "NR_GROUPS \<equiv> (4 :: nat)"

text \<open>An empty argument counts as none.\<close>

definition nonempty :: "string \<Rightarrow> string option" where
  "nonempty s = (if s = [] then None else Some s)"

definition nth_arg :: "nat \<Rightarrow> string list \<Rightarrow> string option" where
  "nth_arg n argv = (if n < length argv then Some (argv ! n) else None)"

definition do_link :: "env \<Rightarrow> world handler" where
  "do_link E argv w =
     (if length argv < 2 \<or> 5 < length argv then Some (-1, w)
      else
        let host_name = argv ! 1;
            sock_name = Option.bind (nth_arg 2 argv) nonempty;
            p_command = Option.bind (map_option (take 96) (nth_arg 4 argv)) nonempty;
            (pl, w) = (case find_permlink host_name w of
                         Some p \<Rightarrow> ((case perm w p of None \<Rightarrow> None
                                     | Some x \<Rightarrow> if NR_GROUPS \<le> length (pl_s_groups x) then None else Some p), w)
                       | None \<Rightarrow> update_permlinks E host_name None 1 w)
        in case pl of
             None \<Rightarrow> Some (-1, w)
           | Some p \<Rightarrow>
               let w = upd_perm p (\<lambda>x. x\<lparr>pl_name := take HOSTNAMESIZE host_name,
                          pl_s_groups := pl_s_groups x @ [\<lparr>sg_socket = sock_name, sg_command = p_command, sg_quality = 0\<rparr>],
                          pl_primary := None, pl_backup := None\<rparr>) w;
                   primary_link = (case nth_arg 3 argv of
                                     Some n \<Rightarrow> if n = [] \<or> strcaseeq n host_name then None else Some n
                                   | None \<Rightarrow> None)
               in map_option (\<lambda>w. (0, w)) (link_primary p primary_link w))"

text \<open>The old cells are copied into the new array whatever its size. A negative number is a huge
  \<^verbatim>\<open>size_t\<close>, for which \<^verbatim>\<open>hcalloc\<close> ends the program: \<open>None\<close> as well.\<close>

definition do_maxlinks :: "world handler" where
  "do_maxlinks argv w =
     (case argv of
        a # b # _ \<Rightarrow>
          if atoi b < 0 \<or> (w_permarray w \<noteq> [] \<and> nat (atoi b) < length (w_permarray w)) then None
          else Some (0, (upd_cfg (\<lambda>c. c\<lparr>NR_PERMLINKS := nat (atoi b)\<rparr>) w)\<lparr>w_permarray :=
                 w_permarray w @ replicate (nat (atoi b) - length (w_permarray w)) None\<rparr>)
      | _ \<Rightarrow> Some (-1, w))"

definition add_sockunix :: "world handler" where
  "add_sockunix argv w =
     (case argv of
        [a, b] \<Rightarrow> if b \<noteq> [] then Some (0, w\<lparr>w_unix_sockets := b # w_unix_sockets w\<rparr>) else Some (-1, w)
      | _ \<Rightarrow> Some (-1, w))"

definition allowed_unix_paths :: "string \<Rightarrow> world \<Rightarrow> bool" where
  "allowed_unix_paths s w \<longleftrightarrow> s \<noteq> [] \<and> list_ex (\<lambda>d. d \<noteq> [] \<and> strneq s d (length d)) (w_unix_sockets w)"

text \<open>The number of the entry is compared with the size of the array in bytes, so the test of line 413
  never fails: with all cells in use, and for the cell behind the last one, the array is overrun.\<close>

definition add_listener :: "world handler" where
  "add_listener argv w =
     (case argv of
        [a, b] \<Rightarrow>
          if b = [] then Some (-1, w)
          else (case find (\<lambda>i. w_listeners w ! i = None) [2..<256] of
                  None \<Rightarrow> None
                | Some i \<Rightarrow> if i = 255 then None
                            else Some (0, w\<lparr>w_listeners := (w_listeners w)[i := Some b, i + 1 := None]\<rparr>))
      | _ \<Rightarrow> Some (-1, w))"

section \<open>Logging\<close>

abbreviation (input) "L_CRIT \<equiv> (1 :: nat)"
abbreviation (input) "L_ERR \<equiv> (2 :: nat)"

definition levellist :: bitlist where
  "levellist =
     [(''critical'', 1), (''error'', 2), (''auth'', 4), (''routing'', 8), (''link'', 32), (''dest'', 256), (''nuser'', 1024),
      (''luser'', 2048), (''info'', 16), (''debug'', 8192), (''socket'', 64), (''hostcmd'', 4096), (''config'', 128), (''channel'', 512)]"

definition destlist :: bitlist where
  "destlist = [(''syslog'', 2), (''stderr'', 1)]"

text \<open>The numbers of \<^verbatim>\<open>syslog.h\<close>.\<close>

definition sys_faclist :: bitlist where
  "sys_faclist =
     [(''auth'', 32), (''authpriv'', 80), (''cron'', 72), (''daemon'', 24), (''local0'', 128), (''local1'', 136), (''local2'', 144),
      (''local3'', 152), (''local4'', 160), (''local5'', 168), (''local6'', 176), (''local7'', 184), (''lpr'', 48), (''mail'', 16),
      (''news'', 56), (''user'', 8), (''uucp'', 64)]"

definition sys_levellist :: bitlist where
  "sys_levellist =
     [(''emerg'', 0), (''alert'', 1), (''crit'', 2), (''err'', 3), (''warning'', 4), (''notice'', 5), (''info'', 6), (''debug'', 7)]"

definition do_logconf :: "world handler" where
  "do_logconf argv w =
     (if length argv < 2 then Some (-1, w)
      else case bitcfg levellist 0 (tl argv) of
             None \<Rightarrow> Some (-1, upd_cfg (\<lambda>c. c\<lparr>log_level := L_CRIT + L_ERR\<rparr>) w)
           | Some m \<Rightarrow> map_option (\<lambda>_. (0, upd_cfg (\<lambda>c. c\<lparr>log_level := or m (L_CRIT + L_ERR)\<rparr>) w))
                         (printbits (or m (L_CRIT + L_ERR)) levellist [] 256))"

definition do_logdest :: "world handler" where
  "do_logdest argv w =
     (if length argv < 2 then Some (-1, w)
      else case bitcfg destlist 0 (tl argv) of
             None \<Rightarrow> Some (-1, upd_cfg (\<lambda>c. c\<lparr>log_dest := 3\<rparr>) w)
           | Some m \<Rightarrow> map_option (\<lambda>_. (0, upd_cfg (\<lambda>c. c\<lparr>log_dest := m\<rparr>) w)) (printbits m destlist [] 256))"

definition do_syslog :: "world handler" where
  "do_syslog argv w =
     (case argv of
        [a, fac, lev] \<Rightarrow>
          (case numcfg sys_faclist fac of
             None \<Rightarrow> Some (-1, upd_cfg (\<lambda>c. c\<lparr>log_fac := -1, log_dest := or (log_dest c) 1\<rparr>) w)
           | Some f \<Rightarrow>
               (case numcfg sys_levellist lev of
                  None \<Rightarrow> Some (-1, upd_cfg (\<lambda>c. c\<lparr>log_fac := int f, log_lev := -1, log_dest := or (log_dest c) 1\<rparr>) w)
                | Some l \<Rightarrow> Some (0, upd_cfg (\<lambda>c. c\<lparr>log_fac := int f, log_lev := int l\<rparr>) w)))
      | _ \<Rightarrow> Some (-1, w))"

text \<open>\<^verbatim>\<open>do_log\<close>: whether a message of a level is written to \<^verbatim>\<open>stderr\<close>, and whether to
  \<^verbatim>\<open>syslog\<close>.\<close>

definition do_log :: "config \<Rightarrow> nat \<Rightarrow> bool \<times> bool" where
  "do_log c level =
     (if flag (log_level c) level \<or> flag L_CRIT level
      then (flag (log_dest c) 1 \<or> flag level L_CRIT, flag (log_dest c) 2) else (False, False))"

section \<open>The table and the file\<close>

definition cfg_int :: "(int \<Rightarrow> config \<Rightarrow> config) \<Rightarrow> world handler" where
  "cfg_int f = do_int (\<lambda>n. upd_cfg (f n))"

definition cfg_string :: "(string option \<Rightarrow> config \<Rightarrow> config) \<Rightarrow> world handler" where
  "cfg_string f = do_string (\<lambda>s. upd_cfg (f (Some s)))"

text \<open>The bits of an \<^verbatim>\<open>int\<close> read as an \<^verbatim>\<open>unsigned int\<close>.\<close>

definition uns :: "int \<Rightarrow> nat" where
  "uns n = nat (n mod 2 ^ 32)"

text \<open>\<open>BanTime\<close> is a \<^verbatim>\<open>time_t\<close> of eight bytes, of which \<^verbatim>\<open>do_int\<close> writes the lower four.\<close>

definition low_half :: "int \<Rightarrow> int \<Rightarrow> int" where
  "low_half n old = old div 2 ^ 32 * 2 ^ 32 + n mod 2 ^ 32"

text \<open>\<open>history_lines\<close> is a \<^verbatim>\<open>char\<close>, into which \<^verbatim>\<open>do_int\<close> writes four bytes: it keeps the
  lowest, and the three bytes behind it are the padding before \<^verbatim>\<open>history_expires\<close>. An entry of
  \<open>server\<close> replaces the name of the host.\<close>

definition cfg_cmds :: "env \<Rightarrow> (string \<times> world handler) list" where
  "cfg_cmds E =
     [(''access'', do_access E),
      (''ban_zero'', cfg_int (\<lambda>n. ban_zero_update (\<lambda>_. n \<noteq> 0))),
      (''banzero'', cfg_int (\<lambda>n. ban_zero_update (\<lambda>_. n \<noteq> 0))),
      (''callvalidate'', cfg_int (\<lambda>n. callvalidate_update (\<lambda>_. n \<noteq> 0))),
      (''defaultchannel'', cfg_int (\<lambda>n. defaultchannel_update (\<lambda>_. n))),
      (''debugchannel'', cfg_int (\<lambda>n. debugchannel_update (\<lambda>_. n))),
      (''history_lines'', cfg_int (\<lambda>n. history_lines_update (\<lambda>_. signed_take_bit 7 n))),
      (''history_expires'', cfg_int (\<lambda>n. history_expires_update (\<lambda>_. n))),
      (''email'', cfg_string (\<lambda>s. myemailaddr_update (\<lambda>_. s))),
      (''link'', do_link E),
      (''log'', do_logconf),
      (''logdest'', do_logdest),
      (''maxhqueue'', cfg_int (\<lambda>n. max_h_queue_update (\<lambda>_. n))),
      (''maxuqueue'', cfg_int (\<lambda>n. max_u_queue_update (\<lambda>_. n))),
      (''maxlinks'', do_maxlinks),
      (''port'', cfg_int (\<lambda>n. listen_port_update (\<lambda>_. n))),
      (''secretnum'', cfg_int (\<lambda>n. secretnumber_update (\<lambda>_. n))),
      (''secretpass'', cfg_string (\<lambda>s. secretpass_update (\<lambda>_. s))),
      (''BrandUser'', cfg_int (\<lambda>n. BrandUser_update (\<lambda>_. n \<noteq> 0))),
      (''security'', do_security),
      (''server'', do_string (\<lambda>s. upd_cfg (myhostname_update (\<lambda>_. s)))),
      (''sysinfo'', cfg_string (\<lambda>s. mysysinfo_update (\<lambda>_. s))),
      (''syslog'', do_syslog),
      (''timezone'', cfg_string (\<lambda>s. mytimezone_update (\<lambda>_. s))),
      (''unix_sockets'', add_sockunix),
      (''listeners'', add_listener),
      (''FeatureFLOOD'', cfg_int (\<lambda>n. FeatureFLOOD_update (\<lambda>_. uns n))),
      (''RateLimitMAX'', cfg_int (\<lambda>n. RateLimitMAX_update (\<lambda>_. uns n))),
      (''RateLimitLine'', cfg_int (\<lambda>n. RateLimitLine_update (\<lambda>_. uns n))),
      (''RateLimitContent'', cfg_int (\<lambda>n. RateLimitContent_update (\<lambda>_. uns n))),
      (''FeatureBan'', cfg_int (\<lambda>n. FeatureBAN_update (\<lambda>_. uns n))),
      (''BanTime'', cfg_int (\<lambda>n. BanTime_update (low_half n))),
      (''SulLifeTime'', cfg_int (\<lambda>n. SulLifeTime_update (\<lambda>_. uns n))),
      (''SulCmdDelay'', cfg_int (\<lambda>n. SulCmdDelay_update (\<lambda>_. uns n))),
      (''ForceAuthWhenOn'', cfg_int (\<lambda>n. ForceAuthWhenOn_update (\<lambda>_. n \<noteq> 0))),
      (''AcceptSquit'', cfg_int (\<lambda>n. AcceptSquit_update (\<lambda>_. n \<noteq> 0))),
      (''AcceptAPRSpass'', cfg_int (\<lambda>n. AcceptAPRSpass_update (\<lambda>_. n \<noteq> 0)))]"
datatype config_result = Running world | Exit | Undefined

definition host_char :: "char \<Rightarrow> bool" where
  "host_char c \<longleftrightarrow> isalnum c \<or> c = CHR ''-'' \<or> c = CHR ''_''"

text \<open>Lines 483 to 525: \<open>hostname\<close> is the result of \<^verbatim>\<open>gethostname\<close>. \<open>server\<close> tells whether the
  name was configured.\<close>

definition finish_config :: "string \<Rightarrow> bool \<Rightarrow> world \<Rightarrow> config_result" where
  "finish_config hostname server w =
     (let name = before (if server then myhostname (w_cfg w) else hostname) ''.'';
          w = upd_cfg (myhostname_update (\<lambda>_. name)) w; c = w_cfg w
      in if myemailaddr c = None \<or> mysysinfo c = None then Exit
         else if 2 ^ 31 - 1 \<le> secretnumber c then Exit
         else if defaultchannel c < 0 \<or> 32767 < defaultchannel c then Exit
         else if 9 < length name then Exit
         else if strpbrk name ('' '' @ [CHR 0x09, CHR 0x08, CHR 0x0D, NL]) \<noteq> None then Exit
         else if dropWhile host_char name \<noteq> [] then Exit
         else Running w)"

text \<open>A \<^verbatim>\<open>NULL\<close> in \<^verbatim>\<open>myhostname\<close> is the name that consists of a NUL, which no argument
  contains. Nothing is done to \<^verbatim>\<open>myemailaddr\<close> by lines 471 to 474.\<close>

definition no_name :: string where
  "no_name = [CHR 0x00]"

definition read_config :: "env \<Rightarrow> string \<Rightarrow> string option \<Rightarrow> world \<Rightarrow> config_result" where
  "read_config E hostname conffile w =
     (let w = upd_cfg (\<lambda>c. c\<lparr>defaultchannel := 0, secretnumber := 0, restrictedmode := 0, mysysinfo := None, myhostname := no_name\<rparr>) w
      in case read_cfgfile (cfg_cmds E) conffile w of
           None \<Rightarrow> Undefined
         | Some (ret, w) \<Rightarrow> if ret \<noteq> 0 then Exit else finish_config hostname (myhostname (w_cfg w) \<noteq> no_name) w)"

text \<open>The options of the command line: \<open>demonize\<close> and \<open>tryonly\<close>; \<open>None\<close> when the program ends.\<close>

fun parse_cmdl :: "char list \<Rightarrow> bool \<times> bool \<Rightarrow> (bool \<times> bool) option" where
  "parse_cmdl [] (demonize, tryonly) = Some (demonize, tryonly)"
| "parse_cmdl (c # opts) (demonize, tryonly) =
     (if c = CHR ''f'' then parse_cmdl opts (False, tryonly)
      else if c = CHR ''t'' then parse_cmdl opts (demonize, True) else None)"

section \<open>A configuration that is accepted is well-formed\<close>

definition config_ok :: "config \<Rightarrow> bool" where
  "config_ok c \<longleftrightarrow> length (myhostname c) \<le> 9 \<and> list_all host_char (myhostname c) \<and> myemailaddr c \<noteq> None \<and>
     mysysinfo c \<noteq> None \<and> secretnumber c < 2 ^ 31 - 1 \<and> 0 \<le> defaultchannel c \<and> defaultchannel c \<le> 32767"

text \<open>C31: When the configuration is accepted, whatever the file holds, the server has a name of at most nine
  letters, digits, dashes and underscores, an email address and a system description, and the
  default channel and the secret number are in range.\<close>

theorem read_config_type:
  assumes "read_config E hostname conffile w = Running w'"
  shows "config_ok (w_cfg w')"
proof -
  obtain server v where v: "finish_config hostname server v = Running w'"
    using assms by (auto simp: read_config_def Let_def split: option.splits if_splits)
  then show ?thesis
    by (auto simp: finish_config_def config_ok_def Let_def upd_cfg_def list_all_iff dropWhile_eq_Nil_conv split: if_splits)
qed

definition conf_text :: string where
  "conf_text = ''server db0tud'' @ [NL] @ ''email dl9sau@db0tud'' @ [NL] @ ''sysinfo test'' @ [NL]"

theorem read_config_type_witness:
  "case read_config plain_env ''localhost'' (Some conf_text) (boot_world ''x'' 0) of
     Running w \<Rightarrow> config_ok (w_cfg w) | _ \<Rightarrow> False"
proof -
  define r where "r = read_config plain_env ''localhost'' (Some conf_text) (boot_world ''x'' 0)"
  have "case r of Running w \<Rightarrow> True | _ \<Rightarrow> False" unfolding r_def by code_simp
  moreover have "config_ok (w_cfg w)" if "r = Running w" for w
    by (rule read_config_type [OF that [unfolded r_def]])
  ultimately have "case r of Running w \<Rightarrow> config_ok (w_cfg w) | _ \<Rightarrow> False" by (cases r) simp_all
  then show ?thesis unfolding r_def .
qed

section \<open>Chains of backup links\<close>

text \<open>A link comes behind its primary and before its backup in the array, and both are there.\<close>

definition chain_ok :: "world \<Rightarrow> bool" where
  "chain_ok w \<longleftrightarrow>
     (\<forall>k x. perm w k = Some x \<longrightarrow>
        (\<forall>q. pl_primary x = Some q \<longrightarrow> q < k \<and> perm w q \<noteq> None) \<and>
        (\<forall>b. pl_backup x = Some b \<longrightarrow> k < b \<and> perm w b \<noteq> None))"

lemma perm_less: "perm w k \<noteq> None \<Longrightarrow> k < length (w_permarray w)"
  by (auto simp: perm_def split: if_splits)

lemma perm_upd_perm: "perm (upd_perm i f w) k = (if k = i then map_option f (perm w i) else perm w k)"
  by (auto simp: upd_perm_def perm_def split: option.split)

lemma upd_perm_simps [simp]:
  "length (w_permarray (upd_perm i f w)) = length (w_permarray w)" "w_fault (upd_perm i f w) = w_fault w"
  "w_currtime (upd_perm i f w) = w_currtime w"
  by (simp_all add: upd_perm_def split: option.split)

lemma chain_ok_alt:
  "chain_ok w \<longleftrightarrow>
     (\<forall>k q. Option.bind (perm w k) pl_primary = Some q \<longrightarrow> q < k \<and> perm w q \<noteq> None) \<and>
     (\<forall>k b. Option.bind (perm w k) pl_backup = Some b \<longrightarrow> k < b \<and> perm w b \<noteq> None)"
  by (auto simp: chain_ok_def bind_eq_Some_conv) metis+

lemma bind_upd_perm:
  "(\<And>x. g (f x) = g x) \<Longrightarrow> Option.bind (perm (upd_perm i f w) k) g = Option.bind (perm w k) g"
  by (cases "perm w i") (auto simp: perm_upd_perm)

lemma used_upd_perm [simp]: "perm (upd_perm i f w) k = None \<longleftrightarrow> perm w k = None"
  by (auto simp: perm_upd_perm)

lemma chain_ok_upd_perm:
  "(\<And>x. pl_primary (f x) = pl_primary x) \<Longrightarrow> (\<And>x. pl_backup (f x) = pl_backup x) \<Longrightarrow>
   chain_ok (upd_perm i f w) = chain_ok w"
  unfolding chain_ok_alt by (simp add: bind_upd_perm)

lemma delay_up_ends:
  assumes "chain_ok w" "perm w k \<noteq> None" "k < n"
  shows "w_fault (delay_up n d (Some k) w) = w_fault w \<and> chain_ok (delay_up n d (Some k) w)"
  using assms
proof (induction n arbitrary: k w)
  case (Suc n)
  obtain x where x: "perm w k = Some x" using Suc.prems(2) by blast
  define v where "v = (if pl_retrytime x < w_currtime w + d then upd_perm k (\<lambda>x. x\<lparr>pl_retrytime := pl_retrytime x + d\<rparr>) w else w)"
  have v: "chain_ok v" "w_fault v = w_fault w" using Suc.prems(1) by (simp_all add: v_def chain_ok_upd_perm)
  show ?case
  proof (cases "pl_primary x")
    case None
    then show ?thesis using x v by (cases n) (simp_all add: v_def [symmetric])
  next
    case (Some q)
    then have "q < k" "perm w q \<noteq> None" using Suc.prems(1) x by (auto simp: chain_ok_def)
    then have "perm v q \<noteq> None" "q < n" using Suc.prems(3) by (auto simp: v_def perm_upd_perm)
    with Suc.IH [OF v(1)] v(2) x Some show ?thesis by (simp add: v_def [symmetric])
  qed
qed simp

lemma delay_down_ends:
  assumes "chain_ok w" "perm w k \<noteq> None" "length (w_permarray w) \<le> n + k"
  shows "w_fault (delay_down n d (Some k) w) = w_fault w \<and> chain_ok (delay_down n d (Some k) w) \<and>
     (\<forall>j. perm w j \<noteq> None \<longrightarrow> perm (delay_down n d (Some k) w) j \<noteq> None)"
  using assms
proof (induction n arbitrary: k w)
  case 0
  then show ?case using perm_less [OF 0(2)] by simp
next
  case (Suc n)
  obtain x where x: "perm w k = Some x" using Suc.prems(2) by blast
  show ?case
  proof (cases "Option.bind (pl_primary x) (perm w)")
    case None
    then show ?thesis using x Suc.prems by simp
  next
    case (Some pr)
    define v where "v = upd_perm k (\<lambda>x. x\<lparr>pl_retrytime := pl_retrytime pr + d\<rparr>) w"
    have v: "chain_ok v" "w_fault v = w_fault w" "\<And>j. perm w j \<noteq> None \<Longrightarrow> perm v j \<noteq> None"
      using Suc.prems(1) by (auto simp: v_def chain_ok_upd_perm perm_upd_perm)
    have e: "delay_down (Suc n) d (Some k) w = delay_down n d (pl_backup x) v" using x Some by (simp add: v_def)
    show ?thesis
    proof (cases "pl_backup x")
      case None
      then show ?thesis using e v by (cases n) auto
    next
      case (Some b)
      then have "k < b" "perm w b \<noteq> None" using Suc.prems(1) x by (auto simp: chain_ok_def)
      then show ?thesis using e Some v Suc.IH [OF v(1), of b] Suc.prems(3) by (auto simp: v_def)
    qed
  qed
qed

lemma delay_permlink_connect_ends:
  assumes "chain_ok w" "perm w k \<noteq> None"
  shows "w_fault (delay_permlink_connect (Some k) d w) = w_fault w"
proof -
  obtain x where x: "perm w k = Some x" using assms(2) by blast
  define n where "n = length (w_permarray w)"
  define v where "v = (if pl_retrytime x \<le> w_currtime w then upd_perm k (\<lambda>x. x\<lparr>pl_retrytime := w_currtime w + 1\<rparr>) w else w)"
  have v: "chain_ok v" "w_fault v = w_fault w" "length (w_permarray v) = n" "\<And>j. perm w j \<noteq> None \<Longrightarrow> perm v j \<noteq> None"
    using assms(1) by (auto simp: v_def chain_ok_upd_perm perm_upd_perm n_def)
  define u where "u r = (case pl_backup x of None \<Rightarrow> v | Some b \<Rightarrow>
      let w = upd_perm b (\<lambda>x. x\<lparr>pl_retrytime := r\<rparr>) v in delay_down n (d * 60) (Option.bind (perm w b) pl_backup) w)" for r
  have u: "chain_ok (u r) \<and> w_fault (u r) = w_fault w \<and> (\<forall>j. perm w j \<noteq> None \<longrightarrow> perm (u r) j \<noteq> None)" for r
  proof (cases "pl_backup x")
    case (Some b)
    define t where "t = upd_perm b (\<lambda>x. x\<lparr>pl_retrytime := r\<rparr>) v"
    have t: "chain_ok t" "w_fault t = w_fault w" "length (w_permarray t) = n" "\<And>j. perm w j \<noteq> None \<Longrightarrow> perm t j \<noteq> None"
      using v by (auto simp: t_def chain_ok_upd_perm perm_upd_perm)
    show ?thesis
    proof (cases "Option.bind (perm t b) pl_backup")
      case None
      then show ?thesis using t Some by (cases n) (auto simp: u_def t_def [symmetric] Let_def)
    next
      case (Some c)
      then have "perm t c \<noteq> None" using t(1) by (auto simp: chain_ok_def bind_eq_Some_conv)
      from delay_down_ends [OF t(1) this, of n "d * 60"] show ?thesis
        using t Some \<open>pl_backup x = Some b\<close> by (auto simp: u_def t_def [symmetric] Let_def)
    qed
  qed (use v in \<open>auto simp: u_def\<close>)
  have up: "w_fault (delay_up n (d * 60) (pl_primary x) (u r)) = w_fault w" for r
  proof (cases "pl_primary x")
    case (Some q)
    then have "q < k" "perm w q \<noteq> None" using assms(1) x by (auto simp: chain_ok_def)
    then show ?thesis using delay_up_ends [of "u r" q n "d * 60"] u [of r] perm_less [OF assms(2)] Some by (auto simp: n_def)
  qed (use u in \<open>cases n; simp\<close>)
  have "delay_permlink_connect (Some k) d w =
     (if pl_permanent x = 0 then w
      else delay_up n (d * 60) (pl_primary x)
        (u ((if pl_retrytime x \<le> w_currtime w then w_currtime w + 1 else pl_retrytime x) + (if pl_primary x \<noteq> None then 2 else 1) * (d * 60))))"
    using x by (cases "pl_retrytime x \<le> w_currtime w"; cases "pl_backup x") (simp_all add: delay_permlink_connect_def v_def u_def n_def Let_def)
  then show ?thesis using up by simp
qed

text \<open>The links of a configuration. The cells in use are the first ones.\<close>

definition cells_ok :: "world \<Rightarrow> bool" where
  "cells_ok w \<longleftrightarrow> chain_ok w \<and> (\<forall>i j. i < j \<and> perm w j \<noteq> None \<longrightarrow> perm w i \<noteq> None)"

declare chain_end.simps [simp del]

lemma chain_end_ends:
  assumes "chain_ok w" "perm w k \<noteq> None" "length (w_permarray w) \<le> n + k"
  shows "\<exists>e. chain_end n p k w = Some e \<and> perm w e \<noteq> None \<and> (Option.bind (perm w e) pl_backup = None \<or> Option.bind (perm w e) pl_backup = Some p)"
  using assms
proof (induction n arbitrary: k)
  case 0
  then show ?case using perm_less [OF 0(2)] by simp
next
  case (Suc n)
  note chain_end.simps [of "Suc n", simp]
  show ?case
  proof (cases "Option.bind (perm w k) pl_backup")
    case (Some b)
    then have "k < b" "perm w b \<noteq> None" using Suc.prems(1) by (auto simp: chain_ok_def bind_eq_Some_conv)
    then show ?thesis using Some Suc.IH [of b] Suc.prems by (cases "b = p") auto
  qed (use Suc.prems in auto)
qed

lemma find_permlink_perm: "find_permlink n w = Some k \<Longrightarrow> perm w k \<noteq> None"
  by (auto simp: find_permlink_def find_perm_def find_Some_iff split: option.splits)

lemma hang_below:
  assumes "cells_ok v" "perm v e \<noteq> None" "perm v p \<noteq> None" "e < p"
  shows "cells_ok (upd_perm e (\<lambda>x. x\<lparr>pl_backup := Some p\<rparr>) (upd_perm p (\<lambda>x. x\<lparr>pl_primary := Some e\<rparr>) v))"
proof -
  let ?u = "upd_perm e (\<lambda>x. x\<lparr>pl_backup := Some p\<rparr>) (upd_perm p (\<lambda>x. x\<lparr>pl_primary := Some e\<rparr>) v)"
  have used: "perm ?u j \<noteq> None \<longleftrightarrow> perm v j \<noteq> None" for j by (simp add: perm_upd_perm)
  have prim: "Option.bind (perm ?u k) pl_primary = (if k = p then Some e else Option.bind (perm v k) pl_primary)"
    and backup: "Option.bind (perm ?u k) pl_backup = (if k = e then Some p else Option.bind (perm v k) pl_backup)" for k
    using assms(2-4) by (auto simp: perm_upd_perm)
  have v: "\<And>k q. Option.bind (perm v k) pl_primary = Some q \<Longrightarrow> q < k \<and> perm v q \<noteq> None"
    "\<And>k b. Option.bind (perm v k) pl_backup = Some b \<Longrightarrow> k < b \<and> perm v b \<noteq> None"
    "\<And>i j. i < j \<Longrightarrow> perm v j \<noteq> None \<Longrightarrow> perm v i \<noteq> None"
    using assms(1) unfolding cells_ok_def chain_ok_alt by blast+
  show ?thesis
    unfolding cells_ok_def chain_ok_alt used prim backup using v assms(2-4) by (simp split: if_split) blast
qed

text \<open>Hanging a new link, which is the last one and is nobody's backup, below another one.\<close>

lemma link_primary_ok:
  assumes w: "cells_ok w" "perm w p = Some x" "pl_primary x = None" "pl_backup x = None"
    and last: "\<forall>j. perm w j \<noteq> None \<longrightarrow> j \<le> p" "\<forall>j y. perm w j = Some y \<longrightarrow> pl_backup y \<noteq> Some p"
  shows "\<exists>w'. link_primary p n w = Some w' \<and> cells_ok w' \<and> length (w_permarray w') = length (w_permarray w)"
proof (cases "Option.bind n (\<lambda>n. find_permlink n w)")
  case None
  then show ?thesis using w(1) by (auto simp: link_primary_def)
next
  case (Some p2)
  define v where "v = upd_perm p (\<lambda>x. x\<lparr>pl_waittime := 30\<rparr>) w"
  have p2: "perm v p2 \<noteq> None" using Some by (auto simp: v_def perm_upd_perm bind_eq_Some_conv dest: find_permlink_perm)
  have v: "cells_ok v" "\<And>j. perm v j \<noteq> None \<longleftrightarrow> perm w j \<noteq> None" "length (w_permarray v) = length (w_permarray w)"
    using w(1) by (auto simp: v_def cells_ok_def chain_ok_upd_perm perm_upd_perm)
  have nb: "Option.bind (perm v j) pl_backup \<noteq> Some p" for j
    using last(2) by (auto simp: v_def perm_upd_perm bind_eq_Some_conv split: if_splits)
  obtain e where e: "chain_end (length (w_permarray v)) p p2 v = Some e" "perm v e \<noteq> None" "Option.bind (perm v e) pl_backup = None"
    using chain_end_ends [of v p2 "length (w_permarray v)" p] v(1) p2 nb by (auto simp: cells_ok_def)
  show ?thesis
  proof (cases "e = p")
    case True
    then show ?thesis using e v Some by (auto simp: link_primary_def v_def [symmetric] Let_def)
  next
    case False
    define u where "u = upd_perm e (\<lambda>x. x\<lparr>pl_backup := Some p\<rparr>) (upd_perm p (\<lambda>x. x\<lparr>pl_primary := Some e\<rparr>) v)"
    have "e < p" using last(1) v(2) e(2) False by fastforce
    moreover have "perm v p \<noteq> None" using w(2) v(2) by simp
    ultimately have "cells_ok u" unfolding u_def by (intro hang_below v(1) e(2))
    then show ?thesis using e v(3) Some False by (auto simp: link_primary_def v_def [symmetric] u_def Let_def)
  qed
qed

lemma cells_ok_cong: "w_permarray w = w_permarray v \<Longrightarrow> cells_ok w = cells_ok v"
  by (simp add: cells_ok_def chain_ok_def perm_def)

text \<open>A new link goes into the first free cell.\<close>

lemma new_permlink:
  assumes "cells_ok w" "find_permlink name w = None" "update_permlinks E name None 1 w = (r, w')"
  shows "(r = None \<longrightarrow> cells_ok w') \<and>
     (\<forall>p. r = Some p \<longrightarrow> cells_ok w' \<and> (\<exists>x. perm w' p = Some x) \<and> (\<forall>j. perm w' j \<noteq> None \<longrightarrow> j \<le> p) \<and>
        (\<forall>j y. perm w' j = Some y \<longrightarrow> pl_backup y \<noteq> Some p \<and> (j = p \<longrightarrow> pl_primary y = None \<and> pl_backup y = None)))"
proof -
  define v where "v = (if w_permarray w = [] then w\<lparr>w_permarray := replicate (NR_PERMLINKS (w_cfg w)) None\<rparr> else w)"
  have pv: "perm v k = perm w k" for k by (auto simp: v_def perm_def)
  have fv: "find_permlink name v = None"
    using assms(2) by (auto simp: find_permlink_def find_perm_def find_None_iff pv v_def perm_def)
  have v: "cells_ok v" using assms(1) by (simp add: cells_ok_def chain_ok_def pv)
  let ?free = "find (\<lambda>pl. perm v pl = None) [0..<length (w_permarray v)]"
  show ?thesis
  proof (cases ?free)
    case None
    then show ?thesis using assms(3) fv v by (auto simp: update_permlinks_def v_def [symmetric])
  next
    case (Some p)
    have p: "p < length (w_permarray v)" "perm v p = None" "\<And>j. j < p \<Longrightarrow> perm v j \<noteq> None"
      using Some by (auto simp: find_Some_iff)
    have last: "j < p" if "perm v j \<noteq> None" for j
      using v p(2) that unfolding cells_ok_def by (metis linorder_neqE_nat)
    define x where "x = link_up None 1 (w_currtime v) (blank_permlink name)"
    have x: "pl_primary x = None" "pl_backup x = None" by (simp_all add: x_def link_up_def blank_permlink_def)
    have r: "r = Some p" "w' = v\<lparr>w_permarray := (w_permarray v)[p := Some x]\<rparr>"
      using assms(3) fv Some by (auto simp: update_permlinks_def v_def [symmetric] x_def)
    have pw: "perm w' k = (if k = p then Some x else perm v k)" for k
      using p(1) by (auto simp: r(2) perm_def)
    have "chain_ok w'"
      using v x unfolding cells_ok_def chain_ok_alt pw by (auto simp: Option.bind_eq_Some_conv)
    then have "cells_ok w'" using v p(3) last unfolding cells_ok_def pw by (metis option.distinct(1))
    moreover have "pl_backup y \<noteq> Some p" if "perm v j = Some y" for j y
      using v that p(2) unfolding cells_ok_def chain_ok_def by (metis option.distinct(1))
    ultimately show ?thesis using r(1) x last by (auto simp: pw less_imp_le split: if_splits)
  qed
qed

lemma do_link_new:
  assumes "cells_ok w" "find_permlink (argv ! 1) w = None"
  shows "\<exists>ret w'. do_link E argv w = Some (ret, w') \<and> cells_ok w'"
proof (cases "length argv < 2 \<or> 5 < length argv")
  case False
  obtain r v where r: "update_permlinks E (argv ! 1) None 1 w = (r, v)" by force
  note new = new_permlink [OF assms r]
  show ?thesis
  proof (cases r)
    case None
    then show ?thesis using assms r new by (simp add: do_link_def Let_def)
  next
    case (Some p)
    define f :: "permlink \<Rightarrow> permlink" where "f = (\<lambda>x. x\<lparr>pl_name := take HOSTNAMESIZE (argv ! 1),
        pl_s_groups := pl_s_groups x @ [\<lparr>sg_socket = Option.bind (nth_arg 2 argv) nonempty,
          sg_command = Option.bind (map_option (take 96) (nth_arg 4 argv)) nonempty, sg_quality = 0\<rparr>],
        pl_primary := None, pl_backup := None :: nat option\<rparr>)"
    obtain x where x: "perm v p = Some x" "pl_primary x = None" "pl_backup x = None" using new Some by fastforce
    have "upd_perm p f v = upd_perm p (\<lambda>y. (f y)\<lparr>pl_primary := pl_primary y, pl_backup := pl_backup y\<rparr>) v"
      using x by (cases x) (simp add: upd_perm_def f_def)
    then have c: "cells_ok (upd_perm p f v)" using new Some unfolding cells_ok_def by (simp add: chain_ok_upd_perm)
    have b: "\<forall>j y. perm (upd_perm p f v) j = Some y \<longrightarrow> pl_backup y \<noteq> Some p"
      using new Some by (auto simp: perm_upd_perm f_def split: if_splits)
    have l: "\<forall>j. perm (upd_perm p f v) j \<noteq> None \<longrightarrow> j \<le> p" using new Some by auto
    have fx: "perm (upd_perm p f v) p = Some (f x)" "pl_primary (f x) = None" "pl_backup (f x) = None"
      using x(1) by (simp_all add: perm_upd_perm f_def)
    have "\<exists>w'. link_primary p n (upd_perm p f v) = Some w' \<and> cells_ok w'" for n
      using link_primary_ok [OF c fx l b, of n] by blast
    then show ?thesis using False assms(2) r Some by (fastforce simp: do_link_def Let_def f_def)
  qed
qed (auto simp: do_link_def assms(1))

text \<open>The states of a configuration in which every link is defined once, whatever the other commands
  do to the rest of the state.\<close>

inductive configured :: "env \<Rightarrow> world \<Rightarrow> bool" for E where
  no_links: "w_permarray w = [] \<Longrightarrow> configured E w"
| new_link: "configured E w \<Longrightarrow> find_permlink (argv ! 1) w = None \<Longrightarrow> do_link E argv w = Some (ret, w') \<Longrightarrow> configured E w'"
| maxlinks: "configured E w \<Longrightarrow> do_maxlinks argv w = Some (ret, w') \<Longrightarrow> configured E w'"
| other: "configured E w \<Longrightarrow> w_permarray w' = w_permarray w \<Longrightarrow> configured E w'"

lemma do_maxlinks_ok:
  assumes "cells_ok w" "do_maxlinks argv w = Some (ret, w')"
  shows "cells_ok w'"
proof -
  have "perm w' k = perm w k" for k
    using assms(2) by (auto simp: do_maxlinks_def perm_def nth_append split: list.splits if_splits)
  with assms(1) show ?thesis by (simp add: cells_ok_def chain_ok_def)
qed

lemma configured_cells: "configured E w \<Longrightarrow> cells_ok w"
proof (induction rule: configured.induct)
  case (no_links w)
  then show ?case by (simp add: cells_ok_def chain_ok_def perm_def)
next
  case (new_link w argv ret w')
  then show ?case using do_link_new [of w argv E] by auto
next
  case (maxlinks w argv ret w')
  then show ?case by (blast intro: do_maxlinks_ok)
next
  case (other w w')
  then show ?case using cells_ok_cong [of w' w] by simp
qed



text \<open>The links of a configuration that names a link twice, the second time as the backup of its own
  backup.\<close>

definition twice :: "env \<Rightarrow> world option" where
  "twice E =
     Option.bind (do_link E [''link'', ''db0abc'', ''ax25:db0abc''] (boot_world ''db0tud'' 0)) (\<lambda>(_, w).
     Option.bind (do_link E [''link'', ''db0xyz'', ''ax25:db0xyz'', ''db0abc''] w) (\<lambda>(_, w).
     Option.bind (do_link E [''link'', ''db0abc'', ''db0abc.ampr.org:3600'', ''db0xyz''] w) (\<lambda>(_, w). Some w)))"

lemma delay_up_cycle:
  assumes "Option.bind (perm w 0) pl_primary = Some 1" "Option.bind (perm w 1) pl_primary = Some 0" "k \<le> 1"
  shows "w_fault (delay_up n d (Some k) w)"
  using assms
proof (induction n arbitrary: k w)
  case (Suc n)
  from Suc.prems obtain x where x: "perm w k = Some x" "pl_primary x = Some (1 - k)"
    by (cases k) (auto simp: bind_eq_Some_conv)
  define v where "v = (if pl_retrytime x < w_currtime w + d then upd_perm k (\<lambda>x. x\<lparr>pl_retrytime := pl_retrytime x + d\<rparr>) w else w)"
  have "Option.bind (perm v 0) pl_primary = Some 1" "Option.bind (perm v 1) pl_primary = Some 0"
    using Suc.prems by (simp_all add: v_def bind_upd_perm)
  from Suc.IH [OF this, of "1 - k"] show ?case using x by (simp add: v_def [symmetric])
qed (simp add: fault_def)

text \<open>A link that is defined again as the backup of its own backup makes the two each other's primary
  link, and the loop that puts off all links above never ends.\<close>

theorem do_link_cycle:
  "\<exists>w. twice plain_env = Some w \<and> (\<forall>n d. w_fault (delay_up n d (Some 0) w))"
proof -
  have "case twice plain_env of None \<Rightarrow> False
      | Some w \<Rightarrow> Option.bind (perm w 0) pl_primary = Some 1 \<and> Option.bind (perm w 1) pl_primary = Some 0"
    by code_simp
  then obtain w where "twice plain_env = Some w"
    "Option.bind (perm w 0) pl_primary = Some 1" "Option.bind (perm w 1) pl_primary = Some 0"
    by (cases "twice plain_env") auto
  then show ?thesis using delay_up_cycle by blast
qed

end
