(* ===== verification/Modes.thy ===== *)
theory Modes
  imports Session
begin

text \<open>
  The channel modes: \<^verbatim>\<open>mode_command\<close> of \<^verbatim>\<open>user.c\<close>, which serves users, IRC clients and
  neighbour servers alike.

  A command gets its arguments as the text behind the command word (what \<^verbatim>\<open>getargp\<close> points to).
  The connection is read anew wherever the code reads it, because sending may close it.
\<close>

section \<open>Helpers\<close>

definition stringisnumber :: "string \<Rightarrow> bool" where
  "stringisnumber p =
     (let p = dropWhile isspace p; p = (case p of c # r \<Rightarrow> if c = CHR ''-'' then r else p | [] \<Rightarrow> [])
      in p \<noteq> [] \<and> isdigit (hd p) \<and> (case dropWhile isdigit p of [] \<Rightarrow> True | c # _ \<Rightarrow> isspace c))"

definition get_mode_flags2irc :: "nat \<Rightarrow> string" where
  "get_mode_flags2irc flags =
     (if flag flags M_CHAN_I then ''s'' else []) @ (if flag flags M_CHAN_M then ''m'' else []) @
     (if flag flags M_CHAN_T then ''t'' else []) @ (if flag flags M_CHAN_P then ''i'' else []) @
     (if flag flags M_CHAN_S then ''p'' else []) @ ''n''"

text \<open>A reply to the user, in the form of an IRC client or not, and what follows it.\<close>

definition reply :: "env \<Rightarrow> cid \<Rightarrow> string \<Rightarrow> string \<Rightarrow> world \<Rightarrow> world" where
  "reply E i irc plain w =
     (case conn w i of
        None \<Rightarrow> w
      | Some cp \<Rightarrow> if c_ircmode cp then appendstring E i irc w else append_general_notice E i plain w)"

definition irc_head :: "connection \<Rightarrow> string \<Rightarrow> string" where
  "irc_head cp num = '':'' @ c_host cp @ '' '' @ num @ '' '' @ c_nickname cp @ '' ''"

section \<open>User modes of IRC clients\<close>

text \<open>Lines 2611 to 2643.\<close>

definition irc_user_mode :: "env \<Rightarrow> cid \<Rightarrow> string \<Rightarrow> string \<Rightarrow> world \<Rightarrow> world" where
  "irc_user_mode E i arg rest w =
     (case conn w i of
        None \<Rightarrow> w
      | Some cp \<Rightarrow>
          let me = myhostname (w_cfg w); arg2 = fst (getarg rest False) in
          if c_type cp \<noteq> CT_USER then w
          else if arg = [] then appendstring E i (irc_head cp ''461'' @ ''MODE :Not enough parameters'' @ [NL]) w
          else if \<not> strcaseeq arg (c_nickname cp)
          then appendstring E i (irc_head cp ''403'' @ arg @ '' :No such channel'' @ [NL]) w
          else if arg2 = []
          then appendstring E i ('':'' @ me @ '' 211 '' @ c_nickname cp @ '' '' @ (if c_verbose cp then ''+sw'' else ''+'') @ [NL]) w
          else
            let on = (strstr arg2 ''+s'' \<or> strstr arg2 ''+w''); off = (strstr arg2 ''-s'' \<or> strstr arg2 ''-w'') in
            if on \<or> off
            then appendstring E i ('':'' @ me @ '' MODE '' @ c_nickname cp @ '' '' @ (if on then ''+'' else ''-'') @ ''sw'' @ [NL])
                   (upd_conn i (\<lambda>c. c\<lparr>c_verbose := on\<rparr>) w)
            else appendstring E i ('':'' @ c_host cp @ '' 501 '' @ c_nickname cp @ '' :Unknown MODE flag: '' @ arg2 @ [NL]) w)"

section \<open>Operators\<close>

record found =
  f_conn :: "cid option"
  f_user :: int
  f_changed :: bool

text \<open>Lines 2935 to 2970: one connection in the search for the user to become operator.\<close>

definition op_turn :: "connection \<Rightarrow> int \<Rightarrow> string \<Rightarrow> connection \<Rightarrow> found \<times> world \<Rightarrow> found \<times> world" where
  "op_turn cp channel arg p = (\<lambda>(f, w).
     if c_type p \<noteq> CT_USER \<or>
        \<not> (strcaseeq (c_name p) arg \<or> (c_type cp = CT_USER \<and> strcaseeq (c_nickname p) arg)) then (f, w)
     else
       let f = (if c_observer p \<or> \<not> user_check (c_name p) then f\<lparr>f_conn := Some (c_id p), f_user := -1\<rparr> else f) in
       if f_user f < 0 then (f, w)
       else
         let f = f\<lparr>f_user := 1\<rparr>;
             take_if = (\<lambda>b f. if f_conn f = None \<or> b then f\<lparr>f_conn := Some (c_id p)\<rparr> else f) in
         if channel = -1
         then (let f = take_if (c_operator p = 0) f in f\<lparr>f_changed := f_changed f \<or> c_operator p = 0\<rparr>,
               upd_conn (c_id p) (\<lambda>c. c\<lparr>c_operator := if secretnumber (w_cfg w) < 0 \<and> c_via p = None then 2 else 1\<rparr>) w)
         else
           let here = (c_channel p = channel);
               f = (if here then let f = take_if (\<not> c_channelop p) f in f\<lparr>f_changed := f_changed f \<or> \<not> c_channelop p\<rparr> else f);
               cls = filter (\<lambda>cl. cl_channel cl = channel) (c_chan_list p);
               f = (if cls \<noteq> []
                    then let f = take_if (\<not> (here \<or> c_channelop p)) f
                         in f\<lparr>f_changed := f_changed f \<or> list_ex (\<lambda>cl. \<not> cl_channelop cl) cls\<rparr>
                    else f)
           in (f, upd_conn (c_id p) (\<lambda>c. c\<lparr>c_channelop := here \<or> c_channelop c,
                    c_chan_list := map (\<lambda>cl. if cl_channel cl = channel then cl\<lparr>cl_channelop := True\<rparr> else cl) (c_chan_list c)\<rparr>) w))"

fun op_walk :: "connection \<Rightarrow> int \<Rightarrow> string \<Rightarrow> cid list \<Rightarrow> found \<times> world \<Rightarrow> found \<times> world" where
  "op_walk cp channel arg [] fw = fw"
| "op_walk cp channel arg (i # is) (f, w) =
     op_walk cp channel arg is (case conn w i of None \<Rightarrow> (f, w) | Some p \<Rightarrow> op_turn cp channel arg p (f, w))"

text \<open>Lines 2902 to 3008: one name.\<close>

definition op_name :: "env \<Rightarrow> cid \<Rightarrow> int \<Rightarrow> string \<Rightarrow> world \<Rightarrow> world" where
  "op_name E i channel arg w =
     (case conn w i of
        None \<Rightarrow> w
      | Some cp \<Rightarrow>
          let w = clear_locks w;
              w = (if c_type cp = CT_HOST then lock_conn i w else w);
              (f, w) = op_walk cp channel arg (conn_ids w) (\<lparr>f_conn = None, f_user = 0, f_changed = False\<rparr>, w);
              ishost = (c_type cp = CT_HOST);
              fromnickname = (if ishost then c_name cp else c_nickname cp);
              fromhost = (if ishost then c_name cp else c_host cp);
              w = (case Option.bind (f_conn f) (conn w) of
                     Some p \<Rightarrow>
                       if 0 < f_user f
                       then send_opermsg E (c_name p) (c_nickname p) (c_host p) (c_name cp) fromnickname fromhost channel (f_changed f) w
                       else if c_type cp = CT_USER
                       then let what = (if c_observer p then ''observer'' else ''unwanted'')
                            in reply E i (irc_head cp ''481'' @ arg @ '' :Permission denied (user is '' @ what @ '')'' @ [NL])
                                 (''*** User is '' @ what @ '': '' @ arg @ [NL]) w
                       else w
                   | None \<Rightarrow>
                       if c_type cp = CT_USER
                       then (if 0 < f_user f
                             then reply E i (irc_head cp ''441'' @ arg @ '' #'' @ dec channel @ '' :They aren't on that channel'' @ [NL])
                                    (''*** User not in channel: '' @ arg @ ''.'' @ [NL]) w
                             else reply E i (irc_head cp ''401'' @ arg @ '' :No such nick'' @ [NL])
                                    (''*** No such user: '' @ arg @ ''.'' @ [NL]) w)
                       else w)
          in lock_conn i w)"

text \<open>Lines 2911 to 2914: blanks and a colon before a name.\<close>

definition op_arg :: "string \<Rightarrow> string" where
  "op_arg arg =
     (let a = dropWhile (\<lambda>c. c = CHR '' '') arg in case a of c # r \<Rightarrow> if c = CHR '':'' then r else a | [] \<Rightarrow> [])"

lemma op_arg_length: "length (op_arg arg) \<le> length arg"
  using length_dropWhile_le [of "\<lambda>c. c = CHR '' ''" arg] by (auto simp: op_arg_def Let_def split: list.split)

text \<open>Lines 2901 to 3010: the names behind the letter. For a user's negative channel the loop does not
  step to the next name: it runs without end when it has cut off what it can.\<close>

function op_names :: "env \<Rightarrow> cid \<Rightarrow> int \<Rightarrow> string \<Rightarrow> world \<Rightarrow> world" where
  "op_names E i channel arg w =
     (if arg = [] then w
      else
        case conn w i of
          None \<Rightarrow> w
        | Some cp \<Rightarrow>
            let a = op_arg arg
            in if strneq a ''+o'' 2 then op_names E i channel (drop 2 a) w
               else if c_type cp \<noteq> CT_HOST \<and> channel < 0
               then let a' = takeWhile (\<lambda>c. c \<noteq> CHR '' '') a
                    in if length a' < length arg then op_names E i channel a' w else fault w
               else op_names E i channel (tl (dropWhile (\<lambda>c. c \<noteq> CHR '' '') a))
                      (op_name E i channel (takeWhile (\<lambda>c. c \<noteq> CHR '' '') a) w))"
  by pat_completeness auto

termination op_names
proof (relation "measure (\<lambda>(E, i, channel, arg, w). length arg)", goal_cases)
  case (2 E i channel arg w cp a)
  then show ?case using op_arg_length [of arg] by (cases "op_arg arg") auto
next
  case (4 E i channel arg w cp a)
  then show ?case
    using op_arg_length [of arg] length_dropWhile_le [of "\<lambda>c. c \<noteq> CHR '' ''" "op_arg arg"] by (cases arg) auto
qed simp_all

declare op_names.simps [simp del]

section \<open>Channel modes\<close>

text \<open>The flag of a letter. IRC clients know the flags by other letters.\<close>

definition mode_flag :: "bool \<Rightarrow> char \<Rightarrow> nat option" where
  "mode_flag irc c =
     (let c = tolower c in
      if c = CHR ''s'' then Some (if irc then M_CHAN_I else M_CHAN_S)
      else if c = CHR ''p'' then Some (if irc then M_CHAN_S else M_CHAN_P)
      else if c = CHR ''t'' then Some M_CHAN_T
      else if c = CHR ''i'' then Some (if irc then M_CHAN_P else M_CHAN_I)
      else if c = CHR ''l'' \<and> \<not> irc then Some M_CHAN_L
      else if c = CHR ''m'' then Some M_CHAN_M else None)"

definition set_flag :: "bool \<Rightarrow> nat \<Rightarrow> nat \<Rightarrow> nat" where
  "set_flag remove m flags = (if remove then flags - and flags m else or flags m)"

definition unknown_flags :: string where
  "unknown_flags = ''NBbVvKkWw''"

text \<open>Lines 2773 to 3038: the letters of the argument on an existing channel. The truth value tells
  that the command is left on line 2909, for a neighbour whose own name is not acceptable.\<close>

fun mode_chars :: "env \<Rightarrow> cid \<Rightarrow> int \<Rightarrow> bool \<Rightarrow> string \<Rightarrow> world \<Rightarrow> bool \<times> world" where
  "mode_chars E i channel remove [] w = (False, w)"
| "mode_chars E i channel remove (c # arg) w =
     (case conn w i of
        None \<Rightarrow> (True, w)
      | Some cp \<Rightarrow>
          if channel = 0 \<and> \<not> remove \<and> isalpha c \<and> c \<notin> set ''tToO'' then mode_chars E i channel remove arg w
          else if c = CHR ''+'' then mode_chars E i channel False arg w
          else if c = CHR ''-'' then mode_chars E i channel True arg w
          else if tolower c = CHR ''o'' then
            if remove then
              let arg = dropWhile (\<lambda>c. c = CHR '' '') arg
              in (False,
                  if c_type cp = CT_USER
                  then reply E i (irc_head cp ''481'' @ (if arg \<noteq> [] then arg else ''[empty]'') @
                           '' :Permission denied (conversd protocol does not support deop).'' @ [NL])
                         (''*** Conversd does not allow deop ('' @ arg @ '').'' @ [NL]) w
                  else w)
            else if arg \<noteq> [] \<and> c_type cp = CT_HOST \<and> \<not> user_check (c_name cp) then (True, w)
            else (False, op_names E i channel arg w)
          else
            mode_chars E i channel remove arg
              (case mode_flag (c_ircmode cp) c of
                 Some m \<Rightarrow> upd_channel channel (\<lambda>ch. ch\<lparr>ch_flags := set_flag remove m (ch_flags ch)\<rparr>) w
               | None \<Rightarrow>
                   if c_ircmode cp \<and> tolower c = CHR ''l''
                   then appendstring E i (irc_head cp ''472'' @ [c] @ '' :is unknown mode char to me'' @ [NL]) w
                   else if c_ircmode cp \<and> c \<in> set unknown_flags
                   then appendstring E i (irc_head cp ''472'' @ '':Unknown MODE flag ('' @ [c] @ '').'' @ [NL]) w
                   else w))"

text \<open>Lines 3039 to 3045. \<open>oldflags\<close> are the flags before the letters.\<close>

definition announce_mode :: "env \<Rightarrow> cid \<Rightarrow> int \<Rightarrow> nat \<Rightarrow> world \<Rightarrow> world" where
  "announce_mode E i channel oldflags w =
     (case (find_channel channel w, conn w i) of
        (Some ch, Some cp) \<Rightarrow>
          if ch_flags ch = oldflags then w
          else send_mode E (Some cp) channel oldflags
                 (if c_type cp \<noteq> CT_USER then lock_conn i (clear_locks w) else clear_locks w)
      | _ \<Rightarrow> w)"

definition prompt_user :: "env \<Rightarrow> cid \<Rightarrow> world \<Rightarrow> world" where
  "prompt_user E i w =
     (case conn w i of None \<Rightarrow> w | Some cp \<Rightarrow> if c_type cp = CT_USER then appendprompt E i False w else w)"

text \<open>Lines 2754 to 3045: the command on a channel by somebody who may give it. A neighbour server may
  name a channel that does not exist, and its flags are read through a \<^verbatim>\<open>NULL\<close> pointer.\<close>

definition mode_change :: "env \<Rightarrow> cid \<Rightarrow> int \<Rightarrow> string \<Rightarrow> world \<Rightarrow> world" where
  "mode_change E i channel arg w =
     (case conn w i of
        None \<Rightarrow> w
      | Some cp \<Rightarrow>
          if c_type cp = CT_USER \<and> channel = 0 \<and> c_operator cp \<noteq> 2
          then appendprompt E i False
                 (reply E i (irc_head cp ''477'' @ ''#'' @ dec channel @ '' :Channel doesn't support modes'' @ [NL])
                    (''*** No modes on channel 0 allowed.'' @ [NL]) w)
          else
            let (stop, w) = (if c_type cp \<noteq> CT_USER then (False, w)
                             else let (b, w) = check_user_banned E i ''MODE'' w
                                  in if b then (True, w)
                                     else let (r, w) = check_cmd_flood E i (c_name cp) (Some (myhostname (w_cfg w))) SUL_MODE True arg w
                                          in (r \<noteq> 0, w))
            in if stop then w
               else
                 case find_channel channel w of
                   None \<Rightarrow> fault w
                 | Some ch \<Rightarrow>
                     (case mode_chars E i channel False arg w of
                        (True, w) \<Rightarrow> w
                      | (False, w) \<Rightarrow> prompt_user E i (announce_mode E i channel (ch_flags ch) w)))"

text \<open>Lines 3046 to 3069: the refusals.\<close>

definition mode_refused :: "env \<Rightarrow> cid \<Rightarrow> int \<Rightarrow> clist option \<Rightarrow> world \<Rightarrow> world" where
  "mode_refused E i channel cl w =
     (case conn w i of
        None \<Rightarrow> w
      | Some cp \<Rightarrow>
          let unknown = (case find_channel channel w of
                           None \<Rightarrow> True
                         | Some ch \<Rightarrow> (flag (ch_flags ch) M_CHAN_S \<or> flag (ch_flags ch) M_CHAN_I) \<and> \<not> (c_operator cp = 2 \<or> cl \<noteq> None))
          in prompt_user E i
               (if unknown
                then reply E i (irc_head cp ''403'' @ ''#'' @ dec channel @ '' :No such channel'' @ [NL])
                       (''*** Channel does not exist.'' @ [NL]) w
                else reply E i (irc_head cp ''482'' @ ''#'' @ dec channel @ '' :You're not channel operator'' @ [NL])
                       (''*** You are not an operator.'' @ [NL]) w))"

text \<open>Lines 2679 to 2718: a user who wants to see the modes.\<close>

definition mode_show :: "env \<Rightarrow> cid \<Rightarrow> int \<Rightarrow> world \<Rightarrow> world" where
  "mode_show E i channel w =
     (case conn w i of
        None \<Rightarrow> w
      | Some cp \<Rightarrow>
          if \<not> c_ircmode cp
          then appendprompt E i True (appendstring E i (''For viewing the modes of a channel type '' @ [CHR 0x27] @ ''/who q'' @ [CHR 0x27] @ ''.'' @ [NL])
                 (appendstring E i (''Usage: /mode <channel> <args>'' @ [NL]) w))
          else
            case find_channel channel w of
              Some ch \<Rightarrow>
                if ch_expires ch = 0
                then appendprompt E i False
                       (appendstring E i (irc_head cp ''329'' @ ''#'' @ dec channel @ '' '' @ dec (ch_ctime ch) @ [NL])
                         (appendstring E i (irc_head cp ''324'' @ ''#'' @ dec channel @ '' +'' @ get_mode_flags2irc (ch_flags ch) @ [NL]) w))
                else appendprompt E i False (appendstring E i (irc_head cp ''403'' @ ''#'' @ dec channel @ '' :No such channel'' @ [NL]) w)
            | None \<Rightarrow> appendprompt E i False (appendstring E i (irc_head cp ''403'' @ ''#'' @ dec channel @ '' :No such channel'' @ [NL]) w))"

text \<open>Lines 2721 to 3072.\<close>

definition mode_channel :: "env \<Rightarrow> cid \<Rightarrow> int \<Rightarrow> string \<Rightarrow> world \<Rightarrow> world" where
  "mode_channel E i channel arg w =
     (case conn w i of
        None \<Rightarrow> w
      | Some cp \<Rightarrow>
          let isuser = (c_type cp = CT_USER);
              cl = (if isuser then find (\<lambda>cl. cl_channel cl = channel) (c_chan_list cp) else None);
              op = (isuser \<and> (c_operator cp = 2 \<or> (case cl of None \<Rightarrow> False | Some cl \<Rightarrow> cl_channelop cl)))
          in if isuser \<and> c_operator cp \<noteq> 2 \<and> cl = None
             then appendprompt E i False
                    (reply E i (irc_head cp ''442'' @ ''#'' @ dec channel @ '' :You're not on that channel'' @ [NL])
                       (''*** ('' @ w_ts2 E w @ '') You have not joined channel '' @ dec channel @ ''.'' @ [NL]) w)
             else if (find_channel channel w \<noteq> None \<and> op) \<or> c_type cp = CT_HOST then mode_change E i channel arg w
             else if c_type cp \<noteq> CT_HOST then mode_refused E i channel cl w else w)"

definition mode_command :: "env \<Rightarrow> cid \<Rightarrow> string \<Rightarrow> world \<Rightarrow> world" where
  "mode_command E i args w =
     (case conn w i of
        None \<Rightarrow> w
      | Some cp \<Rightarrow>
          let (arg, rest) = getarg args False;
              arg = (case arg of c # r \<Rightarrow> if c = CHR '':'' then r else arg | [] \<Rightarrow> []);
              hash = (arg \<noteq> [] \<and> hd arg = CHR ''#'');
              arg = (if hash then tl arg else arg)
          in if \<not> hash \<and> c_ircmode cp then (if arg = ''*'' then w else irc_user_mode E i arg rest w)
             else if arg \<noteq> ''*'' \<and> (arg = [] \<or> \<not> stringisnumber arg)
             then (if c_type cp \<noteq> CT_HOST
                   then appendprompt E i False
                          (if arg \<noteq> []
                           then reply E i (irc_head cp ''403'' @ ''#'' @ arg @ '' :No such channel'' @ [NL]) (''*** Channel does not exist.'' @ [NL]) w
                           else reply E i (irc_head cp ''461'' @ ''MODE :Not enough parameters'' @ [NL]) (''*** Not enough parameters.'' @ [NL]) w)
                   else w)
             else
               let channel = (if arg = ''*'' then c_channel cp else atoi arg); arg = fst (getarg rest True)
               in if arg = [] \<and> c_type cp = CT_USER then mode_show E i channel w else mode_channel E i channel arg w)"

section \<open>A neighbour's mode change on a channel that does not exist\<close>

lemma getarg_word:
  assumes "x \<noteq> []" "\<forall>c\<in>set x. \<not> isspace c"
  shows "getarg (x @ '' '' @ r) False = (strlwr x, r)"
proof -
  have "dropWhile isspace (x @ '' '' @ r) = x @ '' '' @ r" using assms by (cases x) auto
  moreover have "takeWhile (\<lambda>c. \<not> isspace c) (x @ '' '' @ r) = x" "dropWhile (\<lambda>c. \<not> isspace c) (x @ '' '' @ r) = '' '' @ r"
    using assms(2) by (simp_all add: isspace_def)
  ultimately show ?thesis by (simp add: getarg_def)
qed

lemma dec_chars: "c \<in> set (dec n) \<Longrightarrow> isdigit c \<or> c = CHR ''-''"
  using list_all_dec_of_nat by (auto simp: dec_def list_all_iff split: if_splits)

lemma dec_ne [simp]: "dec n \<noteq> []"
  by (simp add: dec_def)

lemma strlwr_dec: "strlwr (dec n) = dec n"
proof -
  have "tolower c = c" if "c \<in> set (dec n)" for c
    using dec_chars [OF that] by (auto simp: ctype_defs)
  then show ?thesis by (simp add: strlwr_def map_idI)
qed

lemma stringisnumber_digits:
  assumes "list_all isdigit ds" "ds \<noteq> []"
  shows "stringisnumber ds" "stringisnumber (CHR ''-'' # ds)"
proof -
  obtain d r where ds: "ds = d # r" using assms(2) by (cases ds) auto
  have "isdigit d" using assms(1) ds by simp
  then have "\<not> isspace d" "d \<noteq> CHR ''-''" "\<not> isspace (CHR ''-'')" by (auto simp: isdigit_not_isspace isdigit_def isspace_def)
  moreover have "case dropWhile isdigit r of [] \<Rightarrow> True | c # _ \<Rightarrow> isspace c"
    using assms(1) ds dropWhile_eq_Nil_conv [of isdigit r] by (simp add: list_all_iff del: dropWhile_eq_Nil_conv)
  ultimately show "stringisnumber ds" "stringisnumber (CHR ''-'' # ds)"
    using \<open>isdigit d\<close> ds by (simp_all add: stringisnumber_def)
qed

lemma stringisnumber_dec: "stringisnumber (dec n)"
  using stringisnumber_digits [OF list_all_dec_of_nat dec_of_nat_nonempty] by (simp add: dec_def)

lemma dec_no_space: "\<forall>c\<in>set (dec n). \<not> isspace c"
proof
  fix c
  assume "c \<in> set (dec n)"
  from dec_chars [OF this] show "\<not> isspace c" by (auto simp: isdigit_def isspace_def)
qed

text \<open>A neighbour server that changes the modes of a channel nobody is on makes the server read the
  flags of that channel through a null pointer.\<close>

theorem host_mode_unknown_channel:
  assumes "conn w i = Some cp" "c_type cp = CT_HOST" "\<not> c_ircmode cp"
    and "find_channel n w = None" "- (2 ^ 31) \<le> n" "n < 2 ^ 31"
  shows "w_fault (mode_command E i (dec n @ '' '' @ modes) w)"
proof -
  have "getarg (dec n @ '' '' @ modes) False = (dec n, modes)"
    using getarg_word [OF dec_ne dec_no_space] by (simp add: strlwr_dec)
  moreover have "hd (dec n) \<noteq> CHR '':''" "hd (dec n) \<noteq> CHR ''#''" "dec n \<noteq> ''*''"
    using dec_chars [of "hd (dec n)" n] dec_chars [of "CHR ''*''" n] by (auto simp: isdigit_def)
  then have "(case dec n of c # r \<Rightarrow> if c = CHR '':'' then r else dec n | [] \<Rightarrow> []) = dec n" by (cases "dec n") auto
  ultimately show ?thesis
    using assms stringisnumber_dec [of n] \<open>hd (dec n) \<noteq> CHR ''#''\<close> \<open>dec n \<noteq> ''*''\<close> atoi_dec [of n]
    by (simp add: mode_command_def mode_channel_def mode_change_def fault_def)
qed

theorem host_mode_unknown_channel_witness: "\<forall>E. w_fault (mode_command E 0 ''4711 +t'' idle_user_world)"
proof
  fix E
  have "\<exists>cp. conn idle_user_world 0 = Some cp \<and> c_type cp = CT_HOST \<and> \<not> c_ircmode cp"
    by (simp add: idle_user_world_def conn_def blank_connection_def)
  then obtain cp where "conn idle_user_world 0 = Some cp" "c_type cp = CT_HOST" "\<not> c_ircmode cp" by blast
  moreover have "find_channel 4711 idle_user_world = None"
    by (simp add: idle_user_world_def find_channel_def boot_world_def)
  moreover have "dec 4711 @ '' '' @ ''+t'' = ''4711 +t''" by code_simp
  moreover have "- (2 ^ 31) \<le> (4711 :: int)" "(4711 :: int) < 2 ^ 31" by simp_all
  ultimately show "w_fault (mode_command E 0 ''4711 +t'' idle_user_world)"
    using host_mode_unknown_channel [of idle_user_world 0 cp 4711 E "''+t''"] by (simp only: simp_thms)
qed

section \<open>Only operators change modes\<close>

lemma sends_reply [inv_intros]: "flowing w \<Longrightarrow> sends w (reply E i irc plain w)"
  by (auto simp: reply_def intro: inv_intros split: option.split)

lemma sends_prompt_user [inv_intros]: "flowing w \<Longrightarrow> sends w (prompt_user E i w)"
  by (auto simp: prompt_user_def intro: inv_intros split: option.split)

lemma sends_mode_refused [inv_intros]: "flowing w \<Longrightarrow> sends w (mode_refused E i channel cl w)"
  by (auto simp: mode_refused_def Let_def intro: inv_intros sends_step split: option.split)

lemma sends_mode_show [inv_intros]: "flowing w \<Longrightarrow> sends w (mode_show E i channel w)"
  by (auto simp: mode_show_def intro: inv_intros sends_step split: option.split)

lemma sends_mode_channel:
  assumes "flowing w" "conn w i = Some cp" "c_type cp = CT_USER" "c_operator cp \<noteq> 2"
    and "\<forall>cl\<in>set (c_chan_list cp). \<not> cl_channelop cl"
  shows "sends w (mode_channel E i channel arg w)"
proof -
  define cl where "cl = find (\<lambda>cl. cl_channel cl = channel) (c_chan_list cp)"
  have "\<not> (case cl of None \<Rightarrow> False | Some cl \<Rightarrow> cl_channelop cl)"
    using assms(5) by (auto simp: cl_def find_Some_iff split: option.split)
  with assms(1-4) show ?thesis
    unfolding mode_channel_def cl_def [symmetric]
    by (auto simp: Let_def cl_def intro: inv_intros sends_step)
qed

text \<open>What a connection may do.\<close>

definition powers :: "connection \<Rightarrow> nat \<times> bool \<times> clist list" where
  "powers p = (c_operator p, c_channelop p, c_chan_list p)"

lemma powers_idle: "idle p = idle q \<Longrightarrow> powers p = powers q"
proof -
  have "powers (idle p) = powers p" for p by (simp add: powers_def idle_def)
  then show "idle p = idle q \<Longrightarrow> powers p = powers q" by metis
qed

lemma sends_powers:
  assumes "sends w w'"
  shows "w_channels w' = w_channels w" "map_option powers (conn w' j) = map_option powers (conn w j)"
  using sends_conn [OF assms, of j] assms
  by (auto simp: sends_def intro: powers_idle split: option.splits) (cases "conn w' j"; cases "conn w j"; auto dest: powers_idle)

lemma irc_user_mode_powers:
  assumes "flowing w"
  shows "w_channels (irc_user_mode E i arg rest w) = w_channels w"
    "map_option powers (conn (irc_user_mode E i arg rest w) j) = map_option powers (conn w j)"
proof -
  let ?v = "\<lambda>on. upd_conn i (\<lambda>c. c\<lparr>c_verbose := on\<rparr>) w"
  have f: "flowing (?v on)" for on
  proof -
    have "list_all P (update_first Q (\<lambda>c. c\<lparr>c_verbose := on\<rparr>) cs) = list_all P cs"
      if "\<And>c. P (c\<lparr>c_verbose := on\<rparr>) = P c" for P Q and cs :: "connection list"
      using that by (induction cs) auto
    from this [of "\<lambda>c. c_obuf c = [] \<or> w_currtime w \<le> c_time_write c + 120"] assms
    show ?thesis by (simp add: flowing_def upd_conn_def)
  qed
  have p: "w_channels (?v on) = w_channels w" "map_option powers (conn (?v on) j) = map_option powers (conn w j)" for on
    by (simp_all add: upd_conn_def conn_upd_conn [unfolded upd_conn_def] powers_def [abs_def] option.map_comp comp_def)
  note s = sends_powers [OF sends_appendstring [OF assms], of E i] and s' = sends_powers [OF sends_appendstring [OF f], of E i]
  show "w_channels (irc_user_mode E i arg rest w) = w_channels w"
    using s(1) s'(1) p(1) by (simp add: irc_user_mode_def Let_def split: option.split)
  show "map_option powers (conn (irc_user_mode E i arg rest w) j) = map_option powers (conn w j)"
    using s(2) s'(2) p(2) by (simp add: irc_user_mode_def Let_def split: option.split)
qed

text \<open>C33: A user who is neither system operator nor operator of any channel he is on changes neither
  the modes of a channel nor anybody's operator status, whatever arguments he gives to the command.\<close>

theorem mode_needs_operator:
  assumes "flowing w" "conn w i = Some cp" "c_type cp = CT_USER" "c_operator cp \<noteq> 2"
    and "\<forall>cl\<in>set (c_chan_list cp). \<not> cl_channelop cl"
  shows "w_channels (mode_command E i args w) = w_channels w \<and>
         (\<forall>j. map_option powers (conn (mode_command E i args w) j) = map_option powers (conn w j))"
proof -
  define Q where "Q w' \<longleftrightarrow> w_channels w' = w_channels w \<and> (\<forall>j. map_option powers (conn w' j) = map_option powers (conn w j))" for w'
  have r: "sends w w' \<Longrightarrow> Q w'" for w' unfolding Q_def using sends_powers by blast
  have m: "sends w (mode_channel E i channel arg w)" for channel arg by (rule sends_mode_channel [OF assms])
  have p: "sends w (appendprompt E i ast (reply E i irc plain w))" for ast irc plain
    using assms(1) by (auto intro: inv_intros sends_step)
  have u: "Q (irc_user_mode E i arg rest w)" for arg rest
    using irc_user_mode_powers [OF assms(1), of E i] by (simp add: Q_def)
  note outcomes = u m [THEN r] p [THEN r] sends_mode_show [OF assms(1), THEN r] sends_refl [OF assms(1), THEN r]
  obtain arg rest where "getarg args False = (arg, rest)" by (cases "getarg args False") auto
  then have "Q (mode_command E i args w)"
    using assms(2,3) by (simp only: mode_command_def option.case prod.case Let_def split: if_split) (simp add: outcomes)
  then show ?thesis unfolding Q_def .
qed

theorem mode_needs_operator_witness:
  "\<forall>E. w_channels (mode_command E 1 ''0 +t'' idle_user_world) = w_channels idle_user_world"
proof
  fix E
  have "\<exists>cp. conn idle_user_world 1 = Some cp \<and> c_type cp = CT_USER \<and> c_operator cp \<noteq> 2 \<and> (\<forall>cl\<in>set (c_chan_list cp). \<not> cl_channelop cl)"
    by (simp add: idle_user_world_def conn_def blank_connection_def)
  moreover have "flowing idle_user_world" by (simp add: idle_user_world_def flowing_def blank_connection_def)
  ultimately show "w_channels (mode_command E 1 ''0 +t'' idle_user_world) = w_channels idle_user_world"
    using mode_needs_operator [of idle_user_world 1 _ E "''0 +t''"] by blast
qed

end
