(* ===== verification/Hostmsg.thy ===== *)
theory Hostmsg
  imports Config Modes
begin

text \<open>
  Messages between servers, \<^verbatim>\<open>host.c\<close>: the handlers of what neighbours send about users, channels,
  routes, loops and quits. The handlers that make new users and the greeting of a new neighbour have
  theories of their own; the handlers \<^verbatim>\<open>h_loop_command\<close>, \<^verbatim>\<open>h_uadd_command\<close> and what they share
  come from \<^verbatim>\<open>tnos.c\<close>, the invitations from \<^verbatim>\<open>conversd.c\<close>.

  A handler gets the number of the connection of the neighbour and the text behind the command word.
  The field \<open>c_ibuf\<close> holds the command word with its slash, as \<^verbatim>\<open>getarg\<close> leaves it: the text behind
  it starts after a NUL byte. A text that the code sends with \<^verbatim>\<open>fast_write\<close> and then gives to
  \<^verbatim>\<open>h_info_command\<close> is built once. The \<^verbatim>\<open>long\<close> arithmetic on round trip times is taken without overflow.
\<close>

section \<open>Shared helpers\<close>

abbreviation (input) "MAXCHANNEL \<equiv> (32767 :: int)"
abbreviation (input) "OBSERVERID \<equiv> ''Observer only''"

definition upd_conns :: "(connection \<Rightarrow> bool) \<Rightarrow> (connection \<Rightarrow> connection) \<Rightarrow> world \<Rightarrow> world" where
  "upd_conns P f w = w\<lparr>w_connections := map (\<lambda>p. if P p then f p else p) (w_connections w)\<rparr>"

definition set_ibuf :: "cid \<Rightarrow> string \<Rightarrow> world \<Rightarrow> world" where
  "set_ibuf i s = upd_conn i (\<lambda>c. c\<lparr>c_ibuf := s\<rparr>)"

text \<open>The line end of a connection.\<close>

definition eol :: "connection \<Rightarrow> string" where
  "eol cp = (if c_ax25 cp then [CHR 0x0D] else [NL])"

text \<open>The text of a message with its leading blanks restored.\<close>

definition with_blanks :: "string \<Rightarrow> string" where
  "with_blanks r = (if dropWhile isspace r = [] then [] else r)"

section \<open>Personal texts and nicknames\<close>

definition make_pers_consistent :: "string \<Rightarrow> string" where
  "make_pers_consistent pers =
     (if pers = [] then []
      else
        let pers = dropWhile (\<lambda>c. c = CHR ''@'') pers in
        if pers = [] then ''@''
        else drop (length (takeWhile (\<lambda>c. c = CHR ''~'') pers) - 1) pers)"

record pers_nick =
  n_found :: "cid option"
  n_chan :: int
  n_checked :: bool
  n_oldnick :: string
  n_pers :: bool
  n_nick :: bool

text \<open>Lines 496 to 510 of \<^verbatim>\<open>tnos.c\<close>: a new personal text. \<open>None\<close> stands for the return on line 499.\<close>

definition set_pers_turn ::
  "env \<Rightarrow> cid \<Rightarrow> string \<Rightarrow> string \<Rightarrow> string option \<Rightarrow> cid \<Rightarrow> pers_nick \<Rightarrow> world \<Rightarrow> pers_nick option \<times> world" where
  "set_pers_turn E i name host pers j s w =
     (case (pers, conn w j) of
        (Some t, Some p) \<Rightarrow>
          if c_pers p = t then (Some s, w)
          else
            let (r, w) = (if n_checked s then (0, w) else check_cmd_flood E i name (Some host) SUL_PERS False t w)
            in if r \<noteq> 0 then (None, w)
               else
                 (Some (s\<lparr>n_checked := True, n_pers := True,
                          n_chan := (if n_chan s < 0 then (case conn w j of None \<Rightarrow> n_chan s | Some p \<Rightarrow> c_channel p) else n_chan s)\<rparr>),
                  upd_conn j (\<lambda>p. p\<lparr>c_pers := take PERSSIZE t,
                      c_isauth := (if map_option c_type (conn w i) = Some CT_HOST
                                   then (if hd t = CHR ''~'' then 1 else 2) else c_isauth p)\<rparr>) w)
      | _ \<Rightarrow> (Some s, w))"

text \<open>Lines 511 to 525: a new nickname. The flood check of line 513 is not reached: before the first
  change \<^verbatim>\<open>nick_changed\<close> is 0, and afterwards \<^verbatim>\<open>flood_checked\<close> is 1.\<close>

definition set_nick_turn ::
  "env \<Rightarrow> cid \<Rightarrow> string \<Rightarrow> string \<Rightarrow> string option \<Rightarrow> cid \<Rightarrow> pers_nick \<Rightarrow> world \<Rightarrow> pers_nick option \<times> world" where
  "set_nick_turn E i name host nick j s w =
     (case (nick, conn w j) of
        (Some n, Some p) \<Rightarrow>
          if c_nickname p = n then (Some s, w)
          else
            let (r, w) = (if \<not> n_checked s \<and> n_nick s then check_cmd_flood E i name (Some host) SUL_NICK False n w else (0, w))
            in if r \<noteq> 0 then (None, w)
               else (Some (s\<lparr>n_checked := True, n_oldnick := take NAMESIZE (c_nickname p), n_nick := True\<rparr>),
                     upd_conn j (\<lambda>p. p\<lparr>c_nickname := take NAMESIZE (if n \<noteq> [] then n else c_nickname p)\<rparr>) w)
      | _ \<Rightarrow> (Some s, w))"

fun pers_nick_walk ::
  "env \<Rightarrow> cid \<Rightarrow> string \<Rightarrow> string \<Rightarrow> string option \<Rightarrow> string option \<Rightarrow> cid list \<Rightarrow> pers_nick \<Rightarrow> world \<Rightarrow> pers_nick option \<times> world" where
  "pers_nick_walk E i name host pers nick [] s w = (Some s, w)"
| "pers_nick_walk E i name host pers nick (j # js) s w =
     (case conn w j of
        None \<Rightarrow> pers_nick_walk E i name host pers nick js s w
      | Some p \<Rightarrow>
          if c_observer p \<or> c_type p \<noteq> CT_USER \<or> \<not> (c_via p = None \<or> c_via p = Some i) \<or>
             \<not> strcaseeq (c_name p) name \<or> \<not> strcaseeq (c_host p) host
          then pers_nick_walk E i name host pers nick js s w
          else
            (case set_pers_turn E i name host pers j (if n_found s = None then s\<lparr>n_found := Some j\<rparr> else s) w of
               (None, w) \<Rightarrow> (None, w)
             | (Some s, w) \<Rightarrow>
                 (case set_nick_turn E i name host nick j s w of
                    (None, w) \<Rightarrow> (None, w)
                  | (Some s, w) \<Rightarrow> pers_nick_walk E i name host pers nick js s w)))"

definition change_pers_and_nick ::
  "env \<Rightarrow> cid \<Rightarrow> string \<Rightarrow> string \<Rightarrow> string option \<Rightarrow> int \<Rightarrow> string option \<Rightarrow> bool \<Rightarrow> bool \<Rightarrow> world \<Rightarrow> int \<times> world" where
  "change_pers_and_nick E i name host pers suggested_channel nick do_announce flood_checked w =
     (case conn w i of
        None \<Rightarrow> (0, w)
      | Some cp \<Rightarrow>
          if c_type cp = CT_USER \<and> c_observer cp then (0, w)
          else
            let w = lock_conn i w;
                pers = (if pers = Some [] then None else pers)
            in case pers_nick_walk E i name host pers nick (conn_ids w)
                      \<lparr>n_found = None, n_chan = suggested_channel, n_checked = flood_checked, n_oldnick = [], n_pers = False, n_nick = False\<rparr> w of
                 (None, w) \<Rightarrow> (0, w)
               | (Some s, w) \<Rightarrow>
                   (case Option.bind (n_found s) (conn w) of
                      None \<Rightarrow> (1, w)
                    | Some p \<Rightarrow>
                        if do_announce \<and> (n_pers s \<or> n_nick s)
                        then (2, send_user_change_msg E
                                  \<lparr>g_name = c_name p, g_nickname = c_nickname p, g_host = c_host p, g_old = n_chan s, g_new = n_chan s,
                                   g_pers = c_pers p, g_pers_changed = n_pers s, g_time = w_currtime w, g_observer = False,
                                   g_quits_sent = False, g_chanop = 0, g_nick_changed = n_nick s,
                                   g_oldnick = (if n_oldnick s \<noteq> [] then n_oldnick s else c_name p)\<rparr> w)
                        else (1, w)))"

definition update_nickname_data :: "env \<Rightarrow> cid \<Rightarrow> string \<Rightarrow> string \<Rightarrow> world \<Rightarrow> world" where
  "update_nickname_data E i fromuser fromnick w =
     (case conn w i of
        None \<Rightarrow> w
      | Some cp \<Rightarrow>
          if flag (c_features cp) FEATURE_SAUPP_I then w
          else lock_conn i (clear_locks
            (for_connections (\<lambda>p w.
               if c_type p = CT_USER \<and> c_via p = Some i \<and> strcaseeq (c_name p) fromuser \<and> \<not> strcaseeq (c_nickname p) fromnick
               then snd (change_pers_and_nick E i (c_name p) (c_host p) None (-1) (Some fromnick) True True (lock_conn i (clear_locks w)))
               else w) w)))"

definition h_udat_command :: "env \<Rightarrow> cid \<Rightarrow> string \<Rightarrow> world \<Rightarrow> world" where
  "h_udat_command E i args w =
     (let (fromname, r) = getarg args False; (hostname, r) = getargcs r False;
          txt = make_pers_consistent (fst (getarg r True));
          txt = (if txt = [] then ''@'' else txt)
      in if \<not> user_check fromname then w
         else snd (change_pers_and_nick E i fromname hostname (Some txt) (-1) None True False (lock_conn i w)))"

definition h_uadd_command :: "env \<Rightarrow> cid \<Rightarrow> string \<Rightarrow> world \<Rightarrow> world" where
  "h_uadd_command E i args w =
     (case conn w i of
        None \<Rightarrow> w
      | Some cp \<Rightarrow>
          if c_type cp = CT_USER \<and> c_via cp = None \<and> c_ircmode cp \<and> c_chan_list cp = [] then w
          else
            let (name, r) = getarg args False; (host, r) = getargcs r False; (nickname, r) = getargcs r False;
                (channel, r) = getarg r False; data = make_pers_consistent (fst (getargcs r True))
            in if \<not> user_check name then w
               else snd (change_pers_and_nick E i name host (if data \<noteq> [] then Some data else None) (-1) (Some nickname) True False
                           (lock_conn i w)))"

section \<open>Away texts, filters and channel data\<close>

definition h_away_command :: "env \<Rightarrow> cid \<Rightarrow> string \<Rightarrow> world \<Rightarrow> world" where
  "h_away_command E i args w =
     (let (fromname, r) = getarg args False; (hostname, r) = getargcs r False;
          fromnickname = find_nickname fromname (Some hostname) w;
          (arg, r) = getarg r False; time = atol arg in
      if \<not> user_check fromname then w
      else
        let (time, r) = (if time \<le> MAXCHANNEL \<and> (case dropWhile isspace r of [] \<Rightarrow> False | c # _ \<Rightarrow> isdigit c)
                         then let (arg, r) = getarg r False in (atol arg, r) else (time, r));
            time = (if time = 0 \<or> w_currtime w < time then w_currtime w else time);
            txt = fst (getarg r True);
            w = lock_conn i w;
            his = (\<lambda>p. c_via p \<noteq> None \<and> c_type p = CT_USER \<and> strcaseeq (c_name p) fromname \<and> strcaseeq (c_host p) hostname);
            ps = filter his (w_connections w);
            fromnickname = (if ps = [] then fromnickname else c_nickname (last ps));
            w = upd_conns his (\<lambda>p. p\<lparr>c_away := take AWAYSIZE txt, c_atime := time\<rparr>) w;
            (ret, w) = check_cmd_flood E i fromname (Some hostname) SUL_AWAY False txt w
        in if ret \<noteq> 0 then w
           else send_awaymsg E fromname fromnickname hostname time txt (list_ex (\<lambda>p. c_away p \<noteq> txt) ps) w)"

definition h_filt_command :: "env \<Rightarrow> cid \<Rightarrow> string \<Rightarrow> world \<Rightarrow> world" where
  "h_filt_command E i args w =
     (let (time, r) = getarg args False; (name, r) = getarg r False; (host, r) = getargcs r False;
          filt = fst (getarg r True) @ '' '';
          filter_time = min (atol time) (w_currtime w);
          w = send_filter_msg E name host filter_time filt (lock_conn i w)
      in upd_conns (\<lambda>p. c_type p = CT_USER \<and> c_via p \<noteq> None \<and> strcaseeq (c_host p) host \<and> strcaseeq (c_name p) name \<and>
                        c_filter_time p < filter_time)
           (\<lambda>p. p\<lparr>c_filter_time := filter_time, c_filter := (if hd filt \<noteq> CHR ''@'' then Some filt else None)\<rparr>) w)"

text \<open>The loop of \<^verbatim>\<open>h_cdat_command\<close> goes on to the end of the arguments, but only the first two pairs
  have an effect.\<close>

definition h_cdat_command :: "cid \<Rightarrow> string \<Rightarrow> world \<Rightarrow> world" where
  "h_cdat_command i args w =
     (let (arg, r) = getarg args False; channel = atoi arg in
      if arg = [] \<or> find_channel channel w = None then w
      else
        let (arg, r) = getarg r False; (t, r) = getarg r False; time = atol t in
        if arg = [] \<or> time = 0 then w
        else
          let w = upd_channel channel (\<lambda>ch. if time < ch_ctime ch \<or> ch_createby ch = []
                                            then ch\<lparr>ch_createby := take NAMESIZE arg, ch_ctime := time\<rparr> else ch) w;
              (arg, r) = getarg r False; (t, r) = getarg r False; time = atol t
          in if arg = [] \<or> time = 0 then w
             else upd_channel channel (\<lambda>ch. if ch_ltime ch < time \<or> ch_ltime ch = 0 \<or> ch_lastby ch = []
                                            then ch\<lparr>ch_lastby := take NAMESIZE arg, ch_ltime := time\<rparr> else ch) w)"

section \<open>Messages\<close>

definition h_cmsg_command :: "env \<Rightarrow> cid \<Rightarrow> string \<Rightarrow> world \<Rightarrow> world" where
  "h_cmsg_command E i args w =
     (let (name, r) = getargcs args False; (arg, r) = getarg r False; channel = atoi arg; txt = with_blanks r;
          fromuser = get_user_from_name name; fromnick = get_nick_from_name name in
      if \<not> user_check name \<or> MAXCHANNEL < channel then w
      else
        let (b, w) = check_msg_flood E i None channel fromuser fromnick txt w in
        if b then w
        else
          let w = update_nickname_data E i fromuser fromnick w in
          if txt \<noteq> [] \<and> \<not> (name = ''conversd'' \<and> strstr txt ''is calling CQ'')
          then send_msg_to_channel2 E name fromuser fromnick channel txt False w else w)"

definition h_umsg_command :: "env \<Rightarrow> cid \<Rightarrow> string \<Rightarrow> world \<Rightarrow> world" where
  "h_umsg_command E i args w =
     (let (name, r) = getargcs args False; (toname, r) = getarg r False; txt = with_blanks r;
          fromuser = get_user_from_name name; fromnick = get_nick_from_name name in
      if \<not> user_check name then w
      else
        let (b, w) = check_msg_flood E i (Some toname) (-1) fromuser fromnick txt w in
        if b then w
        else
          let w = update_nickname_data E i fromuser fromnick w in
          if name = ''conversd'' \<and> strstr txt ''calling CQ'' then w
          else if txt \<noteq> [] then send_msg_to_user2 E name fromuser fromnick toname txt False w else w)"

definition h_topi_command :: "env \<Rightarrow> cid \<Rightarrow> string \<Rightarrow> world \<Rightarrow> world" where
  "h_topi_command E i args w =
     (let (fromname, r) = getarg args False; (hostname, r) = getargcs r False;
          fromnickname = find_nickname fromname (Some hostname) w;
          (arg, r) = getarg r False; time = min (atol arg) (w_currtime w);
          (arg, r) = getarg r False; channel = atoi arg; txt = fst (getarg r True) in
      if strcaseeq fromname ''zeus'' \<or> (strcaseeq fromname ''conversd'' \<and> strstr txt ''may not be longer than'') \<or> \<not> user_check fromname
      then w
      else
        let (ret, w) = check_cmd_flood E i fromname (Some hostname) SUL_TOPIC False txt (lock_conn i w)
        in if ret \<noteq> 0 then w else send_topic E fromname fromnickname hostname time channel txt w)"

definition h_info_command :: "env \<Rightarrow> cid \<Rightarrow> string \<Rightarrow> world \<Rightarrow> world" where
  "h_info_command E i args w =
     (let (host, r) = getargcs args False; arg = fst (getarg r True) in
      if host = [] \<or> arg = [] then w
      else send_server_notice E (take NAMESIZE host) (take 255 arg) False False (lock_conn i w))"

text \<open>The length that \<^verbatim>\<open>h_unknown_command\<close> computes is the value of a comparison, so it looks at the
  byte before the buffer to decide whether the line already ends with a line feed.\<close>

definition h_unknown_command :: "env \<Rightarrow> cid \<Rightarrow> world \<Rightarrow> world" where
  "h_unknown_command E i w =
     (case conn w i of
        None \<Rightarrow> w
      | Some cp \<Rightarrow>
          if c_ibuf cp = [] then w
          else for_connections (\<lambda>p w.
                 if c_type p = CT_HOST \<and> c_id p \<noteq> i \<and> \<not> c_ircmode p
                 then let w = appendstring E (c_id p) (c_ibuf cp) w
                      in if e_uninit E then w else appendstring E (c_id p) [NL] w
                 else w) w)"

text \<open>A ban that is not accepted goes on to the other neighbours. (Without arguments the code sends
  what an earlier line left in the buffer behind the command word.)\<close>

definition h_ban_command :: "env \<Rightarrow> cid \<Rightarrow> string \<Rightarrow> world \<Rightarrow> world" where
  "h_ban_command E i args w =
     (let fb = FeatureBAN (w_cfg w) in
      if fb = 0 then w
      else if \<not> flag fb ACCEPT_BAN
      then (case conn w i of
              None \<Rightarrow> w
            | Some cp \<Rightarrow>
                h_unknown_command E i
                  (if length (c_ibuf cp) < MAX_MSGSIZE then set_ibuf i (take MAX_MSGSIZE (c_ibuf cp @ '' '' @ args)) w else w))
      else
        let (name, r) = getarg args False; (fromhost, r) = getargcs r False;
            (t, r) = getarg r False; (m, r) = getarg r False; reason = fst (getargcs r True)
        in if name = [] \<or> fromhost = [] then w
           else ban_user E name fromhost None (min (atol t) (w_currtime w)) (atoi m) (if reason = [] then ''[unknown]'' else reason) w)"

definition h_ecmd_command :: "env \<Rightarrow> cid \<Rightarrow> string \<Rightarrow> world \<Rightarrow> world" where
  "h_ecmd_command E i args w =
     (let orig_arg = take 2047 (fst (getarg args True)); (user, r) = getarg orig_arg False;
          pass = (\<lambda>w. h_unknown_command E i (set_ibuf i (SL @ ''ECMD '' @ orig_arg @ [NL]) w)) in
      if strcaseeq user ''conversd'' then pass w
      else if \<not> list_ex (\<lambda>p. strcaseeq (c_name p) user) (w_connections w) then w
      else pass (lock_conn i (clear_locks
             (send_msg_to_user E ''conversd'' user
                (''*** ECMD feature prohibited at '' @ myhostname (w_cfg w) @
                 ''. This incident will be logged for further investigation.'' @ [NL]) w))))"

section \<open>Loops and quits\<close>

text \<open>The first cell of the table of links that belongs to a connection.\<close>

definition link_of :: "cid \<Rightarrow> world \<Rightarrow> nat option" where
  "link_of i = find_perm (\<lambda>p. pl_connection p = Some i)"

definition lock_link :: "nat \<Rightarrow> world \<Rightarrow> world" where
  "lock_link k w =
     delay_permlink_connect (Some k) 5 (upd_perm k (\<lambda>x. x\<lparr>pl_locked := True, pl_locked_until := w_currtime w + 1800\<rparr>) w)"

text \<open>A notice to the neighbour that the server also takes for its own \<^verbatim>\<open>INFO\<close>.\<close>

definition tell_info :: "env \<Rightarrow> cid \<Rightarrow> string \<Rightarrow> world \<Rightarrow> world" where
  "tell_info E i txt w =
     (case conn w i of
        None \<Rightarrow> w
      | Some cp \<Rightarrow> h_info_command E i txt (lock_conn i (snd (fast_write E i (SL @ ''INFO '' @ txt @ eol cp) 0 w))))"

definition loop_handler :: "env \<Rightarrow> cid \<Rightarrow> nat option \<Rightarrow> conn_type \<Rightarrow> string \<Rightarrow> string \<Rightarrow> string \<Rightarrow> world \<Rightarrow> world" where
  "loop_handler E i pl reason user host already_via w =
     (case conn w i of
        None \<Rightarrow> w
      | Some cp \<Rightarrow>
          let me = myhostname (w_cfg w);
              w = (case pl of None \<Rightarrow> w | Some k \<Rightarrow> lock_link k w);
              found = me @ '' detected loop with '' @ c_name cp;
              w = tell_info E i
                    (if reason = CT_USER then found @ '': USER '' @ user @ ''@'' @ host @ ''. HOST already via '' @ already_via
                     else if user \<noteq> [] then found @ '': USER '' @ user @ ''@'' @ host @ ''. DEST already via '' @ already_via
                     else found @ '': DEST '' @ host @ ''. DEST already via '' @ already_via) w;
              w = snd (fast_write E i (SL @ ''LOOP '' @ me @ '' '' @ c_name cp @ '' '' @ host @ '' '' @ already_via @ '' '' @
                         (if reason = CT_USER \<or> user \<noteq> [] then ''HOST'' else ''DEST'') @ eol cp) 0 w)
          in e_bye E i (me @ ''<>'' @ c_name cp @ '' broken (loop detected)'') w)"

definition h_loop_command :: "env \<Rightarrow> cid \<Rightarrow> string \<Rightarrow> world \<Rightarrow> world" where
  "h_loop_command E i args w =
     (case conn w i of
        None \<Rightarrow> w
      | Some cp \<Rightarrow>
          let me = myhostname (w_cfg w); arg = take 255 (fst (getarg args True));
              w = (case link_of i w of None \<Rightarrow> w | Some k \<Rightarrow> lock_link k w);
              w = snd (fast_write E i (''*** live long and prosper'' @ eol cp) 0 w);
              w = e_bye E i (me @ ''<>'' @ c_name cp @ '' broken (remote detected loop)'') w
          in h_info_command E i (me @ '' got loop info from '' @ c_name cp @ '': '' @ arg) (lock_conn i w))"

text \<open>Lines 1671 to 1685 and 1693 to 1706: the neighbour quits. \<open>host\<close> is what it said, \<open>gone\<close> the
  name it gets back.\<close>

definition accept_squit :: "env \<Rightarrow> cid \<Rightarrow> string \<Rightarrow> string \<Rightarrow> string \<Rightarrow> world \<Rightarrow> world" where
  "accept_squit E i host gone reason w =
     (case conn w i of
        None \<Rightarrow> w
      | Some cp \<Rightarrow>
          let me = myhostname (w_cfg w); ok = AcceptSquit (w_cfg w);
              w = tell_info E i (me @ '' received'' @ (if ok then [] else ''(but rejecting)'') @ '' squit '' @ host @ '' from '' @
                    c_name cp @ ''. reason: '' @ reason @ ''.'') w
          in if \<not> ok then w
             else e_bye E i reason
                    (snd (fast_write E i (SL @ ''SQUIT '' @ gone @ '' '' @ me @ ''<>'' @ c_name cp @ '' disc ('' @ reason @ '')'' @ eol cp) 0 w)))"

text \<open>Lines 1738 to 1753: one of the users who are gone.\<close>

definition gone_turn :: "env \<Rightarrow> cid \<Rightarrow> string option \<Rightarrow> string \<Rightarrow> string \<Rightarrow> connection \<Rightarrow> world \<Rightarrow> world" where
  "gone_turn E i user host reason p w =
     (if c_type p = CT_USER \<and> c_via p = Some i \<and> (case user of None \<Rightarrow> True | Some u \<Rightarrow> strcaseeq u (c_name p)) \<and> strcaseeq host (c_host p)
      then
        let channel = c_channel p;
            w = upd_conn (c_id p) (\<lambda>c. c\<lparr>c_type := CT_CLOSED, c_channel := -1\<rparr>) (lock_conn i w);
            w = clear_locks (send_user_change_msg E (leave_change p channel reason True (c_nickname p) (w_currtime w)) w)
        in if count_user channel w < 1 then destroy_channel channel (user = None) w
           else update_channel_history (Some i) channel (c_name p) (c_host p) w
      else w)"

text \<open>Lines 1709 to 1734: the link a quit goes on to. \<open>None\<close> means that the host is behind the
  neighbour or unknown.\<close>

definition quit_direction :: "cid \<Rightarrow> string \<Rightarrow> world \<Rightarrow> cid option" where
  "quit_direction i host w =
     (case Option.bind (find (\<lambda>d. strcaseeq (d_name d) host) (w_destinations w)) (\<lambda>d. Option.bind (Option.bind (d_link d) (perm w)) pl_connection) of
        Some v \<Rightarrow> if v = i then None else Some v
      | None \<Rightarrow>
          (case find (\<lambda>p. c_via p \<noteq> None \<and> strcaseeq (c_host p) host) (w_connections w) of
             Some p \<Rightarrow> if c_via p = Some i then None else c_via p
           | None \<Rightarrow> None))"

text \<open>\<open>is_squit\<close> tells whether a whole host is gone; a user is named otherwise.\<close>

definition handle_h_quit_commands :: "env \<Rightarrow> cid \<Rightarrow> bool \<Rightarrow> string \<Rightarrow> world \<Rightarrow> world" where
  "handle_h_quit_commands E i is_squit args w =
     (let (user, r) = (if is_squit then (None, args) else let (u, r) = getarg args False in (Some u, r));
          (host, r) = getargcs r False; reason = take 255 (fst (getargcs r True));
          reason = (if reason = [] then (if is_squit then ''squit'' else ''quit'') else reason);
          me = myhostname (w_cfg w)
      in case conn w i of
           None \<Rightarrow> w
         | Some cp \<Rightarrow>
             if user = Some [] \<or> host = [] then w
             else if is_squit \<and> strcaseeq host (c_name cp) then accept_squit E i host (c_name cp) reason w
             else if strcaseeq host me then (if is_squit then accept_squit E i host me reason w else w)
             else
               case quit_direction i host w of
                 None \<Rightarrow> for_connections (gone_turn E i user host reason) (send_quits E i user host reason w)
               | Some v \<Rightarrow> if is_squit then appendstring E v (SL @ ''SQUIT '' @ host @ '' '' @ reason @ [NL]) w else w)"

definition h_squit_command :: "env \<Rightarrow> cid \<Rightarrow> string \<Rightarrow> world \<Rightarrow> world" where
  "h_squit_command E i = handle_h_quit_commands E i True"

definition h_uquit_command :: "env \<Rightarrow> cid \<Rightarrow> string \<Rightarrow> world \<Rightarrow> world" where
  "h_uquit_command E i = handle_h_quit_commands E i False"

section \<open>Routes and round trip times\<close>

text \<open>The loop over the links leaves the last cell in \<^verbatim>\<open>l\<close> when no cell belongs to the connection.\<close>

definition dest_link :: "cid \<Rightarrow> world \<Rightarrow> nat option" where
  "dest_link i w =
     (case link_of i w of
        Some k \<Rightarrow> Some k
      | None \<Rightarrow> let k = length (w_permarray w) - 1 in if perm w k = None then None else Some k)"

text \<open>Lines 316 to 334: the hops and the neighbour of the destination that the message leaves open.\<close>

definition dest_fill :: "connection \<Rightarrow> destination option \<Rightarrow> int \<Rightarrow> int \<Rightarrow> string \<Rightarrow> int \<times> string" where
  "dest_fill cp d rtt hops hisneigh =
     (let active = (case d of None \<Rightarrow> False | Some d \<Rightarrow> d_link d \<noteq> None \<and> d_rtt d \<noteq> 0) in
      if rtt < 1 then (0, [])
      else if hisneigh = []
      then (if hops < 1 then (case d of Some d \<Rightarrow> if 1 < d_hops d then d_hops d - 1 else 1 | None \<Rightarrow> 1) else hops,
            if active then d_hisneigh (the d) else c_name cp)
      else if active \<and> hops < 1 then (d_hops (the d) - 1, d_hisneigh (the d))
      else (hops, hisneigh))"

definition h_dest_command :: "env \<Rightarrow> cid \<Rightarrow> string \<Rightarrow> world \<Rightarrow> world" where
  "h_dest_command E i args w =
     (let (name, r) = getargcs args False; (arg, r) = getarg r False; rtt = atoi arg;
          (rev', r) = getarg r False; rev' = (if rev' = [] then ''?'' else rev');
          (arg, r) = getarg r False; hops = atoi arg; (hisneigh, r) = getargcs r False
      in case (dest_link i w, conn w i) of
           (Some l, Some cp) \<Rightarrow>
             if strcaseeq name (myhostname (w_cfg w)) then loop_handler E i (Some l) CT_HOST [] name (myhostname (w_cfg w)) w
             else
               let d = find (\<lambda>d. strcaseeq (d_name d) name) (w_destinations w);
                   c = Option.bind (Option.bind (Option.bind d d_link) (perm w)) pl_connection
               in if Option.bind d d_link \<noteq> None \<and> c \<noteq> Some i
                  then (case Option.bind c (conn w) of
                          None \<Rightarrow> fault w
                        | Some c \<Rightarrow> loop_handler E i (Some l) CT_HOST [] name (c_name c) w)
                  else if dest_check i d w
                  then let (hops, hisneigh) = dest_fill cp d rtt hops hisneigh
                       in update_destinations E (Some l) name rtt rev' hops hisneigh w
                  else w
         | _ \<Rightarrow> w)"

definition h_ping_command :: "env \<Rightarrow> cid \<Rightarrow> world \<Rightarrow> world" where
  "h_ping_command E i w =
     fold (\<lambda>k w. case perm w k of
                   Some p \<Rightarrow> if pl_connection p = Some i
                             then appendstring E i (SL @ ''PONG '' @ dec (if 0 < pl_txtime p then pl_txtime p else 1) @ [NL]) w else w
                 | None \<Rightarrow> w)
       [0..<length (w_permarray w)] w"

definition SRTT :: "int \<Rightarrow> int \<Rightarrow> int" where
  "SRTT latest current = cdiv (5 * latest + current) 6"

text \<open>Line 1316: the quality in 255 steps, an \<^verbatim>\<open>uint8\<close> truncated from a \<^verbatim>\<open>double\<close>.\<close>

definition link_quality :: "int \<Rightarrow> nat" where
  "link_quality rtt = nat ((255 * (6000 - min ((rtt - 1) * 10) 6000)) div 6000)"

definition pong_link :: "int \<Rightarrow> int \<Rightarrow> permlink \<Rightarrow> permlink" where
  "pong_link now rxtime l =
     (let txtime = max (now - pl_testwaittime l) 1;
          rxtime = (if rxtime < 1 then txtime else rxtime);
          tx = (if pl_txtime l \<noteq> 0 then SRTT (pl_txtime l) txtime else txtime);
          rtt = cdiv (tx + rxtime) 2
      in l\<lparr>pl_txtime := tx, pl_rxtime := rxtime, pl_testnexttime := now + max (min (rtt * 15) 300) 120\<rparr>)"

definition h_pong_command :: "env \<Rightarrow> cid \<Rightarrow> string \<Rightarrow> world \<Rightarrow> world" where
  "h_pong_command E i args w =
     (case (link_of i w, conn w i) of
        (Some k, Some cp) \<Rightarrow>
          let w = upd_perm k (pong_link (w_currtime w) (atol (fst (getarg args False)))) w
          in (case perm w k of
                None \<Rightarrow> w
              | Some l \<Rightarrow>
                  let rtt = cdiv (pl_txtime l + pl_rxtime l) 2;
                      w = update_destinations E (Some k) (pl_name l) rtt (c_rev cp) 0 (myhostname (w_cfg w)) w
                  in upd_perm k (\<lambda>l. if 0 \<le> pl_curr_group l \<and> nat (pl_curr_group l) < length (pl_s_groups l)
                                     then l\<lparr>pl_s_groups := (pl_s_groups l)[nat (pl_curr_group l) :=
                                              (pl_s_groups l ! nat (pl_curr_group l))\<lparr>sg_quality := link_quality rtt\<rparr>]\<rparr> else l) w)
      | _ \<Rightarrow> w)"

text \<open>One destination of the loop of \<^verbatim>\<open>h_rout_command\<close>, with the hops the request may still take. The answer
  may close a link, and the code reads the link of the destination again.\<close>

definition rout_turn :: "env \<Rightarrow> string \<Rightarrow> string \<Rightarrow> destination \<Rightarrow> int \<times> world \<Rightarrow> int \<times> world" where
  "rout_turn E target user d = (\<lambda>(ttl, w).
     if \<not> strcaseeq (d_name d) target then (ttl, w)
     else
       let good = (case Option.bind (d_link d) (perm w) of None \<Rightarrow> False | Some l \<Rightarrow> pl_name l \<noteq> []);
           w' = send_msg_to_user E ''conversd'' user
                  (''*** route: '' @ myhostname (w_cfg w) @ '' -> '' @ (if good then link_name w (d_link d) else ''(dead link)'') @
                   '' -> '' @ target @ '' ('' @ dec (d_rtt d) @ '')'') w
       in if ttl = 0 \<or> \<not> good then (ttl, w')
          else
            case Option.bind (Option.bind (dest (d_name d) w') d_link) (perm w') of
              None \<Rightarrow> (ttl, fault w')
            | Some l \<Rightarrow>
                if strcaseeq (pl_name l) target then (ttl, w')
                else (ttl - 1,
                      case pl_connection l of
                        None \<Rightarrow> w'
                      | Some v \<Rightarrow> appendstring E v (SL @ ''ROUT '' @ target @ '' '' @ user @ '' '' @ dec (ttl - 1) @ [NL]) w'))"

definition h_rout_command :: "env \<Rightarrow> cid \<Rightarrow> string \<Rightarrow> world \<Rightarrow> world" where
  "h_rout_command E i args w =
     (let (target, r) = getargcs args False; (user, r) = getarg r False; (arg, r) = getarg r False in
      if \<not> user_check user then w
      else snd (fold (rout_turn E target user) (w_destinations w) (atoi arg, clear_locks w)))"

section \<open>Operators\<close>

record oper_state =
  o_fromnick :: string
  o_fromhost :: string
  o_to :: "(string \<times> string) option"
  o_changed :: bool
  o_found :: bool

text \<open>Lines 1188 to 1244: one connection in the search for the new operator. In a channel list the code
  looks for the current channel of the user, not for the channel of the message.\<close>

definition h_oper_turn :: "config \<Rightarrow> string \<Rightarrow> int \<Rightarrow> string \<Rightarrow> connection \<Rightarrow> oper_state \<Rightarrow> oper_state \<times> connection" where
  "h_oper_turn cfg fromname channel toname p s =
     (if c_type p \<noteq> CT_USER \<or> c_observer p then (s, p)
      else
        let s = (if \<not> strcaseeq fromname ''conversd'' \<and> c_via p \<noteq> None \<and> strcaseeq (c_name p) fromname
                 then s\<lparr>o_fromnick := c_nickname p, o_fromhost := c_host p\<rparr> else s);
            hit = (\<lambda>noop s. s\<lparr>o_to := (if o_to s = None \<or> noop then Some (c_nickname p, c_host p) else o_to s),
                            o_changed := o_changed s \<or> noop, o_found := True\<rparr>)
        in if \<not> strcaseeq (c_name p) toname then (s, p)
           else if channel = -1
           then (hit (c_operator p = 0) s,
                 p\<lparr>c_operator := if c_operator p < 2 then (if secretnumber cfg < 0 \<and> c_via p = None then 2 else 1) else c_operator p\<rparr>)
           else
             let here = (c_channel p = channel);
                 s = (if here then hit (\<not> c_channelop p) s else s);
                 cls = filter (\<lambda>cl. cl_channel cl = c_channel p) (c_chan_list p);
                 s = (if cls \<noteq> [] then hit (list_ex (\<lambda>cl. \<not> cl_channelop cl) cls) s else s)
             in (s, p\<lparr>c_channelop := here \<or> c_channelop p,
                     c_chan_list := map (\<lambda>cl. if cl_channel cl = c_channel p then cl\<lparr>cl_channelop := True\<rparr> else cl) (c_chan_list p)\<rparr>))"

fun h_oper_walk :: "config \<Rightarrow> string \<Rightarrow> int \<Rightarrow> string \<Rightarrow> connection list \<Rightarrow> oper_state \<Rightarrow> oper_state \<times> connection list" where
  "h_oper_walk cfg fromname channel toname [] s = (s, [])"
| "h_oper_walk cfg fromname channel toname (p # ps) s =
     (let (s, p) = h_oper_turn cfg fromname channel toname p s; (s, ps) = h_oper_walk cfg fromname channel toname ps s in (s, p # ps))"

definition h_oper_command :: "env \<Rightarrow> cid \<Rightarrow> string \<Rightarrow> world \<Rightarrow> world" where
  "h_oper_command E i args w =
     (let (fromname, r) = getarg args False; (arg, r) = getarg r False; channel = atoi arg; (toname, r) = getarg r False;
          w = lock_conn i w;
          (s, ps) = h_oper_walk (w_cfg w) fromname channel toname (w_connections w)
                      \<lparr>o_fromnick = fromname, o_fromhost = fromname, o_to = None, o_changed = False, o_found = False\<rparr>;
          (tonickname, tohost) = (case o_to s of
                                    Some t \<Rightarrow> t
                                  | None \<Rightarrow> (toname, case conn w i of None \<Rightarrow> [] | Some cp \<Rightarrow> c_name cp))
      in send_opermsg E toname tonickname tohost fromname (o_fromnick s) (o_fromhost s) channel (\<not> o_found s \<or> o_changed s)
           (w\<lparr>w_connections := ps\<rparr>))"

section \<open>Invitations\<close>

definition send_invi_response_443 :: "env \<Rightarrow> string \<Rightarrow> string \<Rightarrow> int \<Rightarrow> world \<Rightarrow> world" where
  "send_invi_response_443 E fromname toname channel =
     for_connections (\<lambda>p w.
       if c_type p = CT_USER \<and> c_via p = None \<and> strcaseeq (c_name p) fromname
       then appendstring E (c_id p)
              (if c_ircmode p
               then '':'' @ myhostname (w_cfg w) @ '' 443 '' @ fromname @ '' '' @ toname @ '' #'' @ dec channel @ '' :is already on channel'' @ [NL]
               else ''*** ('' @ w_ts2 E w @ '') User '' @ toname @ '' is already on this channel.'' @ [NL]) w
       else w)"

text \<open>Lines 3643 to 3686 of \<^verbatim>\<open>conversd.c\<close>: the answer for one connection of the sender.\<close>

definition response_341_turn :: "env \<Rightarrow> bool \<Rightarrow> string \<Rightarrow> string \<Rightarrow> string \<Rightarrow> int \<Rightarrow> string \<Rightarrow> connection \<Rightarrow> world \<Rightarrow> world" where
  "response_341_turn E sent txt fromname toname channel is_away p w =
     (let v = (case c_via p of None \<Rightarrow> c_id p | Some v \<Rightarrow> v); me = myhostname (w_cfg w);
          head = (\<lambda>w. if c_via p \<noteq> None then appendstring E v (SL @ ''UMSG conversd '' @ fromname @ '' '') w else w) in
      if c_type p \<noteq> CT_USER \<or> \<not> strcaseeq (c_name p) fromname \<or> c_locked p \<or> (c_via p \<noteq> None \<and> is_locked w v) then w
      else
        let w = lock_conn v w in
        if c_ircmode p
        then (if \<not> sent then w
              else
                let w = appendstring E (c_id p) ('':'' @ me @ '' 341 '' @ fromname @ '' '' @ toname @ '' #'' @ dec channel @ [NL]) w
                in if is_away = [] then w
                   else appendstring E v [NL]
                          (appendstring E v (take IRC_MAX_MSGSIZE ('':'' @ me @ '' 301 '' @ fromname @ '' '' @ toname @ '' :#'' @ is_away)) w))
        else
          let w = appendstring E v [NL] (appendstring E v txt (head w))
          in if is_away = [] then w
             else appendstring E v (''*** ('' @ w_ts2 E w @ '') '' @ fromname @ '' is away: '' @ is_away @ [NL]) (head w))"

definition send_invi_response_341 :: "env \<Rightarrow> bool \<Rightarrow> string \<Rightarrow> string \<Rightarrow> string \<Rightarrow> int \<Rightarrow> string \<Rightarrow> world \<Rightarrow> world" where
  "send_invi_response_341 E sent txt fromname toname channel is_away w =
     for_connections (response_341_turn E sent txt fromname toname channel is_away) (clear_locks w)"

definition is_invited :: "string \<Rightarrow> connection \<Rightarrow> bool" where
  "is_invited touser p \<longleftrightarrow> c_type p = CT_USER \<and> (strcaseeq (c_name p) touser \<or> strcaseeq (c_nickname p) touser)"

definition invitation :: "env \<Rightarrow> string \<Rightarrow> string \<Rightarrow> int \<Rightarrow> connection \<Rightarrow> world \<Rightarrow> string" where
  "invitation E fromname touser channel p w =
     (if c_ircmode p
      then '':'' @ fromname @ ''!'' @ fromname @ ''@'' @ myhostname (w_cfg w) @ '' INVITE '' @ touser @ '' :#'' @ dec channel @ [NL]
      else [NL, CHR 0x07, CHR 0x07] @ ''*** ('' @ w_ts2 E w @ '') Message from '' @ fromname @ ''...'' @ [NL] @
           ''Please join convers channel '' @ dec channel @ ''.'' @ [NL, CHR 0x07, CHR 0x07, NL])"

text \<open>Lines 3751 to 3773: the local sessions of the invited user. The state is whether the invitation was
  sent, whether a filter stopped it, and the first away text.\<close>

fun invite_local :: "env \<Rightarrow> string \<Rightarrow> string \<Rightarrow> int \<Rightarrow> cid list \<Rightarrow> bool \<times> bool \<times> string \<Rightarrow> world \<Rightarrow> (bool \<times> bool \<times> string) \<times> world" where
  "invite_local E fromname touser channel [] s w = (s, w)"
| "invite_local E fromname touser channel (j # js) (sent, filtered, away) w =
     (case conn w j of
        None \<Rightarrow> invite_local E fromname touser channel js (sent, filtered, away) w
      | Some p \<Rightarrow>
          if \<not> is_invited touser p \<or> c_via p \<noteq> None then invite_local E fromname touser channel js (sent, filtered, away) w
          else
            let filtered = (filtered \<or> (c_filter p \<noteq> None \<and> is_filtered None (Some fromname) p None))
            in if filtered then invite_local E fromname touser channel js (sent, filtered, away) w
               else invite_local E fromname touser channel js (True, False, if away = [] then c_away p else away)
                      (appendstring E j (invitation E fromname touser channel p w)
                        (upd_conn j (\<lambda>c. c\<lparr>c_invitation_channel := channel\<rparr>) w)))"

definition invi_line :: "string \<Rightarrow> string \<Rightarrow> int \<Rightarrow> string" where
  "invi_line fromname orig_to channel = SL @ ''INVI '' @ fromname @ '' '' @ orig_to @ '' '' @ dec channel @ [NL]"

text \<open>Lines 3774 to 3786 and 3909 to 3920.\<close>

definition invite_remote :: "env \<Rightarrow> string \<Rightarrow> string \<Rightarrow> string \<Rightarrow> int \<Rightarrow> world \<Rightarrow> world" where
  "invite_remote E fromname orig_to touser channel =
     for_connections (\<lambda>p w.
       case c_via p of
         None \<Rightarrow> w
       | Some v \<Rightarrow>
           if is_invited touser p \<and> \<not> is_locked w v then lock_conn v (appendstring E v (invi_line fromname orig_to channel) w) else w)"

definition invite_net :: "env \<Rightarrow> string \<Rightarrow> string \<Rightarrow> int \<Rightarrow> world \<Rightarrow> world" where
  "invite_net E fromname orig_to channel =
     for_connections (\<lambda>p w.
       if c_type p = CT_HOST \<and> \<not> c_locked p then lock_conn (c_id p) (appendstring E (c_id p) (invi_line fromname orig_to channel) w) else w)"

text \<open>Lines 3926 to 3933: the answer to the sender.\<close>

definition invite_response ::
  "env \<Rightarrow> string \<Rightarrow> string \<Rightarrow> int \<Rightarrow> bool \<Rightarrow> bool \<Rightarrow> bool \<Rightarrow> string \<Rightarrow> world \<Rightarrow> world" where
  "invite_response E fromname touser channel sent found filtered is_away w =
     (let at = touser @ '' @ '' @ myhostname (w_cfg w); head = ''*** ('' @ w_ts2 E w @ '') convers Invitation ''
      in send_invi_response_341 E sent
           (if sent then head @ ''sent to '' @ at @ ''.''
            else head @ ''not sent to '' @ at @ '': '' @
                 (if filtered then ''filter active'' else if found then ''permission denied'' else ''not logged in'') @ ''.'')
           fromname touser channel is_away w)"

text \<open>Lines 3797 to 3924. \<open>utmp\<close> gives for a user name the login sessions of the machine, each with
  whether the message could be written to its terminal; \<open>None\<close> when the list cannot be read.\<close>

definition invite_login ::
  "env \<Rightarrow> (string \<Rightarrow> bool list option) \<Rightarrow> string \<Rightarrow> string \<Rightarrow> string \<Rightarrow> int \<Rightarrow> bool \<Rightarrow> bool \<Rightarrow> bool \<Rightarrow> bool \<times> bool \<times> string \<Rightarrow> world \<Rightarrow> world" where
  "invite_login E utmp fromname orig_to touser channel to_first to_local to_any = (\<lambda>(sent, filtered, away) w.
     let ask = (if filtered then None else utmp touser);
         found = (case ask of None \<Rightarrow> False | Some ts \<Rightarrow> ts \<noteq> []);
         sent' = (sent \<or> (case ask of None \<Rightarrow> False | Some ts \<Rightarrow> list_ex id ts));
         answer = invite_response E fromname touser channel sent' found filtered away;
         done' = (ask \<noteq> None \<and> \<not> (\<not> found \<and> (to_first \<or> to_any)) \<and> ((to_first \<and> sent') \<or> to_local))
     in if done' then answer w
        else
          let w = (if to_local then w else invite_net E fromname orig_to channel w)
          in if \<not> sent' \<and> \<not> found then w else answer w)"

definition send_invite_msg :: "env \<Rightarrow> (string \<Rightarrow> bool list option) \<Rightarrow> string \<Rightarrow> string \<Rightarrow> int \<Rightarrow> world \<Rightarrow> world" where
  "send_invite_msg E utmp fromname orig_to channel w =
     (let t = take NAMESIZE orig_to;
          touser = takeWhile (\<lambda>c. c \<noteq> CHR ''@'') t;
          tohost = (case strchr t (CHR ''@'') of None \<Rightarrow> None
                    | Some r \<Rightarrow> if tl r \<noteq> [] \<and> isalnum (hd (tl r)) then Some (tl r) else None);
          to_first = (tohost = None);
          to_local = (case tohost of None \<Rightarrow> False | Some h \<Rightarrow> strcaseeq h (myhostname (w_cfg w)));
          to_any = (case tohost of None \<Rightarrow> False | Some h \<Rightarrow> strcaseeq h ''all'')
      in if \<not> to_first \<and> \<not> to_local \<and> \<not> to_any then invite_net E fromname orig_to channel w
         else if list_ex (\<lambda>p. is_invited touser p \<and> (c_channel p = channel \<or> on_chan_list p channel)) (w_connections w)
         then send_invi_response_443 E fromname touser channel w
         else
           let ((sent, filtered, away), w) = invite_local E fromname touser channel (conn_ids w) (False, False, []) w in
           if sent \<and> (to_first \<or> to_local) then invite_response E fromname touser channel sent False filtered away w
           else
             let w = (if to_local then w else invite_remote E fromname orig_to touser channel w)
             in if filtered \<and> (to_first \<or> to_local) then invite_response E fromname touser channel sent False filtered away w
                else invite_login E utmp fromname orig_to touser channel to_first to_local to_any (sent, filtered, away) w)"

definition h_invi_command :: "env \<Rightarrow> (string \<Rightarrow> bool list option) \<Rightarrow> cid \<Rightarrow> string \<Rightarrow> world \<Rightarrow> world" where
  "h_invi_command E utmp i args w =
     (let (fromname, r) = getarg args False; (toname, r) = getargcs r False; (arg, r) = getarg r False in
      if \<not> user_check fromname then w
      else
        let (ret, w) = check_cmd_flood E i fromname None SUL_INVI False toname (lock_conn i w)
        in if ret \<noteq> 0 then w else send_invite_msg E utmp fromname toname (atoi arg) w)"

section \<open>Questions to the server\<close>

definition ours :: "string \<Rightarrow> string option \<Rightarrow> bool" where
  "ours buf search =
     (if CHR ''*'' \<in> set buf then search = None
      else case search of None \<Rightarrow> True | Some s \<Rightarrow> strstr (strlwr (take 81 buf)) (strlwr ('':'' @ take 80 s)))"

text \<open>Lines 4990 to 5023 of \<^verbatim>\<open>conversd.c\<close>, for a user of another server: the lines of the help file. The
  state is the number of lines that are still shown, whether the headline was sent, and whether
  anything was found.\<close>

fun help_lines :: "env \<Rightarrow> string \<Rightarrow> string \<Rightarrow> string list \<Rightarrow> nat \<Rightarrow> bool \<Rightarrow> bool \<Rightarrow> world \<Rightarrow> bool \<times> world" where
  "help_lines E name search [] count didheader foundit w = (foundit, w)"
| "help_lines E name search (buf # bufs) count didheader foundit w =
     (let say = (\<lambda>s w. clear_locks (send_msg_to_user E ''conversd'' name s w)); first = (if buf = [] then CHR 0x00 else hd buf) in
      if first = CHR ''#'' then help_lines E name search bufs count didheader foundit w
      else if first \<noteq> CHR '':'' then
        if count = 0 then help_lines E name search bufs count didheader foundit w
        else help_lines E name search bufs (count - 1) True foundit
               (let buf = rip buf
                in say ((if buf = [] \<or> hd buf \<noteq> CHR ''/'' then ''  '' else []) @ buf) (if didheader then w else say ''*** Usage:'' w))
      else
        let count = (if ours buf (Some search) then 32000 else 0)
        in help_lines E name search bufs count didheader (foundit \<or> 0 < count) w)"

text \<open>\<open>helptext\<close> is the contents of the help file.\<close>

definition dohelper_user :: "env \<Rightarrow> string option \<Rightarrow> string \<Rightarrow> string \<Rightarrow> world \<Rightarrow> bool \<times> world" where
  "dohelper_user E helptext name search w =
     (if name = [] then (False, w)
      else case helptext of
             None \<Rightarrow> (False, clear_locks w)
           | Some t \<Rightarrow> help_lines E name search (fgets_lines 79 t) 0 False False (clear_locks w))"

definition h_help_command :: "env \<Rightarrow> string option \<Rightarrow> cid \<Rightarrow> string \<Rightarrow> world \<Rightarrow> world" where
  "h_help_command E helptext i args w =
     (let (user, r) = getarg args False; (arg, r) = getarg r False; (b, w) = dohelper_user E helptext user arg w in
      if \<not> b then h_unknown_command E i (set_ibuf i (SL @ ''HELP '' @ user @ '' '' @ arg @ [NL]) w)
      else send_msg_to_user E ''conversd'' user ''***''
             (clear_locks (send_msg_to_user E ''conversd'' user
                (''*** Extended Help Reply from host: '' @ myhostname (w_cfg w) @ [NL]) w)))"

text \<open>What the process knows of itself and of its machine: its name, its start, and the contents of
  \<^verbatim>\<open>/proc/uptime\<close> and \<^verbatim>\<open>/proc/version\<close> when they can be read.\<close>

record machine =
  y_convtype :: string
  y_boottime :: int
  y_uptime :: "int option"
  y_version :: "string option"

definition SOFT_RELEASE :: string where
  "SOFT_RELEASE = ''saupp-1.62a-0263 (20220709/dl9sau)''"

text \<open>Lines 1396 to 1406: the name of the system is what stands before the first blank from the
  sixteenth character on.\<close>

definition kernel_name :: "string option \<Rightarrow> string option" where
  "kernel_name v =
     (case v of
        None \<Rightarrow> Some ''Linux''
      | Some s \<Rightarrow>
          let lx = fgets 127 s
          in if CHR '' '' \<in> set (drop 15 lx) then Some (take 15 lx @ takeWhile (\<lambda>c. c \<noteq> CHR '' '') (drop 15 lx)) else None)"

definition sysi_lines :: "env \<Rightarrow> machine \<Rightarrow> string \<Rightarrow> world \<Rightarrow> world" where
  "sysi_lines E m user w =
     (let me = myhostname (w_cfg w); c = w_cfg w;
          say = (\<lambda>s. send_msg_to_user E ''conversd'' user (''*** '' @ me @ '': '' @ s));
          w = clear_locks (say (''System Information [saupp] - email to '' @
                (case myemailaddr c of None \<Rightarrow> ''*** unknown ***'' | Some s \<Rightarrow> s)) w);
          w = (case mysysinfo c of Some s \<Rightarrow> if s \<noteq> [] then clear_locks (say s w) else w | None \<Rightarrow> w);
          w = clear_locks (say (''saupp version '' @ SOFT_RELEASE) w);
          w = clear_locks (say (y_convtype m @ '' is up for '' @ ts4 (w_currtime w - y_boottime m) @ '' QTR here is '' @ w_ts2 E w @ '' '' @
                (case mytimezone c of None \<Rightarrow> ''(null)'' | Some s \<Rightarrow> s) @ ''.'') w)
      in case y_uptime m of
           None \<Rightarrow> w
         | Some up \<Rightarrow>
             (case kernel_name (y_version m) of
                None \<Rightarrow> fault w
              | Some lx \<Rightarrow> say (lx @ '' is up for '' @ ts4 up) w))"

definition h_sysi_command :: "env \<Rightarrow> machine \<Rightarrow> cid \<Rightarrow> string \<Rightarrow> world \<Rightarrow> world" where
  "h_sysi_command E m i args w =
     (let (user, r) = getargcs args False; (host, r) = getargcs r False;
          host = (case host of c # h \<Rightarrow> if c = CHR ''@'' then h else host | [] \<Rightarrow> []);
          w = upd_conn i (\<lambda>c. c\<lparr>c_locked := False\<rparr>) w
      in if \<not> user_check user then w
         else
           let everybody = strcaseeq host ''all'';
               w = (if strcaseeq host (myhostname (w_cfg w)) \<or> everybody then sysi_lines E m user w else w)
           in if strcaseeq host (myhostname (w_cfg w)) \<and> \<not> everybody then w
              else h_unknown_command E i (set_ibuf i (SL @ ''SYSI '' @ user @ '' '' @ host @ [NL]) w))"

end
