(* ===== verification/Hostuser.thy ===== *)
theory Hostuser
  imports Hostmsg
begin

text \<open>
  Users of other servers, \<^verbatim>\<open>host.c\<close>: the loop detector \<^verbatim>\<open>checkhost\<close>, the connection record of a user
  who is announced by a neighbour (\<^verbatim>\<open>make_new_user\<close>) and the two messages that announce users,
  \<^verbatim>\<open>NJ\<close> and \<^verbatim>\<open>USER\<close> (with \<^verbatim>\<open>OBSV\<close>).
\<close>

section \<open>The loop detector\<close>

definition checkhost :: "env \<Rightarrow> cid \<Rightarrow> string \<Rightarrow> string \<Rightarrow> bool \<Rightarrow> world \<Rightarrow> bool \<times> world" where
  "checkhost E i name host learn_new_nodes w =
     (case conn w i of
        None \<Rightarrow> (False, w)
      | Some cp \<Rightarrow>
          let pl = find_permlink (c_name cp) w; me = myhostname (w_cfg w);
              d = find_destination host w;
              dc = Option.bind (Option.bind (Option.bind d d_link) (perm w)) pl_connection;
              name_of = (\<lambda>c. case conn w c of None \<Rightarrow> [] | Some p \<Rightarrow> c_name p)
          in if strcaseeq host me then (False, loop_handler E i pl CT_HOST [] name me w)
             else if Option.bind (Option.bind pl (perm w)) pl_connection = Some i \<and> dc \<noteq> None \<and> dc \<noteq> Some i
             then (False, loop_handler E i pl CT_HOST name host (name_of (the dc)) w)
             else
               (case find (\<lambda>p. c_type p = CT_USER \<and> c_via p \<noteq> Some i \<and> strcaseeq (c_host p) host) (w_connections w) of
                  Some p \<Rightarrow> (False, loop_handler E i pl CT_USER name host (case c_via p of None \<Rightarrow> me | Some v \<Rightarrow> name_of v) w)
                | None \<Rightarrow>
                    (True,
                     case Option.bind pl (perm w) of
                       Some l \<Rightarrow>
                         if learn_new_nodes \<and> (case d of None \<Rightarrow> True | Some d \<Rightarrow> d_link d = None \<or> d_rtt d = 0)
                         then update_destinations E pl host
                                ((if pl_rxtime l = -1 then pl_txtime l else cdiv (pl_rxtime l + pl_txtime l) 2) + 1) ''-'' 1 (c_name cp) w
                         else w
                     | None \<Rightarrow> w)))"

section \<open>A new user\<close>

text \<open>The arguments of \<^verbatim>\<open>make_new_user\<close>.\<close>

record joiner =
  u_name :: string
  u_host :: string
  u_channel :: int
  u_time :: int
  u_mode :: string
  u_chanop :: bool
  u_operator :: bool
  u_observer :: bool
  u_away :: bool
  u_creator :: bool
  u_pers :: string
  u_pers_changed :: bool
  u_nick :: string
  u_nick_changed :: bool

record meeting =
  m_operator :: bool
  m_found :: "cid option"
  m_oldnick :: string

text \<open>Lines 1858 to 1905: one connection. The first component tells that the user is known already and
  nothing is to be done.\<close>

definition meet_match :: "cid \<Rightarrow> joiner \<Rightarrow> connection \<Rightarrow> bool" where
  "meet_match i u p \<longleftrightarrow> c_via p = Some i \<and> strcaseeq (c_host p) (u_host u)"

definition meet_update :: "joiner \<Rightarrow> connection \<Rightarrow> connection" where
  "meet_update u p =
     (let p = (if u_nick_changed u then p\<lparr>c_nickname := take NAMESIZE (u_nick u)\<rparr> else p);
          p = (if u_pers_changed u then p\<lparr>c_pers := take PERSSIZE (u_pers u)\<rparr> else p)
      in if u_away u then p\<lparr>c_atime := u_time u\<rparr> else p)"

definition meet_turn :: "cid \<Rightarrow> joiner \<Rightarrow> connection \<Rightarrow> meeting \<Rightarrow> bool \<times> meeting \<times> connection" where
  "meet_turn i u p m =
     (if c_type p \<noteq> CT_USER \<or> \<not> strcaseeq (c_name p) (u_name u) \<or> c_observer p then (False, m, p)
      else
        let m = (if c_operator p \<noteq> 0 \<and> \<not> u_observer u then m\<lparr>m_operator := True\<rparr> else m);
            p = (if u_operator u \<and> c_operator p = 0 then p\<lparr>c_operator := 1\<rparr> else p)
        in if \<not> meet_match i u p then (False, m, p)
           else
             let m = (if u_nick_changed u \<and> m_oldnick m = [] then m\<lparr>m_oldnick := take NAMESIZE (c_nickname p)\<rparr> else m);
                 p = meet_update u p
             in if c_channel p = u_channel u \<and> u_pers u = [] \<and> c_time p = u_time u then (True, m, p)
                else if c_channel p = u_channel u \<and> c_pers p = u_pers u \<and> c_time p = u_time u
                then (True, m, p\<lparr>c_mtime := max (c_mtime p) (u_time u)\<rparr>)
                else (False, if m_found m = None then m\<lparr>m_found := Some (c_id p)\<rparr> else m, p))"

fun meet_walk :: "cid \<Rightarrow> joiner \<Rightarrow> connection list \<Rightarrow> meeting \<Rightarrow> bool \<times> meeting \<times> connection list" where
  "meet_walk i u [] m = (False, m, [])"
| "meet_walk i u (p # ps) m =
     (case meet_turn i u p m of
        (True, m, p) \<Rightarrow> (True, m, p # ps)
      | (False, m, p) \<Rightarrow> (case meet_walk i u ps m of (b, m, ps) \<Rightarrow> (b, m, p # ps)))"

text \<open>What \<^verbatim>\<open>hcalloc\<close> returns.\<close>

definition zero_connection :: "cid \<Rightarrow> connection" where
  "zero_connection j =
     (blank_connection j 0 0)\<lparr>c_shownicks := False, c_hostallowed := False, c_mtu := 0, c_compress := 0, c_verbose := False,
        c_charset_in := 0, c_charset_out := 0, c_width := 0, c_amprnet := False\<rparr>"

text \<open>Lines 1912 to 1931. The code asks for \<^verbatim>\<open>p->observer\<close> before it is set.\<close>

definition new_conn :: "cid \<Rightarrow> cid \<Rightarrow> joiner \<Rightarrow> connection" where
  "new_conn j i u =
     (zero_connection j)\<lparr>c_type := CT_USER, c_session_type := 3, c_name := take NAMESIZE (u_name u), c_nickname := take NAMESIZE (u_nick u),
        c_host := take NAMESIZE (u_host u), c_via := Some i, c_fd := -1, c_time := u_time u, c_mtime := u_time u\<rparr>"

text \<open>Lines 1938 to 1962: the state of the new user, with whether his personal text is to be announced.\<close>

definition new_state :: "joiner \<Rightarrow> bool \<Rightarrow> connection \<Rightarrow> bool \<times> connection" where
  "new_state u is_operator p =
     (let pers = (if u_observer u then OBSERVERID else u_pers u);
          obs = (u_observer u \<or> strcaseeq pers OBSERVERID);
          p = (if u_observer u then p
               else p\<lparr>c_atime := (if u_away u then u_time u else c_atime p), c_channelop := u_chanop u\<rparr>);
          p = p\<lparr>c_channel := u_channel u, c_observer := obs, c_operator := (if obs then 0 else if is_operator then 1 else 0)\<rparr>
      in if pers \<noteq> []
         then (True, p\<lparr>c_pers := take PERSSIZE pers, c_isauth := (if hd pers = CHR ''~'' then 1 else 2)\<rparr>)
         else (u_pers_changed u, p))"

text \<open>Lines 1963 to 2008: what the new session takes from a session of the same user and host. In the
  case without a personal text the code looks for the tilde in the empty text.\<close>

definition inherit_pers :: "cid \<Rightarrow> joiner \<Rightarrow> connection \<Rightarrow> cid \<Rightarrow> bool \<Rightarrow> world \<Rightarrow> bool \<times> world" where
  "inherit_pers i u q j pers_changed w =
     (case conn w j of
        None \<Rightarrow> (pers_changed, w)
      | Some p \<Rightarrow>
          if u_pers u = []
          then (pers_changed,
                if c_pers q \<noteq> [] then upd_conn j (\<lambda>p. p\<lparr>c_pers := take PERSSIZE (c_pers q), c_isauth := 2\<rparr>) w else w)
          else if c_pers q \<noteq> [] \<and> c_pers q = c_pers p then (pers_changed \<and> u_pers_changed u, w)
          else (True,
                upd_conns (\<lambda>p2. c_id p2 \<noteq> j \<and> c_type p2 = CT_USER \<and> c_via p2 = Some i \<and> \<not> c_observer p2 \<and>
                               strcaseeq (c_name p2) (c_name p) \<and> strcaseeq (c_host p2) (c_host p))
                  (\<lambda>p2. p2\<lparr>c_pers := c_pers p, c_isauth := (if c_pers p \<noteq> [] \<and> hd (c_pers p) = CHR ''~'' then 1 else 2)\<rparr>) w))"

definition inherit_rest :: "connection \<Rightarrow> connection \<Rightarrow> connection" where
  "inherit_rest q p =
     (let p = p\<lparr>c_nickname := c_nickname q\<rparr>;
          p = (if c_atime q \<noteq> 0 \<and> c_away q \<noteq> [] then p\<lparr>c_atime := c_atime q, c_away := c_away q\<rparr> else p)
      in if c_filter q \<noteq> None then p\<lparr>c_filter := c_filter q, c_filter_time := c_filter_time q\<rparr> else p)"

text \<open>Lines 2010 to 2027: the channel of the new user, with how he is announced as its operator.\<close>

definition join_channel :: "env \<Rightarrow> joiner \<Rightarrow> bool \<Rightarrow> world \<Rightarrow> nat \<times> world" where
  "join_channel E u observer w =
     (let n = u_channel u; chanop = (if u_chanop u then 1 else 0 :: nat) in
      case find_channel n w of
        Some ch \<Rightarrow>
          let creator = (\<not> observer \<and> (ch_expires ch \<noteq> 0 \<or> u_time u < ch_ctime ch) \<and> (u_creator u \<or> ch_createby ch = []))
          in (if creator then 2 else chanop,
              upd_channel n (\<lambda>ch. (if creator then ch\<lparr>ch_createby := take NAMESIZE (u_name u), ch_ctime := u_time u\<rparr> else ch)
                                  \<lparr>ch_expires := 0, ch_locked_until := 0\<rparr>) w)
      | None \<Rightarrow> (chanop, upd_channel n (\<lambda>ch. ch\<lparr>ch_ctime := u_time u\<rparr>) (new_channel E n (Some (u_name u)) w)))"

definition faked_flags :: "string \<Rightarrow> nat \<Rightarrow> nat" where
  "faked_flags mode flags =
     (if \<not> flag flags (or M_CHAN_L (or M_CHAN_I (or M_CHAN_S M_CHAN_P))) \<and> strpbrk mode ''lisp'' \<noteq> None
      then or flags (or (if CHR ''l'' \<in> set mode then M_CHAN_L else 0) (or (if CHR ''i'' \<in> set mode then M_CHAN_I else 0)
             (or (if CHR ''s'' \<in> set mode then M_CHAN_S else 0) (if CHR ''p'' \<in> set mode then M_CHAN_P else 0))))
      else flags)"

text \<open>Lines 1907 to 2008: the record of the new session. The result is its number and what is
  announced: a new personal text, a new nickname.\<close>

definition enter_user :: "cid \<Rightarrow> joiner \<Rightarrow> meeting \<Rightarrow> world \<Rightarrow> (cid \<times> bool \<times> bool) \<times> world" where
  "enter_user i u m w =
     (let j = w_next_cid w;
          w = w\<lparr>w_connections := new_conn j i u # w_connections w, w_next_cid := j + 1\<rparr>;
          w = generate_sul j (Some i) None w;
          w = upd_conn j (\<lambda>p. snd (new_state u (m_operator m) p)) w;
          pers_changed = fst (new_state u (m_operator m) (new_conn j i u));
          obs = c_observer (snd (new_state u (m_operator m) (new_conn j i u)))
      in case Option.bind (m_found m) (conn w) of
           Some q \<Rightarrow>
             if obs then ((j, pers_changed, u_nick_changed u), w)
             else
               let (pers_changed, w) = inherit_pers i u q j pers_changed w
               in ((j, pers_changed, u_nick_changed u \<or> take NAMESIZE (u_nick u) \<noteq> c_nickname q), upd_conn j (inherit_rest q) w)
         | None \<Rightarrow> ((j, pers_changed, u_nick_changed u), w))"

definition make_new_user :: "env \<Rightarrow> cid \<Rightarrow> joiner \<Rightarrow> world \<Rightarrow> bool \<times> world" where
  "make_new_user E i u w =
     (case meet_walk i u (w_connections w) \<lparr>m_operator = u_operator u, m_found = None, m_oldnick = []\<rparr> of
        (True, m, ps) \<Rightarrow> (False, w\<lparr>w_connections := ps\<rparr>)
      | (False, m, ps) \<Rightarrow>
          let ((j, pers_changed, nick_changed), w) = enter_user i u m (w\<lparr>w_connections := ps\<rparr>)
          in (case conn w j of
                None \<Rightarrow> (False, w)
              | Some p \<Rightarrow>
                  let (chanop, w) = join_channel E u (c_observer p) w;
                      flags = (case find_channel (u_channel u) w of None \<Rightarrow> 0 | Some ch \<Rightarrow> ch_flags ch);
                      w = lock_conn i (upd_channel (u_channel u) (\<lambda>ch. ch\<lparr>ch_flags := faked_flags (u_mode u) flags\<rparr>) w);
                      w = send_user_change_msg E
                            \<lparr>g_name = u_name u, g_nickname = c_nickname p, g_host = u_host u, g_old = -1, g_new = u_channel u,
                             g_pers = c_pers p, g_pers_changed = pers_changed, g_time = u_time u, g_observer = c_observer p,
                             g_quits_sent = False, g_chanop = chanop, g_nick_changed = nick_changed,
                             g_oldnick = (if m_oldnick m \<noteq> [] then m_oldnick m else c_nickname p)\<rparr> w
                  in (True, upd_channel (u_channel u) (\<lambda>ch. ch\<lparr>ch_flags := flags\<rparr>) w)))"

section \<open>The message NJ\<close>

text \<open>The macro \<^verbatim>\<open>lock_j_unlock_other\<close>.\<close>

definition lock_j_unlock_other :: "env \<Rightarrow> cid \<Rightarrow> string option \<Rightarrow> world \<Rightarrow> world" where
  "lock_j_unlock_other E i s =
     for_connections (\<lambda>p w.
       if c_id p \<noteq> i \<and> c_via p = None \<and> c_type p = CT_HOST \<and> flag (c_features p) FEATURE_SAUPP_I
       then lock_conn (c_id p) (case s of None \<Rightarrow> w | Some s \<Rightarrow> appendstring E (c_id p) s w)
       else upd_conn (c_id p) (\<lambda>c. c\<lparr>c_locked := (c_id p = i)\<rparr>) w)"

text \<open>Lines 2118 to 2151: the user modes with the nickname behind them.\<close>

definition nj_modes :: "string \<Rightarrow> string \<Rightarrow> bool \<Rightarrow> joiner \<Rightarrow> joiner" where
  "nj_modes name mode bad u =
     (let sep = strpbrk mode ''+-=''; fl = before mode ''+-='';
          renames = (case sep of Some (c # _) \<Rightarrow> c \<noteq> CHR ''='' \<and> \<not> bad | _ \<Rightarrow> False)
      in u\<lparr>u_nick := (case sep of Some (_ # n) \<Rightarrow> if renames \<and> n \<noteq> [] then n else name | _ \<Rightarrow> name),
           u_nick_changed := renames, u_away := CHR ''a'' \<in> set fl, u_operator := CHR ''o'' \<in> set fl,
           u_observer := bad \<or> CHR ''r'' \<in> set fl\<rparr>)"

text \<open>Lines 2154 to 2172: the personal text behind a colon, and what stands before it.\<close>

definition nj_pers :: "string \<Rightarrow> string option \<times> string" where
  "nj_pers arg =
     (let found = (if arg \<noteq> [] \<and> hd arg = CHR '':'' then Some arg else map_option tl (strstr_at arg '' :'')) in
      case found of
        None \<Rightarrow> (None, arg)
      | Some p \<Rightarrow>
          let t = dropWhile isspace (tl p)
          in (Some (if t = [] then ''@'' else t), if hd arg = CHR '':'' then [] else take (length arg - length p - 1) arg))"

text \<open>Lines 2196 to 2210: a channel with its modes.\<close>

definition nj_channel :: "string \<Rightarrow> joiner \<Rightarrow> string \<times> joiner" where
  "nj_channel chan u =
     (let mode = (case strchr chan (CHR '':'') of None \<Rightarrow> [] | Some r \<Rightarrow> tl r);
          op = (mode \<noteq> [] \<and> hd mode = CHR ''@''); mode = (if op then tl mode else mode);
          cr = (op \<and> mode \<noteq> [] \<and> hd mode = CHR ''@''); mode = (if cr then tl mode else mode)
      in (takeWhile (\<lambda>c. c \<noteq> CHR '':'') chan, u\<lparr>u_mode := mode, u_chanop := op, u_creator := cr\<rparr>))"

text \<open>Lines 2244 to 2256: the end of a turn of the loop.\<close>

definition nj_operator :: "env \<Rightarrow> cid \<Rightarrow> joiner \<Rightarrow> world \<Rightarrow> world" where
  "nj_operator E i u w =
     lock_j_unlock_other E i None
       (if u_operator u
        then h_oper_command E i (''conversd -1 '' @ u_name u)
               (send_opermsg E (u_name u) (u_nick u) (u_host u) (u_host u) (u_host u) (u_host u) (-1) True (lock_j_unlock_other E i None w))
        else w)"

text \<open>Lines 2226 to 2236: the modes of the channel and the operator, behind a new user.\<close>

definition nj_announce :: "env \<Rightarrow> cid \<Rightarrow> joiner \<Rightarrow> world \<Rightarrow> world" where
  "nj_announce E i u w =
     (let w = (if u_mode u \<noteq> []
               then mode_command E i (dec (u_channel u) @ '' +'' @ u_mode u) (lock_j_unlock_other E i None w) else w)
      in if u_chanop u \<and> \<not> u_observer u
         then send_opermsg E (u_name u) (u_nick u) (u_host u) (u_host u) (u_host u) (u_host u) (u_channel u) True (lock_j_unlock_other E i None w)
         else w)"

text \<open>Lines 2194 to 2259 for the channels in \<open>arg\<close>.\<close>

function nj_loop :: "env \<Rightarrow> cid \<Rightarrow> joiner \<Rightarrow> string \<Rightarrow> world \<Rightarrow> world" where
  "nj_loop E i u arg w =
     (let (chan, r) = getarg arg False in
      if chan = [] then w
      else
        let (chan, u) = nj_channel chan u; (t, r) = getarg r False;
            u = u\<lparr>u_channel := atoi chan, u_time := (if atol t = 0 then w_currtime w else atol t)\<rparr>
        in if \<not> stringisnumber chan \<or> u_channel u < 0 then w
           else
             (case check_join_flood E i (u_name u) (u_host u) (u_channel u) w of
                (ret, w) \<Rightarrow>
                  if ret \<noteq> 0 then w
                  else
                    (case make_new_user E i u w of
                       (False, w) \<Rightarrow> w
                     | (True, w) \<Rightarrow>
                         nj_loop E i (u\<lparr>u_operator := False, u_pers_changed := False, u_nick_changed := False\<rparr>) r
                           (nj_operator E i u (nj_announce E i u w)))))"
  by pat_completeness auto

lemma getarg_rest: "length (snd (getarg s False)) \<le> length s" "fst (getarg s False) \<noteq> [] \<Longrightarrow> length (snd (getarg s False)) < length s"
proof -
  let ?t = "dropWhile isspace s"
  have a: "length ?t \<le> length s" "length (dropWhile (\<lambda>c. \<not> isspace c) ?t) \<le> length ?t" by (rule length_dropWhile_le)+
  then show "length (snd (getarg s False)) \<le> length s" by (simp add: getarg_def Let_def)
  assume "fst (getarg s False) \<noteq> []"
  then have "?t \<noteq> []" by (auto simp: getarg_def strlwr_def Let_def simp del: dropWhile_eq_Nil_conv)
  then have "0 < length ?t" unfolding length_greater_0_conv .
  with a have "length (dropWhile (\<lambda>c. \<not> isspace c) ?t) - 1 < length s" by linarith
  then show "length (snd (getarg s False)) < length s" by (simp add: getarg_def Let_def)
qed

termination nj_loop
proof (relation "measure (\<lambda>(E, i, u, arg, w). length arg)", goal_cases)
  case (2 E i u arg w x chan r y chan' u' z t r' u'')
  then have "length r < length arg" "length r' \<le> length r"
    using getarg_rest(2) [of arg] getarg_rest(1) [of r] by (simp_all add: prod_eq_iff)
  then show ?case by simp
qed simp

declare nj_loop.simps [simp del]

definition h_netjoin_command :: "env \<Rightarrow> cid \<Rightarrow> string \<Rightarrow> world \<Rightarrow> world" where
  "h_netjoin_command E i args w =
     (let line = SL @ ''NJ '' @ args @ [NL];
          (name, r) = getarg args False; (host, r) = getargcs r False in
      if name = [] \<or> host = [] then w
      else
        let (ok, w) = checkhost E i name host True w in
        if \<not> ok then w
        else
          let (mode, r) = getargcs r False in
          if mode = [] \<or> hd host \<in> set ''+-='' then w
          else
            let u = nj_modes name mode (\<not> user_check name)
                      \<lparr>u_name = name, u_host = host, u_channel = 0, u_time = 0, u_mode = [], u_chanop = False, u_operator = False, u_observer = False,
                       u_away = False, u_creator = False, u_pers = [], u_pers_changed = False, u_nick = name, u_nick_changed = False\<rparr>;
                (pers, arg) = nj_pers (dropWhile isspace r);
                u = u\<lparr>u_pers := (case pers of None \<Rightarrow> [] | Some p \<Rightarrow> p), u_pers_changed := (pers \<noteq> None)\<rparr>;
                chan = fst (getarg arg False)
            in if chan = [] \<and> \<not> u_nick_changed u \<and> pers = None \<and> \<not> u_operator u then w
               else
                 let (ret, w) = (if chan \<noteq> [] then check_join_flood E i name host (atoi chan) w else (0, w)) in
                 if ret \<noteq> 0 then w
                 else
                   let w = lock_j_unlock_other E i (Some line) w in
                   if chan \<noteq> [] then nj_loop E i u arg w
                   else nj_operator E i u
                          (snd (change_pers_and_nick E i name host pers (-1) (if u_nick_changed u then Some (u_nick u) else None) True False w)))"

section \<open>The messages USER and OBSV\<close>

definition isgraph :: "char \<Rightarrow> bool" where
  "isgraph c \<longleftrightarrow> 33 \<le> ccode c \<and> ccode c \<le> 126"

record switch =
  t_found :: "cid option"
  t_change :: bool
  t_announce :: bool
  t_pers :: bool

text \<open>Lines 2339 to 2366: one connection, for a user who changes the channel or his personal text.\<close>

definition switch_turn :: "cid \<Rightarrow> string \<Rightarrow> string \<Rightarrow> int \<Rightarrow> int \<Rightarrow> int \<Rightarrow> string \<Rightarrow> connection \<Rightarrow> switch \<Rightarrow> world \<Rightarrow> switch \<times> world" where
  "switch_turn i name host time old new pers p s w =
     (if c_type p \<noteq> CT_USER \<or> c_via p \<noteq> Some i \<or> \<not> strcaseeq (c_name p) name \<or> \<not> strcaseeq (c_host p) host then (s, w)
      else if c_observer p \<and> t_change s then (s, w)
      else
        let s = (if t_found s = None then s\<lparr>t_found := Some (c_id p)\<rparr> else s);
            moves = (\<not> t_change s \<and> c_channel p = old);
            (s, w) = (if \<not> moves then (s, w)
                      else (s\<lparr>t_change := True, t_announce := True, t_found := Some (c_id p)\<rparr>,
                            let w = upd_conn (c_id p) (\<lambda>c. c\<lparr>c_channel := new, c_time := time, c_mtime := time\<rparr>) w
                            in if count_user old w < 1 then destroy_channel old False w else update_channel_history (Some i) old name host w))
        in if (pers = [] \<and> new \<noteq> old) \<or> c_pers p = pers \<or> c_observer p then (s, w)
           else (s\<lparr>t_announce := True, t_pers := True\<rparr>,
                 upd_conn (c_id p) (\<lambda>c. c\<lparr>c_pers := take PERSSIZE pers, c_isauth := (if hd pers = CHR ''~'' then 1 else 2)\<rparr>) w))"

fun switch_walk :: "cid \<Rightarrow> string \<Rightarrow> string \<Rightarrow> int \<Rightarrow> int \<Rightarrow> int \<Rightarrow> string \<Rightarrow> cid list \<Rightarrow> switch \<Rightarrow> world \<Rightarrow> switch \<times> world" where
  "switch_walk i name host time old new pers [] s w = (s, w)"
| "switch_walk i name host time old new pers (j # js) s w =
     (case (case conn w j of None \<Rightarrow> (s, w) | Some p \<Rightarrow> switch_turn i name host time old new pers p s w) of
        (s, w) \<Rightarrow> switch_walk i name host time old new pers js s w)"

definition user_change ::
  "string \<Rightarrow> string \<Rightarrow> string \<Rightarrow> int \<Rightarrow> int \<Rightarrow> string \<Rightarrow> bool \<Rightarrow> int \<Rightarrow> bool \<Rightarrow> change" where
  "user_change name nick host old new pers pers_changed time observer =
     \<lparr>g_name = name, g_nickname = nick, g_host = host, g_old = old, g_new = new, g_pers = pers, g_pers_changed = pers_changed,
      g_time = time, g_observer = observer, g_quits_sent = False, g_chanop = 0, g_nick_changed = False, g_oldnick = nick\<rparr>"

text \<open>Lines 2325 to 2371.\<close>

definition user_switches :: "env \<Rightarrow> cid \<Rightarrow> string \<Rightarrow> string \<Rightarrow> int \<Rightarrow> int \<Rightarrow> int \<Rightarrow> string \<Rightarrow> bool \<Rightarrow> world \<Rightarrow> world" where
  "user_switches E i name host time old new pers is_observer w =
     (let (stop, w) = (if new \<noteq> old then (False, w) else if is_observer then (True, w)
                       else let (r, w) = check_cmd_flood E i name (Some host) SUL_PERS False pers w in (r \<noteq> 0, w));
          pers = (if new = old \<and> pers = [] then ''@'' else pers)
      in if stop then w
         else
           let (s, w) = switch_walk i name host time old new pers (conn_ids w)
                          \<lparr>t_found = None, t_change = (new = old), t_announce = False, t_pers = False\<rparr> w
           in (case Option.bind (t_found s) (conn w) of
                 Some p \<Rightarrow>
                   if t_announce s
                   then send_user_change_msg E (user_change name (c_nickname p) host old new pers (t_pers s) time is_observer) w else w
               | None \<Rightarrow> w))"

text \<open>Lines 2372 to 2419. The search stops at the first session on the channel, whatever its time.\<close>

definition user_leaves :: "env \<Rightarrow> cid \<Rightarrow> string \<Rightarrow> string \<Rightarrow> int \<Rightarrow> int \<Rightarrow> string \<Rightarrow> bool \<Rightarrow> world \<Rightarrow> world" where
  "user_leaves E i name host time old pers is_observer w =
     (let found = find (\<lambda>p. c_type p = CT_USER \<and> c_via p = Some i \<and> strcaseeq (c_name p) name \<and> strcaseeq (c_host p) host \<and>
                            c_channel p = old) (w_connections w)
      in if pers \<noteq> [] \<and> hd pers \<noteq> CHR 0x22 \<and> strstr pers ''<>''
         then (if found = None then w else handle_h_quit_commands E i True (host @ '' '' @ pers) w)
         else
           let w = (case found of None \<Rightarrow> w | Some p \<Rightarrow> upd_conn (c_id p) (\<lambda>c. c\<lparr>c_type := CT_CLOSED, c_channel := -1\<rparr>) w);
               nick = (case found of None \<Rightarrow> name | Some p \<Rightarrow> c_nickname p);
               w = send_user_change_msg E
                     (user_change name nick host old (-1) (if pers = [] then ''/leave'' else pers) True time is_observer) w
           in if count_user old w < 1 then destroy_channel old False w else update_channel_history (Some i) old name host w)"

definition h_user_command :: "env \<Rightarrow> cid \<Rightarrow> string \<Rightarrow> world \<Rightarrow> world" where
  "h_user_command E i args w =
     (let (name, r) = getarg args False; (host, r) = getargcs r False;
          (t, r) = getarg r False; (o', r) = getarg r False; (n, r) = getarg r False; pers = make_pers_consistent (fst (getarg r True));
          time = min (atol t) (w_currtime w);
          old = (if MAXCHANNEL < atoi o' then -1 else atoi o'); new = (if MAXCHANNEL < atoi n then -1 else atoi n)
      in if name = [] \<or> \<not> list_all isgraph name \<or> host = [] \<or> host = ''-1'' \<or> \<not> list_all isgraph host \<or> list_all isdigit host then w
         else
           let (ok, w) = checkhost E i name host (old = -1 \<and> 0 \<le> new) w in
           if \<not> ok \<or> (old = -1 \<and> new = -1) then w
           else
             let word = (case conn w i of None \<Rightarrow> [] | Some cp \<Rightarrow> c_ibuf cp);
                 is_observer = ((3 < length word \<and> tolower (word ! 3) = CHR ''o'') \<or> \<not> user_check name)
             in if 0 \<le> new \<and> 0 \<le> old then user_switches E i name host time old new pers is_observer w
                else if new < 0 \<and> 0 \<le> old then user_leaves E i name host time old pers is_observer w
                else
                  (case check_join_flood E i name host new w of
                     (ret, w) \<Rightarrow>
                       if ret \<noteq> 0 then w
                       else snd (make_new_user E i
                              \<lparr>u_name = name, u_host = host, u_channel = new, u_time = time, u_mode = [], u_chanop = False, u_operator = False,
                               u_observer = is_observer, u_away = False, u_creator = False, u_pers = pers, u_pers_changed = False,
                               u_nick = name, u_nick_changed = False\<rparr> w)))"

end
