(* ===== verification/Hostlink.thy ===== *)
theory Hostlink
  imports Hostuser
begin

text \<open>
  A new neighbour, \<^verbatim>\<open>h_host_command\<close> of \<^verbatim>\<open>host.c\<close>: whether a server that says \<^verbatim>\<open>HOST\<close> is accepted,
  which links are given up for it, and what it is told about destinations, users, channels and bans.
\<close>

section \<open>Admission\<close>

text \<open>Lines 446 to 470 for the groups of a link; \<open>None\<close> is the use of a path name that is not there or
  too long for its buffer.\<close>

fun group_address :: "env \<Rightarrow> int \<Rightarrow> 32 word \<Rightarrow> s_group list \<Rightarrow> bool option" where
  "group_address E port a [] = Some False"
| "group_address E port a (g # gs) =
     (case sg_socket g of
        None \<Rightarrow> None
      | Some s \<Rightarrow>
          let buffer = take 2047 s; q = strchr buffer (CHR '':'');
              named = (case q of None \<Rightarrow> False | Some r \<Rightarrow> atoi (tl r) \<noteq> 0);
              name = (if named then buffer else take 64 buffer @ '':'' @ dec port)
          in if buffer = [] then Some False
             else if q \<noteq> None \<and> (strncaseeq buffer ''unix:'' 5 \<or> strncaseeq buffer ''local:'' 6 \<or> strncaseeq buffer ''ax25:'' 5)
             then group_address E port a gs
             else
               (case build_sockaddr (e_inet_aton E) (e_gethostbyname E) (e_getservbyname E) name of
                  Addr_overrun \<Rightarrow> None
                | Addr (SA_INET b _) \<Rightarrow> if a = b then Some True else group_address E port a gs
                | _ \<Rightarrow> group_address E port a gs))"

definition check_permlink_by_permlink_entry :: "env \<Rightarrow> cid \<Rightarrow> string \<Rightarrow> world \<Rightarrow> bool option" where
  "check_permlink_by_permlink_entry E i name w =
     (case (Option.bind (conn w i) c_addr, Option.bind (find_permlink name w) (perm w)) of
        (Some (SA_INET a _), Some pp) \<Rightarrow>
          if pl_permanent pp \<noteq> 2 then Some False else group_address E (listen_port (w_cfg w)) a (pl_s_groups pp)
      | _ \<Rightarrow> Some False)"

section \<open>Which links are given up\<close>

text \<open>Lines 672 to 696: one cell of the table of links. The state is the cell of the new neighbour.\<close>

definition reorg_turn :: "env \<Rightarrow> cid \<Rightarrow> string \<Rightarrow> nat \<Rightarrow> nat option \<times> world \<Rightarrow> nat option \<times> world" where
  "reorg_turn E i name k = (\<lambda>(mine, w).
     case perm w k of
       None \<Rightarrow> (mine, w)
     | Some pp \<Rightarrow>
         let me = myhostname (w_cfg w);
             e = (case conn w i of None \<Rightarrow> [NL] | Some cp \<Rightarrow> eol cp);
             old = Option.bind (pl_connection pp) (conn w)
         in if pl_connection pp \<noteq> Some i \<and> (case old of None \<Rightarrow> False | Some c \<Rightarrow> c_type c = CT_HOST) \<and> strcaseeq (pl_name pp) name
            then
              let v = the (pl_connection pp);
                  w = snd (fast_write E v (SL @ ''SQUIT '' @ me @ '' '' @ me @ ''<>'' @ name @ '' link reorg (reconnect)'' @ e) 0 w);
                  w = snd (fast_write E v (''*** link reorg: new connection from '' @ name @ e) 0 w)
              in (mine, e_bye E v (me @ ''<>'' @ name @ '' link reorg (reconnect)'') w)
            else
              let w = (if pl_connection pp = Some i \<and> \<not> strcaseeq (pl_name pp) name
                       then upd_perm k (\<lambda>p. p\<lparr>pl_name := take HOSTNAMESIZE name\<rparr>) w else w);
                  pname = (case perm w k of None \<Rightarrow> [] | Some p \<Rightarrow> pl_name p)
              in if strcaseeq pname name
                 then (Some k, if pl_connection pp \<noteq> Some i then upd_perm k (\<lambda>p. p\<lparr>pl_curr_group := -1\<rparr>) w else w)
                 else (mine, w))"

text \<open>The neighbour is told why and closed: the reason is the line without its end.\<close>

definition refuse :: "env \<Rightarrow> cid \<Rightarrow> string \<Rightarrow> world \<Rightarrow> world" where
  "refuse E i s w =
     (case conn w i of None \<Rightarrow> w | Some cp \<Rightarrow> e_bye E i s (snd (fast_write E i (s @ eol cp) 0 w)))"

text \<open>An old link is closed and locked for half an hour, and the new neighbour is asked to come back.\<close>

definition give_up :: "env \<Rightarrow> cid \<Rightarrow> nat \<Rightarrow> nat \<Rightarrow> cid \<Rightarrow> string \<Rightarrow> string \<Rightarrow> string \<Rightarrow> world \<Rightarrow> world" where
  "give_up E i mine k v squit reason ask w =
     (let e = (case conn w i of None \<Rightarrow> [NL] | Some cp \<Rightarrow> eol cp);
          w = e_bye E v reason (snd (fast_write E v (SL @ ''SQUIT '' @ myhostname (w_cfg w) @ '' '' @ squit @ e) 0 w));
          w = refuse E i ask (upd_perm k (\<lambda>p. p\<lparr>pl_locked := True, pl_locked_until := w_currtime w + 1800\<rparr>) w)
      in upd_perm mine (\<lambda>p. p\<lparr>pl_retrytime := w_currtime w + 300, pl_tries := 0\<rparr>) w)"

text \<open>Lines 718 to 753: the links with a higher priority. The first component tells that the new
  neighbour is not accepted; a chain that does not end within the table is the loop without end.\<close>

fun check_up :: "nat \<Rightarrow> env \<Rightarrow> cid \<Rightarrow> string \<Rightarrow> nat \<Rightarrow> nat option \<Rightarrow> world \<Rightarrow> bool \<times> world" where
  "check_up n E i name mine None w = (False, w)"
| "check_up 0 E i name mine (Some k) w = (True, fault w)"
| "check_up (Suc n) E i name mine (Some k) w =
     (case perm w k of
        None \<Rightarrow> (True, fault w)
      | Some pp \<Rightarrow>
          (case Option.bind (pl_connection pp) (conn w) of
             Some c \<Rightarrow>
               if c_type c \<noteq> CT_HOST then check_up n E i name mine (pl_primary pp) w
               else if pl_txtime pp \<noteq> 0 \<or> w_currtime w - c_time c < 120
               then (True, refuse E i (''*** link reorg: prio '' @ pl_name pp @ '' > '' @ name @ '' (old>new); disc new'') w)
               else (True, give_up E i mine k (c_id c) (myhostname (w_cfg w) @ ''<>'' @ pl_name pp @ '' link reorg'')
                             (myhostname (w_cfg w) @ ''<>'' @ take NAMESIZE name @ '': link reorg'')
                             ''*** disconnected old fallback link. please connect again, '' w)
           | None \<Rightarrow> check_up n E i name mine (pl_primary pp) w))"

text \<open>Lines 754 to 780: the links with a lower priority.\<close>

fun check_down :: "nat \<Rightarrow> env \<Rightarrow> cid \<Rightarrow> string \<Rightarrow> nat \<Rightarrow> nat option \<Rightarrow> world \<Rightarrow> bool \<times> world" where
  "check_down n E i name mine None w = (False, w)"
| "check_down 0 E i name mine (Some k) w = (True, fault w)"
| "check_down (Suc n) E i name mine (Some k) w =
     (case perm w k of
        None \<Rightarrow> (True, fault w)
      | Some pp \<Rightarrow>
          (case Option.bind (pl_connection pp) (conn w) of
             Some c \<Rightarrow>
               if c_type c \<noteq> CT_HOST then check_down n E i name mine (pl_backup pp) w
               else let s = myhostname (w_cfg w) @ ''<>'' @ pl_name pp @ '' link reorg: prio < '' @ name
                    in (True, give_up E i mine k (c_id c) s s ''*** disconnected old permlink. please connect again'' w)
           | None \<Rightarrow> check_down n E i name mine (pl_backup pp) w))"

text \<open>Lines 704 to 781.\<close>

definition check_priority :: "env \<Rightarrow> cid \<Rightarrow> string \<Rightarrow> nat \<Rightarrow> world \<Rightarrow> bool \<times> world" where
  "check_priority E i name mine w =
     (case perm w mine of
        None \<Rightarrow> (False, w)
      | Some p \<Rightarrow>
          if pl_locked p
          then (True, refuse E i (''*** sorry, loop prevention. try again in '' @ ts3 (pl_locked_until p - w_currtime w) @ ''.'') w)
          else
            (case check_up (length (w_permarray w)) E i name mine (pl_primary p) w of
               (True, w) \<Rightarrow> (True, w)
             | (False, w) \<Rightarrow> check_down (length (w_permarray w)) E i name mine (pl_backup p) w))"

abbreviation (input) "SOFT_REL8 \<equiv> ''saupp1.62a''"
abbreviation (input) "myfeatures \<equiv> ''Aadmpunfi''"

definition host_line :: "world \<Rightarrow> string" where
  "host_line w = SL @ ''HOST '' @ myhostname (w_cfg w) @ '' '' @ SOFT_REL8 @ '' '' @ myfeatures"

text \<open>Lines 784 to 809: the neighbour is already reached over another link. The code reads the link of the
  destination again after it has written to the new neighbour.\<close>

definition check_known :: "env \<Rightarrow> cid \<Rightarrow> string \<Rightarrow> nat option \<Rightarrow> world \<Rightarrow> bool \<times> world" where
  "check_known E i name mine w =
     (case (Option.bind (Option.bind (find_destination name w) d_link) (perm w), conn w i) of
        (Some l, Some cp) \<Rightarrow>
          (case Option.bind (pl_connection l) (conn w) of
             None \<Rightarrow> (False, w)
           | Some c \<Rightarrow>
               let w = snd (fast_write E i (host_line w @ eol cp) 0 w);
                   info = myhostname (w_cfg w) @ '' detected loop with connecting host '' @ name @ '': HOST '' @ name @ ''. DEST already via '' @ pl_name l;
                   w = h_info_command E i info (snd (fast_write E i (SL @ ''INFO '' @ info @ eol cp) 0 w))
               in (True,
                   case Option.bind (Option.bind (Option.bind (Option.bind (find_destination name w) d_link) (perm w)) pl_connection) (conn w) of
                     None \<Rightarrow> fault w
                   | Some c \<Rightarrow>
                       let bye = ''*** disconnecting: your host is already known via '' @ c_name c @
                                 ''. please disconnect your fallback link, wait a while and try again.'' @ eol cp;
                           w = e_bye E i bye (snd (fast_write E i bye 0 w))
                       in (case mine of
                             None \<Rightarrow> w
                           | Some k \<Rightarrow> upd_perm k (\<lambda>p. p\<lparr>pl_locked := True, pl_locked_until := w_currtime w + 1800\<rparr>) w)))
      | _ \<Rightarrow> (False, w))"

section \<open>What the new neighbour is told\<close>

definition find_active_channel :: "int \<Rightarrow> world \<Rightarrow> channel option" where
  "find_active_channel channel w =
     (case find_channel channel w of Some ch \<Rightarrow> if ch_expires ch = 0 then Some ch else None | None \<Rightarrow> None)"

definition lock_channel :: "int \<Rightarrow> world \<Rightarrow> world" where
  "lock_channel n = upd_channel n (\<lambda>ch. ch\<lparr>ch_locked := True\<rparr>)"

definition chan_plus_mode :: "int \<Rightarrow> bool \<Rightarrow> string \<Rightarrow> world \<Rightarrow> string \<times> world" where
  "chan_plus_mode channel chanop is_creator w =
     (case find_active_channel channel w of
        None \<Rightarrow> (dec channel, w)
      | Some ch \<Rightarrow>
          (dec channel @ (if chanop then '':@'' @ (if strcaseeq is_creator (ch_createby ch) then ''@'' else []) else []) @
             (if \<not> ch_locked ch \<and> ch_flags ch \<noteq> 0 then (if chanop then [] else '':'') @ get_mode_flags (ch_flags ch) else []),
           lock_channel channel w))"

definition announce_channel_mode :: "env \<Rightarrow> cid \<Rightarrow> int \<Rightarrow> world \<Rightarrow> world" where
  "announce_channel_mode E i channel w =
     (case find_active_channel channel w of
        None \<Rightarrow> w
      | Some ch \<Rightarrow>
          if ch_locked ch \<or> get_mode_flags (ch_flags ch) = [] then w
          else lock_channel channel (appendstring E i (SL @ ''MODE '' @ dec (ch_chan ch) @ '' +'' @ get_mode_flags (ch_flags ch) @ [NL]) w))"

definition clear_chan_locks :: "world \<Rightarrow> world" where
  "clear_chan_locks w = w\<lparr>w_channels := map (\<lambda>ch. ch\<lparr>ch_locked := False\<rparr>) (w_channels w)\<rparr>"

text \<open>Lines 887 to 905: the destinations, the near ones first. A pass over the destinations tells those
  with the given number of hops and finds the next number.\<close>

definition tell_dest :: "env \<Rightarrow> cid \<Rightarrow> int \<Rightarrow> string \<Rightarrow> int \<times> world \<Rightarrow> int \<times> world" where
  "tell_dest E i hops k = (\<lambda>(nexthops, w).
     case dest k w of
       None \<Rightarrow> (nexthops, w)
     | Some d \<Rightarrow>
         if d_hops d \<noteq> hops
         then (if hops < d_hops d \<and> (d_hops d < nexthops \<or> nexthops \<le> hops) then d_hops d else nexthops, w)
         else (nexthops,
               if d_rtt d \<noteq> 0 \<and> d_link d \<noteq> None \<and> Option.bind (Option.bind (d_link d) (perm w)) pl_connection \<noteq> Some i \<and> \<not> d_auto_learned d
               then appendstring E i (SL @ ''DEST '' @ d_name d @ '' '' @ dec (d_rtt d + 1) @ '' '' @
                      (if d_rev d \<noteq> [] then d_rev d else ''-'') @ '' '' @ dec (d_hops d) @ '' '' @ d_hisneigh d @ [NL]) w
               else w))"

fun tell_dests :: "nat \<Rightarrow> env \<Rightarrow> cid \<Rightarrow> int \<Rightarrow> world \<Rightarrow> world" where
  "tell_dests 0 E i hops w = fault w"
| "tell_dests (Suc n) E i hops w =
     (let (nexthops, w) = fold (tell_dest E i hops) (dest_names w) (hops, w)
      in if nexthops = hops then w else tell_dests n E i nexthops w)"

text \<open>What a pass over the users carries along: the counter \<^verbatim>\<open>i\<close> and the two marks of a new user.\<close>

record telling =
  l_count :: nat
  l_user_host :: bool
  l_user :: bool

text \<open>Lines 948 to 998: the message \<^verbatim>\<open>NJ\<close> for one connection. It is finished when the next connection belongs to
  another user. The truth value is that the marks are set anew on line 994.\<close>

definition nj_header :: "connection \<Rightarrow> telling \<Rightarrow> string" where
  "nj_header p l =
     (let nick = (\<not> c_observer p \<and> c_name p \<noteq> c_nickname p)
      in SL @ ''NJ '' @ c_name p @ '' '' @ c_host p @ '' '' @
         (if \<not> c_observer p \<and> l_user l \<and> c_operator p \<noteq> 0 then ''o'' else []) @ (if c_observer p then ''r'' else []) @
         (if \<not> c_observer p \<and> c_away p \<noteq> [] then ''a'' else []) @ (if nick then ''+'' @ c_nickname p else ''-''))"

fun nj_channels :: "env \<Rightarrow> cid \<Rightarrow> string \<Rightarrow> (int \<times> bool \<times> int) list \<Rightarrow> world \<Rightarrow> world" where
  "nj_channels E i name [] w = w"
| "nj_channels E i name ((channel, chanop, time) # cls) w =
     (let (s, w) = chan_plus_mode channel chanop name w
      in nj_channels E i name cls (appendstring E i ('' '' @ s @ '' '' @ dec time) w))"

definition tell_netjoin :: "env \<Rightarrow> cid \<Rightarrow> connection \<Rightarrow> bool \<Rightarrow> bool \<Rightarrow> telling \<Rightarrow> world \<Rightarrow> bool \<times> telling \<times> world" where
  "tell_netjoin E i p same other_kind l w =
     (let w = (if l_user_host l then appendstring E i (nj_header p l) w else w);
          cls = (if c_chan_list p = [] then (if 0 \<le> c_channel p then [(c_channel p, c_channelop p, c_time p)] else [])
                 else map (\<lambda>cl. (cl_channel cl, cl_channelop cl, cl_time cl)) (c_chan_list p));
          w = nj_channels E i (c_name p) cls w
      in if \<not> same \<or> other_kind \<or> MAX_CHAN_PER_USER_AND_HOST \<le> l_count l
         then
           let w = (if c_observer p then w else appendstring E i ('' :'' @ (if c_pers p = ''@'' then [] else c_pers p)) w)
           in (same, l\<lparr>l_count := 0\<rparr>, appendstring E i [NL] w)
         else (False, l, w))"

text \<open>Lines 1000 to 1029: the older messages.\<close>

definition tell_user :: "env \<Rightarrow> cid \<Rightarrow> connection \<Rightarrow> connection \<Rightarrow> int \<times> bool \<times> int \<Rightarrow> world \<Rightarrow> world" where
  "tell_user E i cp p = (\<lambda>(channel, chanop, time) w.
     let w = appendstring E i (SL @ (if c_observer p then ''OBSV'' else ''USER'') @ '' '' @ c_name p @ '' '' @ c_host p @ '' '' @ dec time @
               '' -1 '' @ dec channel @ (if c_amprnet cp then '' '' @ c_pers p else []) @ [NL]) w;
         w = announce_channel_mode E i channel w
     in if chanop then appendstring E i (SL @ ''OPER conversd '' @ dec channel @ '' '' @ c_name p @ [NL]) w else w)"

definition tell_old :: "env \<Rightarrow> cid \<Rightarrow> connection \<Rightarrow> connection \<Rightarrow> bool \<Rightarrow> world \<Rightarrow> world" where
  "tell_old E i cp p same_user w =
     (let w = (if c_via p = None then fold (\<lambda>cl. tell_user E i cp p (cl_channel cl, cl_channelop cl, cl_time cl)) (c_chan_list p) w
               else tell_user E i cp p (c_channel p, c_channelop p, c_time p) w)
      in if \<not> same_user \<and> c_operator p \<noteq> 0 then appendstring E i (SL @ ''OPER conversd -1 '' @ c_name p @ [NL]) w else w)"

text \<open>Lines 1034 to 1066: nickname, personal text, away text and filter.\<close>

definition tell_texts :: "env \<Rightarrow> cid \<Rightarrow> connection \<Rightarrow> connection \<Rightarrow> world \<Rightarrow> world" where
  "tell_texts E i cp p w =
     (let who = c_name p @ '' '' @ c_host p; f = c_features cp;
          w = (if flag f FEATURE_SAUPP_I then w
               else
                 let w = (if flag f FEATURE_NICK \<and> c_nickname p \<noteq> [] \<and> \<not> strcaseeq (c_name p) (c_nickname p)
                          then appendstring E i [NL] (appendstring E i (SL @ ''UADD '' @ who @ '' '' @ c_nickname p @
                                 (if c_pers p \<noteq> ''@'' then '' -1 '' @ c_pers p else [])) w)
                          else w)
                 in if \<not> c_amprnet cp \<and> \<not> c_observer p \<and> c_pers p \<noteq> ''@''
                    then appendstring E i (SL @ ''UDAT '' @ who @ '' '' @ c_pers p @ [NL]) w else w);
          w = (if flag f FEATURE_AWAY \<and> c_away p \<noteq> []
               then appendstring E i (SL @ ''AWAY '' @ who @ (if c_oldaway cp then '' 69 '' else '' '') @ dec (c_atime p) @ '' '' @ c_away p @ [NL]) w
               else w)
      in case c_filter p of
           Some s \<Rightarrow> if flag f FEATURE_FILTER \<and> \<not> c_observer p
                     then appendstring E i (SL @ ''FILT '' @ dec (c_filter_time p) @ '' '' @ who @ '' '' @ s @ [NL]) w else w
         | None \<Rightarrow> w)"

text \<open>Lines 935 to 1070: one connection of the sorted walk; \<open>q\<close> is the next one.\<close>

definition tell_turn :: "env \<Rightarrow> cid \<Rightarrow> connection \<Rightarrow> bool \<Rightarrow> connection \<Rightarrow> connection option \<Rightarrow> telling \<Rightarrow> world \<Rightarrow> telling \<times> world" where
  "tell_turn E i cp texts p q l w =
     (if c_type p \<noteq> CT_USER \<or> c_host p = [] then (l, w)
      else
        let same_user = (case q of None \<Rightarrow> False | Some q \<Rightarrow> c_type q = CT_USER \<and> strcaseeq (c_name p) (c_name q));
            same = (same_user \<and> strcaseeq (c_host p) (c_host (the q)));
            marks = (\<lambda>l. l\<lparr>l_user_host := \<not> same, l_user := \<not> same_user\<rparr>)
        in if texts then (marks l, if same then w else tell_texts E i cp p w)
           else if flag (c_features cp) FEATURE_SAUPP_I
           then (case tell_netjoin E i p same (same \<and> c_observer p \<noteq> c_observer (the q)) l w of
                   (True, l, w) \<Rightarrow> (l\<lparr>l_user_host := True, l_user := True\<rparr>, w)
                 | (False, l, w) \<Rightarrow> (marks l, w))
           else (marks l, tell_old E i cp p same_user w))"

text \<open>The walk fetches the next connection before it tells the current one.\<close>

fun tell_walk :: "nat \<Rightarrow> env \<Rightarrow> cid \<Rightarrow> connection \<Rightarrow> bool \<Rightarrow> cid option \<Rightarrow> telling \<Rightarrow> world \<Rightarrow> world" where
  "tell_walk n E i cp texts None l w = w"
| "tell_walk 0 E i cp texts (Some j) l w = fault w"
| "tell_walk (Suc n) E i cp texts (Some j) l w =
     (let (k, w) = sort_connections False (Some j) w;
          (l, w) = (case conn w j of None \<Rightarrow> (l, w) | Some p \<Rightarrow> tell_turn E i cp texts p (Option.bind k (conn w)) l w)
      in tell_walk n E i cp texts k (l\<lparr>l_count := l_count l + 1\<rparr>) w)"

definition tell_users :: "env \<Rightarrow> cid \<Rightarrow> connection \<Rightarrow> bool \<Rightarrow> world \<Rightarrow> world" where
  "tell_users E i cp texts w =
     (let n = length (w_connections w) + 1; (j, w) = sort_connections True None w
      in tell_walk n E i cp texts j \<lparr>l_count = 0, l_user_host = True, l_user = True\<rparr> w)"

definition tell_topics :: "env \<Rightarrow> cid \<Rightarrow> world \<Rightarrow> world" where
  "tell_topics E i w =
     fold (\<lambda>n w. case find_active_channel n w of
                   Some ch \<Rightarrow> if ch_topic ch = [] then w
                              else appendstring E i (SL @ ''TOPI '' @ (if ch_tsetby ch \<noteq> [] then ch_tsetby ch else ''conversd'') @ '' '' @
                                     myhostname (w_cfg w) @ '' '' @ dec (ch_time ch) @ '' '' @ dec (ch_chan ch) @ '' '' @ ch_topic ch @ [NL]) w
                 | None \<Rightarrow> w)
       (map ch_chan (w_channels w)) w"

section \<open>The handler\<close>

definition feature_bits :: "string \<Rightarrow> nat \<Rightarrow> nat" where
  "feature_bits features f =
     fold (\<lambda>(c, b) f. if c \<in> set features then or f b else f)
       [(CHR ''a'', FEATURE_AWAY), (CHR ''A'', FEATURE_AWAY), (CHR ''d'', FEATURE_FWD), (CHR ''m'', FEATURE_MODES),
        (CHR ''p'', FEATURE_LINK), (CHR ''u'', FEATURE_UDAT), (CHR ''n'', FEATURE_NICK), (CHR ''f'', FEATURE_FILTER),
        (CHR ''i'', FEATURE_SAUPP_I)] f"

text \<open>Lines 881 to 1087.\<close>

definition greet_host :: "env \<Rightarrow> cid \<Rightarrow> nat \<Rightarrow> world \<Rightarrow> world" where
  "greet_host E i mine w =
     (case conn w i of
        None \<Rightarrow> w
      | Some cp \<Rightarrow>
          let w = appendstring E i (host_line w @ [NL]) w;
              w = tell_dests (length (w_destinations w) + 1) E i 0 w;
              w = tell_topics E i (tell_users E i cp True (tell_users E i cp False w));
              w = announce_banned_users E i (clear_chan_locks w);
              w = upd_perm mine (\<lambda>p. p\<lparr>pl_txtime := 3, pl_rxtime := -1, pl_waittime := 9, pl_retrytime := w_currtime w\<rparr>) w
          in update_destinations E (Some mine) (c_name cp) 1 (c_rev cp) 0 (myhostname (w_cfg w)) w)"

text \<open>Lines 825 to 879.\<close>

definition accept_host :: "env \<Rightarrow> cid \<Rightarrow> string \<Rightarrow> string \<Rightarrow> string \<Rightarrow> world \<Rightarrow> world" where
  "accept_host E i name rev' features w =
     (let w = upd_conn i (\<lambda>c. c\<lparr>c_type := CT_HOST, c_rev := take NAMESIZE rev'\<rparr>) w;
          w = generate_sul i None (Option.bind (conn w i) c_sul) w;
          w = (case conn w i of None \<Rightarrow> w | Some cp \<Rightarrow> route_cleanup cp w);
          w = upd_conn i (\<lambda>c. let f = feature_bits features (c_features c) in
                c\<lparr>c_charset_in := ISO, c_charset_out := ISO, c_features := f, c_amprnet := CHR ''u'' \<in> set features,
                  c_oldaway := (if flag f FEATURE_AWAY then CHR ''A'' \<notin> set features else c_oldaway c)\<rparr>) w
      in case update_permlinks E name (Some i) 0 w of
           (None, w) \<Rightarrow>
             (case conn w i of
                None \<Rightarrow> w
              | Some cp \<Rightarrow> e_bye E i ''Link table full!'' (snd (fast_write E i (''*** Link table full!'' @ eol cp) 0 w)))
         | (Some mine, w) \<Rightarrow> greet_host E i mine w)"

text \<open>Lines 665 to 823: the other links. The truth value is that the neighbour is not accepted.\<close>

definition check_links :: "env \<Rightarrow> cid \<Rightarrow> string \<Rightarrow> world \<Rightarrow> bool \<times> world" where
  "check_links E i name w =
     (if w_permarray w = [] then (False, w)
      else
        let (mine, w) = fold (reorg_turn E i name) [0..<length (w_permarray w)] (None, w)
        in case (case mine of None \<Rightarrow> (False, w) | Some k \<Rightarrow> check_priority E i name k w) of
             (True, w) \<Rightarrow> (True, w)
           | (False, w) \<Rightarrow> check_known E i name mine w)"

definition h_host_command :: "env \<Rightarrow> cid \<Rightarrow> string \<Rightarrow> world \<Rightarrow> world" where
  "h_host_command E i args w =
     (let (name, r) = getargcs args False; (rev', r) = getarg r False; rev' = (if rev' = [] then ''?'' else rev');
          features = fst (getargcs r False)
      in case conn w i of
           None \<Rightarrow> w
         | Some cp \<Rightarrow>
             if name = [] then w
             else if c_addr cp = None then fault w
             else
               case (if c_hostallowed cp then Some True else check_permlink_by_permlink_entry E i name w) of
                 None \<Rightarrow> fault w
               | Some False \<Rightarrow> w
               | Some True \<Rightarrow>
                   let w = upd_conn i (\<lambda>c. c\<lparr>c_hostallowed := True\<rparr>) w in
                   if strcaseeq name (myhostname (w_cfg w)) then appendstring E i (''you are not me, are you?'' @ [NL]) w
                   else if c_type cp \<noteq> CT_UNKNOWN then w
                   else
                     let w = upd_conn i (\<lambda>c. c\<lparr>c_name := take NAMESIZE name\<rparr>) w;
                         ret = (if c_isauth cp \<noteq> 0 then 0 else check_password (cp\<lparr>c_name := take NAMESIZE name\<rparr>) w)
                     in if ret < 0 then appendstring E i (''Sorry, password incorrect.'' @ [NL]) w
                        else
                          let w = (if c_isauth cp \<noteq> 0 then w else upd_conn i (\<lambda>c. c\<lparr>c_isauth := if ret \<noteq> 0 then 1 else 2\<rparr>) w)
                          in (case check_links E i name w of
                                (True, w) \<Rightarrow> w
                              | (False, w) \<Rightarrow> accept_host E i name rev' features w))"

end
