(* ===== verification/Dispatch.thy ===== *)
theory Dispatch
  imports Hostlink
begin

text \<open>
  The lines of a neighbour: the part of \<^verbatim>\<open>process_input\<close> of \<^verbatim>\<open>conversd.c\<close> that looks up the message in the
  command table and calls its handler. The message \<^verbatim>\<open>LINK\<close> is left out: it only shows the links with
  byte counters that the model does not have.
\<close>

definition HL :: string where
  "HL = [CHR 0xFF, CHR 0x80]"

text \<open>The entries of \<^verbatim>\<open>cmdtable\<close> whose names start with the two marks, in the order of the table.
  \<open>HOST\<close> and \<open>PASS\<close> are for connections that are not yet known, so a neighbour gets nothing for them.
  The parameters are those of the handlers: the logins of the machine, the help file, the machine.\<close>

definition host_table ::
  "env \<Rightarrow> (string \<Rightarrow> bool list option) \<Rightarrow> string option \<Rightarrow> machine \<Rightarrow> (string \<times> (cid \<Rightarrow> string \<Rightarrow> world \<Rightarrow> world) option) list" where
  "host_table E utmp helptext m =
     [(HL @ ''away'', Some (h_away_command E)), (HL @ ''ban'', Some (h_ban_command E)), (HL @ ''cmsg'', Some (h_cmsg_command E)),
      (HL @ ''cdat'', Some h_cdat_command), (HL @ ''dest'', Some (h_dest_command E)), (HL @ ''ecmd'', Some (h_ecmd_command E)),
      (HL @ ''filt'', Some (h_filt_command E)), (HL @ ''help'', Some (h_help_command E helptext)), (HL @ ''host'', Some (\<lambda>i args w. w)),
      (HL @ ''invi'', Some (h_invi_command E utmp)), (HL @ ''info'', Some (h_info_command E)), (HL @ ''link'', None),
      (HL @ ''loop'', Some (h_loop_command E)), (HL @ ''nj'', Some (h_netjoin_command E)), (HL @ ''mode'', Some (mode_command E)),
      (HL @ ''obsv'', Some (h_user_command E)), (HL @ ''oper'', Some (h_oper_command E)), (HL @ ''ping'', Some (\<lambda>i args. h_ping_command E i)),
      (HL @ ''pong'', Some (h_pong_command E)), (HL @ ''rout'', Some (h_rout_command E)), (HL @ ''sysi'', Some (h_sysi_command E m)),
      (HL @ ''topi'', Some (h_topi_command E)), (HL @ ''uadd'', Some (h_uadd_command E)), (HL @ ''udat'', Some (h_udat_command E)),
      (HL @ ''umsg'', Some (h_umsg_command E)), (HL @ ''user'', Some (h_user_command E)), (HL @ ''squit'', Some (h_squit_command E)),
      (HL @ ''uquit'', Some (h_uquit_command E)), (HL @ ''pass'', Some (\<lambda>i args w. w))]"

text \<open>The command word may be abbreviated; the first entry that starts with it counts.\<close>

definition lookup_host :: "(string \<times> 'a) list \<Rightarrow> string \<Rightarrow> 'a option" where
  "lookup_host t word = map_option snd (find (\<lambda>(name, h). strneq name word (length word)) t)"

text \<open>\<^verbatim>\<open>getarg\<close> cuts the input buffer behind the command word; for a message that is not in the table
  the buffer is put together again.\<close>

definition host_dispatch ::
  "env \<Rightarrow> (string \<Rightarrow> bool list option) \<Rightarrow> string option \<Rightarrow> machine \<Rightarrow> cid \<Rightarrow> string \<Rightarrow> world \<Rightarrow> world option" where
  "host_dispatch E utmp helptext m i ibuf w =
     (let (word, r) = getarg (tl ibuf) False; args = take 2039 r;
          cut = (dropWhile (\<lambda>c. \<not> isspace c) (tl ibuf) \<noteq> [])
      in if length word < 4 then Some (set_ibuf i (CHR ''/'' # word) w)
         else
           (case lookup_host (host_table E utmp helptext m) word of
              Some None \<Rightarrow> None
            | Some (Some h) \<Rightarrow> Some (h i args (set_ibuf i (CHR ''/'' # word) w))
            | None \<Rightarrow> Some (h_unknown_command E i (set_ibuf i (CHR ''/'' # word @ (if cut then '' '' @ args else [])) w))))"

text \<open>\<^verbatim>\<open>process_input\<close> for a neighbour that does not speak IRC and a line that starts with the marks. The
  result is \<open>None\<close> for other connections and lines, and for \<^verbatim>\<open>LINK\<close>.\<close>

definition process_host_input ::
  "env \<Rightarrow> (string \<Rightarrow> bool list option) \<Rightarrow> string option \<Rightarrow> machine \<Rightarrow> cid \<Rightarrow> world \<Rightarrow> world option" where
  "process_host_input E utmp helptext m i w =
     (case conn w i of
        None \<Rightarrow> None
      | Some cp \<Rightarrow>
          if c_type cp = CT_CLOSED then Some w
          else if c_type cp \<noteq> CT_HOST \<or> c_ircmode cp \<or> c_observer cp \<or> \<not> strneq (c_ibuf cp) SL 3 then None
          else host_dispatch E utmp helptext m i (c_ibuf cp)
                 (upd_conn i (\<lambda>c. c\<lparr>c_time_processed := w_currtime w\<rparr>) (lock_conn i (clear_locks w))))"

end
