(* ===== verification/Calm.thy ===== *)
theory Calm
  imports Modes
begin

text \<open>
  Operations that bring no new users. A state \<^emph>\<open>calms\<close> an earlier one when it has the same
  connections in the same order, each with the same number, host and link, on no channel that it was not on
  before, and a user only where there was one. Everything but the messages that announce users is calm, the closing of connections
  included; so what is forbidden for all pairs of users stays away under these operations.
\<close>

definition calmer :: "connection \<Rightarrow> connection \<Rightarrow> bool" where
  "calmer c d \<longleftrightarrow>
     c_id c = c_id d \<and> c_host c = c_host d \<and> c_via c = c_via d \<and> (c_type c = CT_USER \<longrightarrow> c_type d = CT_USER) \<and>
     cl_channel ` set (c_chan_list c) \<subseteq> cl_channel ` set (c_chan_list d)"

definition calms :: "world \<Rightarrow> world \<Rightarrow> bool" where
  "calms u w \<longleftrightarrow> list_all2 calmer (w_connections w) (w_connections u)"

lemma calmer_refl: "calmer c c"
  by (simp add: calmer_def)

lemma calmer_trans: "calmer c d \<Longrightarrow> calmer d e \<Longrightarrow> calmer c e"
  by (auto simp: calmer_def)

lemma calms_refl: "calms w w"
  by (simp add: calms_def list_all2_refl calmer_refl)

lemma calms_trans: "calms u v \<Longrightarrow> calms v w \<Longrightarrow> calms u w"
  unfolding calms_def by (rule list_all2_trans [of calmer calmer calmer, rotated]) (auto intro: calmer_trans)

lemma calms_fields [simp]:
  "calms u (w\<lparr>w_next_cid := a\<rparr>) = calms u w" "calms u (w\<lparr>w_permarray := b\<rparr>) = calms u w"
  "calms u (w\<lparr>w_destinations := c\<rparr>) = calms u w" "calms u (w\<lparr>w_channels := d\<rparr>) = calms u w"
  "calms u (w\<lparr>w_banned_users := e\<rparr>) = calms u w" "calms u (w\<lparr>w_static_users := f\<rparr>) = calms u w"
  "calms u (w\<lparr>w_next_sid := g\<rparr>) = calms u w" "calms u (w\<lparr>w_ban_statistic_bans := h\<rparr>) = calms u w"
  "calms u (w\<lparr>w_ban_statistic_last := k\<rparr>) = calms u w" "calms u (w\<lparr>w_last_run := l\<rparr>) = calms u w"
  "calms u (w\<lparr>w_writes := m\<rparr>) = calms u w" "calms u (w\<lparr>w_fault := n\<rparr>) = calms u w"
  "calms u (w\<lparr>w_seed := p\<rparr>) = calms u w"
  by (simp_all add: calms_def)

lemma calms_map: "calms u w \<Longrightarrow> \<forall>c. calmer (f c) c \<Longrightarrow> calms u (w\<lparr>w_connections := map f (w_connections w)\<rparr>)"
proof -
  assume "calms u w" "\<forall>c. calmer (f c) c"
  then have "list_all2 calmer (map f (w_connections w)) (w_connections w)"
    by (simp add: list.rel_map list_all2_refl)
  then have "calms w (w\<lparr>w_connections := map f (w_connections w)\<rparr>)" by (simp add: calms_def)
  from calms_trans [OF \<open>calms u w\<close> this] show ?thesis .
qed

lemma calms_upd_conn: "calms u w \<Longrightarrow> \<forall>c. calmer (f c) c \<Longrightarrow> calms u (upd_conn i f w)"
proof -
  assume "calms u w" "\<forall>c. calmer (f c) c"
  have "list_all2 calmer (update_first P f cs) cs" for P cs
    using \<open>\<forall>c. calmer (f c) c\<close> by (induction cs) (auto simp: calmer_refl list_all2_refl)
  then have "calms w (upd_conn i f w)" by (simp add: calms_def upd_conn_def)
  from calms_trans [OF \<open>calms u w\<close> this] show ?thesis .
qed

lemma calms_conn: "calms u w \<Longrightarrow> conn w i = Some c \<Longrightarrow> \<exists>d. conn u i = Some d \<and> calmer c d"
proof -
  have "\<exists>d. find (\<lambda>c. c_id c = i) ds = Some d \<and> calmer c d" if "list_all2 calmer cs ds" "find (\<lambda>c. c_id c = i) cs = Some c" for cs ds
    using that by (induction rule: list_all2_induct) (auto simp: calmer_def split: if_splits)
  then show "calms u w \<Longrightarrow> conn w i = Some c \<Longrightarrow> \<exists>d. conn u i = Some d \<and> calmer c d" by (simp add: calms_def conn_def)
qed

text \<open>The channels of a connection are replaced by some of those it had.\<close>

lemma calms_shrink:
  assumes "calms u w" "\<forall>d. conn u i = Some d \<longrightarrow> cl_channel ` set cls \<subseteq> cl_channel ` set (c_chan_list d)"
  shows "calms u (upd_conn i (\<lambda>c. c\<lparr>c_chan_list := cls\<rparr>) w)"
proof -
  have "list_all2 calmer (update_first (\<lambda>c. c_id c = i) (\<lambda>c. c\<lparr>c_chan_list := cls\<rparr>) cs) ds"
    if "list_all2 calmer cs ds" "\<forall>d. find (\<lambda>c. c_id c = i) ds = Some d \<longrightarrow> cl_channel ` set cls \<subseteq> cl_channel ` set (c_chan_list d)" for cs ds
    using that by (induction rule: list_all2_induct) (auto simp: calmer_def split: if_splits)
  with assms show ?thesis by (simp add: calms_def conn_def upd_conn_def)
qed

lemma calms_idle: "map idle cs = map idle (w_connections w) \<Longrightarrow> calms w (w\<lparr>w_connections := cs\<rparr>)"
proof -
  assume "map idle cs = map idle (w_connections w)"
  then have "list_all2 (\<lambda>c d. idle c = idle d) cs (w_connections w)"
    by (simp add: list_eq_iff_nth_eq list_all2_conv_all_nth)
  then have "list_all2 calmer cs (w_connections w)"
    by (rule list_all2_mono) (auto simp: calmer_def dest: idle_eqD)
  then show ?thesis by (simp add: calms_def)
qed

locale calm =
  fixes E :: env
  assumes calm_bye: "calms u w \<Longrightarrow> calms u (e_bye E i r w)"

sublocale calm \<subseteq> kept "calms u" E for u
  by unfold_locales (auto simp: calm_bye intro: calms_trans calms_idle)

context calm
begin

lemma calm_lists:
  "calms u w \<Longrightarrow> calms u (upd_sul k f w)" "calms u w \<Longrightarrow> calms u (upd_ban n g w)" "calms u w \<Longrightarrow> calms u (upd_perm k h w)"
  "calms u w \<Longrightarrow> calms u (log_write fd s w)"
  by (simp_all add: upd_sul_def upd_ban_def upd_perm_def log_write_def split: option.split)

lemma calm_set_type: "calms u w \<Longrightarrow> calms u (set_type CT_CLOSED i w)"
  by (simp add: set_type_def calms_upd_conn calmer_def)

lemmas calm_basic = calm_lists calm_bye calm_set_type kept_speech kept_upd_dest kept_upd_channel kept_fault' kept_notify
  kept_update_destinations kept_delay kept_add_history kept_destroy kept_update_channel_history kept_route_cleanup
  kept_netsplit_history kept_send_buffer kept_send_user_change_msg kept_send_quits

lemma calm_update_permlinks: "calms u w \<Longrightarrow> calms u (snd (update_permlinks E name cp isperm w))"
proof -
  have d: "calms u v \<Longrightarrow> calms u (fold (drop_dest E p b) ks v)" for v p b ks
    by (rule kept_fold) (simp_all add: kept_drop_dest)
  show "calms u w \<Longrightarrow> calms u (snd (update_permlinks E name cp isperm w))"
    by (simp add: update_permlinks_def Let_def calm_basic d kept_link_down split: option.split)
qed

text \<open>Closing is calm.\<close>

lemma calm_free_sul_sp: "calms u w \<Longrightarrow> calms u (free_sul_sp i w)"
  by (simp add: free_sul_sp_def calm_basic split: option.split)

lemma calm_leave_channels:
  "calms u w \<Longrightarrow> \<forall>d. conn u (c_id cp) = Some d \<longrightarrow> cl_channel ` set cls \<subseteq> cl_channel ` set (c_chan_list d) \<Longrightarrow>
   calms u (leave_channels E cp reason quits_sent cls w)"
  by (induction cls arbitrary: w) (simp_all add: Let_def calm_basic calms_shrink)

lemma calm_leave_all:
  assumes "calms u w" "conn w i = Some c" "c_id cp = i"
  shows "calms u (leave_channels E cp reason quits_sent (c_chan_list c) w)"
  by (rule calm_leave_channels [OF assms(1)]) (use calms_conn [OF assms(1,2)] assms(3) in \<open>auto simp: calmer_def\<close>)

lemma calm_split_turn: "calms u w \<Longrightarrow> calms u (split_turn E cp reason p w)"
  by (simp add: split_turn_def Let_def calm_basic calm_free_sul_sp calms_upd_conn calmer_def)

lemma calm_bye_command2:
  assumes "calms u w"
  shows "calms u (bye_command2 E i reason w)"
proof (cases "conn w i")
  case (Some cp)
  then have i: "c_id cp = i" by (simp add: conn_SomeD)
  have q: "calms u (set_type CT_CLOSED i w)" "calms u (set_type CT_CLOSED i (send_quits E i (Some (c_name cp)) (c_host cp) reason w))"
    using assms by (simp_all add: calm_basic)
  show ?thesis
    using assms Some calm_leave_all [OF q(1) _ i] calm_leave_all [OF q(2) _ i]
    by (simp add: bye_command2_def Let_def calm_basic drop_sul_via_def calm_update_permlinks kept_for calm_split_turn
        split: option.split conn_type.split)
qed (use assms in \<open>simp add: bye_command2_def\<close>)

end

lemma calms_bye: "calms u w \<Longrightarrow> calms u (bye n E i reason w)"
proof (induction n arbitrary: u i reason w)
  case (Suc n)
  have "calm (E\<lparr>e_bye := bye n E\<rparr>)" by unfold_locales (simp add: Suc.IH)
  from calm.calm_bye_command2 [OF this Suc.prems] show ?case by simp
qed (simp add: fault_def)

interpretation calmly: calm "E\<lparr>e_bye := bye n E\<rparr>" for E n
  by unfold_locales (simp add: calms_bye)

context calm
begin

lemma calm_for: "calms u w \<Longrightarrow> \<forall>p v. calms u v \<longrightarrow> calms u (body p v) \<Longrightarrow> calms u (for_connections body w)"
  by (rule kept_for) auto

lemma calm_fold: "calms u w \<Longrightarrow> \<forall>x v. calms u v \<longrightarrow> calms u (f x v) \<Longrightarrow> calms u (fold f xs w)"
  by (rule kept_fold) auto

text \<open>Messages.\<close>

lemma calm_conns: "calms u w \<Longrightarrow> \<forall>c. calmer (f c) c \<Longrightarrow> calms u (upd_conn i f w)"
  by (rule calms_upd_conn)

lemma calm_add_time_stamp: "calms u w \<Longrightarrow> calms u (add_time_stamp E i w)"
  by (simp add: add_time_stamp_def Let_def calm_basic calm_conns calmer_def split: option.split)

lemma calm_notice_for_irc: "calms u w \<Longrightarrow> calms u (notice_for_irc E cp channel from host h w)"
  by (simp add: notice_for_irc_def Let_def calm_basic split: option.split prod.split)

lemma calm_notice_for_convers: "calms u w \<Longrightarrow> calms u (snd (notice_for_convers E cp from h w))"
  by (cases h) (simp add: notice_for_convers_def Let_def calm_basic)

lemma calm_parse_notice: "calms u w \<Longrightarrow> calms u (snd (parse_notice_for_user E cp channel from host msg w))"
  by (simp add: parse_notice_for_user_def Let_def calm_notice_for_irc calm_notice_for_convers)

lemma calm_dests_behind: "calms u w \<Longrightarrow> calms u (update_dests_behind n E k w)"
proof (induction n arbitrary: k w)
  case (Suc n)
  show ?case
    unfolding update_dests_behind.simps
    by (rule calm_fold [OF Suc.prems]) (simp add: calm_basic Suc.IH split: option.split)
qed (simp add: calm_basic)

lemma calm_learn: "calms u w \<Longrightarrow> calms u (learn_destination_relation_from_route E s w)"
  by (simp add: learn_destination_relation_from_route_def Let_def split_def calm_basic calm_dests_behind
      del: update_dests_behind.simps One_nat_def split: option.split)

lemma calm_interprete:
  assumes "calms u w"
  shows "calms u (snd (interprete_conversd_messages E cp s n w))"
proof -
  note rules = assms calm_learn [OF assms] calm_parse_notice [OF assms] kept_appendstring [OF assms]
  show ?thesis
    unfolding interprete_conversd_messages_def Let_def
    by (simp add: rules split: option.split prod.split)
qed

lemma calm_answered:
  assumes "calms u w" "\<forall>v. calms u v \<longrightarrow> calms u (f v)"
  shows "calms u (case interprete_conversd_messages E cp s n w of (True, w) \<Rightarrow> w | (False, w) \<Rightarrow> f w)"
  using calm_interprete [OF assms(1), of cp s n] assms(2) by (auto split: prod.split bool.split)

lemma calm_local_user_turn:
  assumes "calms u w" "\<forall>t s v. calms u v \<longrightarrow> calms u (answer t s v)"
  shows "calms u (local_user_turn E answer from_orig fromuser fromnick toname s p w)"
  using assms by (simp add: local_user_turn_def Let_def calm_basic)

lemma calm_to_local_user: "calms u w \<Longrightarrow> calms u (send_conversd_to_local_user E toname s w)"
  by (simp add: send_conversd_to_local_user_def calm_for calm_local_user_turn)

lemma calm_deliver_private: "calms u w \<Longrightarrow> calms u (deliver_private E from_orig fromuser fromnick s p w)"
  by (simp add: deliver_private_def Let_def calm_basic calm_add_time_stamp calm_to_local_user calm_answered)

lemma calm_user2_turn: "calms u (snd fw) \<Longrightarrow> calms u (snd (user2_turn E from_orig fromuser fromnick toname s i fw))"
  by (cases fw) (simp add: user2_turn_def Let_def calm_basic calm_deliver_private split: option.split)

lemma calm_deliver_user2: "calms u w \<Longrightarrow> calms u (snd (deliver_user2 E from_orig fromuser fromnick toname s fc w))"
proof -
  have "calms u (snd fw) \<Longrightarrow> calms u (snd (fold (user2_turn E from_orig fromuser fromnick toname s) is fw))" for "is" fw
    by (induction "is" arbitrary: fw) (simp_all add: calm_user2_turn)
  then show "calms u w \<Longrightarrow> ?thesis"
    by (simp add: deliver_user2_def Let_def calm_interprete)
qed

lemma calm_send_msg_to_user2: "calms u w \<Longrightarrow> calms u (send_msg_to_user2 E from_orig fromuser fromnick toname s fc w)"
  using calm_deliver_user2 [of u w from_orig fromuser fromnick toname "take MAX_MSGSIZE s" fc]
  by (cases "deliver_user2 E from_orig fromuser fromnick toname (take MAX_MSGSIZE s) fc w")
    (simp add: send_msg_to_user2_def send_conversd_to_user_def calm_deliver_user2 calm_basic)

lemma calm_send_msg_to_user: "calms u w \<Longrightarrow> calms u (send_msg_to_user E from to s w)"
  by (simp add: send_msg_to_user_def calm_send_msg_to_user2)

lemma calm_channel_turn: "calms u w \<Longrightarrow> calms u (channel_turn E from_orig fromuser fromnick channel s p w)"
  by (simp add: channel_turn_def deliver_channel_def Let_def calm_basic calm_add_time_stamp calm_answered split: option.split)

lemma calm_stamp: "calms u w \<Longrightarrow> calms u (v\<lparr>w_connections := map (stamp_sender now fromuser fromnick) (w_connections w)\<rparr>)"
  using calms_map [of u w "stamp_sender now fromuser fromnick"] by (simp add: calms_def stamp_sender_def calmer_def)

lemma calm_send_msg_to_channel2: "calms u w \<Longrightarrow> calms u (send_msg_to_channel2 E from_orig fromuser fromnick channel s fc w)"
  by (simp add: send_msg_to_channel2_def Let_def calm_for calm_channel_turn calm_stamp calm_basic)

lemma calm_send_msg_to_channel: "calms u w \<Longrightarrow> calms u (send_msg_to_channel E from channel s w)"
  by (simp add: send_msg_to_channel_def calm_send_msg_to_channel2)

lemma calm_away: "calms u w \<Longrightarrow> calms u (send_awaymsg E a b c d e f w)"
  by (simp add: send_awaymsg_def away_turn_def Let_def calm_for calm_basic)

lemma calm_mode: "calms u w \<Longrightarrow> calms u (send_mode E cp channel oldflags w)"
  by (simp add: send_mode_def mode_turn_def Let_def calm_for calm_basic split: option.split)

lemma calm_oper_turn: "calms u w \<Longrightarrow> calms u (oper_turn E a b c d e f n g h k p w)"
  by (simp add: oper_turn_def Let_def calm_basic)

lemma calm_oper: "calms u w \<Longrightarrow> calms u (send_opermsg E a b c d e f n g w)"
  by (simp add: send_opermsg_def Let_def calm_for calm_oper_turn)

lemma calm_topic_turn: "calms u w \<Longrightarrow> calms u (topic_turn E a b c t n s d f p w)"
  by (simp add: topic_turn_def Let_def calm_basic)

lemma calm_topic: "calms u w \<Longrightarrow> calms u (send_topic E a b c t n s w)"
  by (simp add: send_topic_def Let_def calm_for calm_topic_turn calm_basic split: option.split)

lemma calm_server_notice: "calms u w \<Longrightarrow> calms u (send_server_notice E a s b c w)"
  by (simp add: send_server_notice_def calm_for calm_basic)

lemma calm_filter_msg: "calms u w \<Longrightarrow> calms u (send_filter_msg E a b t s w)"
  by (simp add: send_filter_msg_def calm_for calm_basic)

lemmas calm_messages = calm_send_msg_to_user2 calm_send_msg_to_user calm_send_msg_to_channel2 calm_send_msg_to_channel
  calm_away calm_mode calm_oper calm_topic calm_server_notice calm_filter_msg


text \<open>Bans and floods.\<close>

lemma calm_send_ban: "calms u w \<Longrightarrow> calms u (send_ban E i bl w)"
  by (simp add: send_ban_def Let_def calm_basic split: option.split)

lemma calm_announce_banned: "calms u w \<Longrightarrow> calms u (announce_banned_users E i w)"
  by (simp add: announce_banned_users_def calm_fold calm_send_ban)

lemma calm_record_ban: "calms u w \<Longrightarrow> calms u (record_ban name from when minutes reason w)"
  by (simp add: record_ban_def Let_def calm_basic split: option.split)

lemma calm_announce_ban: "calms u w \<Longrightarrow> calms u (announce_ban E name w)"
  by (simp add: announce_ban_def Let_def calm_for calm_send_ban calm_basic split: option.split)

lemma calm_ban_user: "calms u w \<Longrightarrow> calms u (ban_user E user from sulp when minutes reason w)"
  by (simp add: ban_user_def free_sul_delayqueue_def Let_def calm_basic calm_record_ban calm_announce_ban
      split: option.split)

lemma calm_user_banned: "calms u w \<Longrightarrow> calms u (snd (check_user_banned E i cmd w))"
  by (simp add: check_user_banned_def calm_basic split: option.split)

lemma calm_ratelimit: "calms u w \<Longrightarrow> calms u (update_ratelimit k name nick s w)"
  by (simp add: update_ratelimit_def calm_basic split: option.split)

lemma calm_write_frames: "calms u w \<Longrightarrow> calms u (snd (write_frames E fd fs w))"
  by (induction fs arbitrary: w) (auto simp: Let_def calm_basic split: prod.split)

lemma calm_write_broken: "calms u w \<Longrightarrow> calms u (snd (write_broken E i w))"
  by (simp add: write_broken_def Let_def calm_basic calm_conns calmer_def split: option.split)

lemma calm_fast_write: "calms u w \<Longrightarrow> calms u (snd (fast_write E i s fc w))"
proof (cases "conn w i")
  case (Some cp)
  assume "calms u w"
  define v where "v = upd_conn i (\<lambda>c. c\<lparr>c_time_write := w_currtime w\<rparr>) w"
  have v: "calms u v" using \<open>calms u w\<close> by (simp add: v_def calm_conns calmer_def)
  have "calms u (snd (case write_frames E (c_fd cp) fs v of (True, w) \<Rightarrow> (n, w) | (False, w) \<Rightarrow> write_broken E i w))" for fs n
    using calm_write_frames [OF v, of "c_fd cp" fs] by (auto simp: calm_write_broken split: prod.split bool.split)
  with v \<open>calms u w\<close> Some show ?thesis
    by (simp add: fast_write_def v_def [symmetric] Let_def calm_basic calm_conns calmer_def calm_write_broken split: option.split)
qed (simp add: fast_write_def)

lemma calm_complain: "calms u w \<Longrightarrow> calms u (complain_flood E i cmd floods t w)"
  by (simp add: complain_flood_def Let_def calm_basic split: option.split)

lemma calm_delayqueue: "calms u w \<Longrightarrow> calms u (add_to_sul_delayqueue E cp s toname channel name txt w)"
  by (simp add: add_to_sul_delayqueue_def flood_notice_def Let_def calm_basic calm_messages calm_ban_user split: option.split)

lemma calm_msg_flood: "calms u w \<Longrightarrow> calms u (snd (check_msg_flood E i toname channel name nick txt w))"
  by (simp add: check_msg_flood_def start_limit_def Let_def calm_basic calm_delayqueue calm_ratelimit split: option.split)

lemma calm_flood_ban: "calms u w \<Longrightarrow> calms u (cmd_flood_ban E cp k l name host cmd w)"
  by (simp add: cmd_flood_ban_def Let_def calm_basic calm_ban_user calm_fast_write)

lemma calm_cmd_flood: "calms u w \<Longrightarrow> calms u (snd (check_cmd_flood E i name host cmd warn line w))"
  by (simp add: check_cmd_flood_def cmd_flood_rate_def set_cmd_timer_def set_floods_def Let_def calm_basic calm_flood_ban
      calm_complain calm_ratelimit split: option.split)

lemma calm_join_flood: "calms u w \<Longrightarrow> calms u (snd (check_join_flood E i name host channel w))"
proof -
  have j: "calms u v \<Longrightarrow> calms u (snd (join_limit E cp name host channel v))" for cp v
    by (simp add: join_limit_def Let_def calm_basic calm_ban_user)
  show "calms u w \<Longrightarrow> ?thesis"
    by (simp add: check_join_flood_def Let_def split_def calm_basic calm_cmd_flood j split: option.split)
qed

lemmas calm_floods = calm_announce_banned calm_ban_user calm_user_banned calm_ratelimit calm_fast_write calm_msg_flood calm_cmd_flood
  calm_join_flood

lemma calm_generate_sul: "calms u w \<Longrightarrow> calms u (generate_sul i v old w)"
  by (simp add: generate_sul_def relink_sul_def Let_def calm_basic calm_free_sul_sp calm_conns calmer_def split: option.split prod.split)

text \<open>Modes.\<close>

lemma calm_reply: "calms u w \<Longrightarrow> calms u (reply E i a b w)" "calms u w \<Longrightarrow> calms u (prompt_user E i w)"
  by (simp_all add: reply_def prompt_user_def calm_basic split: option.split)

lemma calm_op_upd:
  "calms u w \<Longrightarrow> calms u (upd_conn j (\<lambda>c. c\<lparr>c_channelop := b c,
     c_chan_list := map (\<lambda>cl. if cl_channel cl = n then cl\<lparr>cl_channelop := True\<rparr> else cl) (c_chan_list c)\<rparr>) w)"
  by (rule calm_conns) (auto simp: calmer_def)

lemma calm_op_turn: "calms u (snd fw) \<Longrightarrow> calms u (snd (op_turn cp channel arg p fw))"
  by (cases fw) (simp add: op_turn_def Let_def calm_op_upd calm_conns calmer_def)

lemma calm_op_walk: "calms u w \<Longrightarrow> calms u (snd (op_walk cp channel arg is (f, w)))"
proof (induction "is" arbitrary: f w)
  case (Cons i js)
  define fw where "fw = (case conn w i of None \<Rightarrow> (f, w) | Some p \<Rightarrow> op_turn cp channel arg p (f, w))"
  have "calms u (snd fw)" using Cons.prems calm_op_turn [of u "(f, w)"] by (simp add: fw_def split: option.split)
  then show ?case using Cons.IH [of "snd fw" "fst fw"] by (simp add: fw_def [symmetric])
qed simp

lemma calm_op_name: "calms u w \<Longrightarrow> calms u (op_name E i channel arg w)"
proof (cases "conn w i")
  case (Some cp)
  assume w: "calms u w"
  define v where "v = (if c_type cp = CT_HOST then lock_conn i (clear_locks w) else clear_locks w)"
  obtain f x where fx: "op_walk cp channel arg (conn_ids v) (\<lparr>f_conn = None, f_user = 0, f_changed = False\<rparr>, v) = (f, x)"
    by (cases "op_walk cp channel arg (conn_ids v) (\<lparr>f_conn = None, f_user = 0, f_changed = False\<rparr>, v)")
  have "calms u v" using w by (simp add: v_def calm_basic)
  from calm_op_walk [OF this, of cp channel arg] fx have "calms u x" by (metis snd_conv)
  with Some fx show ?thesis
    by (simp add: op_name_def v_def [symmetric] Let_def calm_basic calm_reply calm_messages split: option.split)
qed (simp add: op_name_def)

lemma calm_op_names: "calms u w \<Longrightarrow> calms u (op_names E i channel arg w)"
proof (induction arg arbitrary: w rule: length_induct)
  case (1 arg)
  let ?a = "op_arg arg"
  have l: "length ?a \<le> length arg" "length (dropWhile (\<lambda>c. c \<noteq> CHR '' '') ?a) \<le> length ?a"
    by (rule op_arg_length, rule length_dropWhile_le)
  have IH: "length b < length arg \<Longrightarrow> calms u v \<Longrightarrow> calms u (op_names E i channel b v)" for b v using "1.IH" by blast
  have "strneq ?a ''+o'' 2 \<Longrightarrow> length (drop 2 ?a) < length arg" using l by (cases ?a) (auto simp: strneq_def)
  moreover have "arg \<noteq> [] \<Longrightarrow> length (tl (dropWhile (\<lambda>c. c \<noteq> CHR '' '') ?a)) < length arg" using l by (cases arg) auto
  ultimately show ?case
    using "1.prems" IH by (subst op_names.simps) (simp add: Let_def calm_basic calm_op_name split: option.split)
qed

lemma calm_mode_chars: "calms u w \<Longrightarrow> calms u (snd (mode_chars E i channel rem arg w))"
  by (induction arg arbitrary: channel rem w) (simp_all add: Let_def calm_op_names calm_reply calm_basic split: option.split)

lemma calm_announce_mode: "calms u w \<Longrightarrow> calms u (announce_mode E i channel old w)"
  by (simp add: announce_mode_def calm_basic calm_messages split: option.split)

lemma calm_mode_change: "calms u w \<Longrightarrow> calms u (mode_change E i channel arg w)"
  by (simp add: mode_change_def Let_def split_def calm_basic calm_reply calm_floods calm_mode_chars calm_announce_mode
      split: option.split bool.split)

lemma calm_mode_command: "calms u w \<Longrightarrow> calms u (mode_command E i args w)"
proof -
  have "calms u w \<Longrightarrow> calms u (mode_show E i n w)" "calms u w \<Longrightarrow> calms u (mode_refused E i n cl w)" for n cl
    by (simp_all add: mode_show_def mode_refused_def Let_def calm_basic calm_reply split: option.split)
  moreover have "calms u w \<Longrightarrow> calms u (irc_user_mode E i arg rest w)" for arg rest
    by (simp add: irc_user_mode_def Let_def calm_basic calm_conns calmer_def split: option.split)
  ultimately show "calms u w \<Longrightarrow> ?thesis"
    by (simp add: mode_command_def mode_channel_def Let_def split_def calm_mode_change calm_basic calm_reply split: option.split)
qed

end

end
