(* ===== verification/Loops.thy ===== *)
theory Loops
  imports Dispatch Calm
begin

text \<open>
  No user is announced over two links. The detector \<^verbatim>\<open>checkhost\<close> lets a neighbour announce users of a host only when
  all users of that host that the server knows came over the same link; so the users of a host never come over
  different links, whatever the neighbours say. Everything a neighbour can send but the announcements is calm.
\<close>

section \<open>The calm messages\<close>

lemma calms_upd_conns: "calms u w \<Longrightarrow> \<forall>c. calmer (f c) c \<Longrightarrow> calms u (upd_conns P f w)"
  unfolding upd_conns_def by (rule calms_map) (simp_all add: calmer_refl)

context calm
begin

lemma calm_set_ibuf: "calms u w \<Longrightarrow> calms u (set_ibuf i s w)"
  by (simp add: set_ibuf_def calm_conns calmer_def)

lemma calm_set_pers_turn: "calms u w \<Longrightarrow> calms u (snd (set_pers_turn E i name host pers j s w))"
  by (simp add: set_pers_turn_def Let_def split_def calm_floods calm_conns calmer_def split: option.split)

lemma calm_set_nick_turn: "calms u w \<Longrightarrow> calms u (snd (set_nick_turn E i name host nick j s w))"
  by (simp add: set_nick_turn_def Let_def split_def calm_floods calm_conns calmer_def split: option.split)

lemma calm_pers_nick_walk: "calms u w \<Longrightarrow> calms u (snd (pers_nick_walk E i name host pers nick js s w))"
  by (induction js arbitrary: s w) (simp_all add: split_def calm_set_pers_turn calm_set_nick_turn split: option.split)

lemma calm_change_pers_and_nick:
  "calms u w \<Longrightarrow> calms u (snd (change_pers_and_nick E i name host pers channel nick announce checked w))"
  by (simp add: change_pers_and_nick_def Let_def split_def calm_basic calm_pers_nick_walk split: option.split)

lemma calm_update_nickname_data: "calms u w \<Longrightarrow> calms u (update_nickname_data E i fromuser fromnick w)"
  by (simp add: update_nickname_data_def calm_basic calm_for calm_change_pers_and_nick split: option.split)

lemma calm_udat: "calms u w \<Longrightarrow> calms u (h_udat_command E i args w)"
  by (simp add: h_udat_command_def Let_def split_def calm_basic calm_change_pers_and_nick)

lemma calm_uadd: "calms u w \<Longrightarrow> calms u (h_uadd_command E i args w)"
  by (simp add: h_uadd_command_def Let_def split_def calm_basic calm_change_pers_and_nick split: option.split)

lemma calm_h_away: "calms u w \<Longrightarrow> calms u (h_away_command E i args w)"
  by (simp add: h_away_command_def Let_def split_def calm_basic calm_floods calm_messages calms_upd_conns calmer_def)

lemma calm_filt: "calms u w \<Longrightarrow> calms u (h_filt_command E i args w)"
  by (simp add: h_filt_command_def Let_def split_def calm_basic calm_messages calms_upd_conns calmer_def)

lemma calm_cdat: "calms u w \<Longrightarrow> calms u (h_cdat_command i args w)"
  by (simp add: h_cdat_command_def Let_def split_def calm_basic)

lemma calm_cmsg: "calms u w \<Longrightarrow> calms u (h_cmsg_command E i args w)"
  by (simp add: h_cmsg_command_def Let_def split_def calm_floods calm_messages calm_update_nickname_data)

lemma calm_umsg: "calms u w \<Longrightarrow> calms u (h_umsg_command E i args w)"
  by (simp add: h_umsg_command_def Let_def split_def calm_floods calm_messages calm_update_nickname_data)

lemma calm_topi: "calms u w \<Longrightarrow> calms u (h_topi_command E i args w)"
  by (simp add: h_topi_command_def Let_def split_def calm_basic calm_floods calm_messages)

lemma calm_info: "calms u w \<Longrightarrow> calms u (h_info_command E i args w)"
  by (simp add: h_info_command_def Let_def split_def calm_basic calm_messages)

lemma calm_unknown: "calms u w \<Longrightarrow> calms u (h_unknown_command E i w)"
  by (simp add: h_unknown_command_def Let_def calm_for calm_basic split: option.split)

lemma calm_ban: "calms u w \<Longrightarrow> calms u (h_ban_command E i args w)"
  by (simp add: h_ban_command_def Let_def split_def calm_unknown calm_set_ibuf calm_floods split: option.split)

lemma calm_ecmd: "calms u w \<Longrightarrow> calms u (h_ecmd_command E i args w)"
  by (simp add: h_ecmd_command_def Let_def split_def calm_unknown calm_set_ibuf calm_basic calm_messages)

lemma calm_lock_link: "calms u w \<Longrightarrow> calms u (lock_link k w)"
  by (simp add: lock_link_def calm_basic)

lemma calm_tell_info: "calms u w \<Longrightarrow> calms u (tell_info E i txt w)"
  by (simp add: tell_info_def calm_basic calm_info calm_floods split: option.split)

lemma calm_loop_handler: "calms u w \<Longrightarrow> calms u (loop_handler E i pl reason user host known w)"
  by (simp add: loop_handler_def Let_def calm_basic calm_lock_link calm_tell_info calm_floods split: option.split)

lemma calm_loop: "calms u w \<Longrightarrow> calms u (h_loop_command E i args w)"
  by (simp add: h_loop_command_def Let_def split_def calm_basic calm_lock_link calm_info calm_floods split: option.split)

lemma calm_accept_squit: "calms u w \<Longrightarrow> calms u (accept_squit E i host gone reason w)"
  by (simp add: accept_squit_def Let_def calm_basic calm_tell_info calm_floods split: option.split)

lemma calm_gone_turn: "calms u w \<Longrightarrow> calms u (gone_turn E i user host reason p w)"
  by (simp add: gone_turn_def Let_def calm_basic calm_conns calmer_def)

lemma calm_quit: "calms u w \<Longrightarrow> calms u (handle_h_quit_commands E i b args w)"
  by (simp add: handle_h_quit_commands_def Let_def split_def calm_basic calm_accept_squit calm_for calm_gone_turn split: option.split)

lemma calm_dest: "calms u w \<Longrightarrow> calms u (h_dest_command E i args w)"
  by (simp add: h_dest_command_def Let_def split_def calm_basic calm_loop_handler split: option.split)

lemma calm_ping: "calms u w \<Longrightarrow> calms u (h_ping_command E i w)"
  by (simp add: h_ping_command_def calm_fold calm_basic split: option.split)

lemma calm_pong: "calms u w \<Longrightarrow> calms u (h_pong_command E i args w)"
  by (simp add: h_pong_command_def Let_def calm_basic split: option.split)

lemma calm_rout: "calms u w \<Longrightarrow> calms u (h_rout_command E i args w)"
proof -
  have "calms u (snd tw) \<Longrightarrow> calms u (snd (rout_turn E target user d tw))" for target user d tw
    by (cases tw) (simp add: rout_turn_def Let_def calm_basic calm_messages split: option.split)
  then have "calms u (snd tw) \<Longrightarrow> calms u (snd (fold (rout_turn E target user) ds tw))" for target user ds tw
    by (induction ds arbitrary: tw) simp_all
  then show "calms u w \<Longrightarrow> ?thesis" by (simp add: h_rout_command_def Let_def split_def calm_basic)
qed

lemma calm_h_oper_walk: "list_all2 calmer (snd (h_oper_walk cfg a n b ps s)) ps"
  by (induction ps arbitrary: s) (auto simp: Let_def split_def h_oper_turn_def calmer_def intro: rev_image_eqI)

lemma calm_h_oper: "calms u w \<Longrightarrow> calms u (h_oper_command E i args w)"
proof -
  have "calms u v \<Longrightarrow> calms u (v\<lparr>w_connections := snd (h_oper_walk cfg a n b (w_connections v) s)\<rparr>)" for v cfg a n b s
    by (erule calms_trans) (simp add: calms_def calm_h_oper_walk)
  then show "calms u w \<Longrightarrow> ?thesis"
    by (simp add: h_oper_command_def Let_def split_def calm_messages calm_basic)
qed

lemma calm_443: "calms u w \<Longrightarrow> calms u (send_invi_response_443 E a b n w)"
  by (simp add: send_invi_response_443_def calm_for calm_basic)

lemma calm_341: "calms u w \<Longrightarrow> calms u (send_invi_response_341 E b t x y n g w)"
  by (simp add: send_invi_response_341_def response_341_turn_def Let_def calm_for calm_basic)

lemma calm_invite_response: "calms u w \<Longrightarrow> calms u (invite_response E x y n b c d g w)"
  by (simp add: invite_response_def Let_def calm_341)

lemma calm_invite_local: "calms u w \<Longrightarrow> calms u (snd (invite_local E x y n js s w))"
proof (induction js arbitrary: s w)
  case (Cons j js)
  then show ?case
    by (cases s) (simp add: Let_def calm_basic calm_conns calmer_def split: option.split)
qed (cases s, simp)

lemma calm_invite_remote: "calms u w \<Longrightarrow> calms u (invite_remote E x y z n w)"
  by (simp add: invite_remote_def calm_for calm_basic split: option.split)

lemma calm_invite_net: "calms u w \<Longrightarrow> calms u (invite_net E x y n w)"
  by (simp add: invite_net_def calm_for calm_basic)

lemma calm_invite_login: "calms u w \<Longrightarrow> calms u (invite_login E utmp x y z n b c d s w)"
  by (cases s) (simp add: invite_login_def Let_def calm_invite_response calm_invite_net)

lemma calm_if: "calms u v \<Longrightarrow> calms u w \<Longrightarrow> calms u (if b then v else w)"
  by simp

lemma calm_invi: "calms u w \<Longrightarrow> calms u (h_invi_command E utmp i args w)"
proof -
  have "calms u v \<Longrightarrow> calms u (send_invite_msg E utmp x y n v)" for x y n v
    unfolding send_invite_msg_def Let_def split_def
    by (intro calm_if calm_443 calm_invite_net calm_invite_local calm_invite_response calm_invite_remote calm_invite_login)
  then show "calms u w \<Longrightarrow> ?thesis"
    by (simp add: h_invi_command_def Let_def split_def calm_basic calm_floods)
qed

lemma calm_help_lines: "calms u w \<Longrightarrow> calms u (snd (help_lines E name search bufs n b c w))"
  by (induction bufs arbitrary: n b c w) (simp_all add: Let_def calm_basic calm_messages)

lemma calm_help: "calms u w \<Longrightarrow> calms u (h_help_command E txt i args w)"
proof -
  have "calms u v \<Longrightarrow> calms u (snd (dohelper_user E txt x y v))" for x y v
    by (simp add: dohelper_user_def calm_basic calm_help_lines split: option.split)
  then show "calms u w \<Longrightarrow> ?thesis"
    by (simp add: h_help_command_def Let_def split_def calm_basic calm_messages calm_unknown calm_set_ibuf)
qed

lemma calm_sysi: "calms u w \<Longrightarrow> calms u (h_sysi_command E m i args w)"
proof -
  have s: "calms u v \<Longrightarrow> calms u (sysi_lines E m user v)" for user v
    by (simp add: sysi_lines_def Let_def calm_basic calm_messages split: option.split)
  have l: "calms u v \<Longrightarrow> calms u (upd_conn i (\<lambda>c. c\<lparr>c_locked := False\<rparr>) v)" for v
    by (simp add: calm_conns calmer_def)
  show "calms u w \<Longrightarrow> ?thesis"
    unfolding h_sysi_command_def Let_def split_def by (intro calm_if calm_unknown calm_set_ibuf s l)
qed

lemmas calm_handlers = calm_mode_command calm_udat calm_uadd calm_h_away calm_filt calm_cdat calm_cmsg calm_umsg calm_topi calm_info
  calm_unknown calm_ban calm_ecmd calm_loop calm_quit calm_dest calm_ping calm_pong calm_rout calm_h_oper calm_invi calm_help calm_sysi

text \<open>The greeting of a new neighbour.\<close>

lemma calm_reorg_turn: "calms u (snd mw) \<Longrightarrow> calms u (snd (reorg_turn E i name k mw))"
  by (cases mw) (simp add: reorg_turn_def Let_def calm_basic calm_floods split: option.split)

lemma calm_refuse: "calms u w \<Longrightarrow> calms u (refuse E i s w)"
  by (simp add: refuse_def calm_basic calm_floods split: option.split)

lemma calm_give_up: "calms u w \<Longrightarrow> calms u (give_up E i mine k v squit reason ask w)"
  by (simp add: give_up_def Let_def calm_basic calm_floods calm_refuse)

lemma calm_check_up: "calms u w \<Longrightarrow> calms u (snd (check_up n E i name mine k w))"
proof (induction n arbitrary: k)
  case 0
  then show ?case by (cases k) (simp_all add: calm_basic)
next
  case (Suc n)
  then show ?case by (cases k) (simp_all add: Let_def calm_basic calm_refuse calm_give_up split: option.split)
qed

lemma calm_check_down: "calms u w \<Longrightarrow> calms u (snd (check_down n E i name mine k w))"
proof (induction n arbitrary: k)
  case 0
  then show ?case by (cases k) (simp_all add: calm_basic)
next
  case (Suc n)
  then show ?case by (cases k) (simp_all add: Let_def calm_basic calm_give_up split: option.split)
qed

lemma calm_check_links: "calms u w \<Longrightarrow> calms u (snd (check_links E i name w))"
proof -
  have f: "calms u (snd mw) \<Longrightarrow> calms u (snd (fold (reorg_turn E i name) ks mw))" for ks mw
    by (induction ks arbitrary: mw) (simp_all add: calm_reorg_turn)
  have p: "calms u v \<Longrightarrow> calms u (snd (check_priority E i name mine v))" for mine v
    by (simp add: check_priority_def split_def calm_refuse calm_check_up calm_check_down split: option.split bool.split)
  have k: "calms u v \<Longrightarrow> calms u (snd (check_known E i name mine v))" for mine v
    by (simp add: check_known_def Let_def calm_basic calm_floods calm_info split: option.split)
  show "calms u w \<Longrightarrow> ?thesis"
    by (simp add: check_links_def Let_def split_def f p k split: option.split bool.split)
qed

lemma calm_tell_channels: "calms u w \<Longrightarrow> calms u (nj_channels E i name cls w)"
proof (induction cls arbitrary: w)
  case (Cons c cls)
  then show ?case
    by (cases c) (simp add: Let_def split_def chan_plus_mode_def lock_channel_def calm_basic split: option.split)
qed simp

lemma calm_tell_user: "calms u w \<Longrightarrow> calms u (tell_user E i cp p c w)"
  by (cases c) (simp add: tell_user_def announce_channel_mode_def lock_channel_def Let_def calm_basic split: option.split)

lemma calm_tell_turn: "calms u w \<Longrightarrow> calms u (snd (tell_turn E i cp texts p q l w))"
proof -
  have "calms u w \<Longrightarrow> calms u (tell_texts E i cp p w)"
    by (simp add: tell_texts_def Let_def calm_basic split: option.split)
  moreover have "calms u w \<Longrightarrow> calms u (tell_old E i cp p b w)" for b
    by (simp add: tell_old_def Let_def calm_basic calm_fold calm_tell_user)
  moreover have "calms u w \<Longrightarrow> calms u (snd (snd (tell_netjoin E i p b c l w)))" for b c
    by (simp add: tell_netjoin_def Let_def calm_basic calm_tell_channels)
  ultimately show "calms u w \<Longrightarrow> ?thesis"
    by (simp add: tell_turn_def Let_def split_def split: option.split bool.split)
qed

lemma calm_sort: "calms u w \<Longrightarrow> calms u (snd (sort_connections b l w))"
  by (simp add: sort_connections_def Let_def calm_basic split: option.split list.split)

lemma calm_tell_walk: "calms u w \<Longrightarrow> calms u (tell_walk n E i cp texts j l w)"
proof (induction n arbitrary: j l w)
  case 0
  then show ?case by (cases j) (simp_all add: calm_basic)
next
  case (Suc n)
  then show ?case by (cases j) (simp_all add: Let_def split_def calm_sort calm_tell_turn split: option.split)
qed

lemma calm_greet_host: "calms u w \<Longrightarrow> calms u (greet_host E i mine w)"
proof -
  have "calms u (snd nw) \<Longrightarrow> calms u (snd (tell_dest E i h k nw))" for h k nw
    by (cases nw) (simp add: tell_dest_def calm_basic split: option.split)
  then have "calms u (snd nw) \<Longrightarrow> calms u (snd (fold (tell_dest E i h) ks nw))" for h ks nw
    by (induction ks arbitrary: nw) simp_all
  then have d: "calms u v \<Longrightarrow> calms u (tell_dests n E i h v)" for n h v
    by (induction n arbitrary: h v) (simp_all add: Let_def split_def calm_basic)
  have "calms u v \<Longrightarrow> calms u (tell_users E i cp b v)" for cp b v
    by (simp add: tell_users_def Let_def split_def calm_tell_walk calm_sort)
  moreover have "calms u v \<Longrightarrow> calms u (tell_topics E i v)" for v
    by (simp add: tell_topics_def calm_fold calm_basic split: option.split)
  ultimately show "calms u w \<Longrightarrow> ?thesis"
    by (simp add: greet_host_def clear_chan_locks_def Let_def d calm_basic calm_floods del: tell_dests.simps split: option.split)
qed

lemma calm_host: "calms u w \<Longrightarrow> calms u (h_host_command E i args w)"
proof -
  have a: "calms u v \<Longrightarrow> calms u (accept_host E i name r f v)" for name r f v
    by (simp add: accept_host_def Let_def split_def calm_basic calm_conns calmer_def calm_generate_sul calm_update_permlinks
        calm_floods calm_greet_host split: option.split)
  show "calms u w \<Longrightarrow> ?thesis"
    by (simp add: h_host_command_def Let_def split_def calm_basic calm_conns calmer_def calm_check_links a split: option.split bool.split)
qed

text \<open>The messages about users.\<close>

lemma calm_checkhost: "calms u w \<Longrightarrow> calms u (snd (checkhost E i name host b w))"
  by (simp add: checkhost_def Let_def calm_basic calm_loop_handler split: option.split)

lemma calm_lock_j: "calms u w \<Longrightarrow> calms u (lock_j_unlock_other E i s w)"
  by (simp add: lock_j_unlock_other_def calm_for calm_basic calm_conns calmer_def split: option.split)

lemma calm_nj_operator: "calms u w \<Longrightarrow> calms u (nj_operator E i j w)"
  by (simp add: nj_operator_def calm_lock_j calm_h_oper calm_messages)

lemma calm_nj_announce: "calms u w \<Longrightarrow> calms u (nj_announce E i j w)"
  by (simp add: nj_announce_def Let_def calm_lock_j calm_mode_command calm_messages)

lemma calm_switch_turn: "calms u w \<Longrightarrow> calms u (snd (switch_turn i name host time old new pers p s w))"
  by (simp add: switch_turn_def Let_def calm_basic calm_conns calmer_def)

lemma calm_switch_walk: "calms u w \<Longrightarrow> calms u (snd (switch_walk i name host time old new pers js s w))"
  by (induction js arbitrary: s w) (simp_all add: split_def calm_switch_turn split: option.split)

lemma calm_user_switches: "calms u w \<Longrightarrow> calms u (user_switches E i name host time old new pers b w)"
  by (simp add: user_switches_def Let_def split_def calm_basic calm_floods calm_switch_walk split: option.split)

lemma calm_user_leaves: "calms u w \<Longrightarrow> calms u (user_leaves E i name host time old pers b w)"
proof -
  have c: "calms u v \<Longrightarrow> calms u (upd_conn j (\<lambda>c. c\<lparr>c_type := CT_CLOSED, c_channel := -1\<rparr>) v)" for j v
    by (simp add: calm_conns calmer_def)
  show "calms u w \<Longrightarrow> ?thesis"
    by (simp add: user_leaves_def Let_def calm_basic calm_quit c split: option.split)
qed

lemma calm_join_channel: "calms u w \<Longrightarrow> calms u (snd (join_channel E j b w))"
  by (simp add: join_channel_def new_channel_def Let_def calm_basic split: option.split)

end

section \<open>No user comes over two links\<close>

definition loop_free :: "world \<Rightarrow> bool" where
  "loop_free w \<longleftrightarrow>
     (\<forall>p \<in> set (w_connections w). \<forall>q \<in> set (w_connections w).
        c_type p = CT_USER \<longrightarrow> c_type q = CT_USER \<longrightarrow> strcaseeq (c_host p) (c_host q) \<longrightarrow> c_via p = c_via q)"

definition owned :: "cid \<Rightarrow> string \<Rightarrow> world \<Rightarrow> bool" where
  "owned i host w \<longleftrightarrow> (\<forall>p \<in> set (w_connections w). c_type p = CT_USER \<longrightarrow> strcaseeq (c_host p) host \<longrightarrow> c_via p = Some i)"

lemma calmsD:
  assumes "calms u w" "p \<in> set (w_connections w)" "c_type p = CT_USER"
  obtains q where "q \<in> set (w_connections u)" "c_type q = CT_USER" "c_host q = c_host p" "c_via q = c_via p"
  using assms by (fastforce simp: calms_def calmer_def list_all2_conv_all_nth in_set_conv_nth)

lemma loop_free_calms: "calms u w \<Longrightarrow> loop_free u \<Longrightarrow> loop_free w"
  unfolding loop_free_def by (metis calmsD)

lemma owned_calms: "calms u w \<Longrightarrow> owned i host u \<Longrightarrow> owned i host w"
  unfolding owned_def by (metis calmsD)

text \<open>The second argument of a line of a neighbour, the host in \<^verbatim>\<open>NJ\<close>, \<^verbatim>\<open>USER\<close> and \<^verbatim>\<open>OBSV\<close>, fits into its field. The
  server compares the argument with the hosts it knows but keeps only as much as fits.\<close>

definition short_host :: "string \<Rightarrow> bool" where
  "short_host ibuf \<longleftrightarrow> length (fst (getargcs (snd (getarg (take 2039 (snd (getarg (tl ibuf) False))) False)) False)) \<le> NAMESIZE"

definition clean :: "cid \<Rightarrow> string \<Rightarrow> world \<Rightarrow> bool" where
  "clean i host w \<longleftrightarrow> loop_free w \<and> owned i host w"

lemma clean_calms: "clean i host u \<Longrightarrow> calms u w \<Longrightarrow> clean i host w"
  by (auto simp: clean_def intro: loop_free_calms owned_calms)

lemma clean_if: "(b \<Longrightarrow> clean i host v) \<Longrightarrow> (\<not> b \<Longrightarrow> clean i host w) \<Longrightarrow> clean i host (if b then v else w)"
  by simp

lemma clean_bool: "clean i host v \<Longrightarrow> clean i host w \<Longrightarrow> clean i host (case b of True \<Rightarrow> v | False \<Rightarrow> w)"
  by (cases b) simp_all

lemma clean_new:
  assumes "clean i host w" "c_host p = host" "c_via p = Some i"
  shows "clean i host (w\<lparr>w_connections := p # w_connections w, w_next_cid := n\<rparr>)" (is "clean i host ?v")
proof -
  have o: "owned i host ?v" using assms by (simp add: clean_def owned_def)
  have "c_via x = c_via y"
    if "x \<in> set (w_connections ?v)" "y \<in> set (w_connections ?v)" "c_type x = CT_USER" "c_type y = CT_USER" "strcaseeq (c_host x) (c_host y)" for x y
  proof (cases "strcaseeq (c_host x) host")
    case True
    with that(5) have "strcaseeq (c_host y) host" by (simp only: strcaseeq_strlwr)
    with True o that show ?thesis unfolding owned_def by metis
  next
    case False
    with that(5) have "x \<noteq> p" "y \<noteq> p" using assms(2) by auto
    then have "x \<in> set (w_connections w)" "y \<in> set (w_connections w)" using that(1,2) by simp_all
    with that(3-5) assms(1) show ?thesis unfolding clean_def loop_free_def by blast
  qed
  with o show ?thesis unfolding clean_def loop_free_def by blast
qed

lemma calms_meet_walk: "list_all2 calmer (snd (snd (meet_walk i u ps m))) ps"
proof (induction ps arbitrary: m)
  case (Cons p ps)
  define q where "q = (if u_operator u \<and> c_operator p = 0 then p\<lparr>c_operator := 1\<rparr> else p)"
  define r where "r = meet_update u q"
  have c: "calmer q p" "calmer r q" by (simp_all add: q_def r_def meet_update_def Let_def calmer_def)
  then have r: "calmer r p" by (rule calmer_trans [rotated])
  have "snd (snd (meet_turn i u p m)) \<in> {p, q, r, r\<lparr>c_mtime := max (c_mtime r) (u_time u)\<rparr>}"
    unfolding meet_turn_def Let_def q_def [symmetric] r_def [symmetric]
    by (simp only: if_distrib [of snd] snd_conv insert_iff simp_thms if_cancel split: if_split)
  then have "calmer (snd (snd (meet_turn i u p m))) p" using c(1) r calmer_refl by (auto simp: calmer_def)
  then show ?case
    using Cons.IH by (simp add: split_def list_all2_refl calmer_refl split: bool.split)
qed simp

lemma calms_inherit_pers: "calms v w \<Longrightarrow> calms v (snd (inherit_pers i u q j b w))"
  by (simp add: inherit_pers_def calms_upd_conn calms_upd_conns calmer_def split: option.split)

lemma clean_enter_user:
  assumes "clean i (u_host u) w" "length (u_host u) \<le> NAMESIZE"
  shows "clean i (u_host u) (snd (enter_user i u m w))"
proof -
  let ?v = "w\<lparr>w_connections := new_conn (w_next_cid w) i u # w_connections w, w_next_cid := w_next_cid w + 1\<rparr>"
  have "clean i (u_host u) ?v" using assms by (intro clean_new) (simp_all add: new_conn_def)
  moreover have "calmer (snd (new_state u b p)) p" "calmer (inherit_rest q p) p" for b p q
    by (simp_all add: new_state_def inherit_rest_def calmer_def Let_def)
  then have "calms ?v (snd (enter_user i u m w))"
    by (simp add: enter_user_def Let_def split_def calms_refl calms_upd_conn calmly.calm_generate_sul calms_inherit_pers split: option.split)
  ultimately show ?thesis by (rule clean_calms)
qed

context calm
begin

lemma checkhost_clean: "loop_free w \<Longrightarrow> checkhost E i name host b w = (True, v) \<Longrightarrow> clean i host v"
proof -
  assume w: "loop_free w" and t: "checkhost E i name host b w = (True, v)"
  then have "owned i host w"
    by (auto simp: checkhost_def owned_def Let_def find_None_iff split: option.splits if_splits)
  moreover have "calms w v" using calm_checkhost [OF calms_refl, of w i name host b] t by simp
  ultimately show ?thesis using w by (simp add: clean_def owned_calms loop_free_calms)
qed

lemma clean_make_new_user:
  assumes "clean i (u_host u) w" "length (u_host u) \<le> NAMESIZE"
  shows "clean i (u_host u) (snd (make_new_user E i u w))"
proof -
  let ?m = "meet_walk i u (w_connections w) \<lparr>m_operator = u_operator u, m_found = None, m_oldnick = []\<rparr>"
  define v where "v = w\<lparr>w_connections := snd (snd ?m)\<rparr>"
  define x where "x = snd (enter_user i u (fst (snd ?m)) v)"
  have "clean i (u_host u) v"
    by (rule clean_calms [OF assms(1)]) (simp add: v_def calms_def calms_meet_walk)
  moreover have x: "clean i (u_host u) x"
    unfolding x_def by (rule clean_enter_user [OF \<open>clean i (u_host u) v\<close> assms(2)])
  moreover have "calms v (snd (make_new_user E i u w)) \<or> calms x (snd (make_new_user E i u w))"
    by (simp add: make_new_user_def v_def [symmetric] x_def [symmetric] Let_def split_def calms_refl calm_basic calm_join_channel
        split: option.split bool.split)
  ultimately show ?thesis by (blast intro: clean_calms)
qed

lemma clean_nj_loop:
  assumes "clean i (u_host u) w" "length (u_host u) \<le> NAMESIZE"
  shows "clean i (u_host u) (nj_loop E i u arg w)"
  using assms
proof (induction arg arbitrary: u w rule: length_induct)
  case (1 arg)
  define chan r where "chan = fst (getarg arg False)" and "r = snd (getarg arg False)"
  define v where "v = (snd (nj_channel chan u))\<lparr>u_channel := atoi (fst (nj_channel chan u)),
    u_time := (if atol (fst (getarg r False)) = 0 then w_currtime w else atol (fst (getarg r False)))\<rparr>"
  define x where "x = snd (check_join_flood E i (u_name v) (u_host v) (u_channel v) w)"
  define y where "y = snd (make_new_user E i v x)"
  have h: "u_host v = u_host u" by (simp add: v_def nj_channel_def Let_def)
  have "calms w x" by (simp add: x_def calm_floods calms_refl)
  then have x: "clean i (u_host v) x" using clean_calms [OF "1.prems"(1)] by (simp add: h)
  then have y: "clean i (u_host u) y" using clean_make_new_user [of i v x] "1.prems"(2) by (simp add: y_def h)
  have "calms y (nj_operator E i v (nj_announce E i v y))" by (simp add: calms_refl calm_nj_operator calm_nj_announce)
  with y have z: "clean i (u_host u) (nj_operator E i v (nj_announce E i v y))" by (rule clean_calms)
  have IH: "clean i (u_host u) (nj_loop E i (v\<lparr>u_operator := False, u_pers_changed := False, u_nick_changed := False\<rparr>) (snd (getarg r False))
      (nj_operator E i v (nj_announce E i v y)))" if "chan \<noteq> []"
  proof -
    have "length (snd (getarg r False)) < length arg"
      using that getarg_rest(2) [of arg] getarg_rest(1) [of r] by (simp add: chan_def r_def)
    with "1.IH" have "clean i (u_host u') y' \<longrightarrow> length (u_host u') \<le> NAMESIZE \<longrightarrow> clean i (u_host u') (nj_loop E i u' (snd (getarg r False)) y')" for u' y'
      by blast
    from this [of "v\<lparr>u_operator := False, u_pers_changed := False, u_nick_changed := False\<rparr>"] z "1.prems"(2) show ?thesis by (simp add: h)
  qed
  show ?case
    unfolding nj_loop.simps [of E i u arg w] Let_def split_def
      chan_def [symmetric] r_def [symmetric] v_def [symmetric] x_def [symmetric] y_def [symmetric]
    by (intro clean_if clean_bool "1.prems"(1) x [unfolded h] y IH)
qed

lemma early: "p \<or> \<not> q \<Longrightarrow> (if p then w else if \<not> q then v else z) \<in> {v, w}"
  by auto

text \<open>The hosts of users are compared in full but kept cut to their field.\<close>

lemma loop_free_netjoin:
  assumes "loop_free w" "length (fst (getargcs (snd (getarg args False)) False)) \<le> NAMESIZE"
  shows "loop_free (h_netjoin_command E i args w)"
proof -
  define host where "host = fst (getargcs (snd (getarg args False)) False)"
  define name where "name = fst (getarg args False)"
  define v where "v = snd (checkhost E i name host True w)"
  have "calms w v" by (simp add: v_def calm_checkhost calms_refl)
  have fin: "loop_free x" if "calms w x" for x by (rule loop_free_calms [OF that assms(1)])
  have l: "length host \<le> NAMESIZE" using assms(2) by (simp add: host_def)
  show ?thesis
  proof (cases "(name = [] \<or> host = []) \<or> \<not> fst (checkhost E i name host True w)")
    case True
    then have "h_netjoin_command E i args w \<in> {v, w}"
      unfolding h_netjoin_command_def Let_def split_def name_def [symmetric] host_def [symmetric] v_def [symmetric]
      by (rule early)
    with assms(1) fin [OF \<open>calms w v\<close>] show ?thesis by auto
  next
    case False
    then have "checkhost E i name host True w = (True, v)" by (simp add: v_def prod_eq_iff)
    with assms(1) have c: "clean i host v" by (rule checkhost_clean)
    have n: "clean i host (nj_loop E i u arg x)" if "calms v x" "u_host u = host" for u arg x
      using clean_nj_loop [of i u x arg] clean_calms [OF c that(1)] that(2) l by simp
    have k: "clean i host x" if "calms v x" for x by (rule clean_calms [OF c that])
    have d: "name \<noteq> []" "host \<noteq> []" "fst (checkhost E i name host True w)" using False by simp_all
    have "clean i host (h_netjoin_command E i args w)"
      unfolding h_netjoin_command_def Let_def split_def name_def [symmetric] host_def [symmetric] v_def [symmetric]
      by (intro clean_if n c)
        (simp_all add: d nj_modes_def Let_def k calms_refl calm_floods calm_lock_j calm_nj_operator calm_change_pers_and_nick)
    then show ?thesis by (simp add: clean_def)
  qed
qed

lemma loop_free_user:
  assumes "loop_free w" "length (fst (getargcs (snd (getarg args False)) False)) \<le> NAMESIZE"
  shows "loop_free (h_user_command E i args w)"
proof -
  define host where "host = fst (getargcs (snd (getarg args False)) False)"
  define name where "name = fst (getarg args False)"
  define r where "r = snd (getarg (snd (getargcs (snd (getarg args False)) False)) False)"
  define old where "old = (if MAXCHANNEL < atoi (fst (getarg r False)) then -1 else atoi (fst (getarg r False)))"
  define new where "new = (if MAXCHANNEL < atoi (fst (getarg (snd (getarg r False)) False)) then -1 else atoi (fst (getarg (snd (getarg r False)) False)))"
  define ck where "ck = checkhost E i name host (old = -1 \<and> 0 \<le> new) w"
  have "calms w (snd ck)" by (simp add: ck_def calm_checkhost calms_refl)
  then have a: "loop_free (snd ck)" by (rule loop_free_calms [OF _ assms(1)])
  have c: "clean i host (snd ck)" if "fst ck"
    using checkhost_clean [OF assms(1), of i name host "old = -1 \<and> 0 \<le> new" "snd ck"] that unfolding ck_def [symmetric] by (simp add: prod_eq_iff)
  have l: "length host \<le> NAMESIZE" using assms(2) by (simp add: host_def)
  have n: "loop_free (snd (make_new_user E i u x))" if "fst ck" "calms (snd ck) x" "u_host u = host" for u x
    using clean_make_new_user [of i u x] clean_calms [OF c [OF that(1)] that(2)] that(3) l by (simp add: clean_def)
  have k: "loop_free x" if "calms (snd ck) x" for x by (rule loop_free_calms [OF that a])
  have i: "loop_free (if b then x else y)" if "b \<Longrightarrow> loop_free x" "\<not> b \<Longrightarrow> loop_free y" for b x y using that by simp
  show ?thesis
    unfolding h_user_command_def Let_def split_def name_def [symmetric] host_def [symmetric] r_def [symmetric] old_def [symmetric]
      new_def [symmetric] ck_def [symmetric]
    by (intro i assms(1) a n) (simp_all add: k calms_refl calm_floods calm_user_switches calm_user_leaves)
qed

lemma short_hostD:
  "short_host ibuf \<Longrightarrow> length (fst (getargcs (snd (getarg (take 2039 (snd (getarg (tl ibuf) False))) False)) False)) \<le> NAMESIZE"
  unfolding short_host_def .

lemma loop_free_dispatch:
  assumes "loop_free w" "short_host ibuf"
    and "host_dispatch E utmp txt m i ibuf w = Some v"
  shows "loop_free v"
proof -
  let ?word = "fst (getarg (tl ibuf) False)" and ?args = "take 2039 (snd (getarg (tl ibuf) False))"
  have s: "loop_free (set_ibuf i s w)" for s by (rule loop_free_calms [OF _ assms(1)]) (simp add: calm_set_ibuf calms_refl)
  have k: "loop_free (f w')" if "\<forall>u v. calms u v \<longrightarrow> calms u (f v)" "loop_free w'" for f w'
    by (rule loop_free_calms [OF _ that(2)]) (simp add: that(1) calms_refl)
  have h: "loop_free (h i ?args w')" if "(n, Some h) \<in> set (host_table E utmp txt m)" "loop_free w'" for n h w'
  proof -
    have "h = h_netjoin_command E \<or> h = h_user_command E \<or> (\<forall>u v. calms u v \<longrightarrow> calms u (h i ?args v))"
      using that(1) by (auto simp: host_table_def h_squit_command_def h_uquit_command_def intro: calm_handlers)
    with loop_free_netjoin [OF that(2) short_hostD [OF assms(2)]] loop_free_user [OF that(2) short_hostD [OF assms(2)]] k [of "h i ?args", OF _ that(2)]
    show ?thesis by blast
  qed
  have f: "\<exists>n. (n, h) \<in> set t" if "lookup_host t word = Some h" for t :: "(string \<times> 'b) list" and word h
    using that by (induction t) (auto simp: lookup_host_def split: if_splits)
  show ?thesis
    using assms(3) s h
    by (auto simp: host_dispatch_def Let_def split_def split: if_splits option.splits dest!: f intro: k calm_handlers)
qed

lemma loop_free_process:
  assumes "loop_free w" "process_host_input E utmp txt m i w = Some v" "\<forall>cp. conn w i = Some cp \<longrightarrow> short_host (c_ibuf cp)"
  shows "loop_free v"
proof (cases "conn w i")
  case (Some cp)
  let ?w = "upd_conn i (\<lambda>c. c\<lparr>c_time_processed := w_currtime w\<rparr>) (lock_conn i (clear_locks w))"
  have "calms w ?w" by (simp add: calm_conns calmer_def calm_basic calms_refl)
  then have "loop_free ?w" using assms(1) by (rule loop_free_calms)
  moreover have "w = v \<or> host_dispatch E utmp txt m i (c_ibuf cp) ?w = Some v"
    using assms(2) Some by (auto simp: process_host_input_def split: if_splits)
  ultimately show ?thesis using assms(1,3) Some loop_free_dispatch by blast
qed (use assms(2) in \<open>simp add: process_host_input_def\<close>)

end

section \<open>Runs\<close>

text \<open>What happens on the links: a line arrives, a line of a neighbour is handled, a server introduces itself,
  a connection ends, time passes.\<close>

inductive link_step :: "env \<Rightarrow> (string \<Rightarrow> bool list option) \<Rightarrow> string option \<Rightarrow> machine \<Rightarrow> world \<Rightarrow> world \<Rightarrow> bool"
  for E :: env and utmp :: "string \<Rightarrow> bool list option" and helptext :: "string option" and m :: machine where
  arrives: "link_step E utmp helptext m w (set_ibuf i s w)"
| heard: "process_host_input E utmp helptext m i w = Some v \<Longrightarrow> conn w i = Some cp \<Longrightarrow> short_host (c_ibuf cp) \<Longrightarrow> link_step E utmp helptext m w v"
| greets: "conn w i = Some cp \<Longrightarrow> c_type cp = CT_UNKNOWN \<Longrightarrow> link_step E utmp helptext m w (h_host_command E i args w)"
| ends: "link_step E utmp helptext m w (e_bye E i reason w)"
| passes: "link_step E utmp helptext m w (w\<lparr>w_currtime := t\<rparr>)"

context calm
begin

lemma loop_free_step: "link_step E utmp txt m w v \<Longrightarrow> loop_free w \<Longrightarrow> loop_free v"
proof (induction rule: link_step.induct)
  case (arrives w i s)
  show ?case by (rule loop_free_calms [OF _ arrives]) (simp add: calm_set_ibuf calms_refl)
next
  case (heard i w v cp)
  then show ?case by (auto intro: loop_free_process)
next
  case (greets w i cp args)
  show ?case by (rule loop_free_calms [OF _ greets(3)]) (simp add: calm_host calms_refl)
next
  case (ends w i reason)
  show ?case by (rule loop_free_calms [OF _ ends]) (simp add: calm_bye calms_refl)
next
  case (passes w t)
  show ?case by (rule loop_free_calms [OF _ passes]) (simp add: calms_def list_all2_refl calmer_refl)
qed

lemma loop_free_run: "(link_step E utmp txt m)\<^sup>*\<^sup>* w v \<Longrightarrow> loop_free w \<Longrightarrow> loop_free v"
  by (induction rule: rtranclp_induct) (auto intro: loop_free_step)

end

text \<open>Two neighbours, with a user behind the first one.\<close>

definition two_links :: world where
  "two_links = (boot_world ''db0tud'' 1000)\<lparr>
     w_connections := [(blank_connection 0 4 1000)\<lparr>c_type := CT_HOST, c_name := ''db0abc''\<rparr>,
                       (blank_connection 1 5 1000)\<lparr>c_type := CT_HOST, c_name := ''db0xyz''\<rparr>,
                       (blank_connection 2 (-1) 1000)\<lparr>c_type := CT_USER, c_name := ''dl1abc'', c_host := ''db0aaa'', c_via := Some 0, c_channel := 7\<rparr>],
     w_next_cid := 3\<rparr>"

definition hello_line :: string where
  "hello_line = SL @ ''USER dl2xyz db0bbb 1000 -1 7''"

lemma two_links_loop_free: "loop_free two_links"
  by (simp add: loop_free_def two_links_def blank_connection_def)

lemma two_links_hears:
  "\<exists>v cp. process_host_input E utmp txt m 1 (set_ibuf 1 hello_line two_links) = Some v \<and>
     conn (set_ibuf 1 hello_line two_links) 1 = Some cp \<and> short_host (c_ibuf cp)"
proof -
  have c: "conn (set_ibuf 1 hello_line two_links) 1 = Some ((blank_connection 1 5 1000)\<lparr>c_type := CT_HOST, c_name := ''db0xyz'', c_ibuf := hello_line\<rparr>)"
    by (simp add: set_ibuf_def upd_conn_def conn_def two_links_def blank_connection_def)
  have g: "getarg (tl hello_line) False = (HL @ ''user'', ''dl2xyz db0bbb 1000 -1 7'')" by code_simp
  have l: "lookup_host (host_table E utmp txt m) (HL @ ''user'') = Some (Some (h_user_command E))"
    by (simp add: lookup_host_def host_table_def HL_def strneq_def)
  have "\<exists>v. host_dispatch E utmp txt m 1 hello_line w = Some v" for w
    unfolding host_dispatch_def Let_def split_def g fst_conv snd_conv l by (simp add: HL_def)
  moreover have "short_host hello_line" by code_simp
  moreover have "strneq hello_line SL 3" by (simp add: hello_line_def strneq_def)
  ultimately show ?thesis unfolding process_host_input_def c by (simp add: blank_connection_def)
qed

text \<open>C14: Whatever the neighbours say, no user comes over two links: in a run of link events from a state in which
  all users of a host came over the same link, all users of a host still come over the same link, as long as the
  hosts that the neighbours name fit into their field.\<close>

theorem neighbours_keep_loop_free:
  "(link_step (E\<lparr>e_bye := bye n E\<rparr>) utmp txt m)\<^sup>*\<^sup>* w v \<Longrightarrow> loop_free w \<Longrightarrow> loop_free v"
  by (rule calmly.loop_free_run)

theorem neighbours_keep_loop_free_witness:
  "\<forall>utmp hlp m. \<exists>v. process_host_input (plain_env\<lparr>e_bye := bye 1 plain_env\<rparr>) utmp hlp m 1 (set_ibuf 1 hello_line two_links) = Some v \<and> loop_free v"
proof (intro allI)
  fix utmp hlp m
  let ?E = "plain_env\<lparr>e_bye := bye 1 plain_env\<rparr>" and ?w = "set_ibuf 1 hello_line two_links"
  from two_links_hears [of ?E utmp hlp m] obtain v cp
    where v: "process_host_input ?E utmp hlp m 1 ?w = Some v" "conn ?w 1 = Some cp" "short_host (c_ibuf cp)" by blast
  have "link_step ?E utmp hlp m two_links ?w" by (rule link_step.arrives)
  moreover have "link_step ?E utmp hlp m ?w v" by (rule link_step.heard [OF v])
  ultimately have "(link_step ?E utmp hlp m)\<^sup>*\<^sup>* two_links v" by (meson converse_rtranclp_into_rtranclp r_into_rtranclp)
  from neighbours_keep_loop_free [OF this two_links_loop_free] v(1)
  show "\<exists>v. process_host_input ?E utmp hlp m 1 ?w = Some v \<and> loop_free v" by blast
qed

end
