(* ===== verification/Packets.thy ===== *)
theory Packets
  imports Config
begin

text \<open>
  The end of the main loop of \<^verbatim>\<open>conversd.c\<close>: what has been queued for a client goes out in packets of at most
  \<^verbatim>\<open>mtu\<close> characters. Blanks at the end of a line are dropped and line ends are converted on the way. That
  \<^verbatim>\<open>select\<close> has found the descriptor writable is the reason for a turn.
\<close>

section \<open>Packets\<close>

definition isblank :: "char \<Rightarrow> bool" where
  "isblank c \<longleftrightarrow> c = CHR '' '' \<or> c = CHR 0x09"

text \<open>Lines 5756 to 5765: one character. Blanks are dropped as far as they are in the buffer.\<close>

definition line_end :: "connection \<Rightarrow> string" where
  "line_end cp = (if c_ircmode cp then [CHR 0x0D, NL] else if c_ax25 cp then [CHR 0x0D] else [NL])"

definition drop_blanks :: "string \<Rightarrow> string" where
  "drop_blanks b = rev (dropWhile isblank (rev b))"

definition put_char :: "connection \<Rightarrow> string \<Rightarrow> char \<Rightarrow> string" where
  "put_char cp b c = (if c = NL then drop_blanks b @ line_end cp else b @ [c])"

text \<open>Lines 5754 to 5776 for one item of the queue: the buffer, and what is left of the item when the buffer
  is full.\<close>

fun fill :: "connection \<Rightarrow> int \<Rightarrow> string \<Rightarrow> string \<Rightarrow> string \<times> string option" where
  "fill cp n b [] = (b, None)"
| "fill cp n b (c # cs) =
     (let b = put_char cp b c in if n \<le> int (length b) then (b, Some cs) else fill cp n b cs)"

text \<open>Lines 5753 to 5780: a packet and the rest of the queue.\<close>

fun collect :: "connection \<Rightarrow> int \<Rightarrow> string \<Rightarrow> string list \<Rightarrow> string \<times> string list" where
  "collect cp n b [] = (b, [])"
| "collect cp n b (d # ds) =
     (case fill cp n b d of
        (b, Some r) \<Rightarrow> (b, if r \<noteq> [] then r # ds else ds)
      | (b, None) \<Rightarrow> collect cp n b ds)"

text \<open>Lines 5750 to 5788. Each packet takes at least one character from the queue; the fuel is their number.\<close>

fun send_packets :: "nat \<Rightarrow> env \<Rightarrow> cid \<Rightarrow> world \<Rightarrow> world" where
  "send_packets 0 E i w = fault w"
| "send_packets (Suc n) E i w =
     (case conn w i of
        None \<Rightarrow> w
      | Some cp \<Rightarrow>
          if c_obuf cp = [] then w
          else
            let (buffer, q) = collect cp (c_mtu cp - (if c_ircmode cp then 1 else 0)) [] (c_obuf cp);
                w = upd_conn i (\<lambda>c. c\<lparr>c_obuf := q\<rparr>) w
            in if buffer = [] then w
               else let (sent, w) = fast_write E i buffer 0 w in if sent = 0 then w else send_packets n E i w)"

abbreviation (input) "COMP_MTU \<equiv> (255 :: int)"
abbreviation (input) "MAX_MTU \<equiv> (1024 :: int)"

text \<open>Lines 5741 to 5747; \<open>None\<close> is the use of an address that is not there.\<close>

definition fix_mtu :: "connection \<Rightarrow> int option" where
  "fix_mtu cp =
     (let comp = flag (c_compress cp) 2 in
      if MAX_MTU < c_mtu cp \<or> c_mtu cp < 1 \<or> (comp \<and> COMP_MTU < c_mtu cp)
      then (case c_addr cp of None \<Rightarrow> None | Some a \<Rightarrow> Some (if family a = AF_AX25 \<or> comp then COMP_MTU else MAX_MTU))
      else Some (c_mtu cp))"

definition write_turn :: "env \<Rightarrow> cid \<Rightarrow> world \<Rightarrow> world" where
  "write_turn E i w =
     (case conn w i of
        None \<Rightarrow> w
      | Some cp \<Rightarrow>
          if c_fd cp < 0 \<or> c_via cp \<noteq> None \<or> c_type cp = CT_CLOSED then w
          else if c_time_write cp = w_currtime w \<and> queuelength (c_obuf cp) < c_mtu cp
          then upd_conn i (\<lambda>c. c\<lparr>c_time_write := c_time_write c - 1\<rparr>) w
          else
            (case fix_mtu cp of
               None \<Rightarrow> fault w
             | Some n \<Rightarrow> send_packets (length (concat (c_obuf cp)) + 1) E i (upd_conn i (\<lambda>c. c\<lparr>c_mtu := n\<rparr>) w)))"

section \<open>What the client gets\<close>

text \<open>A text without the blanks at the ends of its lines, and with the line ends of the connection.\<close>

fun tidy :: "string \<Rightarrow> string" where
  "tidy [] = []"
| "tidy (c # cs) = (if isblank c \<and> take 1 (dropWhile isblank cs) = [NL] then tidy cs else c # tidy cs)"

definition xlate :: "connection \<Rightarrow> string \<Rightarrow> string" where
  "xlate cp s = concat (map (\<lambda>c. if c = NL then line_end cp else [c]) s)"

lemma xlate_simps [simp]:
  "xlate cp [] = []" "xlate cp (s @ t) = xlate cp s @ xlate cp t" "xlate cp (c # s) = (if c = NL then line_end cp else [c]) @ xlate cp s"
  by (simp_all add: xlate_def)

lemma xlate_cong: "line_end cp = line_end cp' \<Longrightarrow> xlate cp s = xlate cp' s"
  by (induction s) simp_all

lemma line_end_ne [simp]: "line_end cp \<noteq> []" "0 < length (line_end cp)"
  by (simp_all add: line_end_def)

lemma not_blank [simp]: "\<not> isblank NL" "isblank c \<Longrightarrow> c \<noteq> NL"
  by (auto simp: isblank_def)

lemma drop_blanks_simps [simp]:
  "drop_blanks [] = []" "drop_blanks (s @ [c]) = (if isblank c then drop_blanks s else s @ [c])"
  by (simp_all add: drop_blanks_def)

lemma drop_blanks_line_end: "drop_blanks (s @ line_end cp) = s @ line_end cp"
  by (simp add: line_end_def drop_blanks_def isblank_def)

lemma xlate_drop_blanks: "xlate cp (drop_blanks s) = drop_blanks (xlate cp s)"
  by (induction s rule: rev_induct) (simp_all add: drop_blanks_line_end)

lemma length_drop_blanks: "length (drop_blanks s) \<le> length s"
  using length_dropWhile_le [of isblank "rev s"] by (simp add: drop_blanks_def)

lemma drop_blanks_split: obtains bs where "s = drop_blanks s @ bs" "list_all isblank bs"
proof
  show "s = drop_blanks s @ rev (takeWhile isblank (rev s))"
    by (simp only: drop_blanks_def rev_append [symmetric] takeWhile_dropWhile_id rev_rev_ident)
  show "list_all isblank (rev (takeWhile isblank (rev s)))"
    by (auto simp: list_all_iff dest: set_takeWhileD)
qed

lemma tidy_blanks: "list_all isblank bs \<Longrightarrow> tidy (s @ bs @ NL # t) = tidy (s @ NL # t)"
proof (induction s)
  case Nil
  then show ?case
  proof (induction bs)
    case (Cons b bs)
    then have "dropWhile isblank (bs @ NL # t) = NL # t" by (auto simp: list_all_iff)
    with Cons show ?case by simp
  qed simp
next
  case (Cons c s)
  have "take 1 (dropWhile isblank (s @ bs @ NL # t)) = take 1 (dropWhile isblank (s @ NL # t))"
  proof (cases "list_all isblank s")
    case True
    with Cons.prems have "dropWhile isblank (s @ bs @ NL # t) = NL # t" "dropWhile isblank (s @ NL # t) = NL # t"
      by (auto simp: list_all_iff)
    then show ?thesis by simp
  next
    case False
    then obtain c where c: "c \<in> set s" "\<not> isblank c" by (auto simp: list_all_iff)
    then have "dropWhile isblank s \<noteq> []" by auto
    then obtain d ds where "dropWhile isblank s = d # ds" by (cases "dropWhile isblank s") blast+
    with c show ?thesis by (simp add: dropWhile_append1)
  qed
  with Cons show ?case by simp
qed

lemma tidy_drop_blanks: "tidy (s @ drop_blanks b @ NL # t) = tidy (s @ b @ NL # t)"
proof -
  obtain bs where bs: "b = drop_blanks b @ bs" "list_all isblank bs" by (rule drop_blanks_split)
  then have "tidy (s @ b @ NL # t) = tidy ((s @ drop_blanks b) @ bs @ NL # t)" by (metis append.assoc)
  with tidy_blanks [OF bs(2), of "s @ drop_blanks b" t] show ?thesis by simp
qed

text \<open>The invariant of the buffer: it is the translation of a text that differs from what was taken from the queue
  by blanks at line ends only.\<close>

definition stands_for :: "string \<Rightarrow> string \<Rightarrow> bool" where
  "stands_for b used \<longleftrightarrow> (\<forall>s t. tidy (s @ b @ t) = tidy (s @ used @ t))"

lemma stands_for_refl: "stands_for b b"
  by (simp add: stands_for_def)

lemma stands_for_append: "stands_for b u \<Longrightarrow> stands_for c v \<Longrightarrow> stands_for (b @ c) (u @ v)"
proof -
  assume b: "stands_for b u" and c: "stands_for c v"
  have "tidy (s @ (b @ c) @ t) = tidy (s @ (u @ v) @ t)" for s t
    using b [unfolded stands_for_def, rule_format, of s "c @ t"] c [unfolded stands_for_def, rule_format, of "s @ u" t] by simp
  then show ?thesis by (simp add: stands_for_def)
qed

lemma put_char_stands:
  assumes "stands_for b u"
  shows "\<exists>b'. put_char cp (xlate cp b) c = xlate cp b' \<and> stands_for b' (u @ [c])"
proof (cases "c = NL")
  case True
  have "stands_for (drop_blanks b @ [NL]) (b @ [NL])"
    by (simp add: stands_for_def tidy_drop_blanks)
  moreover have "stands_for (b @ [NL]) (u @ [NL])" by (rule stands_for_append [OF assms stands_for_refl])
  ultimately have "stands_for (drop_blanks b @ [NL]) (u @ [NL])" by (simp add: stands_for_def)
  with True show ?thesis
    by (intro exI [of _ "drop_blanks b @ [NL]"]) (simp add: put_char_def xlate_drop_blanks)
next
  case False
  with stands_for_append [OF assms stands_for_refl, of "[c]"] show ?thesis
    by (intro exI [of _ "b @ [c]"]) (simp add: put_char_def)
qed

lemma fill_stands:
  assumes "stands_for b u" "fill cp n (xlate cp b) d = (b', r)"
  shows "\<exists>v x. b' = xlate cp x \<and> stands_for x (u @ v) \<and> d = v @ (case r of None \<Rightarrow> [] | Some r \<Rightarrow> r) \<and> (d \<noteq> [] \<longrightarrow> v \<noteq> [])"
  using assms
proof (induction d arbitrary: b u)
  case (Cons c cs)
  from put_char_stands [OF Cons.prems(1), of cp c] obtain x
    where x: "put_char cp (xlate cp b) c = xlate cp x" "stands_for x (u @ [c])" by blast
  show ?case
  proof (cases "n \<le> int (length (xlate cp x))")
    case True
    with Cons.prems(2) x show ?thesis by (intro exI [of _ "[c]"] exI [of _ x]) (auto simp: Let_def)
  next
    case False
    with Cons.prems(2) x(1) have "fill cp n (xlate cp x) cs = (b', r)" by (simp add: Let_def)
    from Cons.IH [OF x(2) this] show ?thesis by (auto intro: exI [of _ "c # _"])
  qed
qed auto

lemma collect_stands:
  assumes "stands_for b u" "collect cp n (xlate cp b) ds = (b', q)" "[] \<notin> set ds"
  shows "\<exists>v x. b' = xlate cp x \<and> stands_for x (u @ v) \<and> concat ds = v @ concat q \<and> (ds \<noteq> [] \<longrightarrow> v \<noteq> []) \<and> [] \<notin> set q"
  using assms
proof (induction ds arbitrary: b u)
  case (Cons d ds)
  obtain f r where f: "fill cp n (xlate cp b) d = (f, r)" by fastforce
  from fill_stands [OF Cons.prems(1) f] obtain v x
    where v: "f = xlate cp x" "stands_for x (u @ v)" "d = v @ (case r of None \<Rightarrow> [] | Some r \<Rightarrow> r)" "v \<noteq> []"
    using Cons.prems(3) by auto
  show ?case
  proof (cases r)
    case None
    with Cons.prems(2) f v have "collect cp n (xlate cp x) ds = (b', q)" by simp
    from Cons.IH [OF v(2) this] Cons.prems(3) obtain v' y
      where "b' = xlate cp y" "stands_for y ((u @ v) @ v')" "concat ds = v' @ concat q" "[] \<notin> set q" by auto
    with None v show ?thesis by (intro exI [of _ "v @ v'"] exI [of _ y]) auto
  next
    case (Some r')
    with Cons.prems(2,3) f v show ?thesis by (intro exI [of _ v] exI [of _ x]) (auto split: if_splits)
  qed
qed auto

lemma tidy_ne: "s \<noteq> [] \<Longrightarrow> tidy s \<noteq> []"
proof (induction s)
  case (Cons c cs)
  then show ?case by (cases "cs = []") simp_all
qed simp

lemma stands_for_ne: "stands_for x v \<Longrightarrow> v \<noteq> [] \<Longrightarrow> xlate cp x \<noteq> []"
proof -
  assume "stands_for x v" "v \<noteq> []"
  then have "tidy x \<noteq> []" unfolding stands_for_def using tidy_ne [of v] by (metis append_Nil append_Nil2)
  then have "x \<noteq> []" by auto
  then show ?thesis by (cases x) simp_all
qed

text \<open>The length of a packet.\<close>

lemma put_char_length: "length (put_char cp b c) \<le> length b + (if c_ircmode cp then 2 else 1)"
  using length_drop_blanks [of b] by (simp add: put_char_def line_end_def)

lemma fill_length:
  assumes "int (length b) < max n 1"
  shows "int (length (fst (fill cp n b d))) \<le> max n 1 + (if c_ircmode cp then 1 else 0)"
    "snd (fill cp n b d) = None \<Longrightarrow> int (length (fst (fill cp n b d))) < max n 1"
  using assms
proof (induction d arbitrary: b)
  case (Cons c cs)
  {
    case 1
    show ?case using Cons.IH(1) [of "put_char cp b c"] put_char_length [of cp b c] 1 by (auto simp: Let_def split: if_splits)
  next
    case 2
    then show ?case using Cons.IH(2) [of "put_char cp b c"] by (auto simp: Let_def split: if_splits)
  }
qed (auto)

lemma collect_length:
  "int (length b) < max n 1 \<Longrightarrow> int (length (fst (collect cp n b ds))) \<le> max n 1 + (if c_ircmode cp then 1 else 0)"
proof (induction ds arbitrary: b)
  case (Cons d ds)
  obtain f r where f: "fill cp n b d = (f, r)" by fastforce
  show ?case
  proof (cases r)
    case None
    with f fill_length(2) [OF Cons.prems, of cp d] have "int (length f) < max n 1" by simp
    from Cons.IH [OF this] f None show ?thesis by simp
  next
    case (Some r)
    with f fill_length(1) [OF Cons.prems, of cp d] show ?thesis by simp
  qed
qed simp

section \<open>The turn of a client that takes everything\<close>

definition takes_all :: "env \<Rightarrow> bool" where
  "takes_all E \<longleftrightarrow> (\<forall>k fd s. e_write E k fd s = int (length s))"

lemma fast_write_all:
  assumes "takes_all E" "conn w i = Some cp" "c_type cp \<noteq> CT_CLOSED" "c_fd cp \<noteq> -1" "\<not> flag (c_compress cp) 2" "s \<noteq> []"
  shows "fast_write E i s 0 w =
    (int (length s), log_write (c_fd cp) s (upd_conn i (\<lambda>c. c\<lparr>c_time_write := w_currtime w\<rparr>) w))"
  using assms by (simp add: fast_write_def takes_all_def Let_def)

text \<open>Of a client only the queue and the time of the last write change; the packets are written in order.\<close>

definition flushed :: "cid \<Rightarrow> connection \<Rightarrow> string list \<Rightarrow> world \<Rightarrow> world" where
  "flushed i cp ps w =
     upd_conn i (\<lambda>c. c\<lparr>c_obuf := [], c_time_write := (if ps = [] then c_time_write c else w_currtime w)\<rparr>)
       (w\<lparr>w_writes := w_writes w @ map (Pair (c_fd cp)) ps\<rparr>)"

lemma upd_conn_upd_conn: "(\<And>c. c_id (g c) = c_id c) \<Longrightarrow> upd_conn i f (upd_conn i g w) = upd_conn i (\<lambda>c. f (g c)) w"
proof -
  assume g: "\<And>c. c_id (g c) = c_id c"
  have "update_first (\<lambda>c. c_id c = i) f (update_first (\<lambda>c. c_id c = i) g cs) = update_first (\<lambda>c. c_id c = i) (\<lambda>c. f (g c)) cs" for cs
    by (induction cs) (simp_all add: g)
  then show ?thesis by (simp add: upd_conn_def)
qed

lemma upd_conn_writes: "upd_conn i f (w\<lparr>w_writes := x\<rparr>) = (upd_conn i f w)\<lparr>w_writes := x\<rparr>"
  by (simp add: upd_conn_def)

lemma send_packets_all:
  assumes "takes_all E" "conn w i = Some cp" "c_type cp \<noteq> CT_CLOSED" "c_fd cp \<noteq> -1" "\<not> flag (c_compress cp) 2"
    and "[] \<notin> set (c_obuf cp)" "length (concat (c_obuf cp)) < n" "1 \<le> c_mtu cp"
  shows "\<exists>ps x. send_packets n E i w = flushed i cp ps w \<and> concat ps = xlate cp x \<and> stands_for x (concat (c_obuf cp)) \<and>
    (\<forall>p\<in>set ps. int (length p) \<le> max 2 (c_mtu cp))"
  using assms
proof (induction n arbitrary: w cp)
  case (Suc n)
  let ?m = "c_mtu cp - (if c_ircmode cp then 1 else 0)"
  obtain b q where b: "collect cp ?m [] (c_obuf cp) = (b, q)" by fastforce
  with collect_stands [of "[]" "[]" cp ?m "c_obuf cp" b q] Suc.prems(6) obtain v x
    where v: "b = xlate cp x" "stands_for x v" "concat (c_obuf cp) = v @ concat q" "c_obuf cp \<noteq> [] \<longrightarrow> v \<noteq> []" "[] \<notin> set q"
    by (auto simp: stands_for_refl)
  show ?case
  proof (cases "c_obuf cp = []")
    case True
    then have "flushed i cp [] w = w" using Suc.prems(2) by (simp add: flushed_def upd_conn_id)
    with True Suc.prems(2) show ?thesis
      by (intro exI [of _ "[]"] exI [of _ "[]"]) (simp add: stands_for_refl)
  next
    case False
    define w' where "w' = log_write (c_fd cp) b (upd_conn i (\<lambda>c. c\<lparr>c_obuf := q, c_time_write := w_currtime w\<rparr>) w)"
    define cp' where "cp' = cp\<lparr>c_obuf := q, c_time_write := w_currtime w\<rparr>"
    have "b \<noteq> []" using stands_for_ne [OF v(2)] v(1,4) False by simp
    then have step: "send_packets (Suc n) E i w = send_packets n E i w'"
      using False Suc.prems b
      by (simp add: Let_def w'_def fast_write_all conn_upd_conn upd_conn_upd_conn log_write_def)
    have cp': "conn w' i = Some cp'" using Suc.prems(2) by (simp add: w'_def cp'_def log_write_def conn_upd_conn conn_def [of "_\<lparr>w_writes := _\<rparr>"] conn_def [symmetric])
    have "length (concat (c_obuf cp')) < n" using Suc.prems(7) v(3,4) False by (cases v) (simp_all add: cp'_def)
    with Suc.IH [OF Suc.prems(1) cp'] Suc.prems(3-5,8) v(5) obtain ps y
      where y: "send_packets n E i w' = flushed i cp' ps w'" "concat ps = xlate cp' y" "stands_for y (concat q)"
        "\<forall>p\<in>set ps. int (length p) \<le> max 2 (c_mtu cp)"
      by (auto simp: cp'_def)
    have "flushed i cp' ps w' = flushed i cp (b # ps) w"
      by (simp add: flushed_def w'_def cp'_def log_write_def upd_conn_writes upd_conn_upd_conn cong: if_cong)
    moreover have "line_end cp' = line_end cp" by (simp add: cp'_def line_end_def)
    then have "xlate cp' y = xlate cp y" by (rule xlate_cong)
    moreover have "stands_for (x @ y) (concat (c_obuf cp))" unfolding v(3) by (rule stands_for_append [OF v(2) y(3)])
    moreover have "int (length b) \<le> max ?m 1 + (if c_ircmode cp then 1 else 0)"
      using collect_length [of "[]" ?m cp "c_obuf cp"] b by simp
    then have "int (length b) \<le> max 2 (c_mtu cp)" by (cases "c_ircmode cp") simp_all
    ultimately show ?thesis using step y v(1) by (intro exI [of _ "b # ps"] exI [of _ "x @ y"]) simp
  qed
qed simp

lemma fix_mtu_range: "fix_mtu cp = Some n \<Longrightarrow> 1 \<le> n \<and> n \<le> MAX_MTU"
  by (auto simp: fix_mtu_def Let_def split: if_splits option.splits)

text \<open>C21: When a client takes everything that is written to it, a turn sends the whole output queue in order: the
  packets put together are the queued text with the line ends of the connection, up to blanks at the ends of lines; no
  packet is longer than the packet length, which is between 1 and 1024 (two characters for the IRC line end are the
  least); afterwards the queue is empty and nothing else has changed.\<close>

theorem write_turn_sends_queue:
  assumes "takes_all E" "conn w i = Some cp" "c_type cp \<noteq> CT_CLOSED" "0 \<le> c_fd cp" "c_via cp = None" "\<not> flag (c_compress cp) 2"
    and "[] \<notin> set (c_obuf cp)" "fix_mtu cp = Some n" "c_time_write cp \<noteq> w_currtime w"
  shows "\<exists>ps x. write_turn E i w = flushed i cp ps (upd_conn i (\<lambda>c. c\<lparr>c_mtu := n\<rparr>) w) \<and> concat ps = xlate cp x \<and>
    tidy x = tidy (concat (c_obuf cp)) \<and> (\<forall>p \<in> set ps. int (length p) \<le> max 2 n \<and> int (length p) \<le> MAX_MTU)"
proof -
  let ?w = "upd_conn i (\<lambda>c. c\<lparr>c_mtu := n\<rparr>) w" and ?c = "cp\<lparr>c_mtu := n\<rparr>"
  have n: "1 \<le> n" "n \<le> MAX_MTU" using fix_mtu_range [OF assms(8)] by simp_all
  have w: "conn ?w i = Some ?c" using assms(2) by (simp add: conn_upd_conn)
  obtain ps x where x: "send_packets (length (concat (c_obuf cp)) + 1) E i ?w = flushed i ?c ps ?w" "concat ps = xlate ?c x"
    "stands_for x (concat (c_obuf cp))" "\<forall>p\<in>set ps. int (length p) \<le> max 2 n"
    using send_packets_all [OF assms(1) w, of "length (concat (c_obuf cp)) + 1"] assms(3,4,6,7) n by auto
  have "write_turn E i w = flushed i cp ps ?w"
    using x(1) assms(2-5,8,9) by (simp add: write_turn_def flushed_def)
  moreover have "xlate ?c x = xlate cp x" by (rule xlate_cong) (simp add: line_end_def)
  moreover have "tidy x = tidy (concat (c_obuf cp))" using x(3) [unfolded stands_for_def, rule_format, of "[]" "[]"] by simp
  ultimately show ?thesis using x(2,4) n by fastforce
qed

definition queue_world :: "bool \<Rightarrow> string list \<Rightarrow> world" where
  "queue_world irc q = (boot_world ''db0tud'' 1000)\<lparr>w_connections :=
     [(blank_connection 0 4 990)\<lparr>c_type := CT_USER, c_name := ''dl1abc'', c_ircmode := irc, c_obuf := q\<rparr>]\<rparr>"

theorem write_turn_sends_queue_witness:
  "\<exists>ps. w_writes (write_turn plain_env 0 (queue_world False [''hello  '' @ [NL], ''you'' @ [NL]])) = map (Pair 4) ps \<and>
     tidy (concat ps) = ''hello'' @ [NL] @ ''you'' @ [NL]"
proof -
  let ?w = "queue_world False [''hello  '' @ [NL], ''you'' @ [NL]]"
  define cp where "cp = (blank_connection 0 4 990)\<lparr>c_type := CT_USER, c_name := ''dl1abc'', c_ircmode := False, c_obuf := [''hello  '' @ [NL], ''you'' @ [NL]]\<rparr>"
  have c: "conn ?w 0 = Some cp" by (simp add: queue_world_def conn_def cp_def blank_connection_def)
  have n: "fix_mtu cp = Some 1024" by (simp add: fix_mtu_def cp_def blank_connection_def flag_def)
  have t: "takes_all plain_env" by (simp add: takes_all_def plain_env_def)
  have f: "c_type cp \<noteq> CT_CLOSED" "0 \<le> c_fd cp" "c_via cp = None" "\<not> flag (c_compress cp) 2" "[] \<notin> set (c_obuf cp)"
    "c_time_write cp \<noteq> w_currtime ?w"
    by (simp_all add: cp_def blank_connection_def flag_def queue_world_def boot_world_def)
  from write_turn_sends_queue [OF t c f(1-5) n f(6)] obtain ps x
    where x: "write_turn plain_env 0 ?w = flushed 0 cp ps (upd_conn 0 (\<lambda>c. c\<lparr>c_mtu := 1024\<rparr>) ?w)" "concat ps = xlate cp x"
      "tidy x = tidy (concat (c_obuf cp))"
    by blast
  have "xlate cp s = s" for s by (induction s) (simp_all add: line_end_def cp_def blank_connection_def)
  with x(2,3) have "tidy (concat ps) = ''hello'' @ [NL] @ ''you'' @ [NL]" by (simp add: cp_def isblank_def)
  moreover have "w_writes (write_turn plain_env 0 ?w) = map (Pair 4) ps"
    unfolding x(1) by (simp add: flushed_def queue_world_def boot_world_def cp_def blank_connection_def)
  ultimately show ?thesis by blast
qed

text \<open>In IRC mode a line end is sent twice when a write takes only a part of a packet: the rest goes back into the
  queue with its line ends already converted and is converted again. Here the first write takes two of four
  characters.\<close>

theorem irc_line_end_doubled:
  "let E = plain_env\<lparr>e_write := (\<lambda>k fd s. if k = 0 then 2 else int (length s))\<rparr>;
       turn = write_turn E 0
   in w_writes (turn (turn (turn (queue_world True [''hi'' @ [NL]])))) =
        [(4, ''hi'' @ [CHR 0x0D, NL]), (4, [CHR 0x0D, CHR 0x0D, NL])]"
  by code_simp

end
