(* ===== verification/Input.thy ===== *)
theory Input
  imports Dispatch Packets
begin

text \<open>
  The middle of the main loop of \<^verbatim>\<open>conversd.c\<close>: idle connections are closed, what has arrived is read, decompressed
  and checked for floods, and the lines of the input queue are handled. The operation that handles a line,
  \<^verbatim>\<open>process_input\<close>, is an argument: its commands are modelled for neighbours only. The queue is a buffer with
  a position that goes through it; between lines \<open>c_ibuf\<close> is what has been collected of the next one.
\<close>

section \<open>Idle connections\<close>

abbreviation (input) "PERMLINK_MAXIDLE \<equiv> (15 * 60 :: int)"
abbreviation (input) "SESSION_INBOUND \<equiv> (1 :: nat)"

definition is_idle :: "int \<Rightarrow> connection \<Rightarrow> bool" where
  "is_idle now cp \<longleftrightarrow>
     (c_type cp = CT_USER \<and> c_idle_timeout cp \<noteq> 0 \<and> c_idle_timeout cp < now - c_time_processed cp) \<or>
     (c_type cp = CT_UNKNOWN \<and> c_session_type cp = SESSION_INBOUND \<and> PERMLINK_MAXIDLE < now - c_time cp)"

definition idle_turn :: "env \<Rightarrow> cid \<Rightarrow> world \<Rightarrow> world" where
  "idle_turn E i w =
     (case conn w i of
        None \<Rightarrow> w
      | Some cp \<Rightarrow>
          if is_idle (w_currtime w) cp
          then e_bye E i ''idle timeout''
                 (snd (fast_write E i
                    (if \<not> c_ircmode cp then ''*** disconnecting: idle timeout'' @ eol cp
                     else '':'' @ myhostname (w_cfg w) @ '' KILL '' @ c_nickname cp @ '' :idle timeout'' @ [CHR 0x0D, NL]) 0 w))
          else w)"

section \<open>Reading\<close>

text \<open>Lines 5615 to 5628: the decompressed frame; \<open>None\<close> where the decoder has no defined result. Behind the
  frame the buffer goes on with an older byte, which the decoder fetches and does not use; when the
  frame is shorter than the mark of a plain text, the comparison sees older bytes.\<close>

definition unpack :: "env \<Rightarrow> string \<Rightarrow> string option" where
  "unpack E d =
     (if length d < 2 \<or> take 4 d = ''*** '' \<or> (length d < 4 \<and> take (length d) ''*** '' = d \<and> e_uninit E) then Some d
      else case decstathuf (string_bytes d @ [0]) (length d) of
             Dec_Ok bs len \<Rightarrow> Some (take len (bytes_string bs))
           | Dec_Error \<Rightarrow> Some d
           | Dec_Undefined \<Rightarrow> None)"

text \<open>Lines 5632 to 5650: the flood check of a user. The truth value is that the connection was closed.\<close>

definition flood_turn :: "env \<Rightarrow> cid \<Rightarrow> connection \<Rightarrow> nat \<Rightarrow> world \<Rightarrow> bool \<times> world" where
  "flood_turn E i cp len w =
     (case c_sul cp of
        None \<Rightarrow> (True, fault w)
      | Some k \<Rightarrow>
          let w = upd_sul k (\<lambda>s. s\<lparr>s_stop_process_until := max (s_stop_process_until s) (w_currtime w)\<rparr>) w;
              me = myhostname (w_cfg w)
          in if FLOODSIZE < int (len + length (c_ibuf cp) + length (c_ibufq cp))
             then
               let w = (if flag (FeatureBAN (w_cfg w)) DO_BAN
                        then ban_user E (c_name cp) me (Some k) (w_currtime w) 15 ''Local Flood'' w else w);
                   w = snd (fast_write E i
                         (if \<not> c_ircmode cp then ''*** Closing Link: '' @ c_name cp @ '' by '' @ me @ '' (Excess Flood)'' @ eol cp
                          else ''ERROR :Closing Link: '' @ c_nickname cp @ '' by '' @ me @ '' (Excess Flood)'' @ [CHR 0x0D, NL]) 0 w)
               in (True, e_bye E i ''Excess Flood'' w)
             else (False, w))"

abbreviation (input) "MAX_IBUFQ_LEN \<equiv> (2048 :: nat)"

text \<open>Lines 5582 to 5665. \<open>rd\<close> is what \<^verbatim>\<open>read\<close> returned, \<open>None\<close> for an error and the empty string for
  the end, \<open>eagain\<close> whether \<^verbatim>\<open>errno\<close> is \<^verbatim>\<open>EAGAIN\<close>. The truth value is that the turn of the
  connection ends here.\<close>

definition read_turn :: "env \<Rightarrow> cid \<Rightarrow> string option \<Rightarrow> bool \<Rightarrow> world \<Rightarrow> bool \<times> world" where
  "read_turn E i rd eagain w =
     (case conn w i of
        None \<Rightarrow> (True, w)
      | Some cp \<Rightarrow>
          if c_type cp = CT_CLOSED then (True, w)
          else if rd = None \<or> rd = Some []
          then (True,
                if eagain then w
                else e_bye E i (if c_type cp = CT_HOST then myhostname (w_cfg w) @ ''<>'' @ c_name cp @ '' broken (read)''
                                else ''link failure'') w)
          else
            let w = upd_conn i (\<lambda>c. c\<lparr>c_time_recv := w_currtime w\<rparr>) w in
            (case (if flag (c_compress cp) 2 then unpack E (the rd) else rd) of
               None \<Rightarrow> (True, fault w)
             | Some buffer \<Rightarrow>
                 let (closed, w) = (if c_type cp = CT_USER then flood_turn E i cp (length buffer) w else (False, w))
                 in if closed then (True, w)
                    else (False, upd_conn i (\<lambda>c. c\<lparr>c_ibufq := take MAX_IBUFQ_LEN (c_ibufq c @ buffer)\<rparr>) w)))"

section \<open>Lines\<close>

text \<open>Lines 5677 to 5678: no more lines of the connection are handled now; \<open>None\<close> is the use of a static user entry
  that is not there.\<close>

definition stops :: "connection \<Rightarrow> world \<Rightarrow> bool option" where
  "stops cp w =
     (if c_type cp = CT_USER \<and> flag (FeatureFLOOD (w_cfg w)) NO_SERVER_FLOOD
      then map_option (\<lambda>s. w_currtime w + int (RateLimitMAX (w_cfg w)) < s_stop_process_until s) (Option.bind (c_sul cp) (sul w))
      else Some (c_type cp = CT_CLOSED))"

abbreviation (input) "LINE_MAX \<equiv> (1019 :: nat)"

text \<open>A line as \<^verbatim>\<open>process_input\<close> sees it ends at the first NUL.\<close>

definition cstr :: "string \<Rightarrow> string" where
  "cstr s = takeWhile (\<lambda>c. c \<noteq> CHR 0x00) s"

definition handle_line :: "(cid \<Rightarrow> world \<Rightarrow> world) \<Rightarrow> cid \<Rightarrow> string \<Rightarrow> string \<Rightarrow> world \<Rightarrow> world" where
  "handle_line P i line rest w = set_ibuf i rest (P i (set_ibuf i (cstr line) w))"

definition handle_enter :: "env \<Rightarrow> cid \<Rightarrow> world \<Rightarrow> world" where
  "handle_enter E i w = upd_conn i (\<lambda>c. c\<lparr>c_time_processed := w_currtime w\<rparr>) (appendprompt E i False w)"

text \<open>Line 5711: a message of a server begins although the line before has no end.\<close>

definition new_line_at :: "string \<Rightarrow> char \<Rightarrow> bool" where
  "new_line_at ib c \<longleftrightarrow> c = CHR 0xFF \<and> 2 < length ib \<and> last ib = CHR ''/''"

text \<open>Lines 5672 to 5724. The queue holds \<open>n\<close> more characters, the buffer \<open>q\<close> is read at position \<open>k\<close>, and \<open>cr\<close>
  tells that the last character ended a line. A character that finds the line full does not move the
  position. When the loop stops, the queue is the first \<open>n\<close> characters of the buffer.\<close>

definition set_queue :: "cid \<Rightarrow> string \<Rightarrow> world \<Rightarrow> world" where
  "set_queue i q = upd_conn i (\<lambda>c. c\<lparr>c_ibufq := q\<rparr>)"

fun input_loop :: "(cid \<Rightarrow> world \<Rightarrow> world) \<Rightarrow> env \<Rightarrow> cid \<Rightarrow> nat \<Rightarrow> string \<Rightarrow> nat \<Rightarrow> bool \<Rightarrow> world \<Rightarrow> world" where
  "input_loop P E i 0 q k cr w = set_queue i [] w"
| "input_loop P E i (Suc n) q k cr w =
     (case conn w i of
        None \<Rightarrow> w
      | Some cp \<Rightarrow>
          (case stops cp w of
             None \<Rightarrow> fault w
           | Some True \<Rightarrow> set_queue i (take (Suc n) q) w
           | Some False \<Rightarrow>
               let c = q ! k; ibuf = c_ibuf cp in
               if c = NL \<or> c = CHR 0x0D
               then input_loop P E i n (take n (drop (Suc k) q)) 0 True
                      (if ibuf \<noteq> [] then handle_line P i ibuf [] w else if \<not> cr then handle_enter E i w else w)
               else
                 let new = new_line_at ibuf c;
                     w = (if new then handle_line P i (butlast ibuf) ''/'' w else w);
                     ibuf = (if new then ''/'' else ibuf)
                 in if length ibuf < LINE_MAX
                    then input_loop P E i n q (Suc k) False (set_ibuf i (ibuf @ [c]) w)
                    else input_loop P E i n q k False w))"

text \<open>Lines 5563 to 5725 for one connection; \<open>ready\<close> is what \<^verbatim>\<open>select\<close> says about its descriptor.\<close>

definition input_turn ::
  "(cid \<Rightarrow> world \<Rightarrow> world) \<Rightarrow> env \<Rightarrow> cid \<Rightarrow> bool \<Rightarrow> string option \<Rightarrow> bool \<Rightarrow> world \<Rightarrow> world" where
  "input_turn P E i ready rd eagain w =
     (case conn w i of
        None \<Rightarrow> w
      | Some cp \<Rightarrow>
          if c_fd cp < 0 \<or> c_via cp \<noteq> None then w
          else
            let w = idle_turn E i w;
                (done', w) = (if ready then read_turn E i rd eagain w else (False, w));
                q = (case conn w i of None \<Rightarrow> [] | Some cp \<Rightarrow> c_ibufq cp)
            in if done' then w else input_loop P E i (length q) q 0 False w)"

section \<open>The lines of the queue\<close>

text \<open>What the loop makes of a text when \<open>ib\<close> has been collected: lines, and line ends alone.\<close>

datatype event = Line string | Enter

fun parse :: "bool \<Rightarrow> string \<Rightarrow> string \<Rightarrow> event list \<times> string" where
  "parse cr ib [] = ([], ib)"
| "parse cr ib (c # s) =
     (if c = NL \<or> c = CHR 0x0D
      then (case parse True [] s of (es, r) \<Rightarrow> ((if ib \<noteq> [] then [Line ib] else if \<not> cr then [Enter] else []) @ es, r))
      else if new_line_at ib c then (case parse False [CHR ''/'', c] s of (es, r) \<Rightarrow> (Line (butlast ib) # es, r))
      else if length ib < LINE_MAX then parse False (ib @ [c]) s
      else ([], ib))"

text \<open>The lines handled one after the other as long as the connection is not stopped.\<close>

fun run_lines :: "(cid \<Rightarrow> world \<Rightarrow> world) \<Rightarrow> cid \<Rightarrow> string list \<Rightarrow> world \<Rightarrow> world" where
  "run_lines P i [] w = w"
| "run_lines P i (l # ls) w =
     (case conn w i of
        None \<Rightarrow> w
      | Some cp \<Rightarrow>
          if stops cp w = Some False then run_lines P i ls (handle_line P i l [] w) else w)"

definition settled :: "cid \<Rightarrow> world \<Rightarrow> world" where
  "settled i = upd_conn i (\<lambda>c. c\<lparr>c_ibuf := [], c_ibufq := []\<rparr>)"

lemma settled_simps [simp]:
  "settled i (set_ibuf i s w) = settled i w" "settled i (set_queue i q w) = settled i w" "set_ibuf i s (set_ibuf i t w) = set_ibuf i s w"
  by (simp_all add: settled_def set_ibuf_def set_queue_def upd_conn_upd_conn)

lemma conn_set_ibuf [simp]: "conn (set_ibuf i s w) i = map_option (\<lambda>c. c\<lparr>c_ibuf := s\<rparr>) (conn w i)"
  by (simp add: set_ibuf_def conn_upd_conn)

lemma stops_set_ibuf [simp]: "stops (cp\<lparr>c_ibuf := s\<rparr>) w = stops cp w" "stops cp (set_ibuf i s w) = stops cp w"
proof -
  have "sul (set_ibuf i s w) = sul w" "w_cfg (set_ibuf i s w) = w_cfg w" "w_currtime (set_ibuf i s w) = w_currtime w"
    by (simp_all add: fun_eq_iff sul_def set_ibuf_def)
  then show "stops cp (set_ibuf i s w) = stops cp w" by (simp add: stops_def)
qed (simp add: stops_def)

lemma handle_line_set_ibuf [simp]:
  "handle_line P i l t (set_ibuf i s w) = handle_line P i l t w" "set_ibuf i s (handle_line P i l t w) = handle_line P i l s w"
  by (simp_all add: handle_line_def)

lemma set_ibuf_None [simp]: "conn w i = None \<Longrightarrow> set_ibuf i s w = w" "conn w i = None \<Longrightarrow> set_queue i s w = w"
  by (simp_all add: set_ibuf_def set_queue_def upd_conn_None)

lemma handle_line_ibuf: "\<forall>cp. conn (handle_line P i l s w) i = Some cp \<longrightarrow> c_ibuf cp = s"
  by (auto simp: handle_line_def)

text \<open>A full line in front of a character that does not end it: nothing more happens.\<close>

lemma input_loop_stuck:
  assumes "k < length q" "q ! k \<noteq> NL" "q ! k \<noteq> CHR 0x0D" "conn w i = Some cp" "stops cp w \<noteq> None"
    and "\<not> new_line_at (c_ibuf cp) (q ! k)" "\<not> length (c_ibuf cp) < LINE_MAX"
  shows "settled i (input_loop P E i n q k cr w) = settled i w"
  using assms
  by (induction n arbitrary: cr) (auto simp: Let_def split: option.split bool.split)

lemma parse_run:
  assumes "k + n \<le> length q" "\<forall>cp. conn w i = Some cp \<longrightarrow> c_ibuf cp = ib" "parse cr ib (take n (drop k q)) = (map Line ls, r)"
    and "\<not> w_fault (input_loop P E i n q k cr w)"
  shows "settled i (input_loop P E i n q k cr w) = settled i (run_lines P i ls (set_ibuf i [] w))"
  using assms
proof (induction n arbitrary: q k cr w ib ls)
  case (Suc n)
  define c s where "c = q ! k" and "s = take n (drop (Suc k) q)"
  have t: "take (Suc n) (drop k q) = c # s" "length s = n"
    using Suc.prems(1) by (simp_all add: c_def s_def Cons_nth_drop_Suc [symmetric])
  show ?case
  proof (cases "conn w i")
    case None
    then show ?thesis by (cases ls) simp_all
  next
    case (Some cp)
    with Suc.prems(2) have ib: "c_ibuf cp = ib" by simp
    consider "stops cp w = None" | "stops cp w = Some True" | "stops cp w = Some False" by (cases "stops cp w") auto
    then show ?thesis
    proof cases
      case 1
      with Some Suc.prems(4) show ?thesis by (simp add: fault_def)
    next
      case 2
      with Some show ?thesis by (cases ls) simp_all
    next
      case 3
      note now = Some 3 ib c_def [symmetric] s_def [symmetric]
      have p: "parse cr ib (c # s) = (map Line ls, r)" using Suc.prems(3) unfolding t(1) .
      consider (line) "c = NL \<or> c = CHR 0x0D" | (new) "\<not> (c = NL \<or> c = CHR 0x0D)" "new_line_at ib c"
        | (room) "\<not> (c = NL \<or> c = CHR 0x0D)" "\<not> new_line_at ib c" "length ib < LINE_MAX"
        | (full) "\<not> (c = NL \<or> c = CHR 0x0D)" "\<not> new_line_at ib c" "\<not> length ib < LINE_MAX" by blast
      then show ?thesis
      proof cases
        case line
        obtain es r' where es: "parse True [] s = (es, r')" by fastforce
        show ?thesis
        proof (cases "ib = []")
          case True
          with p line es have "cr" "parse True [] s = (map Line ls, r)" by (auto split: if_splits)
          with Suc.IH [of 0 s w "[]" True ls] Suc.prems(2,4) now line True t(2) show ?thesis by (simp add: Let_def)
        next
          case False
          with p line es obtain ls' where "ls = ib # ls'" "parse True [] s = (map Line ls', r)" by (cases ls) auto
          with Suc.IH [of 0 s "handle_line P i ib [] w" "[]" True ls'] Suc.prems(4) now line False t(2) show ?thesis
            by (simp add: Let_def handle_line_ibuf)
        qed
      next
        case new
        then obtain ls' where "ls = butlast ib # ls'" "parse False [CHR ''/'', c] s = (map Line ls', r)"
          using p by (cases ls) (auto split: prod.splits)
        with Suc.IH [of "Suc k" q "set_ibuf i [CHR ''/'', c] (handle_line P i (butlast ib) ''/'' w)" "[CHR ''/'', c]" False ls']
          Suc.prems(1,4) now new t(2) show ?thesis by (simp add: Let_def handle_line_ibuf)
      next
        case room
        then have "parse False (ib @ [c]) s = (map Line ls, r)" using p by simp
        with Suc.IH [of "Suc k" q "set_ibuf i (ib @ [c]) w" "ib @ [c]" False ls] Suc.prems(1,4) now room show ?thesis
          by (simp add: Let_def)
      next
        case full
        then have "ls = []" using p by simp
        with input_loop_stuck [of k q w i cp P E "Suc n" cr] now full Suc.prems(1) show ?thesis by simp
      qed
    qed
  qed
qed simp

text \<open>A line that is taken as it is: not empty, not too long, without a line end, and without a mark of a server message
  behind a slash in its middle.\<close>

definition proper_line :: "string \<Rightarrow> bool" where
  "proper_line l \<longleftrightarrow> l \<noteq> [] \<and> length l \<le> LINE_MAX \<and> NL \<notin> set l \<and> CHR 0x0D \<notin> set l \<and>
     (\<forall>k < length l. 2 < k \<longrightarrow> l ! k = CHR 0xFF \<longrightarrow> l ! (k - 1) \<noteq> CHR ''/'')"

lemma parse_chars:
  assumes "NL \<notin> set s" "CHR 0x0D \<notin> set s" "length (ib @ s) \<le> LINE_MAX"
    and "\<forall>k < length (ib @ s). 2 < k \<longrightarrow> (ib @ s) ! k = CHR 0xFF \<longrightarrow> (ib @ s) ! (k - 1) \<noteq> CHR ''/''"
  shows "parse cr ib (s @ t) = parse (if s = [] then cr else False) (ib @ s) t"
  using assms
proof (induction s arbitrary: ib cr)
  case (Cons c s)
  have "\<not> new_line_at ib c"
  proof
    assume n: "new_line_at ib c"
    then have "ib \<noteq> []" "last ib = CHR ''/''" by (auto simp: new_line_at_def)
    then have "ib ! (length ib - 1) = CHR ''/''" "length ib - Suc 0 < length ib" by (simp_all add: last_conv_nth)
    with Cons.prems(4) [rule_format, of "length ib"] n show False by (auto simp: new_line_at_def nth_append)
  qed
  with Cons.prems Cons.IH [of "ib @ [c]" False] show ?case by auto
qed simp

definition line_ends :: "string set" where
  "line_ends = {[NL], [CHR 0x0D], [CHR 0x0D, NL]}"

lemma parse_lines:
  assumes "e \<in> line_ends" "\<forall>l \<in> set ls. proper_line l"
  shows "parse cr [] (concat (map (\<lambda>l. l @ e) ls)) = (map Line ls, [])"
  using assms(2)
proof (induction ls arbitrary: cr)
  case (Cons l ls)
  have "parse cr [] (l @ e @ concat (map (\<lambda>l. l @ e) ls)) = parse False l (e @ concat (map (\<lambda>l. l @ e) ls))"
    using parse_chars [of l "[]" cr] Cons.prems by (auto simp: proper_line_def)
  with Cons assms(1) show ?case by (auto simp: line_ends_def proper_line_def)
qed simp

text \<open>C20: Whatever is done for a line, the lines that wait in the input queue of a connection are handled whole, once
  and in order, for every convention of line ends, until the connection is closed or stopped by the rate limit:
  the loop over the characters is, up to the input buffers, the walk over the lines.\<close>

theorem lines_handled_in_order:
  assumes "e \<in> line_ends" "\<forall>l \<in> set ls. proper_line l" "conn w i = Some cp" "c_ibuf cp = []"
    and "q = concat (map (\<lambda>l. l @ e) ls)" "\<not> w_fault (input_loop P E i (length q) q 0 False w)"
  shows "settled i (input_loop P E i (length q) q 0 False w) = settled i (run_lines P i ls w)"
proof -
  have "parse False [] (take (length q) (drop 0 q)) = (map Line ls, [])" using parse_lines [OF assms(1,2)] assms(5) by simp
  from parse_run [OF _ _ this assms(6)] assms(3,4) have "settled i (input_loop P E i (length q) q 0 False w) = settled i (run_lines P i ls (set_ibuf i [] w))"
    by simp
  moreover have "set_ibuf i [] w = w" using assms(3,4) by (simp add: set_ibuf_def upd_conn_id)
  ultimately show ?thesis by simp
qed

lemma input_plain:
  assumes "conn w i = Some cp" "c_ibuf cp = ib" "stops cp w = Some False" "take (length s) (drop k q) = s"
    and "NL \<notin> set s" "CHR 0x0D \<notin> set s" "CHR 0xFF \<notin> set s" "length ib + length s \<le> LINE_MAX"
  shows "input_loop P E i (length s + m) q k cr w = input_loop P E i m q (k + length s) (if s = [] then cr else False) (set_ibuf i (ib @ s) w)"
  using assms
proof (induction s arbitrary: ib k cr w cp)
  case Nil
  then have "set_ibuf i ib w = w" by (simp add: set_ibuf_def upd_conn_id)
  then show ?case by simp
next
  case (Cons c s)
  then have "k < length q" by (metis drop_all list.distinct(1) not_le take_Nil)
  with Cons.prems(4) have c: "q ! k = c" "take (length s) (drop (Suc k) q) = s" by (simp_all add: Cons_nth_drop_Suc [symmetric])
  have "\<not> new_line_at ib c" "c \<noteq> NL" "c \<noteq> CHR 0x0D" using Cons.prems(5-7) by (auto simp: new_line_at_def)
  with Cons.prems c have "input_loop P E i (Suc (length s + m)) q k cr w = input_loop P E i (length s + m) q (Suc k) False (set_ibuf i (ib @ [c]) w)"
    by (simp add: Let_def)
  with Cons.IH [of "set_ibuf i (ib @ [c]) w" "cp\<lparr>c_ibuf := ib @ [c]\<rparr>" "ib @ [c]" "Suc k" False] Cons.prems c show ?case by simp
qed


section \<open>Witnesses\<close>

text \<open>A neighbour that has asked twice for the round trip time of its link.\<close>

definition ping_line :: string where
  "ping_line = SL @ ''PING''"

definition ping_world :: world where
  "ping_world = (boot_world ''db0tud'' 1000)\<lparr>
     w_connections := [(blank_connection 0 4 1000)\<lparr>c_type := CT_HOST, c_name := ''db0abc''\<rparr>], w_next_cid := 1\<rparr>"

definition neighbour_line :: "cid \<Rightarrow> world \<Rightarrow> world" where
  "neighbour_line i w =
     (case process_host_input plain_env (\<lambda>_. None) None \<lparr>y_convtype = ''conversd'', y_boottime = 0, y_uptime = None, y_version = None\<rparr> i w of
        None \<Rightarrow> w
      | Some v \<Rightarrow> v)"

theorem lines_handled_in_order_witness:
  "settled 0 (input_loop neighbour_line plain_env 0 16 (ping_line @ [NL] @ ping_line @ [NL]) 0 False ping_world) =
   settled 0 (run_lines neighbour_line 0 [ping_line, ping_line] ping_world)"
proof -
  let ?q = "concat (map (\<lambda>l. l @ [NL]) [ping_line, ping_line])"
  have f: "\<not> w_fault (input_loop neighbour_line plain_env 0 (length ?q) ?q 0 False ping_world)" by code_simp
  have l: "\<forall>l \<in> set [ping_line, ping_line]. proper_line l" by code_simp
  have c: "conn ping_world 0 = Some ((blank_connection 0 4 1000)\<lparr>c_type := CT_HOST, c_name := ''db0abc''\<rparr>)"
    by (simp add: ping_world_def conn_def blank_connection_def)
  have ib: "c_ibuf ((blank_connection 0 4 1000)\<lparr>c_type := CT_HOST, c_name := ''db0abc''\<rparr>) = []" by (simp add: blank_connection_def)
  have q: "length ?q = 16" "?q = ping_line @ [NL] @ ping_line @ [NL]" by (simp_all add: ping_line_def)
  have "[NL] \<in> line_ends" by (simp add: line_ends_def)
  from lines_handled_in_order [OF this l c ib refl f] show ?thesis unfolding q(1) unfolding q(2) .
qed


end
