(* ===== verification/Operator.thy ===== *)
theory Operator
  imports Access Modes
begin

text \<open>
  How a user becomes operator of the server: \<^verbatim>\<open>operator_command\<close> of \<^verbatim>\<open>user.c\<close>. A client gets a
  question and answers it, or sends a password at once. The questions of \<^verbatim>\<open>access.c\<close> that the command
  uses are those of the login, and they keep the expected answer in the same place.
\<close>

section \<open>The command\<close>

definition clear_needauth :: "nat \<Rightarrow> nat \<Rightarrow> nat" where
  "clear_needauth m a = a - and a m"

text \<open>Lines 4010 to 4022: the kind of question and the password behind the word.\<close>

definition auth_word :: "string \<Rightarrow> string \<Rightarrow> bool" where
  "auth_word arg word \<longleftrightarrow> strncaseeq arg word (if 3 < length arg then 4 else 3)"

definition auth_type :: "string \<Rightarrow> nat \<times> string" where
  "auth_type arg =
     (if auth_word arg ''sys '' then (1, dropWhile isspace (drop 3 arg))
      else if auth_word arg ''md5 '' then (2, dropWhile isspace (drop 3 arg))
      else (0, dropWhile isspace arg))"

text \<open>The answer to a client, in the form of IRC or not.\<close>

definition answer_form :: "env \<Rightarrow> cid \<Rightarrow> string \<Rightarrow> string \<Rightarrow> world \<Rightarrow> world" where
  "answer_form E i irc plain w =
     (case conn w i of None \<Rightarrow> w | Some cp \<Rightarrow> appendstring E i (if c_ircmode cp then irc else plain) w)"

definition irc_reply :: "connection \<Rightarrow> string \<Rightarrow> world \<Rightarrow> string" where
  "irc_reply cp num w = '':'' @ myhostname (w_cfg w) @ '' '' @ num @ '' '' @ c_nickname cp @ '' ''"

text \<open>Lines 4125 to 4127: the end of the command. \<open>answer\<close> is the number in the argument.\<close>

definition oper_prompt :: "env \<Rightarrow> cid \<Rightarrow> int \<Rightarrow> world \<Rightarrow> world" where
  "oper_prompt E i answer w = (if answer \<noteq> 0 then appendprompt E i False w else w)"

text \<open>Lines 4063 to 4070, the label \<^verbatim>\<open>nolocalsysops\<close>.\<close>

definition oper_disabled :: "env \<Rightarrow> cid \<Rightarrow> connection \<Rightarrow> int \<Rightarrow> world \<Rightarrow> world" where
  "oper_disabled E i cp answer w =
     (let me = myhostname (w_cfg w) in
      oper_prompt E i answer (answer_form E i (irc_reply cp ''491'' w @ '':No Operator access at '' @ me @ [NL])
        (''*** Sorry, operator access is disabled at '' @ me @ ''.'' @ [NL]) (w\<lparr>w_breakins := w_breakins w + 1\<rparr>)))"

text \<open>Lines 4099 to 4107 and 4122, the label \<^verbatim>\<open>success\<close>.\<close>

definition oper_success :: "env \<Rightarrow> cid \<Rightarrow> connection \<Rightarrow> int \<Rightarrow> world \<Rightarrow> world" where
  "oper_success E i cp answer w =
     (let w = upd_conn i (\<lambda>c. c\<lparr>c_operator := 2, c_locked := False\<rparr>) w;
          w = send_opermsg E (c_name cp) (c_nickname cp) (myhostname (w_cfg w)) (c_name cp) (c_nickname cp) (c_host cp) (-1) True w;
          w = upd_conn i (\<lambda>c. c\<lparr>c_expected := 0\<rparr>) w
      in oper_prompt E i answer (answer_form E i (irc_reply cp ''381'' w @ '':You are now an IRC operator'' @ [NL])
           (''*** ('' @ w_ts2 E w @ '') You are now an operator.'' @ [NL]) w))"

text \<open>Lines 4109 to 4115 and 4122, the label \<^verbatim>\<open>fail\<close>.\<close>

definition oper_fail :: "env \<Rightarrow> cid \<Rightarrow> connection \<Rightarrow> int \<Rightarrow> world \<Rightarrow> world" where
  "oper_fail E i cp answer w =
     (let w = upd_conn i (\<lambda>c. c\<lparr>c_expected := 0\<rparr>) (w\<lparr>w_breakins := w_breakins w + 1\<rparr>)
      in oper_prompt E i answer (answer_form E i (irc_reply cp ''464'' w @ '':Password incorrect'' @ [NL])
           (''*** ('' @ w_ts2 E w @ '') Operator breakin attempt notified.'' @ [NL]) w))"

text \<open>Lines 4074 to 4079: a number of five digits.\<close>

fun oper_number :: "nat \<Rightarrow> (nat \<Rightarrow> int) \<Rightarrow> nat \<Rightarrow> int \<Rightarrow> nat \<times> int" where
  "oper_number 0 clock number seed = (number, seed)"
| "oper_number (Suc k) clock number seed =
     (let (d, seed) = conv_random (clock 0) 9 seed; number = number + d
      in oper_number k (\<lambda>j. clock (Suc j)) (if k \<noteq> 0 then number * 10 else number) seed)"

text \<open>Lines 4091 to 4095: the digits of the two numbers, multiplied in pairs.\<close>

fun digit_sum :: "nat \<Rightarrow> nat \<Rightarrow> nat" where
  "digit_sum number secret =
     (if secret = 0 then 0 else (number mod 10) * (secret mod 10) + digit_sum (number div 10) (secret div 10))"

declare digit_sum.simps [simp del]

text \<open>Lines 4072 to 4095.\<close>

definition oper_question :: "env \<Rightarrow> (nat \<Rightarrow> int) \<Rightarrow> cid \<Rightarrow> connection \<Rightarrow> world \<Rightarrow> world" where
  "oper_question E clock i cp w =
     (let (number, seed) = oper_number 5 (\<lambda>k. clock (Suc k)) 0 (seeded (clock 0) (w_seed w));
          w = upd_conn i (\<lambda>c. c\<lparr>c_expected := 0\<rparr>) (w\<lparr>w_seed := seed\<rparr>);
          w = (if c_ircmode cp then appendstring E i (irc_reply cp ''461'' w @ '':Please respond to '') w else w);
          w = upd_conn i (\<lambda>c. c\<lparr>c_expected := int (digit_sum number (nat \<bar>secretnumber (w_cfg w)\<bar>))\<rparr>) w
      in appendstring E i (''('' @ dec (w_breakins w) @ '') '' @ dec5 (int number) @ ''>'' @ [NL]) w)"

text \<open>Lines 4060 to 4123 for an argument that is no password.\<close>

definition oper_standard :: "env \<Rightarrow> (nat \<Rightarrow> int) \<Rightarrow> cid \<Rightarrow> connection \<Rightarrow> int \<Rightarrow> world \<Rightarrow> world" where
  "oper_standard E clock i cp answer w =
     (if answer = 0
      then if secretnumber (w_cfg w) = 0 then oper_disabled E i cp answer w else oper_question E clock i cp w
      else if answer = c_expected cp then oper_success E i cp answer w else oper_fail E i cp answer w)"

text \<open>Lines 4024 to 4042: a question about the secret of the server; \<open>n\<close> bounds the random numbers of
  \<^verbatim>\<open>ask_pw_sys\<close>.\<close>

definition oper_ask :: "nat \<Rightarrow> env \<Rightarrow> md5_ctx \<Rightarrow> (nat \<Rightarrow> int) \<Rightarrow> cid \<Rightarrow> connection \<Rightarrow> nat \<Rightarrow> int \<Rightarrow> world \<Rightarrow> world option" where
  "oper_ask n E ctx clock i cp authtype answer w =
     (let pass = (case secretpass (w_cfg w) of None \<Rightarrow> [] | Some p \<Rightarrow> p);
          ask = (\<lambda>buffer. map_option (upd_conn i (\<lambda>c. c\<lparr>c_needauth := or (c_needauth c) 4\<rparr>))
                  (if authtype = 1 then ask_pw_sys n E clock i (Some buffer) w
                   else if authtype = 2 then Some (ask_pw_md5 E ctx clock i (Some buffer) w) else Some w))
      in if pass \<noteq> [] then ask (take 2047 pass)
         else if secretnumber (w_cfg w) = 0 then Some (oper_disabled E i cp answer w)
         else ask (dec5 \<bar>secretnumber (w_cfg w)\<bar>))"

definition operator_command :: "nat \<Rightarrow> env \<Rightarrow> md5_ctx \<Rightarrow> (nat \<Rightarrow> int) \<Rightarrow> cid \<Rightarrow> string \<Rightarrow> world \<Rightarrow> world option" where
  "operator_command n E ctx clock i args w =
     (case conn w i of
        None \<Rightarrow> Some w
      | Some cp \<Rightarrow>
          let arg = fst (getargcs args True); answer = atoi arg;
              w = upd_conn i (\<lambda>c. c\<lparr>c_needauth := clear_needauth 4 (c_needauth c)\<rparr>) w;
              (authtype, pw_got) = auth_type arg
          in if arg = [] then Some (oper_standard E clock i cp answer w)
             else if pw_got = [] then oper_ask n E ctx clock i cp authtype answer w
             else if length arg < 4 then Some (oper_standard E clock i cp answer w)
             else if c_pass_want cp = [] then Some (oper_fail E i cp answer w)
             else if strstr pw_got (c_pass_want cp)
             then Some (oper_success E i cp answer (set_pass_want i [] w))
             else Some (oper_fail E i cp answer (set_pass_want i [] w)))"

section \<open>What the command changes\<close>

lemma flowing_upd:
  assumes "\<And>c. c_obuf (f c) = c_obuf c" "\<And>c. c_time_write (f c) = c_time_write c"
  shows "flowing (upd_conn i f w) = flowing w"
proof -
  have "list_all P (update_first Q f cs) = list_all P cs" if "\<And>c. P (f c) = P c" for P Q cs
    using that by (induction cs) auto
  from this [of "\<lambda>c. c_obuf c = [] \<or> w_currtime w \<le> c_time_write c + 120"] assms
  show ?thesis by (simp add: flowing_def upd_conn_def)
qed

text \<open>\<open>u\<close> is \<open>w\<close> after an operation that changes nobody's rights.\<close>

definition keeps_powers :: "world \<Rightarrow> world \<Rightarrow> bool" where
  "keeps_powers w u \<longleftrightarrow> flowing u \<and> (\<forall>j. map_option powers (conn u j) = map_option powers (conn w j))"

lemma keeps_refl: "flowing w \<Longrightarrow> keeps_powers w w"
  by (simp add: keeps_powers_def)

lemma keeps_sends: "keeps_powers w v \<Longrightarrow> (flowing v \<Longrightarrow> sends v u) \<Longrightarrow> keeps_powers w u"
  by (auto simp: keeps_powers_def sends_powers(2) dest: sends_flowing)

lemma keeps_upd:
  assumes "\<And>c. c_id (f c) = c_id c" "\<And>c. c_obuf (f c) = c_obuf c" "\<And>c. c_time_write (f c) = c_time_write c" "\<And>c. powers (f c) = powers c"
  shows "keeps_powers w (upd_conn i f v) = keeps_powers w v"
  by (auto simp: keeps_powers_def flowing_upd conn_upd_conn assms option.map_comp comp_def)

lemma keeps_fields [simp]:
  "keeps_powers w (v\<lparr>w_seed := s\<rparr>) = keeps_powers w v" "keeps_powers w (v\<lparr>w_breakins := b\<rparr>) = keeps_powers w v"
  "keeps_powers w (fault v) = keeps_powers w v"
  by (simp_all add: keeps_powers_def flowing_def conn_def fault_def)

lemma sends_answer_form: "flowing w \<Longrightarrow> sends w (answer_form E i irc plain w)"
  by (auto simp: answer_form_def intro: inv_intros split: option.split)

lemma keeps_speech:
  assumes "keeps_powers w v"
  shows "keeps_powers w (appendstring E j s v)" "keeps_powers w (appendprompt E j ast v)" "keeps_powers w (append_general_notice E j s v)"
    "keeps_powers w (answer_form E j irc plain v)" "keeps_powers w (oper_prompt E j a v)"
  using assms by (auto intro!: keeps_sends [OF assms] sends_answer_form inv_intros simp: oper_prompt_def)

lemma keeps_set_pass_want: "keeps_powers w (set_pass_want i p v) = keeps_powers w v"
  unfolding set_pass_want_def by (rule keeps_upd) (simp_all add: powers_def)

lemma keeps_expected: "keeps_powers w (upd_conn i (\<lambda>c. c\<lparr>c_expected := n\<rparr>) v) = keeps_powers w v"
  by (rule keeps_upd) (simp_all add: powers_def)

lemma keeps_needauth: "keeps_powers w (upd_conn i (\<lambda>c. c\<lparr>c_needauth := f c\<rparr>) v) = keeps_powers w v"
  by (rule keeps_upd) (simp_all add: powers_def)

lemmas keeps_simps = keeps_set_pass_want keeps_expected keeps_needauth keeps_speech

lemma keeps_ask_pw_sys: "keeps_powers w v \<Longrightarrow> ask_pw_sys n E clock i pw v = Some u \<Longrightarrow> keeps_powers w u"
  by (auto simp: ask_pw_sys_def Let_def keeps_simps split: option.splits list.splits)

lemma keeps_ask_pw_md5: "keeps_powers w v \<Longrightarrow> keeps_powers w (ask_pw_md5 E ctx clock i pw v)"
  by (simp add: ask_pw_md5_def Let_def keeps_simps split: option.split list.split prod.split)

lemma keeps_oper:
  assumes "keeps_powers w v"
  shows "keeps_powers w (oper_disabled E i cp a v)" "keeps_powers w (oper_fail E i cp a v)" "keeps_powers w (oper_question E clock i cp v)"
  using assms by (simp_all add: oper_disabled_def oper_fail_def oper_question_def Let_def keeps_simps split: prod.split)

lemma keeps_oper_ask: "keeps_powers w v \<Longrightarrow> oper_ask n E ctx clock i cp t a v = Some u \<Longrightarrow> keeps_powers w u"
  by (auto simp: oper_ask_def Let_def keeps_simps keeps_oper keeps_ask_pw_md5 intro: keeps_ask_pw_sys split: if_splits)

lemma sends_oper_turn:
  assumes "flowing w"
  shows "sends w (oper_turn E toname tonickname hostname fromname fromnickname fromhost channel changed chan flags p w)"
  using assms by (simp add: oper_turn_def Let_def sends_refl sends_seq)

lemma sends_send_opermsg: "flowing w \<Longrightarrow> sends w (send_opermsg E toname tonickname hostname fromname fromnickname fromhost channel changed w)"
  unfolding send_opermsg_def Let_def by (intro sends_for_connections sends_oper_turn)

text \<open>A success makes the user operator and changes nobody else's rights.\<close>

lemma oper_success_powers:
  assumes "keeps_powers w v"
  shows "flowing (oper_success E i cp a v) \<and>
     (\<forall>j. j \<noteq> i \<longrightarrow> map_option powers (conn (oper_success E i cp a v) j) = map_option powers (conn w j)) \<and>
     map_option c_operator (conn (oper_success E i cp a v) i) = map_option (\<lambda>_. 2) (conn w i)"
proof -
  let ?v = "upd_conn i (\<lambda>c. c\<lparr>c_operator := 2, c_locked := False\<rparr>) v"
  have v: "flowing ?v" using assms by (simp add: keeps_powers_def flowing_upd)
  have "keeps_powers ?v (oper_success E i cp a v)"
    using keeps_sends [OF keeps_refl [OF v] sends_send_opermsg]
    by (simp add: oper_success_def Let_def keeps_simps)
  then have o: "flowing (oper_success E i cp a v)" "\<And>j. map_option powers (conn (oper_success E i cp a v) j) = map_option powers (conn ?v j)"
    by (simp_all add: keeps_powers_def)
  have p: "map_option c_operator x = map_option c_operator y" if "map_option powers x = map_option powers y" for x y
    using that by (cases x; cases y) (auto simp: powers_def)
  have "map_option powers (conn v i) = map_option powers (conn w i)" using assms by (simp add: keeps_powers_def)
  then have "map_option (\<lambda>_. 2 :: nat) (conn v i) = map_option (\<lambda>_. 2) (conn w i)"
    by (cases "conn v i"; cases "conn w i") auto
  then have "map_option c_operator (conn ?v i) = map_option (\<lambda>_. 2) (conn w i)"
    by (simp add: conn_upd_conn option.map_comp comp_def)
  with o p [OF o(2) [of i]] assms show ?thesis by (simp add: conn_upd_conn keeps_powers_def)
qed

text \<open>An answer that the command accepts: the expected text in the argument, or the expected number.\<close>

definition right_answer :: "connection \<Rightarrow> string \<Rightarrow> bool" where
  "right_answer cp arg \<longleftrightarrow>
     (4 \<le> length arg \<and> c_pass_want cp \<noteq> [] \<and> strstr (snd (auth_type arg)) (c_pass_want cp)) \<or>
     (length arg < 4 \<and> atoi arg \<noteq> 0 \<and> atoi arg = c_expected cp)"

lemma operator_command_outcome:
  assumes "flowing w" "conn w i = Some cp" "operator_command n E ctx clock i args w = Some u"
  shows "keeps_powers w u \<or>
    (right_answer cp (fst (getargcs args True)) \<and> (\<exists>v a. keeps_powers w v \<and> u = oper_success E i cp a v))"
proof -
  define arg where "arg = fst (getargcs args True)"
  define v where "v = upd_conn i (\<lambda>c. c\<lparr>c_needauth := clear_needauth 4 (c_needauth c)\<rparr>) w"
  have v: "keeps_powers w v" using keeps_refl [OF assms(1)] by (simp add: v_def keeps_needauth)
  have s: "keeps_powers w (oper_standard E clock i cp (atoi arg) v) \<or>
      (atoi arg \<noteq> 0 \<and> atoi arg = c_expected cp \<and> oper_standard E clock i cp (atoi arg) v = oper_success E i cp (atoi arg) v)"
    using v by (simp add: oper_standard_def keeps_oper)
  have f: "keeps_powers w (oper_fail E i cp a v)" "keeps_powers w (oper_fail E i cp a (set_pass_want i [] v))" for a
    using v by (simp_all add: keeps_oper keeps_set_pass_want)
  have k: "keeps_powers w (set_pass_want i [] v)" using v by (simp add: keeps_set_pass_want)
  have "arg = [] \<Longrightarrow> length arg < 4" by simp
  then show ?thesis
    using assms(2,3) s f v k keeps_oper_ask [OF v]
    by (auto simp: operator_command_def arg_def [symmetric] v_def [symmetric] right_answer_def split_def Let_def split: if_splits)
qed

text \<open>C16: A user becomes operator by the command only with an answer that is expected of him, and the command
  changes the rights of nobody else.\<close>

theorem operator_needs_answer:
  assumes "flowing w" "conn w i = Some cp" "c_operator cp \<noteq> 2" "operator_command n E ctx clock i args w = Some u"
  shows "(\<forall>j. j \<noteq> i \<longrightarrow> map_option powers (conn u j) = map_option powers (conn w j)) \<and>
         (map_option c_operator (conn u i) = Some 2 \<longrightarrow> right_answer cp (fst (getargcs args True)))"
  using operator_command_outcome [OF assms(1,2,4)]
proof
  assume k: "keeps_powers w u"
  then have "map_option powers (conn u i) = Some (powers cp)" using assms(2) by (simp add: keeps_powers_def)
  then have "map_option c_operator (conn u i) = Some (c_operator cp)" by (cases "conn u i") (auto simp: powers_def)
  with k assms(3) show ?thesis by (auto simp: keeps_powers_def)
next
  assume "right_answer cp (fst (getargcs args True)) \<and> (\<exists>v a. keeps_powers w v \<and> u = oper_success E i cp a v)"
  then show ?thesis using oper_success_powers by blast
qed

text \<open>A user who was asked for his password at the login.\<close>

definition oper_world :: world where
  "oper_world =
     (boot_world ''db0tud'' 10000)\<lparr>w_connections :=
        [(blank_connection 1 5 1000)\<lparr>c_type := CT_USER, c_name := ''dl1abc'', c_nickname := ''dl1abc'', c_host := ''db0tud'',
            c_channel := 7, c_pass_want := ''secret''\<rparr>],
      w_next_cid := 2, w_passwd := Some (''dl1abc:secret'' @ [NL])\<rparr>"

lemma oper_world_user: "\<exists>cp. conn oper_world 1 = Some cp \<and> c_operator cp \<noteq> 2 \<and> c_pass_want cp = ''secret'' \<and> c_expected cp = 0 \<and> c_name cp = ''dl1abc''"
  by (simp add: oper_world_def conn_def blank_connection_def)

lemma oper_world_flowing: "flowing oper_world"
  by (simp add: oper_world_def flowing_def blank_connection_def)

lemma oper_world_wrong: "\<exists>u. operator_command n E ctx clock 1 ''guess'' oper_world = Some u"
proof -
  have "getargcs ''guess'' True = (''guess'', ''guess'')" "auth_type ''guess'' = (0, ''guess'')" by code_simp+
  then show ?thesis using oper_world_user by (auto simp: operator_command_def)
qed

theorem operator_needs_answer_witness:
  "\<forall>n E ctx clock. \<exists>u. operator_command n E ctx clock 1 ''guess'' oper_world = Some u \<and> map_option c_operator (conn u 1) \<noteq> Some 2"
proof (intro allI)
  fix n E ctx clock
  obtain cp where cp: "conn oper_world 1 = Some cp" "c_operator cp \<noteq> 2" "c_pass_want cp = ''secret''" "c_expected cp = 0"
    using oper_world_user by blast
  obtain u where u: "operator_command n E ctx clock 1 ''guess'' oper_world = Some u" using oper_world_wrong by blast
  have "fst (getargcs ''guess'' True) = ''guess''" "\<not> strstr (snd (auth_type ''guess'')) ''secret''" "length ''guess'' = 5" by code_simp+
  then have "\<not> right_answer cp (fst (getargcs ''guess'' True))" using cp by (simp add: right_answer_def)
  then show "\<exists>u. operator_command n E ctx clock 1 ''guess'' oper_world = Some u \<and> map_option c_operator (conn u 1) \<noteq> Some 2"
    using operator_needs_answer [OF oper_world_flowing cp(1,2) u] u by blast
qed

section \<open>The password of the login\<close>

lemma alnum_no_space: "isalnum c \<Longrightarrow> \<not> isspace c"
  by (auto simp: ctype_defs)

lemma auth_type_alnum:
  assumes "list_all isalnum p" "4 \<le> length p"
  shows "auth_type p = (0, p)" "fst (getargcs p True) = p"
proof -
  obtain a b c d r where p: "p = a # b # c # d # r" using assms(2) by (auto simp: numeral_eq_Suc Suc_le_length_iff)
  have n: "\<not> isspace a" "\<not> isspace d" using assms(1) p alnum_no_space by auto
  then have "tolower d \<noteq> CHR '' ''" using isspace_tolower [of d] by (auto simp: isspace_def simp del: isspace_tolower)
  moreover have "tolower (CHR '' '') = CHR '' ''" by code_simp
  ultimately have "\<not> auth_word p ''sys ''" "\<not> auth_word p ''md5 ''"
    using assms(2) unfolding auth_word_def p by (simp_all add: strncaseeq_def strlwr_def numeral_eq_Suc)
  with n p show "auth_type p = (0, p)" "fst (getargcs p True) = p" by (simp_all add: auth_type_def getargcs_def Let_def)
qed

lemma strstr_self: "strstr p p"
  by (auto simp: strstr_iff intro: exI [of _ "[]"])

lemma own_answer_accepted:
  assumes "flowing v" "conn v i = Some cp" "c_pass_want cp = p" "list_all isalnum p" "4 \<le> length p"
  shows "\<exists>u. operator_command n E ctx clock i p v = Some u \<and> map_option c_operator (conn u i) = Some 2"
proof -
  let ?v = "set_pass_want i [] (upd_conn i (\<lambda>c. c\<lparr>c_needauth := clear_needauth 4 (c_needauth c)\<rparr>) v)"
  have "p \<noteq> []" "\<not> length p < 4" using assms(5) by auto
  then have "operator_command n E ctx clock i p v = Some (oper_success E i cp (atoi p) ?v)"
    using assms(2,3) auth_type_alnum [OF assms(4,5)] strstr_self [of p] by (simp add: operator_command_def Let_def)
  moreover have "keeps_powers v ?v" using keeps_refl [OF assms(1)] by (simp add: keeps_simps)
  ultimately show ?thesis using oper_success_powers [of v ?v E i cp "atoi p"] assms(2) by simp
qed

lemma asked_plain:
  assumes "flowing w" "conn w i = Some cp" "read_password (c_name cp) (w_passwd w) = Some p" "p \<noteq> []" "length p \<le> PASSSIZE"
  shows "\<exists>c. conn (ask_pw_plain E i None w) i = Some c \<and> c_pass_want c = p"
proof -
  let ?v = "set_pass_want i [] w"
  have v: "flowing ?v" "conn ?v i = Some (cp\<lparr>c_pass_want := []\<rparr>)" "w_passwd ?v = w_passwd w"
    using assms(1,2) by (simp_all add: set_pass_want_def flowing_upd conn_upd_conn) (simp add: upd_conn_def)
  then have a: "asked_pass i None ?v = Some p" using assms(3) by (simp add: asked_pass_def)
  have n: "\<exists>c. conn (append_general_notice E i s ?v) i = Some c" for s
    using sends_conn [OF sends_append_general_notice [OF v(1)], of E i s i] v(2) by (cases "conn (append_general_notice E i s ?v) i") auto
  obtain x r where p: "p = x # r" using assms(4) by (cases p) auto
  show ?thesis
    using v(2) a assms(5) n [of "''Enter your password (or type /auth [sys|md5|plain]):'' @ [NL]"] unfolding p
    by (auto simp: ask_pw_plain_def Let_def) (auto simp: set_pass_want_def conn_upd_conn)
qed



end
