(* ===== verification/Talk.thy ===== *)
theory Talk
  imports Operator Hostmsg
begin

text \<open>
  The commands of a user that say something: \<^verbatim>\<open>all_command\<close>, \<^verbatim>\<open>away_command\<close>, \<^verbatim>\<open>me_command\<close>,
  \<^verbatim>\<open>notice_command\<close>, \<^verbatim>\<open>msg_command\<close>, \<^verbatim>\<open>query_command\<close>, \<^verbatim>\<open>topic_command\<close>, \<^verbatim>\<open>verbose_command\<close>,
  \<^verbatim>\<open>invite_command\<close>, \<^verbatim>\<open>wall_command\<close> and \<^verbatim>\<open>wizard_command\<close> of \<^verbatim>\<open>user.c\<close>, and the end of
  \<^verbatim>\<open>process_input\<close> of \<^verbatim>\<open>conversd.c\<close>, where a line that is no command is a message or the answer to
  a question. A command gets its arguments as the text behind the command word.
\<close>

text \<open>A mark in front of an argument.\<close>

definition skip_mark :: "char \<Rightarrow> string \<Rightarrow> string" where
  "skip_mark m s = (case s of c # r \<Rightarrow> if c = m then r else s | [] \<Rightarrow> [])"

lemma skip_mark_set: "set (skip_mark m s) \<subseteq> set s"
  by (cases s) (auto simp: skip_mark_def)

section \<open>Messages to channels\<close>

definition tx_name :: "connection \<Rightarrow> string" where
  "tx_name cp = getTXname (c_name cp) (c_nickname cp)"

definition moderated_text :: string where
  "moderated_text = ''*** This is a moderated channel. Only channel operators may write.'' @ [NL]"

text \<open>Who may write to his default channel.\<close>

definition may_write :: "connection \<Rightarrow> channel \<Rightarrow> bool" where
  "may_write cp ch \<longleftrightarrow> c_operator cp = 2 \<or> c_channelop cp \<or> \<not> flag (ch_flags ch) M_CHAN_M"

definition all_command :: "env \<Rightarrow> cid \<Rightarrow> string \<Rightarrow> world \<Rightarrow> world" where
  "all_command E i args w =
     (case conn w i of
        None \<Rightarrow> w
      | Some cp \<Rightarrow>
          let s = fst (getarg args True) in
          (case find_channel (c_channel cp) w of
             None \<Rightarrow> w
           | Some ch \<Rightarrow>
               if may_write cp ch
               then if s = [] then appendprompt E i False w
                    else (case check_user_banned E i ''ALL'' w of
                            (True, w) \<Rightarrow> w
                          | (False, w) \<Rightarrow> appendprompt E i False (send_msg_to_channel E (tx_name cp) (c_channel cp) s w))
               else appendprompt E i False
                      (reply E i (irc_head cp ''404'' @ ''#'' @ dec (c_channel cp) @ '' :Cannot send to channel'' @ [NL]) moderated_text w)))"

definition me_command :: "env \<Rightarrow> cid \<Rightarrow> string \<Rightarrow> world \<Rightarrow> world" where
  "me_command E i args w =
     (case conn w i of
        None \<Rightarrow> w
      | Some cp \<Rightarrow>
          (case check_user_banned E i ''ME'' w of
             (True, w) \<Rightarrow> w
           | (False, w) \<Rightarrow>
               let s = fst (getarg args True) in
               appendprompt E i False
                 (if s \<noteq> []
                  then send_msg_to_channel E ''conversd'' (c_channel cp) (''*** '' @ c_name cp @ ''@'' @ c_host cp @ '' '' @ s) (lock_conn i w)
                  else w)))"

section \<open>Messages with an address\<close>

text \<open>The text between the marks of a client's extended message, and what it asks for: \<open>CtcpAway\<close> is an
  absence message, \<open>CtcpAction\<close> a text in the third person.\<close>

datatype ctcp = CtcpNone string | CtcpAway string | CtcpAction string | CtcpOther string

definition SOH :: char where
  "SOH = CHR 0x01"

definition ctcp_of :: "bool \<Rightarrow> string \<Rightarrow> ctcp" where
  "ctcp_of irc s =
     (let s = (case s of c # r \<Rightarrow> if irc \<and> c = CHR '':'' then r else s | [] \<Rightarrow> []) in
      case strchr s SOH of
        Some (c # q) \<Rightarrow>
          if \<not> irc then CtcpNone s
          else
            let t = takeWhile (\<lambda>c. c \<noteq> SOH) q in
            if strncaseeq t ''AWAY '' 5 then CtcpAway (dropWhile isspace (drop 5 t))
            else if strncaseeq t ''ACTION '' 7 then CtcpAction (take 384 (dropWhile isspace (drop 7 t)))
            else CtcpOther (take 384 (dropWhile isspace t))
      | _ \<Rightarrow> CtcpNone s)"

text \<open>Lines 2494 to 2532 of \<^verbatim>\<open>msg_command\<close>: a message to a channel. The moderation is looked up for the
  default channel of the user. An IRC client gets no reply on a moderated channel.\<close>

definition msg_to_channel :: "env \<Rightarrow> cid \<Rightarrow> bool \<Rightarrow> int \<Rightarrow> string \<Rightarrow> world \<Rightarrow> world" where
  "msg_to_channel E i as_conversd chan s w =
     (case conn w i of
        None \<Rightarrow> w
      | Some cp \<Rightarrow>
          (case (find (\<lambda>cl. cl_channel cl = chan) (c_chan_list cp), find_channel (c_channel cp) w) of
             (Some cl, Some ch) \<Rightarrow>
               if cl_channelop cl \<or> \<not> flag (ch_flags ch) M_CHAN_M
               then send_msg_to_channel E (if as_conversd then ''conversd'' else tx_name cp) chan s w
               else if c_ircmode cp then w else append_general_notice E i moderated_text w
           | _ \<Rightarrow> answer_form E i (irc_head cp ''442'' @ ''#'' @ dec chan @ '' :You're not on that channel'' @ [NL])
                    (''*** ('' @ w_ts2 E w @ '') You have not joined channel '' @ dec chan @ ''.'' @ [NL]) w))"

text \<open>Lines 2534 to 2580: a message to a user.\<close>

definition msg_names :: "string \<Rightarrow> string \<times> string" where
  "msg_names toname =
     (let n = takeWhile (\<lambda>c. c \<noteq> CHR '':'') toname;
          nick = (case strchr toname (CHR '':'') of Some (c # r) \<Rightarrow> if r \<noteq> [] then r else n | _ \<Rightarrow> n)
      in (case n of c # r \<Rightarrow> if c = CHR ''~'' then r else n | [] \<Rightarrow> [], nick))"

definition msg_to_user :: "env \<Rightarrow> cid \<Rightarrow> bool \<Rightarrow> string \<Rightarrow> string \<Rightarrow> world \<Rightarrow> world" where
  "msg_to_user E i as_conversd toname s w =
     (case conn w i of
        None \<Rightarrow> w
      | Some cp \<Rightarrow>
          let (toname, tonickname) = msg_names toname;
              p = (if toname = [] then None
                   else find (\<lambda>p. c_type p = CT_USER \<and> (strcaseeq (c_name p) toname \<or> strcaseeq (c_nickname p) tonickname)) (w_connections w))
          in (case p of
                None \<Rightarrow>
                  answer_form E i (irc_head cp ''401'' @ toname @ '' :No such nick'' @ [NL])
                    (''*** ('' @ w_ts2 E w @ '') No such user: '' @ toname @ ''.'' @ [NL]) w
              | Some p \<Rightarrow>
                  let w = send_msg_to_user E (if as_conversd then ''conversd'' else tx_name cp) toname s w
                  in (case conn w (c_id p) of
                        None \<Rightarrow> w
                      | Some p \<Rightarrow>
                          if c_away p = [] then w
                          else answer_form E i (take IRC_MAX_MSGSIZE (irc_head cp ''301'' @ toname @ '' :'' @ c_away p) @ [NL])
                                 (''*** ('' @ w_ts2 E w @ '') '' @ toname @ '' is away: '' @ c_away p @ [NL]) w)))"

definition msg_command :: "env \<Rightarrow> cid \<Rightarrow> string \<Rightarrow> world \<Rightarrow> world" where
  "msg_command E i args w =
     (case conn w i of
        None \<Rightarrow> w
      | Some cp \<Rightarrow>
          (case check_user_banned E i ''PRIVMSG'' w of
             (True, w) \<Rightarrow> w
           | (False, w) \<Rightarrow>
               let (toname, rest) = getarg args False; t = ctcp_of (c_ircmode cp) (fst (getarg rest True));
                   me = ''*** '' @ c_name cp @ ''@'' @ c_host cp;
                   send = (\<lambda>as_conversd s.
                     if toname = [] \<or> s = []
                     then appendprompt E i False (answer_form E i
                            (irc_reply cp (if toname = [] then ''411'' else ''412'') w @
                             (if toname = [] then '':No recipient given (PRIVMSG)'' else '':No text to send'') @ [NL])
                            (''*** ('' @ w_ts2 E w @ '') Not sent: '' @ (if toname \<noteq> [] then ''No Text'' else ''Receipient missing'') @ ''.'' @ [NL]) w)
                     else appendprompt E i False
                            (if hd toname = CHR ''#'' then msg_to_channel E i as_conversd (atoi (tl toname)) s w
                             else msg_to_user E i as_conversd toname s w))
               in (case t of
                     CtcpAway s \<Rightarrow>
                       if c_away cp \<noteq> s
                       then send_awaymsg E (c_name cp) (c_nickname cp) (myhostname (w_cfg w)) (w_currtime w) s True w else w
                   | CtcpAction s \<Rightarrow> send True (me @ '' '' @ s)
                   | CtcpOther s \<Rightarrow> send True (me @ '' req :'' @ s @ '':'')
                   | CtcpNone s \<Rightarrow> send False s)))"

text \<open>Lines 2295 to 2317 of \<^verbatim>\<open>notice_command\<close>: on which channels a notice is sent.\<close>

definition may_notice :: "connection \<Rightarrow> channel \<Rightarrow> bool" where
  "may_notice cp ch \<longleftrightarrow>
     c_operator cp = 2 \<or>
     (let m = flag (ch_flags ch) M_CHAN_M in
      if c_channel cp = ch_chan ch then \<not> m \<or> c_channelop cp
      else (case find (\<lambda>cl. cl_channel cl = ch_chan ch) (c_chan_list cp) of None \<Rightarrow> False | Some cl \<Rightarrow> \<not> m \<or> cl_channelop cl))"

definition notice_command :: "env \<Rightarrow> cid \<Rightarrow> string \<Rightarrow> world \<Rightarrow> world" where
  "notice_command E i args w =
     (case conn w i of
        None \<Rightarrow> w
      | Some cp \<Rightarrow>
          (case check_user_banned E i ''NOTICE'' w of
             (True, w) \<Rightarrow> w
           | (False, w) \<Rightarrow>
               let (toname, rest) = getarg args False;
                   toname = (case toname of c # r \<Rightarrow> if c \<in> {CHR ''#'', CHR ''~''} then r else toname | [] \<Rightarrow> []);
                   t = ctcp_of (c_ircmode cp) (fst (getargcs rest True));
                   me = ''*** '' @ c_name cp @ ''@'' @ c_host cp;
                   w' = lock_conn i w;
                   send = (\<lambda>buffer.
                     if stringisnumber toname \<and> 0 \<le> atoi toname
                     then (case find (\<lambda>ch. ch_expires ch = 0 \<and> ch_chan ch = atoi toname) (w_channels w') of
                             None \<Rightarrow> w'
                           | Some ch \<Rightarrow> if may_notice cp ch then send_msg_to_channel E ''conversd'' (atoi toname) buffer w' else w')
                     else send_msg_to_user E ''conversd'' toname buffer w')
               in if toname = [] then w
                  else (case t of
                          CtcpAway s \<Rightarrow>
                            if c_away cp \<noteq> s
                            then send_awaymsg E (c_name cp) (c_nickname cp) (myhostname (w_cfg w')) (w_currtime w') s True w' else w'
                        | CtcpAction s \<Rightarrow> send (me @ '' notice: '' @ s)
                        | CtcpOther s \<Rightarrow> send (me @ '' ack :'' @ s @ '':'')
                        | CtcpNone s \<Rightarrow> send (me @ '' notice: '' @ s))))"

definition query_command :: "env \<Rightarrow> cid \<Rightarrow> string \<Rightarrow> world \<Rightarrow> world" where
  "query_command E i args w =
     (case conn w i of
        None \<Rightarrow> w
      | Some cp \<Rightarrow>
          if c_ircmode cp then appendstring E i (irc_reply cp ''421'' w @ ''QUERY :Unknown command'' @ [NL]) w
          else
            let toname = fst (getarg args False);
                toname = skip_mark (CHR ''~'') toname;
                set_query = (\<lambda>q. upd_conn i (\<lambda>c. c\<lparr>c_query := q\<rparr>))
            in appendprompt E i False
                 (if toname \<noteq> []
                  then if list_ex (\<lambda>p. c_type p = CT_USER \<and> (strcaseeq (c_name p) toname \<or> strcaseeq (c_nickname p) toname)) (w_connections w)
                       then append_general_notice E i
                              (''*** ('' @ w_ts2 E w @ '') Starting private conversation with '' @ take NAMESIZE toname @ ''.'' @ [NL])
                              (set_query (take NAMESIZE toname) w)
                       else append_general_notice E i (''*** ('' @ w_ts2 E w @ '') No such user: '' @ toname @ ''.'' @ [NL]) w
                  else if c_query cp \<noteq> []
                  then set_query [] (append_general_notice E i
                         (''*** ('' @ w_ts2 E w @ '') Ending private conversation with '' @ c_query cp @ ''.'' @ [NL]) w)
                  else w))"

section \<open>Away\<close>

text \<open>Lines 120 to 138: the other sessions of the user on this server are away as well.\<close>

definition away_mark :: "env \<Rightarrow> connection \<Rightarrow> string \<Rightarrow> cid \<Rightarrow> bool \<times> world \<Rightarrow> bool \<times> world" where
  "away_mark E cp s j = (\<lambda>(changed, w).
     case conn w j of
       None \<Rightarrow> (changed, w)
     | Some p \<Rightarrow>
         if c_type p \<noteq> CT_USER \<or> c_via p \<noteq> None \<or> \<not> strcaseeq (c_name p) (c_name cp) \<or> \<not> strcaseeq (c_host p) (c_host cp)
         then (changed, w)
         else (changed \<or> c_away p \<noteq> s,
               lock_conn j (appendstring E j
                 (if c_ircmode p then irc_head cp ''306'' @ '':You have been marked as being away'' @ [NL]
                  else ''*** ('' @ w_ts2 E w @ '') You are marked as being away.'' @ [NL])
                 (upd_conn j (\<lambda>c. c\<lparr>c_away := s, c_atime := w_currtime w\<rparr>) w))))"

text \<open>Lines 148 to 162.\<close>

definition back_mark :: "env \<Rightarrow> connection \<Rightarrow> connection \<Rightarrow> world \<Rightarrow> world" where
  "back_mark E cp p w =
     (if c_type p \<noteq> CT_USER \<or> \<not> strcaseeq (c_name p) (c_name cp) \<or> \<not> strcaseeq (c_host p) (c_host cp) then w
      else lock_conn (c_id p) (appendstring E (c_id p)
             (if c_ircmode p then irc_head cp ''305'' @ '':You are no longer marked as being away'' @ [NL]
              else ''*** ('' @ w_ts2 E w @ '') You are no longer marked as being away.'' @ [NL])
             (upd_conn (c_id p) (\<lambda>c. c\<lparr>c_away := [], c_atime := w_currtime w, c_mtime := w_currtime w\<rparr>) w)))"

definition away_announce :: "env \<Rightarrow> cid \<Rightarrow> bool \<Rightarrow> string \<Rightarrow> world \<Rightarrow> world" where
  "away_announce E i changed s w =
     (case conn w i of
        None \<Rightarrow> w
      | Some cp \<Rightarrow>
          if changed \<and> (\<not> c_ircmode cp \<or> c_chan_list cp \<noteq> [])
          then send_awaymsg E (c_name cp) (c_nickname cp) (myhostname (w_cfg w)) (w_currtime w) s True w else w)"

definition away_command :: "env \<Rightarrow> cid \<Rightarrow> string \<Rightarrow> world \<Rightarrow> world" where
  "away_command E i args w =
     (case conn w i of
        None \<Rightarrow> w
      | Some cp \<Rightarrow>
          let s = fst (getarg args True); me = myhostname (w_cfg w);
              s = (case s of c # r \<Rightarrow> if c_ircmode cp \<and> c = CHR '':'' then r else s | [] \<Rightarrow> [])
          in if s \<noteq> []
             then (case check_cmd_flood E i (c_name cp) (Some me) SUL_AWAY True s w of
                     (ret, w) \<Rightarrow>
                       if ret \<noteq> 0 then w
                       else
                         let s = take AWAYSIZE s; (changed, w) = fold (away_mark E cp s) (conn_ids w) (False, w)
                         in appendprompt E i False (away_announce E i changed s w))
             else if c_away cp \<noteq> []
             then (case check_user_banned E i ''AWAY'' w of
                     (True, w) \<Rightarrow> w
                   | (False, w) \<Rightarrow>
                       (case check_cmd_flood E i (c_name cp) (Some me) SUL_AWAY True s w of
                          (ret, w) \<Rightarrow>
                            if ret \<noteq> 0 then w
                            else appendprompt E i False (away_announce E i True s (for_connections (back_mark E cp) w))))
             else appendprompt E i False (answer_form E i
                    (irc_reply cp ''305'' w @ ''Actually you were marked as being here :-)'' @ [NL])
                    (''*** ('' @ w_ts2 E w @ '') Actually you were marked as being here :-)'' @ [NL]) w))"

definition verbose_command :: "env \<Rightarrow> cid \<Rightarrow> world \<Rightarrow> world" where
  "verbose_command E i w =
     (case conn w i of
        None \<Rightarrow> w
      | Some cp \<Rightarrow>
          let on = (\<not> c_verbose cp) in
          appendprompt E i False
            (reply E i ('':'' @ myhostname (w_cfg w) @ '' MODE '' @ c_name cp @ '' '' @ (if on then ''+'' else ''-'') @ ''ws'' @ [NL])
               (''*** Verbose mode '' @ (if on then ''en'' else ''dis'') @ ''abled.'' @ [NL])
               (upd_conn i (\<lambda>c. c\<lparr>c_verbose := on\<rparr>) w)))"

section \<open>Topics\<close>

text \<open>Lines 4467 to 4482: the channel and the topic of the argument.\<close>

definition topic_args :: "int \<Rightarrow> string \<Rightarrow> int \<times> string" where
  "topic_args channel s =
     (case dropWhile isspace s of
        c # r \<Rightarrow>
          if c = CHR ''#''
          then let t = dropWhile isspace r
               in (if strcaseeq t ''all'' then -1 else atoi t, dropWhile isspace (dropWhile (\<lambda>c. \<not> isspace c) t))
          else (channel, c # r)
      | [] \<Rightarrow> (channel, []))"

text \<open>Lines 4490 to 4498: an IRC client's topic without text is a deletion.\<close>

definition topic_irc :: "string \<Rightarrow> string" where
  "topic_irc topic =
     (case topic of
        c # r \<Rightarrow> if c = CHR '':'' then let p = dropWhile isspace r in if p \<noteq> [] then p else CHR ''@'' # r else topic
      | [] \<Rightarrow> [])"

definition topic_insider :: "connection \<Rightarrow> channel \<Rightarrow> bool" where
  "topic_insider cp ch \<longleftrightarrow> c_operator cp = 2 \<or> c_channel cp = ch_chan ch \<or> on_chan_list cp (ch_chan ch)"

text \<open>Lines 4517 to 4536: one channel in the list of all topics, in the first or the second round.\<close>

definition topic_shown :: "connection \<Rightarrow> bool \<Rightarrow> channel \<Rightarrow> bool" where
  "topic_shown cp second ch \<longleftrightarrow>
     ch_expires ch = 0 \<and>
     (if topic_insider cp ch then \<not> second else \<not> flag (ch_flags ch) M_CHAN_I \<and> flag (ch_flags ch) M_CHAN_S = second) \<and>
     ch_topic ch \<noteq> []"

definition topic_line :: "env \<Rightarrow> cid \<Rightarrow> connection \<Rightarrow> channel \<Rightarrow> world \<Rightarrow> world" where
  "topic_line E i cp ch w =
     appendstring E i [NL] (appendstring E i (ch_topic ch) (append_general_notice E i
       ((if flag (ch_flags ch) M_CHAN_S \<and> \<not> topic_insider cp ch then ''*** Topic on a secret channel''
         else ''*** Topic on channel '' @ dec (ch_chan ch)) @
        '', set by '' @ ch_tsetby ch @ '' ('' @ ts2 (e_localtime E) (w_currtime w) (ch_time ch) @ ''):'' @ [NL] @ ''    '') w))"

definition topic_list :: "env \<Rightarrow> cid \<Rightarrow> connection \<Rightarrow> world \<Rightarrow> world" where
  "topic_list E i cp w =
     fold (topic_line E i cp) (filter (topic_shown cp False) (w_channels w) @ filter (topic_shown cp True) (w_channels w)) w"

text \<open>Line 4569: who may set the topic of a channel he knows of.\<close>

definition may_set_topic :: "connection \<Rightarrow> channel \<Rightarrow> bool" where
  "may_set_topic cp ch \<longleftrightarrow>
     c_operator cp = 2 \<or>
     (let cl = (if c_channel cp \<noteq> ch_chan ch then find (\<lambda>cl. cl_channel cl = ch_chan ch) (c_chan_list cp) else None) in
      if flag (ch_flags ch) M_CHAN_T
      then (c_channel cp = ch_chan ch \<and> c_channelop cp) \<or> (case cl of None \<Rightarrow> False | Some cl \<Rightarrow> cl_channelop cl)
      else c_channel cp = ch_chan ch \<or> cl \<noteq> None)"

text \<open>Lines 4566 to 4590 and 4623.\<close>

definition topic_set :: "env \<Rightarrow> cid \<Rightarrow> connection \<Rightarrow> channel \<Rightarrow> string \<Rightarrow> world \<Rightarrow> world" where
  "topic_set E i cp ch topic w =
     (let channel = ch_chan ch; time = (if w_currtime w < ch_time ch then ch_time ch + 1 else w_currtime w) in
      case check_cmd_flood E i (c_name cp) (Some (myhostname (w_cfg w))) SUL_TOPIC True topic w of
        (ret, w) \<Rightarrow>
          if ret \<noteq> 0 then w
          else
            let removed = (hd topic = CHR ''@'');
                is_already = ((removed \<and> ch_topic ch = []) \<or> ch_topic ch = topic);
                topic = (if removed then [] else take TOPICSIZE topic);
                irc = '':'' @ c_nickname cp @ '' TOPIC #'' @ dec channel @ '' :'' @ topic @ [NL];
                plain = ''*** ('' @ w_ts2 E w @ '') Channel topic '' @
                  (if removed then ''on channel '' @ dec channel @ '' '' @ (if is_already then ''is already '' else []) @ ''removed''
                   else ''set on channel '' @ dec channel @ (if is_already then '' is already the same'' else [])) @ ''.'' @ [NL];
                w = (if is_already then w else send_topic E (c_name cp) (c_nickname cp) (c_host cp) time channel topic w)
            in appendprompt E i False (answer_form E i irc plain w))"

text \<open>Lines 4598 to 4614: the topic is shown.\<close>

definition topic_show :: "env \<Rightarrow> cid \<Rightarrow> connection \<Rightarrow> channel \<Rightarrow> world \<Rightarrow> world" where
  "topic_show E i cp ch w =
     (let channel = ch_chan ch in
      if ch_topic ch = []
      then appendprompt E i False (answer_form E i (irc_reply cp ''331'' w @ ''#'' @ dec channel @ '' :There isn't a topic.'' @ [NL])
             (''*** ('' @ w_ts2 E w @ '') No current channel topic on channel '' @ dec channel @ ''.'' @ [NL]) w)
      else if \<not> c_ircmode cp
      then appendprompt E i True (appendstring E i
             (''*** ('' @ w_ts2 E w @ '') Current channel topic on channel '' @ dec channel @ '', set by '' @ ch_tsetby ch @ '' ('' @
              ts2 (e_localtime E) (w_currtime w) (ch_time ch) @ ''):'' @ [NL] @ ''    '' @ ch_topic ch @ [NL]) w)
      else appendprompt E i True
             (appendstring E i (irc_head cp ''333'' @ ''#'' @ dec channel @ '' '' @ ch_tsetby ch @ '' '' @ dec (ch_time ch) @ [NL])
               (appendstring E i [NL]
                 (appendstring E i (take IRC_MAX_MSGSIZE (irc_head cp ''332'' @ ''#'' @ dec (c_channel cp) @ '' :'' @ ch_topic ch)) w))))"

definition topic_command :: "env \<Rightarrow> cid \<Rightarrow> string \<Rightarrow> world \<Rightarrow> world" where
  "topic_command E i args w =
     (case conn w i of
        None \<Rightarrow> w
      | Some cp \<Rightarrow>
          (case check_user_banned E i ''TOPIC'' w of
             (True, w) \<Rightarrow> w
           | (False, w) \<Rightarrow>
               let (channel, topic) = topic_args (c_channel cp) (fst (getarg args True));
                   topic = (if c_ircmode cp then topic_irc topic else topic);
                   unknown = appendprompt E i False (answer_form E i
                     (irc_reply cp ''442'' w @ ''#'' @ dec channel @ '' :You're not on that channel'' @ [NL])
                     (''*** ('' @ w_ts2 E w @ '') Channel '' @ dec channel @ '' does non exist.'' @ [NL]) w)
               in if c_ircmode cp \<and> channel < 0
                  then appendstring E i (irc_reply cp ''442'' w @ ''* :No channel joined. Try /join #<channel>'' @ [NL]) w
                  else if channel = -1 \<and> topic \<noteq> []
                  then appendprompt E i False
                         (reply E i (irc_reply cp ''482'' w @ ''#all :You're not channel operator'' @ [NL])
                            (''*** Refusing to set topic on all channels.'' @ [NL]) w)
                  else if channel = -1 then appendprompt E i True (topic_list E i cp w)
                  else
                    (case find_channel channel w of
                       None \<Rightarrow> unknown
                     | Some ch \<Rightarrow>
                         if (flag (ch_flags ch) M_CHAN_I \<or> flag (ch_flags ch) M_CHAN_S) \<and> \<not> topic_insider cp ch then unknown
                         else if topic = [] then topic_show E i cp ch w
                         else if may_set_topic cp ch then topic_set E i cp ch topic w
                         else appendprompt E i False (answer_form E i
                                ('':'' @ myhostname (w_cfg w) @ '' 482 '' @ c_name cp @ '' #'' @ dec channel @ '' :You're not channel operator'' @ [NL])
                                (''*** ('' @ w_ts2 E w @ '') You are not an operator.'' @ [NL]) w))))"

section \<open>Operators and invitations\<close>

definition not_operator :: "env \<Rightarrow> cid \<Rightarrow> connection \<Rightarrow> world \<Rightarrow> world" where
  "not_operator E i cp w =
     reply E i ('':'' @ myhostname (w_cfg w) @ '' 481 '' @ c_name cp @ '' :Permission Denied - You're not an IRC operator'' @ [NL])
       (''*** You are not an operator.'' @ [NL]) w"

definition wall_command :: "env \<Rightarrow> cid \<Rightarrow> string \<Rightarrow> world \<Rightarrow> world" where
  "wall_command E i args w =
     (case conn w i of
        None \<Rightarrow> w
      | Some cp \<Rightarrow>
          if c_operator cp \<noteq> 2 then appendprompt E i False (not_operator E i cp w)
          else
            let s = fst (getargcs args True) in
            for_connections (\<lambda>p w.
              if c_type p = CT_USER \<and> c_via p = None \<and> c_id p \<noteq> i
              then appendprompt E (c_id p) False (appendstring E (c_id p) [NL] (appendstring E (c_id p) s
                     (append_general_notice E (c_id p) ''    ''
                       (append_general_notice E (c_id p) (''*** Urgent message from operator ('' @ c_name cp @ ''):'' @ [NL]) w))))
              else w) w)"

definition wizard_command :: "env \<Rightarrow> cid \<Rightarrow> string \<Rightarrow> world \<Rightarrow> world" where
  "wizard_command E i args w =
     (case conn w i of
        None \<Rightarrow> w
      | Some cp \<Rightarrow>
          let cmd = fst (getargcs args True) in
          if c_operator cp \<noteq> 2 then appendprompt E i False (not_operator E i cp w)
          else if cmd = []
          then appendprompt E i True
                 (reply E i (irc_reply cp ''461'' w @ ''WIZARD :Not enough parameters'' @ [NL]) (''*** Not enough parameters.'' @ [NL]) w)
          else appendprompt E i True
                 (for_connections (\<lambda>p w. if c_type p = CT_HOST then appendstring E (c_id p) (SL @ cmd @ [NL]) w else w) w))"

text \<open>Lines 1003 to 1040: the reason to refuse an invitation to an existing channel, for IRC clients and others.\<close>

definition invite_refusal :: "connection \<Rightarrow> channel \<Rightarrow> (string \<times> string \<times> string) option" where
  "invite_refusal cp ch =
     (let chan = ch_chan ch;
          cl = (if chan \<noteq> c_channel cp then find (\<lambda>cl. cl_channel cl = chan) (c_chan_list cp) else None)
      in if chan \<noteq> c_channel cp \<and> cl = None
         then if flag (ch_flags ch) M_CHAN_I \<or> flag (ch_flags ch) M_CHAN_S
              then Some (''403'', '':No such channel'', ''*** Channel does not exist'')
              else Some (''442'', '':You're not on that channel'', ''*** You're not on that channel'')
         else if flag (ch_flags ch) M_CHAN_P \<and>
                 \<not> (c_operator cp = 2 \<or> (c_channel cp = chan \<and> c_channelop cp) \<or> (case cl of None \<Rightarrow> False | Some cl \<Rightarrow> cl_channelop cl))
         then Some (''482'', '':You're not channel operator'', ''*** You need to be operator to invite to invite-only channels'')
         else None)"

definition invite_command :: "env \<Rightarrow> (string \<Rightarrow> bool list option) \<Rightarrow> cid \<Rightarrow> string \<Rightarrow> world \<Rightarrow> world" where
  "invite_command E utmp i args w =
     (case conn w i of
        None \<Rightarrow> w
      | Some cp \<Rightarrow>
          (case check_user_banned E i ''IMSG'' w of
             (True, w) \<Rightarrow> w
           | (False, w) \<Rightarrow>
               let (toname, rest) = getarg args False; (arg, rest) = getarg rest False;
                   toname = skip_mark (CHR ''~'') toname;
                   arg = skip_mark (CHR '':'') arg;
                   arg = skip_mark (CHR ''#'') arg;
                   chan = (if arg = [] then c_channel cp else atoi arg);
                   refuse = (\<lambda>irc plain. appendprompt E i False (reply E i irc (plain @ [NL]) w))
               in if toname = [] \<or> (c_ircmode cp \<and> arg = [])
                  then refuse (irc_reply cp ''461'' w @ ''INVITE :Not enough parameters'' @ [NL]) ''*** Who do you want to invite?''
                  else if arg \<noteq> [] \<and> (chan < 0 \<or> \<not> stringisnumber arg)
                  then refuse (irc_reply cp ''403'' w @ ''#'' @ arg @ '' :No such channel'' @ [NL]) ''*** Not a valid channel''
                  else
                    (case find (\<lambda>ch. ch_expires ch = 0 \<and> ch_chan ch = chan) (w_channels w) of
                       None \<Rightarrow> refuse (irc_reply cp ''403'' w @ ''#'' @ dec chan @ '' :No such channel'' @ [NL]) ''*** Channel does not exist''
                     | Some ch \<Rightarrow>
                         (case invite_refusal cp ch of
                            Some (num, irc, plain) \<Rightarrow> refuse (irc_reply cp num w @ ''#'' @ dec chan @ '' '' @ irc @ [NL]) plain
                          | None \<Rightarrow>
                              (case check_cmd_flood E i (c_name cp) (Some (myhostname (w_cfg w))) SUL_INVI True toname w of
                                 (ret, w) \<Rightarrow>
                                   if ret \<noteq> 0 then w
                                   else appendprompt E i False
                                          (send_invite_msg E utmp (c_name cp) toname chan (upd_conn i (\<lambda>c. c\<lparr>c_locked := False\<rparr>) w)))))))"

section \<open>Lines that are no commands\<close>

definition OBSERVERSTR :: string where
  "OBSERVERSTR = ''*** Sorry, you are only an observer :-)'' @ [NL]"

text \<open>Lines 4912 to 4927 of \<^verbatim>\<open>process_input\<close>: a message to the default channel or the partner of a private
  conversation. The truth value is that the prompt follows.\<close>

definition say_line :: "env \<Rightarrow> cid \<Rightarrow> connection \<Rightarrow> world \<Rightarrow> bool \<times> world" where
  "say_line E i cp w =
     (case check_user_banned E i ''PRIVMSG'' w of
        (True, w) \<Rightarrow> (False, w)
      | (False, w) \<Rightarrow>
          if c_query cp \<noteq> [] then (True, send_msg_to_user E (tx_name cp) (c_query cp) (c_ibuf cp) w)
          else
            (case find_channel (c_channel cp) w of
               None \<Rightarrow> (False, w)
             | Some ch \<Rightarrow>
                 (True,
                  if may_write cp ch then send_msg_to_channel E (tx_name cp) (c_channel cp) (c_ibuf cp) w
                  else append_general_notice E i moderated_text w)))"

text \<open>Lines 4901 to 4930; the arguments of \<open>operator_command\<close> come first.\<close>

definition text_line :: "nat \<Rightarrow> env \<Rightarrow> md5_ctx \<Rightarrow> (nat \<Rightarrow> int) \<Rightarrow> cid \<Rightarrow> world \<Rightarrow> world option" where
  "text_line n E ctx clock i w =
     (case conn w i of
        None \<Rightarrow> Some w
      | Some cp \<Rightarrow>
          if c_observer cp then Some (appendprompt E i False (append_general_notice E i OBSERVERSTR w))
          else if c_type cp \<noteq> CT_USER then Some (appendprompt E i False w)
          else
            let w = (if c_away cp \<noteq> [] then append_general_notice E i (''*** You are away, aren't you ? :-)'' @ [NL]) w else w)
            in if c_expected cp \<noteq> 0 \<or> flag (c_needauth cp) 4
               then map_option (\<lambda>w. appendprompt E i False
                      (upd_conn i (\<lambda>c. c\<lparr>c_expected := 0, c_needauth := clear_needauth 4 (c_needauth c)\<rparr>) w))
                      (operator_command n E ctx clock i (c_ibuf cp) w)
               else
                 let (goon, w) = say_line E i cp w in Some (if goon then appendprompt E i False w else w))"

section \<open>Moderated channels\<close>

lemma spares_reply: "flowing w \<Longrightarrow> i \<noteq> j \<Longrightarrow> spares j w (reply E i irc plain w)"
  by (auto simp: reply_def intro: spares_refl spares_intros split: option.split)

lemma sends_channels: "sends w v \<Longrightarrow> w_channels v = w_channels w"
  by (auto simp: sends_def)

text \<open>\<open>u\<close> is \<open>w\<close> after something was said to \<open>i\<close> alone.\<close>

definition tells_only :: "cid \<Rightarrow> world \<Rightarrow> world \<Rightarrow> bool" where
  "tells_only i w u \<longleftrightarrow> sends w u \<and> (\<forall>j. j \<noteq> i \<longrightarrow> conn u j = conn w j)"

lemma tells_only_refl: "flowing w \<Longrightarrow> tells_only i w w"
  by (simp add: tells_only_def sends_refl)

lemma tells_only_seq:
  assumes "tells_only i w v"
  shows "tells_only i w (appendstring E i s v)" "tells_only i w (append_general_notice E i s v)" "tells_only i w (appendprompt E i ast v)"
    "tells_only i w (reply E i irc plain v)"
proof -
  have v: "sends w v" "flowing v" "\<forall>j. j \<noteq> i \<longrightarrow> conn v j = conn w j" using assms by (auto simp: tells_only_def dest: sends_flowing)
  have "tells_only i w u" if "sends v u" "\<And>j. j \<noteq> i \<Longrightarrow> spares j v u" for u
    using that v sends_trans [OF v(1) that(1)] by (auto simp: tells_only_def spares_def)
  then show "tells_only i w (appendstring E i s v)" "tells_only i w (append_general_notice E i s v)" "tells_only i w (appendprompt E i ast v)"
    "tells_only i w (reply E i irc plain v)"
    using v(2) by (auto intro: inv_intros spares_intros spares_reply)
qed

lemma tells_only_banned:
  "flowing w \<Longrightarrow> tells_only i w (snd (check_user_banned E i cmd w)) \<and> (\<not> fst (check_user_banned E i cmd w) \<longrightarrow> snd (check_user_banned E i cmd w) = w)"
  by (simp add: check_user_banned_def tells_only_refl tells_only_seq split: option.split)


text \<open>A user who has joined two channels, of which the second is moderated.\<close>

definition moderated_world :: world where
  "moderated_world =
     (boot_world ''db0tud'' 10000)\<lparr>w_connections :=
        [(blank_connection 1 5 1000)\<lparr>c_type := CT_USER, c_name := ''dl1abc'', c_nickname := ''dl1abc'', c_host := ''db0tud'',
            c_channel := 7, c_chan_list := [\<lparr>cl_channel = 7, cl_channelop = False, cl_time = 0\<rparr>, \<lparr>cl_channel = 9, cl_channelop = False, cl_time = 0\<rparr>]\<rparr>,
         (blank_connection 2 6 1000)\<lparr>c_type := CT_USER, c_name := ''dl2abc'', c_nickname := ''dl2abc'', c_host := ''db0tud'', c_channel := 9,
            c_chan_list := [\<lparr>cl_channel = 9, cl_channelop = False, cl_time = 0\<rparr>]\<rparr>],
      w_next_cid := 3,
      w_channels := [fresh_channel False 1000 7 None, (fresh_channel False 1000 9 None)\<lparr>ch_flags := M_CHAN_M\<rparr>]\<rparr>"


text \<open>The moderation of a channel that is not the default channel.\<close>

lemma msg_line:
  assumes "0 \<le> n" "n < 2 ^ 31" "s \<noteq> []" "\<not> isspace (hd s)"
  shows "getarg (''#'' @ dec n @ '' '' @ s) False = (''#'' @ dec n, s)" "fst (getarg s True) = s" "atoi (dec n) = n"
proof -
  have "\<forall>c\<in>set (''#'' @ dec n). \<not> isspace c" using dec_no_space [of n] by (auto simp: isspace_def)
  moreover have "tolower (CHR ''#'') = CHR ''#''" by code_simp
  ultimately show "getarg (''#'' @ dec n @ '' '' @ s) False = (''#'' @ dec n, s)"
    using getarg_word [of "''#'' @ dec n" s] strlwr_dec [of n] by (simp add: strlwr_def)
  show "fst (getarg s True) = s" using assms(3,4) by (cases s) (simp_all add: getarg_def Let_def)
  show "atoi (dec n) = n" using assms(1,2) by (simp add: atoi_dec)
qed

text \<open>C36: Whether an ordinary user may write to a channel with the command depends on the moderation of his
  default channel, not on that of the channel he writes to.\<close>

theorem msg_moderated_by_default_channel:
  assumes "conn w i = Some cp" "\<not> c_ircmode cp" "is_banned (c_name cp) w = None"
    and "find (\<lambda>cl. cl_channel cl = n) (c_chan_list cp) = Some cl" "\<not> cl_channelop cl"
    and "find_channel (c_channel cp) w = Some d" "0 \<le> n" "n < 2 ^ 31" "s \<noteq> []" "\<not> isspace (hd s)"
  shows "msg_command E i (''#'' @ dec n @ '' '' @ s) w =
     appendprompt E i False (if flag (ch_flags d) M_CHAN_M then append_general_notice E i moderated_text w
                             else send_msg_to_channel E (tx_name cp) n s w)"
proof -
  have "check_user_banned E i ''PRIVMSG'' w = (False, w)" using assms(1,3) by (simp add: check_user_banned_def)
  moreover have "ctcp_of False s = CtcpNone s" by (simp add: ctcp_of_def Let_def split: option.split list.split)
  ultimately show ?thesis
    using assms(1,2,4-6,9) msg_line [OF assms(7-10)] by (simp add: msg_command_def msg_to_channel_def Let_def)
qed

theorem msg_moderated_by_default_channel_witness:
  "\<forall>E. flag (ch_flags (the (find_channel 9 moderated_world))) M_CHAN_M \<and>
     msg_command E 1 ''#9 hi'' moderated_world = appendprompt E 1 False (send_msg_to_channel E ''dl1abc'' 9 ''hi'' moderated_world)"
proof
  fix E
  define cp where "cp = the (conn moderated_world 1)"
  have cp: "conn moderated_world 1 = Some cp" "\<not> c_ircmode cp" "is_banned (c_name cp) moderated_world = None" "c_channel cp = 7"
    "find (\<lambda>cl. cl_channel cl = 9) (c_chan_list cp) = Some \<lparr>cl_channel = 9, cl_channelop = False, cl_time = 0\<rparr>" "tx_name cp = ''dl1abc''"
    by (simp_all add: cp_def moderated_world_def conn_def blank_connection_def is_banned_def find_ban_def tx_name_def getTXname_def boot_world_def)
  have d: "find_channel 7 moderated_world = Some (fresh_channel False 1000 7 None)" "\<not> flag (ch_flags (fresh_channel False 1000 7 None)) M_CHAN_M"
    by (simp_all add: moderated_world_def find_channel_def fresh_channel_def flag_def)
  have f: "flag (ch_flags (the (find_channel 9 moderated_world))) M_CHAN_M"
    by (simp add: moderated_world_def find_channel_def fresh_channel_def flag_def)
  have "''#'' @ dec 9 @ '' '' @ ''hi'' = ''#9 hi''" "\<not> isspace (hd ''hi'')" by code_simp+
  then show "flag (ch_flags (the (find_channel 9 moderated_world))) M_CHAN_M \<and>
     msg_command E 1 ''#9 hi'' moderated_world = appendprompt E 1 False (send_msg_to_channel E ''dl1abc'' 9 ''hi'' moderated_world)"
    using msg_moderated_by_default_channel [OF cp(1-3,5) _ d(1) [folded cp(4)], of "''hi''" E] d(2) cp(4,6) f by simp
qed

end
