(* ===== verification/Join.thy ===== *)
theory Join
  imports Talk Calm
begin

text \<open>
  Joining and leaving channels: \<^verbatim>\<open>channel_command\<close> and \<^verbatim>\<open>leave_command\<close> of \<^verbatim>\<open>user.c\<close>. The list of names that an IRC client gets when it joins a
  channel, \<^verbatim>\<open>irc_names_command\<close> of \<^verbatim>\<open>irc.c\<close>, is the argument \<open>names\<close> of the commands.
\<close>

section \<open>Lists of channels\<close>

text \<open>The words that \<^verbatim>\<open>strsep\<close> gives one after the other.\<close>

fun commas :: "string \<Rightarrow> string list" where
  "commas [] = [[]]"
| "commas (c # s) = (if c = CHR '','' then [] # commas s else (c # hd (commas s)) # tl (commas s))"

text \<open>Lines 578 to 594: where a channel is put into the list of a connection.\<close>

fun put_clist :: "clist \<Rightarrow> clist list \<Rightarrow> clist list" where
  "put_clist cl [] = [cl]"
| "put_clist cl (cl2 # cls) = (if cl_channel cl < cl_channel cl2 then cl # cl2 # cls else cl2 # put_clist cl cls)"

fun drop_clist :: "int \<Rightarrow> clist list \<Rightarrow> clist list" where
  "drop_clist n [] = []"
| "drop_clist n (cl # cls) = (if cl_channel cl = n then cls else cl # drop_clist n cls)"

section \<open>Joining\<close>

abbreviation (input) "MINCHANNEL \<equiv> (0 :: int)"

definition topic_lines :: "env \<Rightarrow> cid \<Rightarrow> channel \<Rightarrow> world \<Rightarrow> world" where
  "topic_lines E i ch w =
     appendstring E i [NL] (appendstring E i (ch_topic ch)
       (appendstring E i (''*** Topic set by '' @ ch_tsetby ch @ '':'' @ [NL] @ ''    '') w))"

text \<open>Lines 443 to 480: the channels of a user.\<close>

definition channel_show :: "env \<Rightarrow> cid \<Rightarrow> connection \<Rightarrow> world \<Rightarrow> world" where
  "channel_show E i cp w =
     (let w = appendstring E i (''*** ('' @ w_ts2 E w @ '') You are talking to channel '' @ dec (c_channel cp) @ ''. There are '' @
                dec (int (count_user (c_channel cp) w)) @ '' users.'' @ [NL]) w;
          w = (case find_channel (c_channel cp) w of
                 None \<Rightarrow> w
               | Some ch \<Rightarrow> if ch_topic ch \<noteq> [] then topic_lines E i ch w else w);
          others = filter (\<lambda>cl. cl_channel cl \<noteq> c_channel cp) (c_chan_list cp);
          item = (\<lambda>cl. '' channel '' @ dec (cl_channel cl) @
                    (let n = count_user (cl_channel cl) w in if n = 1 then '' (alone)'' else '' ('' @ dec (int n) @ '' users)''));
          w = (if others \<noteq> []
               then appendstring E i (''*** Also attached:'' @ item (hd others) @ concat (map (\<lambda>cl. '','' @ item cl) (tl others)) @ ''.'' @ [NL]) w
               else w)
      in appendprompt E i False w)"

text \<open>Line 485: a word that names no channel the user may join.\<close>

definition bad_channel :: "connection \<Rightarrow> string \<Rightarrow> world \<Rightarrow> bool" where
  "bad_channel cp s w \<longleftrightarrow>
     \<not> stringisnumber s \<or> (atoi s = 0 \<and> ban_zero (w_cfg w) \<and> c_operator cp \<noteq> 2) \<or> atoi s < MINCHANNEL \<or> MAXCHANNEL < atoi s"

text \<open>Line 511: the channel is private and the user is neither on it nor invited.\<close>

definition uninvited :: "connection \<Rightarrow> int \<Rightarrow> world \<Rightarrow> bool" where
  "uninvited cp n w \<longleftrightarrow>
     \<not> on_chan_list cp n \<and> (case find_channel n w of None \<Rightarrow> False | Some ch \<Rightarrow> flag (ch_flags ch) M_CHAN_P) \<and> c_invitation_channel cp \<noteq> n"

text \<open>Line 545: after a netsplit a channel is kept for the one who made it.\<close>

definition reserved :: "connection \<Rightarrow> int \<Rightarrow> world \<Rightarrow> bool" where
  "reserved cp n w \<longleftrightarrow>
     (case find_channel n w of
        None \<Rightarrow> False
      | Some ch \<Rightarrow> c_operator cp \<noteq> 2 \<and> ch_locked_until ch \<noteq> 0 \<and> w_currtime w < ch_locked_until ch \<and> \<not> strcaseeq (ch_createby ch) (c_name cp))"

text \<open>Lines 512 to 535. An operator is taken to be invited from now on.\<close>

definition refuse_private :: "env \<Rightarrow> cid \<Rightarrow> connection \<Rightarrow> int \<Rightarrow> world \<Rightarrow> world" where
  "refuse_private E i cp n w =
     (case check_user_banned E i ''JOIN'' w of
        (True, w) \<Rightarrow> w
      | (False, w) \<Rightarrow>
          (case check_join_flood E i (c_name cp) (myhostname (w_cfg w)) n w of
             (ret, w) \<Rightarrow>
               if ret \<noteq> 0 then w
               else
                 let op = (c_operator cp = 2);
                     w = (if op then upd_conn i (\<lambda>c. c\<lparr>c_invitation_channel := n\<rparr>) w else w);
                     w = answer_form E i
                           (irc_head cp ''473'' @ ''#'' @ dec n @
                            (if op then '' :Nick/channel is temporarily unavailable. Try again if you really want to join.''
                             else '' :Cannot join channel (+i)'') @ [NL])
                           (if op then ''*** Channel '' @ dec n @ '' is invite only. Try again if you really want to join.'' @ [NL]
                            else ''*** ('' @ w_ts2 E w @ '') You need an invitation to join the private channel '' @ dec n @ ''.'' @ [NL]) w;
                     w = appendprompt E i False w
                 in send_msg_to_channel E ''conversd'' n
                      (''*** ('' @ w_ts2 E w @ '') '' @ c_name cp @ ''@'' @ myhostname (w_cfg w) @ '' tried to join your private channel.'') w))"

text \<open>Whether a channel is new, that is not there or waiting to expire.\<close>

definition new_chan :: "int \<Rightarrow> world \<Rightarrow> bool" where
  "new_chan n w = (case find_channel n w of None \<Rightarrow> True | Some ch \<Rightarrow> ch_expires ch \<noteq> 0)"

text \<open>Lines 561 to 594: the news and the entry in the list.\<close>

definition enter_channel :: "env \<Rightarrow> cid \<Rightarrow> connection \<Rightarrow> int \<Rightarrow> bool \<Rightarrow> world \<Rightarrow> world" where
  "enter_channel E i cp n announce w =
     (let new = new_chan n w;
          w = lock_conn i w;
          w = send_user_change_msg E
                \<lparr>g_name = c_name cp, g_nickname = c_nickname cp, g_host = c_host cp, g_old = -1, g_new = n, g_pers = c_pers cp,
                 g_pers_changed = (announce \<and> c_pers cp \<noteq> ''@''), g_time = c_time cp, g_observer = c_observer cp, g_quits_sent = False,
                 g_chanop = (if new then 2 else 0), g_nick_changed = (announce \<and> \<not> strcaseeq (c_nickname cp) (c_name cp)),
                 g_oldnick = c_name cp\<rparr> w;
          cl = \<lparr>cl_channel = n, cl_channelop = (\<not> c_observer cp \<and> new), cl_time = w_currtime w\<rparr>
      in upd_conn i (\<lambda>c. c\<lparr>c_locked := (if new then False else c_locked c), c_mtime := w_currtime w,
           c_chan_list := put_clist cl (c_chan_list c)\<rparr>) w)"

text \<open>Lines 596 to 659: the channel becomes the default channel, and the user hears about it. When he was closed
  meanwhile, his entry for the channel has been freed.\<close>

definition greet_topic :: "env \<Rightarrow> cid \<Rightarrow> connection \<Rightarrow> channel \<Rightarrow> world \<Rightarrow> world" where
  "greet_topic E i cp ch w =
     (let n = ch_chan ch;
          w = (if c_ircmode cp then w
               else
                 let w = appendstring E i (''There are '' @ dec (int (count_user n w)) @ '' users.'') w;
                     w = (if ch_ltime ch \<noteq> 0
                          then appendstring E i ([NL] @ ''    Last message on channel '' @ ts3 (w_currtime w - ch_ltime ch) @ '' ago.'') w else w)
                 in appendstring E i [NL] w)
      in if ch_topic ch = [] then w
         else if \<not> c_ircmode cp then topic_lines E i ch w
         else appendstring E i (irc_head cp ''333'' @ ''#'' @ dec n @ '' '' @ ch_tsetby ch @ '' '' @ dec (ch_time ch) @ [NL])
                (appendstring E i [NL] (appendstring E i (take IRC_MAX_MSGSIZE (irc_head cp ''332'' @ ''#'' @ dec n @ '' :'' @ ch_topic ch)) w)))"

definition greet_channel :: "env \<Rightarrow> (cid \<Rightarrow> int \<Rightarrow> world \<Rightarrow> world) \<Rightarrow> cid \<Rightarrow> connection \<Rightarrow> int \<Rightarrow> world \<Rightarrow> world" where
  "greet_channel E names i cp n w =
     (let w = upd_conn i (\<lambda>c. c\<lparr>c_channel := n\<rparr>) w; ch = find_channel n w;
          flags = (case ch of None \<Rightarrow> 0 | Some ch \<Rightarrow> ch_flags ch);
          w = (if \<not> c_ircmode cp
               then appendstring E i (''*** ('' @ w_ts2 E w @ '') You are now talking to channel '' @ dec n @ ''. '') w
               else appendstring E i ('':'' @ myhostname (w_cfg w) @ '' MODE #'' @ dec n @ '' +'' @ get_mode_flags2irc flags @ [NL])
                      (appendstring E i ('':'' @ c_nickname cp @ ''!'' @ c_name cp @ ''@'' @ c_host cp @ '' JOIN :#'' @ dec n @ [NL]) w));
          w = (case ch of
                 Some ch \<Rightarrow>
                   if ch_expires ch = 0
                   then let w = greet_topic E i cp ch w
                        in (case Option.bind (conn w i) (\<lambda>c. find (\<lambda>cl. cl_channel cl = n) (c_chan_list c)) of
                              None \<Rightarrow> fault w
                            | Some cl \<Rightarrow> upd_conn i (\<lambda>c. c\<lparr>c_channelop := cl_channelop cl\<rparr>) w)
                   else upd_channel n (\<lambda>ch. ch\<lparr>ch_createby := take NAMESIZE (c_name cp), ch_ctime := w_currtime w, ch_locked_until := 0, ch_expires := 0\<rparr>)
                          (upd_conn i (\<lambda>c. c\<lparr>c_channelop := (c_channelop c \<or> \<not> c_observer cp)\<rparr>)
                            (if c_ircmode cp then w else appendstring E i (''You're alone.'' @ [NL]) w))
               | None \<Rightarrow>
                   new_channel E n (Some (c_name cp))
                     (upd_conn i (\<lambda>c. c\<lparr>c_channelop := (c_channelop c \<or> \<not> c_observer cp)\<rparr>)
                       (if c_ircmode cp then w else appendstring E i (''You're alone.'' @ [NL]) w)));
          w = (if c_ircmode cp then names i n w else w)
      in appendprompt E i False w)"

text \<open>Lines 483 to 660: one word that is not empty. The first result is \<open>None\<close> when the command is left, or else
  whether the user has to be announced when all words are done.\<close>

definition join_word ::
  "env \<Rightarrow> (cid \<Rightarrow> int \<Rightarrow> world \<Rightarrow> world) \<Rightarrow> cid \<Rightarrow> connection \<Rightarrow> string \<Rightarrow> bool \<Rightarrow> world \<Rightarrow> bool option \<times> world" where
  "join_word E names i cp s announce w =
     (let n = atoi s in
      if bad_channel cp s w
      then (None, appendprompt E i False (answer_form E i (irc_head cp ''403'' @ s @ '' :No such channel'' @ [NL])
                    (''*** ('' @ w_ts2 E w @ '') Channel numbers must be in the range '' @ dec (if ban_zero (w_cfg w) then 1 else MINCHANNEL) @
                     ''..'' @ dec MAXCHANNEL @ ''.'' @ [NL]) w))
      else if n = c_channel cp
      then (None, if c_ircmode cp then w
                  else appendprompt E i False
                         (appendstring E i (''*** ('' @ w_ts2 E w @ '') Channel '' @ dec n @ '' is already default.'' @ [NL]) w))
      else if uninvited cp n w then (None, refuse_private E i cp n w)
      else if on_chan_list cp n
      then if c_ircmode cp then (None, w) else (Some announce, greet_channel E names i cp n w)
      else if reserved cp n w
      then (None, appendprompt E i False (answer_form E i (irc_reply cp ''437'' w @ ''#'' @ dec n @ '' :Channel is temporarily unavailable'' @ [NL])
                    (''*** ('' @ w_ts2 E w @ '') Channel '' @ dec n @ '' is currently unavailable: netsplit.'' @ [NL]) w))
      else
        (case check_user_banned E i ''JOIN'' w of
           (True, w) \<Rightarrow> (None, w)
         | (False, w) \<Rightarrow>
             (case check_join_flood E i (c_name cp) (myhostname (w_cfg w)) n w of
                (ret, w) \<Rightarrow>
                  if ret \<noteq> 0 then (None, w)
                  else
                    let announce = (announce \<or> c_chan_list cp = []);
                        w = enter_channel E i cp n announce w
                    in (Some announce, greet_channel E names i cp n w))))"

text \<open>The words one after the other. For an IRC client the list of names is made up in the input buffer, over the
  words that follow: when there are any the result is \<open>None\<close>.\<close>

fun join_words ::
  "env \<Rightarrow> (cid \<Rightarrow> int \<Rightarrow> world \<Rightarrow> world) \<Rightarrow> cid \<Rightarrow> string list \<Rightarrow> bool \<Rightarrow> world \<Rightarrow> (bool option \<times> world) option" where
  "join_words E names i [] announce w = Some (Some announce, w)"
| "join_words E names i (s # ss) announce w =
     (let w = clear_locks w; s = skip_mark (CHR ''#'') s in
      case conn w i of
        None \<Rightarrow> Some (None, w)
      | Some cp \<Rightarrow>
          if s = [] then Some (None, if c_ircmode cp then w else channel_show E i cp w)
          else
            (case join_word E names i cp s announce w of
               (None, w) \<Rightarrow> Some (None, w)
             | (Some announce, w) \<Rightarrow> if c_ircmode cp \<and> ss \<noteq> [] then None else join_words E names i ss announce w))"

text \<open>Lines 661 to 682: what the network has to know of a user who was on no channel before.\<close>

definition announce_user :: "env \<Rightarrow> cid \<Rightarrow> world \<Rightarrow> world" where
  "announce_user E i w =
     (let w = clear_locks w in
      case conn w i of
        None \<Rightarrow> w
      | Some cp \<Rightarrow>
          let me = myhostname (w_cfg w); alone = (\<lambda>w. lock_conn i (clear_locks w));
              w = (if c_operator cp \<noteq> 0
                   then send_opermsg E (c_name cp) (c_nickname cp) me (c_name cp) (c_nickname cp) (c_host cp) (-1) True (alone w) else w);
              w = (if c_away cp \<noteq> [] then send_awaymsg E (c_name cp) (c_nickname cp) me (c_atime cp) (c_away cp) True (alone w) else w)
          in (case c_filter cp of
                Some f \<Rightarrow> if c_observer cp then w else send_filter_msg E (c_name cp) (c_host cp) (c_filter_time cp) f (alone w)
              | None \<Rightarrow> w))"

definition channel_command :: "env \<Rightarrow> (cid \<Rightarrow> int \<Rightarrow> world \<Rightarrow> world) \<Rightarrow> cid \<Rightarrow> string \<Rightarrow> world \<Rightarrow> world option" where
  "channel_command E names i args w =
     map_option (\<lambda>(announce, w). if announce = Some True then announce_user E i w else w)
       (join_words E names i (commas (skip_mark (CHR '':'') (fst (getarg args False)))) False w)"

section \<open>Leaving\<close>

text \<open>The news that a user leaves a channel.\<close>

definition part_change :: "connection \<Rightarrow> int \<Rightarrow> string \<Rightarrow> change" where
  "part_change cp n reason =
     \<lparr>g_name = c_name cp, g_nickname = c_nickname cp, g_host = c_host cp, g_old = n, g_new = -1, g_pers = reason, g_pers_changed = True,
      g_time = c_time cp, g_observer = c_observer cp, g_quits_sent = False, g_chanop = 0, g_nick_changed = False, g_oldnick = c_nickname cp\<rparr>"

text \<open>Lines 1352 to 1385 for the first channel of the list, lines 1387 to 1428 for another one. When the
  user has been closed meanwhile, the second form reads the head of an empty list.\<close>

definition part_channel :: "env \<Rightarrow> cid \<Rightarrow> connection \<Rightarrow> int \<Rightarrow> string \<Rightarrow> world \<Rightarrow> world" where
  "part_channel E i cp n reason w =
     (let first = (cl_channel (hd (c_chan_list cp)) = n);
          w = upd_conn i (\<lambda>c. c\<lparr>c_chan_list := drop_clist n (c_chan_list c), c_locked := True\<rparr>) w;
          w = send_user_change_msg E (part_change cp n (if reason \<noteq> [] then reason else if first then ''/leave'' else ''@'')) w;
          w = upd_conn i (\<lambda>c. c\<lparr>c_locked := False\<rparr>) w;
          cls = (case conn w i of None \<Rightarrow> [] | Some c \<Rightarrow> c_chan_list c);
          default = (n = c_channel cp);
          w = (if default \<and> cls = [] \<and> \<not> first then fault w else w);
          w = (if default
               then upd_conn i (\<lambda>c. c\<lparr>c_channel := (case cls of [] \<Rightarrow> -1 | cl # _ \<Rightarrow> cl_channel cl),
                      c_channelop := (case cls of [] \<Rightarrow> False | cl # _ \<Rightarrow> cl_channelop cl)\<rparr>) w
               else w);
          w = appendprompt E i False (answer_form E i
                ('':'' @ c_nickname cp @ ''!'' @ c_name cp @ ''@'' @ c_host cp @ '' PART #'' @ dec n @ [NL])
                (''*** ('' @ w_ts2 E w @ '') '' @
                 (if default then ''Default channel is now '' @ dec (case cls of [] \<Rightarrow> -1 | cl # _ \<Rightarrow> cl_channel cl)
                  else ''Left channel '' @ dec n) @ ''.'' @ [NL]) w)
      in if count_user n w = 0 then destroy_channel n False w else update_channel_history None n (c_name cp) (c_host cp) w)"

text \<open>Lines 1313 to 1441. Only one channel is left: the command ends with the first word that names a channel of
  the user.\<close>

definition leave_chan :: "connection \<Rightarrow> string \<Rightarrow> int" where
  "leave_chan cp s = (if s = [] \<or> hd s = CHR ''*'' then c_channel cp else atoi s)"

fun leave_words :: "env \<Rightarrow> cid \<Rightarrow> string \<Rightarrow> string list \<Rightarrow> world \<Rightarrow> world" where
  "leave_words E i s [] w = w"
| "leave_words E i s (x # xs) w =
     (let w = clear_locks w in
      case conn w i of
        None \<Rightarrow> w
      | Some cp \<Rightarrow>
          let n = leave_chan cp (skip_mark (CHR ''#'') x);
              s' = (if c_ircmode cp then skip_mark (CHR '':'') s else s);
              reason = (if s' = [] \<or> c_observer cp then [] else [CHR 0x22] @ s' @ [CHR 0x22])
          in if 0 \<le> n \<and> n = c_channel cp \<and> c_chan_list cp = [] then fault w
             else if 0 \<le> n \<and> n = c_channel cp \<and> tl (c_chan_list cp) = [] \<and> \<not> c_ircmode cp then e_bye E i reason w
             else if 0 \<le> n \<and> on_chan_list cp n then part_channel E i cp n reason w
             else leave_words E i s xs
                    (appendprompt E i False (answer_form E i (irc_head cp ''442'' @ ''#'' @ dec n @ '' :You're not on that channel'' @ [NL])
                       (''*** ('' @ w_ts2 E w @ '') You were not on channel '' @ dec n @ ''.'' @ [NL]) w)))"

definition leave_command :: "env \<Rightarrow> cid \<Rightarrow> string \<Rightarrow> world \<Rightarrow> world" where
  "leave_command E i args w =
     (let (arg, rest) = getarg args False
      in leave_words E i (fst (getargcs rest True)) (commas (skip_mark (CHR '':'') arg)) w)"

section \<open>Private channels\<close>

lemma list_ex_put_clist: "list_ex P (put_clist cl cls) \<longleftrightarrow> P cl \<or> list_ex P cls"
  by (induction cls) auto

lemma on_chan_list_image: "on_chan_list c n \<longleftrightarrow> n \<in> cl_channel ` set (c_chan_list c)"
  by (auto simp: on_chan_list_def list_ex_iff)

text \<open>On which channels somebody is after an operation that is calm.\<close>

lemma calms_off: "calms w u \<Longrightarrow> conn w i = Some cp \<Longrightarrow> \<not> on_chan_list cp n \<Longrightarrow> conn u i = Some c \<Longrightarrow> \<not> on_chan_list c n"
  using calms_conn [of w u i c] by (auto simp: calmer_def on_chan_list_image)

context calm
begin

lemma calm_answer_form: "calms u w \<Longrightarrow> calms u (answer_form E i irc plain w)"
  by (simp add: answer_form_def calm_basic split: option.split)

lemma calm_refuse_private: "calms u w \<Longrightarrow> calms u (refuse_private E i cp n w)"
  by (simp add: refuse_private_def Let_def split_def calm_floods calm_answer_form calm_basic calm_messages calm_conns calmer_def split: bool.split)

lemma calm_topic_lines: "calms u w \<Longrightarrow> calms u (topic_lines E i ch w)"
  by (simp add: topic_lines_def calm_basic)

lemma calm_channel_show: "calms u w \<Longrightarrow> calms u (channel_show E i cp w)"
  by (simp add: channel_show_def Let_def calm_basic calm_topic_lines split: option.split)

lemma calm_greet_topic: "calms u w \<Longrightarrow> calms u (greet_topic E i cp ch w)"
  by (simp add: greet_topic_def Let_def calm_basic calm_topic_lines)

lemma calm_greet_channel: "calms u w \<Longrightarrow> \<not> c_ircmode cp \<Longrightarrow> calms u (greet_channel E names i cp n w)"
  by (simp add: greet_channel_def Let_def calm_basic calm_greet_topic calm_conns calmer_def new_channel_def split: option.split)

lemma calm_announce_user: "calms u w \<Longrightarrow> calms u (announce_user E i w)"
  by (simp add: announce_user_def Let_def calm_basic calm_messages split: option.split)

end

text \<open>Connection \<open>i\<close> is not on channel \<open>n\<close>.\<close>

definition off :: "cid \<Rightarrow> int \<Rightarrow> world \<Rightarrow> bool" where
  "off i n w \<longleftrightarrow> (\<forall>c. conn w i = Some c \<longrightarrow> \<not> on_chan_list c n)"

lemma off_calms: "off i n w \<Longrightarrow> calms w u \<Longrightarrow> off i n u"
  unfolding off_def using calms_conn [of w u i] by (fastforce simp: calmer_def on_chan_list_image)

context calm
begin

lemma off_enter_channel: "off i n w \<Longrightarrow> m \<noteq> n \<Longrightarrow> off i n (enter_channel E i cp m announce w)"
proof -
  assume a: "off i n w" "m \<noteq> n"
  have put: "off i n (upd_conn i (\<lambda>c. c\<lparr>c_locked := l c, c_mtime := t, c_chan_list := put_clist cl (c_chan_list c)\<rparr>) v)"
    if "off i n v" "cl_channel cl \<noteq> n" for v l t cl
    using that by (auto simp: off_def conn_upd_conn on_chan_list_def list_ex_put_clist)
  have "off i n (send_user_change_msg E g (lock_conn i w))" for g
    by (rule off_calms [OF a(1)]) (simp add: calm_basic calms_refl)
  with put a(2) show ?thesis by (simp add: enter_channel_def Let_def)
qed

lemma off_join_word:
  assumes "off i n w" "conn w i = Some cp" "\<not> c_ircmode cp" "uninvited cp n w"
  shows "off i n (snd (join_word E names i cp s announce w))"
proof -
  note c = off_calms [OF assms(1)]
  have g: "off i n (greet_channel E names i cp m v)" if "off i n v" for m v
    by (rule off_calms [OF that]) (simp add: assms(3) calm_greet_channel calms_refl)
  have r: "off i n (appendprompt E i False (answer_form E i irc plain w))" "off i n (refuse_private E i cp m w)"
    "off i n (appendprompt E i False (appendstring E i x w))" for irc plain m x
    by (auto intro!: c simp: calm_basic calm_answer_form calm_refuse_private calms_refl)
  have f: "off i n (snd (check_join_flood E i name host m (snd (check_user_banned E i cmd w))))" "off i n (snd (check_user_banned E i cmd w))"
    for name host m cmd
    by (auto intro!: c simp: calm_floods calms_refl)
  have "off i n (greet_channel E names i cp m (enter_channel E i cp m a v))" if "off i n v" "\<not> uninvited cp m w" for m a v
  proof -
    have "m \<noteq> n" using that(2) assms(4) by auto
    from g [OF off_enter_channel [OF that(1) this]] show ?thesis .
  qed
  with g r f assms show ?thesis
    by (auto simp: join_word_def Let_def split_def split: bool.split)
qed

end

lemma tolower_comma: "tolower c = CHR '','' \<Longrightarrow> c = CHR '',''"
proof (cases "isupper c")
  case True
  then have "ccode (tolower c) = ccode c + 32" by (simp add: tolower_def isupper_def)
  moreover assume "tolower c = CHR '',''"
  ultimately show ?thesis using True by (simp add: isupper_def)
qed (simp add: tolower_def)

lemma commas_single: "CHR '','' \<notin> set s \<Longrightarrow> commas s = [s]"
  by (induction s) auto

lemma uninvited_locks: "uninvited (cp\<lparr>c_locked := l\<rparr>) n (clear_locks w) = uninvited cp n w"
  by (simp add: uninvited_def on_chan_list_def find_channel_def)

context calm
begin

lemma off_join_words:
  assumes "conn w i = Some cp" "\<not> c_ircmode cp" "uninvited cp n w"
  shows "\<exists>a u. join_words E names i [s] False w = Some (a, u) \<and> off i n u"
proof -
  let ?w = "clear_locks w" and ?cp = "cp\<lparr>c_locked := False\<rparr>" and ?s = "skip_mark (CHR ''#'') s"
  have cp: "conn ?w i = Some ?cp" using assms(1) by (simp add: conn_clear_locks)
  have u: "uninvited ?cp n ?w" using assms(3) by (simp add: uninvited_locks)
  then have o: "off i n ?w" using cp by (auto simp: off_def uninvited_def)
  have "off i n (channel_show E i ?cp ?w)" by (rule off_calms [OF o]) (simp add: calm_channel_show calms_refl)
  with off_join_word [OF o cp _ u, of names ?s False] assms(2) cp show ?thesis
    by (auto simp: Let_def split: option.split prod.split)
qed

end

text \<open>C15: A user who does not speak IRC and is neither on a private channel nor invited to it does not get on it with a
  command that names one channel, whether or not sending the news closes connections.\<close>

theorem join_needs_invitation:
  assumes "conn w i = Some cp" "\<not> c_ircmode cp" "uninvited cp n w" "CHR '','' \<notin> set args"
  shows "\<exists>u. channel_command (E\<lparr>e_bye := bye k E\<rparr>) names i args w = Some u \<and> (\<forall>c. conn u i = Some c \<longrightarrow> \<not> on_chan_list c n)"
proof -
  let ?s = "skip_mark (CHR '':'') (fst (getarg args False))"
  have "set ?s \<subseteq> set (fst (getarg args False))" by (rule skip_mark_set)
  also have "\<dots> \<subseteq> tolower ` set args" by (auto simp: getarg_def Let_def strlwr_def dest: set_takeWhileD set_dropWhileD)
  finally have "set ?s \<subseteq> tolower ` set args" .
  moreover have "CHR '','' \<notin> tolower ` set args" using assms(4) tolower_comma by (metis imageE)
  ultimately have c: "commas ?s = [?s]" by (intro commas_single) blast
  obtain a u where u: "join_words (E\<lparr>e_bye := bye k E\<rparr>) names i [?s] False w = Some (a, u)" "off i n u"
    using calmly.off_join_words [OF assms(1-3)] by blast
  moreover have "off i n (announce_user (E\<lparr>e_bye := bye k E\<rparr>) i u)"
    by (rule off_calms [OF u(2)]) (simp add: calmly.calm_announce_user calms_refl)
  ultimately show ?thesis unfolding channel_command_def c by (auto simp: off_def)
qed

definition private_world :: world where
  "private_world =
     (boot_world ''db0tud'' 10000)\<lparr>w_connections :=
        [(blank_connection 1 5 1000)\<lparr>c_type := CT_USER, c_name := ''dl1abc'', c_nickname := ''dl1abc'', c_host := ''db0tud'',
            c_channel := 7, c_chan_list := [\<lparr>cl_channel = 7, cl_channelop = False, cl_time = 0\<rparr>]\<rparr>],
      w_next_cid := 2,
      w_channels := [fresh_channel False 1000 7 None, (fresh_channel False 1000 9 None)\<lparr>ch_flags := M_CHAN_P\<rparr>]\<rparr>"

theorem join_needs_invitation_witness:
  "\<forall>E k names. \<exists>u. channel_command (E\<lparr>e_bye := bye k E\<rparr>) names 1 ''9'' private_world = Some u \<and>
     (\<forall>c. conn u 1 = Some c \<longrightarrow> \<not> on_chan_list c 9)"
proof (intro allI)
  fix E k names
  define cp where "cp = the (conn private_world 1)"
  have "conn private_world 1 = Some cp" "\<not> c_ircmode cp" "uninvited cp 9 private_world"
    by (simp_all add: cp_def private_world_def conn_def blank_connection_def uninvited_def on_chan_list_def find_channel_def fresh_channel_def flag_def)
  moreover have "CHR '','' \<notin> set ''9''" by simp
  ultimately show "\<exists>u. channel_command (E\<lparr>e_bye := bye k E\<rparr>) names 1 ''9'' private_world = Some u \<and>
     (\<forall>c. conn u 1 = Some c \<longrightarrow> \<not> on_chan_list c 9)"
    by (rule join_needs_invitation)
qed

end
