(* ===== verification/Cron.thy ===== *)
theory Cron
  imports Talk
begin

text \<open>
  Jobs of users: \<^verbatim>\<open>cron_command\<close> of \<^verbatim>\<open>user.c\<close>, which keeps the list of commands a client wants to
  have run, and \<^verbatim>\<open>periodical_jobs\<close> and \<^verbatim>\<open>anti_idle_msg\<close> of \<^verbatim>\<open>conversd.c\<close>, which run them. The
  operation that handles a line, \<^verbatim>\<open>process_input\<close>, is an argument. Interval and number of retries of a job are bytes.
\<close>

section \<open>The table of a client\<close>

definition upd_jobs :: "cid \<Rightarrow> (jobs list \<Rightarrow> jobs list) \<Rightarrow> world \<Rightarrow> world" where
  "upd_jobs i f = upd_conn i (\<lambda>c. c\<lparr>c_jobs := f (c_jobs c)\<rparr>)"

datatype cron_what = LIST_JOBS | DELETE_JOB nat | ADD_JOB string string

text \<open>Lines 6297 to 6318: what is to be done. The first text of \<open>ADD_JOB\<close> is the word with the interval, the second what
  follows it. \<open>None\<close> asks for help.\<close>

definition cron_parse :: "string \<Rightarrow> string \<Rightarrow> cron_what option" where
  "cron_parse arg rest =
     (let is = (\<lambda>word. strncaseeq arg word (length arg)) in
      if arg = [] \<or> is ''list'' then Some LIST_JOBS
      else if hd arg = CHR ''?'' \<or> is ''help'' then None
      else if hd arg = CHR ''-'' \<or> is ''delete''
      then let n = fst (getarg rest False); n = (skip_mark (CHR ''#'') n)
           in Some (DELETE_JOB (nat (atoi n)))
      else if hd arg = CHR ''+'' \<or> is ''add'' then Some (case getarg rest False of (a, r) \<Rightarrow> ADD_JOB a r)
      else Some (ADD_JOB arg rest))"

text \<open>Lines 6343 to 6360.\<close>

definition cron_line :: "env \<Rightarrow> cid \<Rightarrow> nat \<times> jobs \<Rightarrow> world \<Rightarrow> world" where
  "cron_line E i = (\<lambda>(k, job) w.
     case j_command job of
       Some cmd \<Rightarrow>
         if j_when job = 0 then append_general_notice E i ('' [#'' @ dec2 (int k) @ '': deleted]'' @ [NL]) w
         else
           let w = append_general_notice E i (''  #'' @ dec2 (int k) @ '': every '' @ ts3 (int (j_interval job) * 60) @ '', '') w;
               w = appendstring E i (if j_retries job \<noteq> 0 then dec (int (j_retries job)) @ '' retr'' @ (if j_retries job = 1 then ''y'' else ''ies'') @ '', ''
                                     else ''infinitive, '') w;
               w = appendstring E i (''time left '' @ ts3 (j_when job - w_currtime w) @ '':'' @ [NL]) w
           in appendstring E i [NL] (appendstring E i cmd (append_general_notice E i ''       '' w))
     | None \<Rightarrow> append_general_notice E i ('' [#'' @ dec2 (int k) @ '': deleted]'' @ [NL]) w)"

definition cron_list :: "env \<Rightarrow> cid \<Rightarrow> connection \<Rightarrow> bool \<Rightarrow> world \<Rightarrow> world" where
  "cron_list E i cp2 own w =
     (if c_jobs cp2 = [] then appendprompt E i False (append_general_notice E i (''*** Crontab is empty.'' @ [NL]) w)
      else
        let w = append_general_notice E i (''*** ('' @ w_ts2 E w @ '') '' @ (if own then ''Current cron table'' else ''Cron table for '' @ c_name cp2) @ '':'' @ [NL]) w
        in appendprompt E i True (fold (cron_line E i) (zip [1..<Suc (length (c_jobs cp2))] (c_jobs cp2)) w))"

text \<open>Lines 6327 to 6332 and 6366 to 6376: jobs are marked to be deleted, all of them for the number 0.\<close>

definition cron_delete :: "env \<Rightarrow> cid \<Rightarrow> connection \<Rightarrow> nat \<Rightarrow> world \<Rightarrow> world" where
  "cron_delete E i cp2 n w =
     (let mark = (\<lambda>job. job\<lparr>j_when := 0\<rparr>);
          w = upd_jobs (c_id cp2) (\<lambda>js. if n = 0 then map mark js else if n \<le> length js then js[n - 1 := mark (js ! (n - 1))] else js) w
      in appendprompt E i False (append_general_notice E i
           (if length (c_jobs cp2) < n then ''*** Job #'' @ dec2 (int n) @ '' not found.'' @ [NL]
            else ''*** ('' @ w_ts2 E w @ '') Crontab'' @ (if n \<noteq> 0 then '': job #'' @ dec2 (int n) @ '' deleted'' else '' removed'') @ ''.'' @ [NL]) w))"

text \<open>Lines 6387 to 6426. The interval counts in full for the first run.\<close>

definition cron_add :: "env \<Rightarrow> cid \<Rightarrow> connection \<Rightarrow> string \<Rightarrow> string \<Rightarrow> world \<Rightarrow> world" where
  "cron_add E i cp arg rest w =
     (let (arg2, rest) = getarg rest False; cmd = fst (getargcs rest True);
          cmd = skip_mark (CHR ''/'') cmd;
          interval = (if atoi arg < 0 then 1 else atoi arg); retries = (if atoi arg2 < 0 then 0 else atoi arg2);
          job = \<lparr>j_when = w_currtime w + interval * 60, j_interval = nat interval mod 256, j_retries = nat retries mod 256,
                 j_command = Some (''/'' @ take 2046 cmd)\<rparr>;
          n = length (c_jobs cp) + 1
      in if arg = [] then append_general_notice E i (''*** Need an interval.'' @ [NL]) w
         else if arg2 = [] then append_general_notice E i (''*** How many retries?'' @ [NL]) w
         else if cmd = [] then append_general_notice E i (''*** What do you want me to do?'' @ [NL]) w
         else appendprompt E i False (append_general_notice E i
                (''*** ('' @ w_ts2 E w @ '') Added new job. You have '' @ dec (int n) @ '' job'' @ (if n = 1 then [] else ''s'') @ '' running.'' @ [NL])
                (upd_jobs i (\<lambda>js. js @ [job]) w)))"

text \<open>Lines 6281 to 6286: the session of a user that an operator names, the \<open>k\<close>th with this name.\<close>

definition cron_session :: "string \<Rightarrow> int \<Rightarrow> world \<Rightarrow> connection option" where
  "cron_session name k w =
     (let ps = filter (\<lambda>p. c_name p = name \<and> c_host p = myhostname (w_cfg w)) (w_connections w)
      in if 1 \<le> k \<and> nat k \<le> length ps then Some (ps ! (nat k - 1)) else None)"

definition cron_do :: "env \<Rightarrow> cid \<Rightarrow> connection \<Rightarrow> connection \<Rightarrow> string \<Rightarrow> string \<Rightarrow> world \<Rightarrow> world" where
  "cron_do E i cp cp2 arg rest w =
     (case cron_parse arg rest of
        None \<Rightarrow>
          appendprompt E i False (append_general_notice E i
            (''*** usage: /cron [~ user[/n]] [add interval retries command|delete #job|[all]>|list]'' @ [NL]) w)
      | Some LIST_JOBS \<Rightarrow> cron_list E i cp2 (c_id cp = c_id cp2) w
      | Some (DELETE_JOB n) \<Rightarrow> cron_delete E i cp2 n w
      | Some (ADD_JOB a r) \<Rightarrow>
          if c_id cp2 \<noteq> c_id cp
          then appendprompt E i False (append_general_notice E i (''*** Refusing to add a cronjob for another user.'' @ [NL]) w)
          else cron_add E i cp a r w)"

definition cron_command :: "env \<Rightarrow> cid \<Rightarrow> string \<Rightarrow> world \<Rightarrow> world" where
  "cron_command E i args w =
     (case conn w i of
        None \<Rightarrow> w
      | Some cp \<Rightarrow>
          let (arg, rest) = getarg args False in
          if arg = [] \<or> hd arg \<noteq> CHR ''~'' then cron_do E i cp cp arg rest w
          else if c_operator cp = 0 then appendprompt E i False (not_operator E i cp w)
          else
            let (arg, rest) = (if tl arg = [] then getarg rest False else (tl arg, rest));
                name = takeWhile (\<lambda>c. c \<noteq> CHR ''/'') arg;
                k = (case strchr arg (CHR ''/'') of None \<Rightarrow> 1 | Some q \<Rightarrow> atoi (tl q))
            in if name = [] then appendprompt E i False (append_general_notice E i (''*** Username needed.'' @ [NL]) w)
               else
                 (case cron_session name k w of
                    None \<Rightarrow> appendprompt E i False (append_general_notice E i (''*** User '' @ name @ '' not found.'' @ [NL]) w)
                  | Some cp2 \<Rightarrow> let (arg, rest) = getarg rest False in cron_do E i cp cp2 arg rest w))"

section \<open>Running the jobs\<close>

definition anti_idle_msg :: "env \<Rightarrow> cid \<Rightarrow> connection \<Rightarrow> world \<Rightarrow> world" where
  "anti_idle_msg E i cp w =
     (if 0 < c_anti_idle_offset cp
      then append_general_notice E i
             (''*** ('' @ w_ts2 E w @ '') Anti-Idle timer (every '' @ ts5 (c_anti_idle_offset cp * 60) @ ''). '' @
              ''Last message: you '' @ ts5 (w_currtime w - c_time_processed cp) @ '', '' @ ''me '' @ ts5 (w_currtime w - c_time_write cp) @ ''.'' @ [NL]) w
      else snd (fast_write E i (if c_ircmode cp \<or> c_anti_idle_offset cp = 0 then eol cp else '' '') 0 w))"

text \<open>Lines 574 to 594.\<close>

definition idle_since :: "connection \<Rightarrow> int \<Rightarrow> bool" where
  "idle_since cp t \<longleftrightarrow> c_time_processed cp < t \<and> c_time_write cp < t"

definition anti_idle_turn :: "env \<Rightarrow> cid \<Rightarrow> world \<Rightarrow> world" where
  "anti_idle_turn E i w =
     (let w = (case conn w i of
                 None \<Rightarrow> w
               | Some cp \<Rightarrow>
                   if c_anti_idle_offset cp \<noteq> 0 \<and> idle_since cp (w_currtime w - \<bar>c_anti_idle_offset cp\<bar> * 60)
                   then anti_idle_msg E i cp w else w)
      in (case conn w i of
            None \<Rightarrow> w
          | Some cp \<Rightarrow>
              if c_type cp = CT_USER \<and> c_chan_list cp = [] \<and> (c_anti_idle_offset cp = 0 \<or> 60 < \<bar>c_anti_idle_offset cp\<bar>) \<and>
                 idle_since cp (w_currtime w - 15 * 60 * 60)
              then anti_idle_msg E i (cp\<lparr>c_anti_idle_offset := 0\<rparr>) w else w))"

definition job_due :: "int \<Rightarrow> jobs \<Rightarrow> bool" where
  "job_due now job \<longleftrightarrow> j_command job \<noteq> None \<and> j_when job \<noteq> 0 \<and> j_when job \<le> now"

definition job_dead :: "jobs \<Rightarrow> bool" where
  "job_dead job \<longleftrightarrow> j_command job = None \<or> j_when job = 0"

text \<open>Lines 627 to 634.\<close>

definition job_done :: "int \<Rightarrow> jobs \<Rightarrow> jobs" where
  "job_done now job =
     (let job = job\<lparr>j_when := now + int (j_interval job) * 60\<rparr> in
      if j_retries job = 0 then job
      else let job = job\<lparr>j_retries := j_retries job - 1\<rparr> in if j_retries job = 0 then job\<lparr>j_when := 0\<rparr> else job)"

text \<open>Lines 611 to 634: job number \<open>k\<close> is run; \<open>first\<close> tells that it is the first of this time. What is behind the
  job in the list may have changed when its command has been handled.\<close>

definition run_job :: "env \<Rightarrow> (cid \<Rightarrow> world \<Rightarrow> world) \<Rightarrow> cid \<Rightarrow> nat \<Rightarrow> jobs \<Rightarrow> bool \<Rightarrow> world \<Rightarrow> world" where
  "run_job E P i k job first w =
     (case conn w i of
        None \<Rightarrow> w
      | Some cp \<Rightarrow>
          let cmd = (case j_command job of None \<Rightarrow> [] | Some c \<Rightarrow> c);
              w = (if first then append_general_notice E i (''*** ('' @ w_ts2 E w @ '') Running crontab'' @ [NL]) w else w);
              w = (if c_ircmode cp then send_notice E i (myhostname (w_cfg w)) (-1) w else w);
              w = appendstring E i ([CHR 0x27] @ [NL]) (appendstring E i cmd (appendstring E i (''*** Executing '' @ [CHR 0x27]) w));
              w = set_ibuf i [] (P i (set_ibuf i (take 1022 (if c_ircmode cp then tl cmd else cmd)) w))
          in upd_jobs i (\<lambda>js. if k < length js then js[k := job_done (w_currtime w) (js ! k)] else js) w)"

text \<open>Lines 603 to 650: the loop over the jobs from number \<open>k\<close> on. Nothing moves \<^verbatim>\<open>prev\<close> from the first job: when
  another job is deleted, those between go with it. Behind a deletion the loop goes on from the start or with the second
  job. \<open>n\<close> bounds the turns, the truth value tells that a job was run.\<close>

definition job_stop :: "connection \<Rightarrow> world \<Rightarrow> bool" where
  "job_stop cp w \<longleftrightarrow>
     (case Option.bind (c_sul cp) (sul w) of None \<Rightarrow> False | Some s \<Rightarrow> w_currtime w + int (RateLimitMAX (w_cfg w)) \<le> s_stop_process_until s)"

fun job_loop :: "nat \<Rightarrow> env \<Rightarrow> (cid \<Rightarrow> world \<Rightarrow> world) \<Rightarrow> cid \<Rightarrow> nat \<Rightarrow> bool \<Rightarrow> world \<Rightarrow> (bool \<times> world) option" where
  "job_loop 0 E P i k ran' w = None"
| "job_loop (Suc n) E P i k ran' w =
     (case conn w i of
        None \<Rightarrow> Some (ran', w)
      | Some cp \<Rightarrow>
          if length (c_jobs cp) \<le> k \<or> job_stop cp w then Some (ran', w)
          else
            let due = job_due (w_currtime w) (c_jobs cp ! k);
                w = (if due then run_job E P i k (c_jobs cp ! k) (\<not> ran') w else w);
                ran' = (ran' \<or> due)
            in (case conn w i of
                  None \<Rightarrow> Some (ran', w)
                | Some cp \<Rightarrow>
                    if length (c_jobs cp) \<le> k then Some (ran', w)
                    else if \<not> job_dead (c_jobs cp ! k) then job_loop n E P i (Suc k) ran' w
                    else if k = 0 then job_loop n E P i 0 ran' (upd_jobs i tl w)
                    else job_loop n E P i 1 ran' (upd_jobs i (\<lambda>js. hd js # drop (Suc k) js) w)))"

text \<open>Lines 572 to 653 for one connection.\<close>

definition job_turn :: "nat \<Rightarrow> env \<Rightarrow> (cid \<Rightarrow> world \<Rightarrow> world) \<Rightarrow> cid \<Rightarrow> world \<Rightarrow> world option" where
  "job_turn n E P i w =
     (case conn w i of
        None \<Rightarrow> Some w
      | Some cp \<Rightarrow>
          if c_type cp = CT_CLOSED then Some w
          else
            let w = anti_idle_turn E i w in
            (case conn w i of
               None \<Rightarrow> Some w
             | Some cp \<Rightarrow>
                 if c_type cp = CT_UNKNOWN \<or> (c_type cp = CT_USER \<and> is_banned (c_name cp) w \<noteq> None) \<or> c_ibuf cp \<noteq> [] then Some w
                 else
                   map_option (\<lambda>(ran', w). if ran' then append_general_notice E i (''*** crontab finished'' @ [NL]) w else w)
                     (job_loop n E P i 0 False w)))"

definition periodical_jobs :: "nat \<Rightarrow> env \<Rightarrow> (cid \<Rightarrow> world \<Rightarrow> world) \<Rightarrow> world \<Rightarrow> world option" where
  "periodical_jobs n E P w =
     (if \<not> runs ''periodical_jobs'' 60 w then Some w
      else map_option (ran ''periodical_jobs'') (fold (\<lambda>i u. Option.bind u (job_turn n E P i)) (conn_ids w) (Some w)))"

section \<open>Jobs that get lost\<close>

definition job_waits :: "int \<Rightarrow> jobs \<Rightarrow> bool" where
  "job_waits now job \<longleftrightarrow> \<not> job_due now job \<and> \<not> job_dead job"

lemma upd_jobs_frame [simp, frame]:
  "w_currtime (upd_jobs i f w) = w_currtime w" "w_cfg (upd_jobs i f w) = w_cfg w" "sul (upd_jobs i f w) = sul w"
  by (simp_all add: upd_jobs_def sul_def fun_eq_iff)

lemma job_stop_jobs [simp]: "job_stop (cp\<lparr>c_jobs := js\<rparr>) (upd_jobs i f w) = job_stop cp w"
  by (cases "Option.bind (c_sul cp) (sul w)") (simp_all add: job_stop_def)

lemma conn_upd_jobs: "conn (upd_jobs i f w) i = map_option (\<lambda>c. c\<lparr>c_jobs := f (c_jobs c)\<rparr>) (conn w i)"
  by (simp add: upd_jobs_def conn_upd_conn)

lemma job_loop_waits:
  assumes "conn w i = Some cp" "\<not> job_stop cp w" "list_all (job_waits (w_currtime w)) (take m (drop k (c_jobs cp)))" "k + m \<le> length (c_jobs cp)"
  shows "job_loop (m + n) E P i k r w = job_loop n E P i (k + m) r w"
  using assms(3,4)
proof (induction m arbitrary: k)
  case (Suc m)
  then have k: "k < length (c_jobs cp)" by simp
  then have "drop k (c_jobs cp) = c_jobs cp ! k # drop (Suc k) (c_jobs cp)" by (simp add: Cons_nth_drop_Suc)
  with Suc.prems have j: "job_waits (w_currtime w) (c_jobs cp ! k)" "list_all (job_waits (w_currtime w)) (take m (drop (Suc k) (c_jobs cp)))" by simp_all
  with Suc.prems(2) have "job_loop (m + n) E P i (Suc k) r w = job_loop n E P i (Suc k + m) r w" by (intro Suc.IH) simp_all
  with j(1) assms(1,2) k show ?case by (simp add: job_waits_def Let_def)
qed simp

lemma job_loop_end: "conn w i = Some cp \<Longrightarrow> length (c_jobs cp) \<le> k \<Longrightarrow> job_loop (Suc n) E P i k r w = Some (r, w)"
  by simp

text \<open>C37: When a job that is not the first of the table is deleted, the run over the table ends and leaves the first
  job and those behind the deleted one: every job between them is lost, although its time has not come.\<close>

theorem deleted_job_takes_others:
  assumes "conn w i = Some cp" "\<not> job_stop cp w" "c_jobs cp = a # bs @ c # ds" "list_all (job_waits (w_currtime w)) (a # bs @ ds)" "job_dead c"
    and "length (c_jobs cp) < n"
  shows "job_loop n E P i 0 False w = Some (False, upd_jobs i (\<lambda>_. a # ds) w)"
proof -
  let ?k = "Suc (length bs)" and ?v = "upd_jobs i (\<lambda>_. a # ds) w"
  obtain m where n: "n = ?k + Suc (length ds + Suc m)" using assms(3,6) less_iff_Suc_add by auto
  have v: "conn ?v i = Some (cp\<lparr>c_jobs := a # ds\<rparr>)" "\<not> job_stop (cp\<lparr>c_jobs := a # ds\<rparr>) ?v" "w_currtime ?v = w_currtime w"
    using assms(1,2) by (simp_all add: conn_upd_jobs)
  have "job_loop n E P i 0 False w = job_loop (Suc (length ds + Suc m)) E P i ?k False w"
    using job_loop_waits [of w i cp ?k 0 "Suc (length ds + Suc m)" E P False] assms(1-4) by (simp add: n)
  also have "\<dots> = job_loop (length ds + Suc m) E P i 1 False ?v"
  proof -
    have "c_jobs cp ! ?k = c" "?k < length (c_jobs cp)" "\<not> job_due (w_currtime w) c"
      using assms(3,5) by (auto simp: nth_append job_due_def job_dead_def)
    moreover have "upd_jobs i (\<lambda>js. hd js # drop (Suc ?k) js) w = ?v"
      unfolding upd_jobs_def by (rule upd_conn_cong [OF assms(1)]) (simp add: assms(3))
    ultimately show ?thesis using assms(1,2,5) by (simp add: Let_def)
  qed
  also have "\<dots> = job_loop (Suc m) E P i (1 + length ds) False ?v"
    by (rule job_loop_waits [OF v(1,2)]) (use assms(4) v(3) in simp_all)
  also have "\<dots> = Some (False, ?v)" by (rule job_loop_end [OF v(1)]) simp
  finally show ?thesis .
qed

definition cron_world :: world where
  "cron_world =
     (boot_world ''db0tud'' 10000)\<lparr>w_connections :=
        [(blank_connection 1 5 1000)\<lparr>c_type := CT_USER, c_name := ''dl1abc'', c_nickname := ''dl1abc'', c_host := ''db0tud'', c_channel := 7,
            c_jobs := [\<lparr>j_when = 20000, j_interval = 5, j_retries = 0, j_command = Some ''/who''\<rparr>,
              \<lparr>j_when = 30000, j_interval = 5, j_retries = 0, j_command = Some ''/links''\<rparr>,
              \<lparr>j_when = 0, j_interval = 5, j_retries = 0, j_command = Some ''/uptime''\<rparr>]\<rparr>],
      w_next_cid := 2\<rparr>"

theorem deleted_job_takes_others_witness:
  "\<forall>E P. job_loop 4 E P 1 0 False cron_world =
     Some (False, upd_jobs 1 (\<lambda>_. [\<lparr>j_when = 20000, j_interval = 5, j_retries = 0, j_command = Some ''/who''\<rparr>]) cron_world)"
proof (intro allI)
  fix E P
  define cp where "cp = the (conn cron_world 1)"
  let ?a = "\<lparr>j_when = 20000, j_interval = 5, j_retries = 0, j_command = Some ''/who''\<rparr> :: jobs"
  let ?b = "\<lparr>j_when = 30000, j_interval = 5, j_retries = 0, j_command = Some ''/links''\<rparr> :: jobs"
  let ?c = "\<lparr>j_when = 0, j_interval = 5, j_retries = 0, j_command = Some ''/uptime''\<rparr> :: jobs"
  have cp: "conn cron_world 1 = Some cp" "c_jobs cp = ?a # [?b] @ ?c # []" "\<not> job_stop cp cron_world"
    by (simp_all add: cp_def cron_world_def conn_def blank_connection_def job_stop_def)
  have "list_all (job_waits (w_currtime cron_world)) (?a # [?b] @ [])" "job_dead ?c"
    by (simp_all add: cron_world_def boot_world_def job_waits_def job_due_def job_dead_def)
  from deleted_job_takes_others [OF cp(1,3,2) this, of 4 E P] show
    "job_loop 4 E P 1 0 False cron_world = Some (False, upd_jobs 1 (\<lambda>_. [?a]) cron_world)" using cp(2) by simp
qed

section \<open>Intervals\<close>

lemma cron_parse_number:
  assumes "0 \<le> m"
  shows "isdigit (hd (dec m))" "cron_parse (dec m) rest = Some (ADD_JOB (dec m) rest)"
proof -
  obtain x xs where x: "dec m = x # xs" using dec_ne [of m] by (cases "dec m") auto
  have "list_all isdigit (dec m)" using assms list_all_dec_of_nat by (simp add: dec_def)
  with x have d: "isdigit x" by simp
  then show "isdigit (hd (dec m))" using x by simp
  have "tolower x = x" using d by (auto simp: ctype_defs)
  then have n: "\<not> strncaseeq (dec m) (c # word) (length (dec m))" if "tolower c \<noteq> x" for c word
    using that x by (simp add: strncaseeq_def strlwr_def)
  have l: "tolower (CHR ''l'') = CHR ''l''" "tolower (CHR ''h'') = CHR ''h''" "tolower (CHR ''d'') = CHR ''d''" "tolower (CHR ''a'') = CHR ''a''"
    by code_simp+
  have c: "x \<notin> {CHR ''l'', CHR ''h'', CHR ''d'', CHR ''a'', CHR ''?'', CHR ''-'', CHR ''+''}" using d by (auto simp: isdigit_def)
  have "\<not> strncaseeq (dec m) ''list'' (length (dec m))" "\<not> strncaseeq (dec m) ''help'' (length (dec m))"
    "\<not> strncaseeq (dec m) ''delete'' (length (dec m))" "\<not> strncaseeq (dec m) ''add'' (length (dec m))"
    using c l by (auto intro!: n)
  then show "cron_parse (dec m) rest = Some (ADD_JOB (dec m) rest)" using x c by (simp add: cron_parse_def Let_def)
qed

text \<open>The interval of a new job is kept modulo 256. A job that is to run every 256 minutes for ever is due again as
  soon as it has been run.\<close>

theorem cron_interval_wraps:
  assumes "flowing w" "conn w i = Some cp" "0 \<le> m" "m < 2 ^ 31" "0 \<le> r" "r < 2 ^ 31" "cmd \<noteq> []" "\<not> isspace (hd cmd)" "hd cmd \<noteq> CHR ''/''"
  shows "\<exists>c job. conn (cron_command E i (dec m @ '' '' @ dec r @ '' '' @ cmd) w) i = Some c \<and> c_jobs c = c_jobs cp @ [job] \<and>
     j_when job = w_currtime w + m * 60 \<and> int (j_interval job) = m mod 256 \<and> int (j_retries job) = r mod 256 \<and>
     (\<forall>t. t \<noteq> 0 \<and> m mod 256 = 0 \<and> r mod 256 = 0 \<longrightarrow> job_due t (job_done t job))"
proof -
  let ?args = "dec m @ '' '' @ dec r @ '' '' @ cmd"
  define job where "job = \<lparr>j_when = w_currtime w + m * 60, j_interval = nat m mod 256, j_retries = nat r mod 256, j_command = Some (''/'' @ take 2046 cmd)\<rparr>"
  have g: "getarg ?args False = (dec m, dec r @ '' '' @ cmd)" "getarg (dec r @ '' '' @ cmd) False = (dec r, cmd)" "fst (getargcs cmd True) = cmd"
    using getarg_word [OF dec_ne dec_no_space] assms(7,8) by (simp_all add: strlwr_dec) (cases cmd; simp add: getargcs_def Let_def)
  note d = cron_parse_number [OF assms(3)]
  have "(skip_mark (CHR ''/'') cmd) = cmd" using assms(7,9) by (cases cmd) (auto simp: skip_mark_def)
  moreover have "\<not> m < 0" "\<not> r < 0" "atoi (dec m) = m" "atoi (dec r) = r" using assms(3-6) by (simp_all add: atoi_dec)
  ultimately have add: "\<exists>s. cron_add E i cp (dec m) (dec r @ '' '' @ cmd) w =
      appendprompt E i False (append_general_notice E i s (upd_jobs i (\<lambda>js. js @ [job]) w))"
    unfolding cron_add_def g(2) job_def by (simp add: Let_def g(3) assms(7)) blast
  have "hd (dec m) \<noteq> CHR ''~''" using d(1) by (auto simp: isdigit_def)
  then have "cron_command E i ?args w = cron_do E i cp cp (dec m) (dec r @ '' '' @ cmd) w"
    unfolding cron_command_def g(1) assms(2) by simp
  also have "\<dots> = cron_add E i cp (dec m) (dec r @ '' '' @ cmd) w" by (simp add: cron_do_def d(2))
  finally have eq: "\<exists>s. cron_command E i ?args w = appendprompt E i False (append_general_notice E i s (upd_jobs i (\<lambda>js. js @ [job]) w))"
    using add by metis
  have "flowing (upd_jobs i f w)" for f using assms(1) by (simp add: upd_jobs_def flowing_upd)
  from sends_seq(6) [OF sends_append_general_notice [OF this]] eq
  have "sends (upd_jobs i (\<lambda>js. js @ [job]) w) (cron_command E i ?args w)" by metis
  from sends_conn [OF this, of i] obtain c where c: "conn (cron_command E i ?args w) i = Some c" "idle c = idle (cp\<lparr>c_jobs := c_jobs cp @ [job]\<rparr>)"
    using assms(2) by (auto simp: conn_upd_jobs)
  have i: "c_jobs (idle x) = c_jobs x" for x by (simp add: idle_def)
  have "c_jobs c = c_jobs cp @ [job]" using arg_cong [OF c(2), of c_jobs] by (simp add: i)
  moreover have z: "nat m mod 256 = nat (m mod 256)" "nat r mod 256 = nat (r mod 256)" using assms(3,5) by (simp_all add: nat_mod_distrib)
  moreover have "job_due t (job_done t job)" if "t \<noteq> 0" "m mod 256 = 0" "r mod 256 = 0" for t
    using that z by (simp add: job_due_def job_done_def job_def)
  ultimately show ?thesis using c(1) by (auto simp: job_def)
qed

theorem cron_interval_wraps_witness:
  "\<forall>E. \<exists>c job. conn (cron_command E 1 ''256 0 who'' cron_world) 1 = Some c \<and> last (c_jobs c) = job \<and> j_when job = 25360 \<and> job_due 25360 (job_done 25360 job)"
proof
  fix E
  define cp where "cp = the (conn cron_world 1)"
  have cp: "conn cron_world 1 = Some cp" by (simp add: cp_def cron_world_def conn_def blank_connection_def)
  have w: "flowing cron_world" "w_currtime cron_world = 10000" by (simp_all add: cron_world_def flowing_def blank_connection_def boot_world_def)
  have "dec 256 = ''256''" "dec 0 = ''0''" "\<not> isspace (hd ''who'')" by code_simp+
  with cron_interval_wraps [OF w(1) cp, of 256 0 "''who''" E] w(2)
  show "\<exists>c job. conn (cron_command E 1 ''256 0 who'' cron_world) 1 = Some c \<and> last (c_jobs c) = job \<and> j_when job = 25360 \<and> job_due 25360 (job_done 25360 job)"
    by auto
qed

end
