(* ===== verification/Settings.thy ===== *)
theory Settings
  imports Talk
begin

text \<open>
  What a user does about his own session: \<^verbatim>\<open>mkpass_command\<close>, which shows, sets and deletes passwords,
  \<^verbatim>\<open>comp_command\<close>, which switches compression, and \<^verbatim>\<open>imsg_command\<close>, a message to everybody on the
  channel but one, all of \<^verbatim>\<open>user.c\<close>.
\<close>

section \<open>Passwords\<close>

datatype mkpass_todo = USAGE | SHOW | REMOVE | CHANGE

text \<open>Lines 6609 to 6632: what is to be done, for whom, and the new password.\<close>

definition mkpass_args :: "string \<Rightarrow> string \<Rightarrow> string \<Rightarrow> string \<Rightarrow> mkpass_todo \<times> string \<times> string" where
  "mkpass_args own what arg arg2 =
     (let todo = (if what = [] then USAGE
                  else if strncaseeq what ''list'' (length what) then SHOW
                  else if hd what = CHR ''-'' \<or> strcaseeq what ''delete'' \<or> strcaseeq what ''remove'' then REMOVE
                  else if hd what = CHR ''+'' \<or> strcaseeq what ''change'' \<or> strcaseeq what ''new'' then CHANGE
                  else USAGE);
          user = (if todo = CHANGE then (if arg2 \<noteq> [] then arg else own) else if arg \<noteq> [] then arg else own);
          pw = (if todo = CHANGE \<and> arg2 = [] then arg else arg2)
      in (if what = [] \<or> (pw = [] \<and> todo = CHANGE) \<or> (pw \<noteq> [] \<and> todo \<noteq> CHANGE) then USAGE else todo, user, pw))"

text \<open>Lines 6645 to 6661: the password to be set.\<close>

definition mkpass_new :: "env \<Rightarrow> (nat \<Rightarrow> int) \<Rightarrow> cid \<Rightarrow> string \<Rightarrow> string \<Rightarrow> world \<Rightarrow> string \<times> world" where
  "mkpass_new E clock i pw rest w =
     (if strcaseeq pw ''empty'' then ([], w)
      else if strcaseeq pw ''random''
      then let len = atoi (fst (getarg rest False)); len = (if len < 1 then 16 else if int PASSSIZE < len then PASSSIZE else nat len);
               (pw, seed) = generate_rand_pw len clock (w_seed w); w = w\<lparr>w_seed := seed\<rparr>
           in (pw, append_general_notice E i (''*** ('' @ w_ts2 E w @ '') Generated password is: '' @ pw @ [NL]) w)
      else if PASSSIZE < length pw
      then (take PASSSIZE pw, append_general_notice E i
              (''*** Your new password exceeds maximum length of '' @ dec (int PASSSIZE) @ '' and will be truncated.'' @ [NL]) w)
      else (pw, w))"

text \<open>Lines 6681 to 6692. \<open>io\<close> is what happens to the files.\<close>

definition mkpass_set :: "pw_io \<Rightarrow> string \<Rightarrow> string option \<Rightarrow> string \<Rightarrow> world \<Rightarrow> string \<times> world" where
  "mkpass_set io user pw ok w =
     (let (ret, file) = update_password io user pw (w_passwd w)
      in (if 0 \<le> ret then ok
          else ''*** Errors have occured. No changes made.'' @ [NL] @ (if pw = None then ''*'' else []) @ ''*** Pease report this to your sysop.'' @ [NL],
          w\<lparr>w_passwd := file\<rparr>))"

definition mkpass_do :: "env \<Rightarrow> pw_io \<Rightarrow> (nat \<Rightarrow> int) \<Rightarrow> cid \<Rightarrow> mkpass_todo \<Rightarrow> string \<Rightarrow> string \<Rightarrow> string \<Rightarrow> world \<Rightarrow> world" where
  "mkpass_do E io clock i todo user pw rest w =
     (let finish = (\<lambda>(s, w). appendprompt E i False (append_general_notice E i s w)) in
      case todo of
        USAGE \<Rightarrow> finish (''*** Usage: mkpass <new|change|list|delete> [user] [yournewpass|random|empty]'' @ [NL], w)
      | SHOW \<Rightarrow>
          finish (case read_password user (w_passwd w) of
                    None \<Rightarrow> ''*** No password found.'' @ [NL]
                  | Some p \<Rightarrow> if p = [] then ''*** Empty password found.'' @ [NL]
                              else ''*** Current password is '' @ [CHR 0x27] @ p @ [CHR 0x27] @ [NL], w)
      | REMOVE \<Rightarrow> finish (mkpass_set io user None (''*** Password removed.'' @ [NL]) w)
      | CHANGE \<Rightarrow>
          (case mkpass_new E clock i pw rest w of
             (pw, w) \<Rightarrow>
               (case dropWhile isalnum pw of
                  c # _ \<Rightarrow>
                    append_general_notice E i
                      (''*** Sorry, '' @ [CHR 0x27, c, CHR 0x27] @ '' is not a valid character. Action aborted.'' @ [NL]) w
                | [] \<Rightarrow> finish (mkpass_set io user (Some pw) (''*** Password updated.'' @ [NL]) w))))"

definition mkpass_command :: "env \<Rightarrow> pw_io \<Rightarrow> (nat \<Rightarrow> int) \<Rightarrow> cid \<Rightarrow> string \<Rightarrow> world \<Rightarrow> world" where
  "mkpass_command E io clock i args w =
     (case conn w i of
        None \<Rightarrow> w
      | Some cp \<Rightarrow>
          let (what, rest) = getarg args False; (arg, rest) = getargcs rest False; (arg2, rest) = getargcs rest False;
              (todo, user, pw) = mkpass_args (c_name cp) what arg arg2
          in if user \<noteq> c_name cp \<and> c_operator cp \<noteq> 2 then not_operator E i cp w
             else mkpass_do E io clock i todo user pw rest w)"

section \<open>Compression and messages\<close>

definition comp_line :: "char \<Rightarrow> string" where
  "comp_line c = [CHR 0x0D] @ ''//COMP '' @ [c, CHR 0x0D]"

definition comp_command :: "env \<Rightarrow> cid \<Rightarrow> string \<Rightarrow> world \<Rightarrow> world" where
  "comp_command E i args w =
     (case conn w i of
        None \<Rightarrow> w
      | Some cp \<Rightarrow>
          let arg = fst (getarg args False); can = flag (c_compress cp) 1;
              on = upd_conn i (\<lambda>c. c\<lparr>c_compress := or (c_compress c) 2\<rparr>);
              off = upd_conn i (\<lambda>c. c\<lparr>c_compress := c_compress c - and (c_compress c) 2\<rparr>)
          in if arg = ''on''
             then if can then on (snd (fast_write E i (comp_line (CHR ''1'')) (-1) w)) else snd (fast_write E i (comp_line (CHR ''0'')) (-1) w)
             else if arg = ''off'' then off (snd (fast_write E i (comp_line (CHR ''0'')) 1 w))
             else if arg = ''1'' then on w
             else if arg = ''0'' then off w
             else appendprompt E i False (append_general_notice E i
                    (''*** Compression is '' @ (if flag (c_compress cp) 2 then ''en'' else ''dis'') @ ''abled. Your socket is '' @
                     (if can then [] else ''not '') @ ''considered to be 8-bit clean.'' @ [NL]) w))"

text \<open>Lines 914 to 930: the receivers one after the other; further sessions of a receiver are locked, and the link
  of each connection that is passed is unlocked.\<close>

fun imsg_walk :: "env \<Rightarrow> cid \<Rightarrow> string \<Rightarrow> string \<Rightarrow> cid list \<Rightarrow> world \<Rightarrow> world" where
  "imsg_walk E i toname s [] w = w"
| "imsg_walk E i toname s (j # js) w =
     (case (conn w i, conn w j) of
        (Some cp, Some p) \<Rightarrow>
          let w = (if c_type p = CT_USER \<and> c_channel p = c_channel cp \<and> \<not> strcaseeq (c_name p) toname \<and> \<not> strcaseeq (c_nickname p) toname
                   then fold (\<lambda>k w. case conn w k of None \<Rightarrow> w | Some q \<Rightarrow> if strcaseeq (c_name p) (c_name q) then lock_conn k w else w) js
                          (send_msg_to_user E (tx_name cp) (c_name p) s w)
                   else w);
              w = (case c_via p of None \<Rightarrow> w | Some v \<Rightarrow> upd_conn v (\<lambda>c. c\<lparr>c_locked := False\<rparr>) w)
          in imsg_walk E i toname s js w
      | _ \<Rightarrow> imsg_walk E i toname s js w)"

definition imsg_command :: "env \<Rightarrow> cid \<Rightarrow> string \<Rightarrow> world \<Rightarrow> world" where
  "imsg_command E i args w =
     (case check_user_banned E i ''IMSG'' w of
        (True, w) \<Rightarrow> w
      | (False, w) \<Rightarrow>
          let (toname, rest) = getarg args False; toname = skip_mark (CHR ''~'') toname; s = fst (getarg rest True)
          in appendprompt E i False (if s = [] then w else imsg_walk E i toname s (conn_ids w) w))"

section \<open>Whose password changes\<close>

lemma sends_passwd: "sends w v \<Longrightarrow> w_passwd v = w_passwd w"
  by (auto simp: sends_def)

lemma flowing_fields [simp]: "flowing (w\<lparr>w_passwd := p\<rparr>) = flowing w" "flowing (w\<lparr>w_seed := s\<rparr>) = flowing w"
  by (simp_all add: flowing_def)

lemma passwd_finish: "flowing w \<Longrightarrow> w_passwd (appendprompt E i ast (append_general_notice E i s w)) = w_passwd w"
  by (rule sends_passwd) (intro sends_seq sends_refl)

lemma mkpass_new_passwd:
  "flowing w \<Longrightarrow> flowing (snd (mkpass_new E clock i pw rest w)) \<and> w_passwd (snd (mkpass_new E clock i pw rest w)) = w_passwd w"
proof -
  have n: "flowing (append_general_notice E i s v) \<and> w_passwd (append_general_notice E i s v) = w_passwd v" if "flowing v" for s v
    using sends_append_general_notice [OF that, of E i s] by (simp add: sends_passwd sends_flowing)
  then show "flowing w \<Longrightarrow> ?thesis" by (simp add: mkpass_new_def Let_def split_def)
qed



end
