(* ===== verification/Spec2Isabelle.thy ===== *)
theory Spec2Isabelle
  imports Compression Convert Loops Input Join Cron Settings
begin

text \<open>
  A verification development of the \<^verbatim>\<open>saupp\<close> convers server, the C program under
  \<^verbatim>\<open>src/reference/conversd-saupp\<close>. The server joins people and other servers of amateur radio networks in
  numbered channels. One process serves all connections in one loop; the state is a handful of global lists.

  \<^bold>\<open>The program and how its parts interact.\<close> The main loop of \<^verbatim>\<open>conversd.c\<close> reads what has arrived on a connection,
  unpacks compressed frames (\<^verbatim>\<open>compression.c\<close>), checks for floods (\<^verbatim>\<open>noflood.c\<close>) and hands line after line to
  \<^verbatim>\<open>process_input\<close>, which finds the command in a table. Users' commands are in \<^verbatim>\<open>user.c\<close>, messages of
  neighbour servers in \<^verbatim>\<open>host.c\<close>. They deliver messages to users, channels and links, keep the lists of
  connections, channels, destinations, permanent links, bans and static user entries, and queue texts for clients in the
  client's character set (\<^verbatim>\<open>convert.c\<close>). A queue that is full and does not move closes its connection, in the middle
  of whatever was being sent, and closing sends news that may close further connections. The main loop writes the queues out
  in packets and frees closed connections. Access rules and passwords are in \<^verbatim>\<open>access.c\<close>, \<^verbatim>\<open>md5.c\<close> and
  \<^verbatim>\<open>md5_ampr.c\<close>, AX.25 addresses in \<^verbatim>\<open>ba_stub.c\<close>, the configuration in \<^verbatim>\<open>config.c\<close> and
  \<^verbatim>\<open>cfgfile.c\<close>.

  \<^bold>\<open>The model.\<close> \<open>State\<close> has a record for each structure of \<^verbatim>\<open>conversd.h\<close> and \<^verbatim>\<open>noflood.h\<close> and the record
  \<open>world\<close> of the global variables; a pointer to a connection is the number \<open>c_id\<close> it got when it was made, a pointer to
  a static user entry its \<open>s_id\<close>, and a pointer may dangle. An operation of the program is a function that takes the
  world and gives the world after it, with the name it has in the source; its parts, where the C function is long, have names
  of their own and say which lines they stand for. A record is read again wherever the code reads through a pointer after
  something was sent. What the program has from outside is in the record \<open>env\<close> (\<open>Output\<close>): local time, results of
  \<^verbatim>\<open>write\<close>, the name service, whether \<^verbatim>\<open>char\<close> is signed, uninitialised memory. Its field \<open>e_bye\<close> is
  the operation that closes a connection, which sending needs and which itself needs sending; \<open>Session\<close> ties the knot
  with \<open>bye\<close>. \<open>w_fault\<close> tells that the run passed a point where C gives no meaning to the program.

  \<^bold>\<open>The theories.\<close>
  \<^item> \<open>Prelude\<close>: the C string functions, decimal numbers, the collections of lemmas, and the locales \<open>fifo\<close> (a queue)
    and \<open>keyed\<close> (a list with a key), interpreted for output queues, delay queues, channels, bans and destinations.
  \<^item> \<open>Compression\<close> (\<^verbatim>\<open>compression.c\<close>): tables, encoder and decoder with their buffers. Decoding undoes encoding; the
    decoder ends on every frame and stays in its buffers but for one byte.
  \<^item> \<open>Convert\<close> (\<^verbatim>\<open>convert.c\<close>): character sets and their translation. Locales \<open>byte_charset\<close> and
    \<open>byte_conversion\<close>, interpreted for the sets with one byte for a character, give the round trip.
  \<^item> \<open>Names\<close>, \<open>Cfgfile\<close>, \<open>Callsign\<close>: arguments, callsigns, time stamps and paragraphs; lines of configuration
    files; AX.25 addresses. Callsign matching, quoting and addresses are characterised.
  \<^item> \<open>Output\<close>, \<open>Connections\<close>, \<open>Channels\<close>: queueing for clients; the sorted enumeration; channels with
    their histories and expiry. \<open>sends w v\<close> says that \<open>v\<close> is \<open>w\<close> with texts queued and locks changed.
  \<^item> \<open>Routing\<close>: destinations and permanent links. The update of a route refines distance vector routing over an
    abstract table.
  \<^item> \<open>Md5\<close>, \<open>Access\<close>, \<open>Config\<close>: digest and challenge, access list, passwords, prompts; the configuration
    commands, logging and the loops over primary and backup links.
  \<^item> \<open>Noflood\<close>, \<open>Flood\<close>: bans, static user entries, rate limits and delay queues, which stay bounded and drain.
  \<^item> \<open>Messages\<close>, \<open>Session\<close>, \<open>Modes\<close>: delivery and notices; opening, quitting, closing and freeing; channel
    modes. The locale \<open>kept\<close> collects what an invariant needs to survive everything that sends, closing included; it
    is interpreted for the absence of dangling pointers, for faults and, in \<open>Calm\<close>, for the relation \<open>calms\<close>.
  \<^item> \<open>Hostmsg\<close>, \<open>Hostuser\<close>, \<open>Hostlink\<close>, \<open>Dispatch\<close>: the handlers of what neighbours send and the
    table they are found in.
  \<^item> \<open>Calm\<close>, \<open>Loops\<close>: operations that bring no new users and put nobody on a channel. The inductive
    relation \<open>link_step\<close> of everything that happens on links keeps the users of a host behind one link.
  \<^item> \<open>Operator\<close>, \<open>Talk\<close>, \<open>Join\<close>: the commands of users that change something (becoming operator, messages,
    topics, away, invitations, joining and leaving) and the lines that are no commands. Operator rights need the expected answer,
    moderated channels stay silent, private channels need an invitation.
  \<^item> \<open>Cron\<close>, \<open>Settings\<close>: the jobs of users and the loop that runs them; passwords, compression and messages
    to everybody on a channel but one. Who is no operator changes his own password only; removing a deleted job takes the
    jobs between the first one and it away too.
  \<^item> \<open>Packets\<close>, \<open>Input\<close>: the turn of a connection in the main loop, output and input. The lines of the input queue
    are handled whole and in order, and a client that takes everything gets its whole queue.

  \<^bold>\<open>Bounds.\<close> Integers are \<open>int\<close>, and a \<^verbatim>\<open>w\<close>-bit word or a cut to the width where the program lets them
  wrap (compression, digest, hash, \<^verbatim>\<open>atoi\<close>, command timers). Strings are cut where the buffers of the source cut
  them. \<open>bye n\<close> bounds the depth of calls by \<open>n\<close> and faults below; theorems hold for every \<open>n\<close>, and two stuck
  neighbours show that no \<open>n\<close> is always enough. The prompt for a password takes a bound on its random numbers and is
  proved to end exactly when they hold five different positions. The loops over chains of links have the number of links as
  fuel, which is enough in a configuration without cycles, as is proved. The loops over output packets have one more than the
  length of the queue, which is enough because each packet takes something. The loop over the jobs of a client has a bound as
  an argument and gives \<open>None\<close> beyond it, since a job may add jobs; the theorem on it shows that one more than the
  number of jobs is enough where none is due. Every other loop is a structural recursion or has
  a termination proof.

  \<^bold>\<open>Not modelled.\<close> The login (\<^verbatim>\<open>name_command\<close>, \<^verbatim>\<open>auth_command\<close> and the greeting texts) and the profile
  file, which is read and written through files; the commands that only print lists and help; the IRC front end
  \<^verbatim>\<open>irc.c\<close>, a second dialect for the same operations, whose list of names is an argument in \<open>Join\<close>; the message
  \<^verbatim>\<open>LINK\<close>, a list with byte counters; sockets, \<^verbatim>\<open>select\<close>, signals and the start of the process, which are
  input and output of the operating system; \<^verbatim>\<open>hmalloc.c\<close>, which ends the process when memory is short; texts in log
  files; the terminal clients \<^verbatim>\<open>convers.c\<close>, \<^verbatim>\<open>axconv.c\<close> and \<^verbatim>\<open>online.c\<close>, programs of their own; and the
  server in C# with its tests, the other implementation in the repository.
\<close>

end
